(* ===== verification/Prelude.thy ===== *)
theory Prelude
  imports Complex_Main "HOL-Library.Char_ord" "HOL-Library.List_Lexorder" "HOL-Library.AList"
begin

text \<open>
  The Python fragment the modelled modules share.

  \<^item> Text. A Python \<open>str\<close> over the code points U+0000 to U+00FF is a HOL \<open>string\<close>, one
    \<open>char\<close> per code point; \<open>strip\<close> and \<open>lower\<close> are Python's functions on that range.
    \<open>upper\<close> is exact up to the two letters (micro sign, y with diaeresis) whose upper case
    lies outside the range.
  \<^item> Values. Dictionaries that cross a module boundary untyped (JSON bodies, model output,
    tool arguments) are \<open>pydict\<close>, association lists in Python's insertion order, with
    \<open>AList.update\<close> as item assignment.  \<open>pyval\<close> is a JSON value; a finite float is the rational
    its text denotes.
  \<^item> \<open>str\<close>, \<open>float\<close>, \<open>int\<close>, \<open>round\<close>, truth value and \<open>or\<close> of such values; a conversion that
    raises \<open>TypeError\<close> or \<open>ValueError\<close> is \<open>None\<close>.
  \<^item> Generic lemmas on these and on association lists, and the development's
    \<open>named_theorems\<close> collections.
\<close>

named_theorems py_simps \<open>evaluation rules of the Python fragment\<close>
named_theorems inv_intros \<open>preservation of component invariants\<close>

subsection \<open>Text\<close>

definition ord_of :: "char \<Rightarrow> nat" where
  "ord_of c = of_char c"

definition is_space :: "char \<Rightarrow> bool" where
  "is_space c \<longleftrightarrow> (let n = ord_of c in (9 \<le> n \<and> n \<le> 13) \<or> (28 \<le> n \<and> n \<le> 32) \<or> n = 133 \<or> n = 160)"

definition strip :: "string \<Rightarrow> string" where
  "strip s = rev (dropWhile is_space (rev (dropWhile is_space s)))"

definition lower_char :: "char \<Rightarrow> char" where
  "lower_char c = (let n = ord_of c in
     if (65 \<le> n \<and> n \<le> 90) \<or> (192 \<le> n \<and> n \<le> 222 \<and> n \<noteq> 215) then char_of (n + 32) else c)"

definition lower :: "string \<Rightarrow> string" where
  "lower s = map lower_char s"

definition upper_char :: "char \<Rightarrow> string" where
  "upper_char c = (let n = ord_of c in
     if (97 \<le> n \<and> n \<le> 122) \<or> (224 \<le> n \<and> n \<le> 254 \<and> n \<noteq> 247) then [char_of (n - 32)]
     else if n = 223 then ''SS'' else [c])"

definition upper :: "string \<Rightarrow> string" where
  "upper s = concat (map upper_char s)"

fun starts_with :: "string \<Rightarrow> string \<Rightarrow> bool" where
  "starts_with s [] = True"
| "starts_with [] (p # ps) = False"
| "starts_with (c # s) (p # ps) = (c = p \<and> starts_with s ps)"

fun contains :: "string \<Rightarrow> string \<Rightarrow> bool" where
  "contains [] p = (p = [])"
| "contains (c # s) p = (starts_with (c # s) p \<or> contains s p)"

fun join :: "string \<Rightarrow> string list \<Rightarrow> string" where
  "join sep [] = []"
| "join sep [s] = s"
| "join sep (s # t # ss) = s @ sep @ join sep (t # ss)"

definition digit_char :: "nat \<Rightarrow> char" where
  "digit_char d = char_of (48 + d)"

fun nat_str :: "nat \<Rightarrow> string" where
  "nat_str n = (if n < 10 then [digit_char n] else nat_str (n div 10) @ [digit_char (n mod 10)])"

declare nat_str.simps [simp del]

definition int_str :: "int \<Rightarrow> string" where
  "int_str i = (if i < 0 then ''-'' @ nat_str (nat (- i)) else nat_str (nat i))"

subsection \<open>Numbers\<close>

text \<open>
  \<open>round\<close> to an integer rounds half to even; \<open>round (x, 4)\<close> does so on the fourth decimal.
\<close>

definition py_round :: "rat \<Rightarrow> int" where
  "py_round x = (let f = \<lfloor>x\<rfloor>; d = x - of_int f in
     if d < 1 / 2 then f else if 1 / 2 < d then f + 1 else if even f then f else f + 1)"

definition py_round4 :: "rat \<Rightarrow> rat" where
  "py_round4 x = of_int (py_round (x * 10000)) / 10000"

definition py_trunc :: "rat \<Rightarrow> int" where
  "py_trunc x = (if x < 0 then \<lceil>x\<rceil> else \<lfloor>x\<rfloor>)"

datatype pyfloat = Fin rat | PosInf | NegInf | NaN

text \<open>Float comparison: every comparison with NaN is false.\<close>

fun pf_less :: "pyfloat \<Rightarrow> pyfloat \<Rightarrow> bool" where
  "pf_less (Fin a) (Fin b) = (a < b)"
| "pf_less (Fin a) PosInf = True"
| "pf_less NegInf (Fin b) = True"
| "pf_less NegInf PosInf = True"
| "pf_less _ _ = False"

fun pf_le :: "pyfloat \<Rightarrow> pyfloat \<Rightarrow> bool" where
  "pf_le (Fin a) (Fin b) = (a \<le> b)"
| "pf_le NegInf b = (b \<noteq> NaN)"
| "pf_le a PosInf = (a \<noteq> NaN)"
| "pf_le _ _ = False"

definition is_digit :: "char \<Rightarrow> bool" where
  "is_digit c \<longleftrightarrow> 48 \<le> ord_of c \<and> ord_of c \<le> 57"

definition digits_val :: "string \<Rightarrow> nat" where
  "digits_val s = foldl (\<lambda>n c. 10 * n + (ord_of c - 48)) 0 s"

text \<open>A single underscore is accepted between two digits of a numeral.\<close>

fun drop_us :: "string \<Rightarrow> string option" where
  "drop_us [] = Some []"
| "drop_us [c] = (if c = CHR ''_'' then None else Some [c])"
| "drop_us (c # d # s) =
     (if c = CHR ''_'' then None
      else if d = CHR ''_''
      then (case s of [] \<Rightarrow> None
            | e # _ \<Rightarrow> if is_digit c \<and> is_digit e then map_option (Cons c) (drop_us s) else None)
      else map_option (Cons c) (drop_us (d # s)))"

fun split_sign :: "string \<Rightarrow> bool \<times> string" where
  "split_sign [] = (False, [])"
| "split_sign (c # s) =
     (if c = CHR ''-'' then (True, s) else if c = CHR ''+'' then (False, s) else (False, c # s))"

definition parse_nat :: "string \<Rightarrow> nat option" where
  "parse_nat s = (if s \<noteq> [] \<and> list_all is_digit s then Some (digits_val s) else None)"

definition parse_int :: "string \<Rightarrow> int option" where
  "parse_int s = (case drop_us (strip s) of None \<Rightarrow> None | Some t \<Rightarrow>
     (let (neg, u) = split_sign t in
      map_option (\<lambda>n. if neg then - int n else int n) (parse_nat u)))"

text \<open>The text after the mantissa of a float literal: nothing, or an exponent.\<close>

definition parse_exp :: "string \<Rightarrow> int option" where
  "parse_exp s = (case s of [] \<Rightarrow> Some 0
     | e # t \<Rightarrow> if lower_char e = CHR ''e''
         then (let (neg, u) = split_sign t in
               map_option (\<lambda>n. if neg then - int n else int n) (parse_nat u))
         else None)"

definition pow10 :: "int \<Rightarrow> rat" where
  "pow10 e = (if 0 \<le> e then 10 ^ nat e else 1 / 10 ^ nat (- e))"

definition parse_decimal :: "string \<Rightarrow> rat option" where
  "parse_decimal s =
     (let whole = takeWhile is_digit s; r = dropWhile is_digit s;
          dot = (r \<noteq> [] \<and> hd r = CHR ''.'');
          r1 = (if dot then tl r else r);
          frac = (if dot then takeWhile is_digit r1 else []);
          r2 = (if dot then dropWhile is_digit r1 else r1)
      in if whole = [] \<and> frac = [] then None
         else map_option (\<lambda>e. of_nat (digits_val (whole @ frac)) * pow10 (e - int (length frac)))
                (parse_exp r2))"

definition parse_float :: "string \<Rightarrow> pyfloat option" where
  "parse_float s = (case drop_us (strip s) of None \<Rightarrow> None | Some t \<Rightarrow>
     (let (neg, u) = split_sign t; w = lower u in
      if w = ''inf'' \<or> w = ''infinity'' then Some (if neg then NegInf else PosInf)
      else if w = ''nan'' then Some NaN
      else map_option (\<lambda>r. Fin (if neg then - r else r)) (parse_decimal u)))"

subsection \<open>Values\<close>

datatype pyval =
    PNone
  | PBool bool
  | PInt int
  | PFloat rat
  | PStr string
  | PList "pyval list"
  | PDict "(string \<times> pyval) list"

type_synonym pydict = "(string \<times> pyval) list"

fun truthy :: "pyval \<Rightarrow> bool" where
  "truthy PNone = False"
| "truthy (PBool b) = b"
| "truthy (PInt i) = (i \<noteq> 0)"
| "truthy (PFloat r) = (r \<noteq> 0)"
| "truthy (PStr s) = (s \<noteq> [])"
| "truthy (PList xs) = (xs \<noteq> [])"
| "truthy (PDict d) = (d \<noteq> [])"

definition py_or :: "pyval \<Rightarrow> pyval \<Rightarrow> pyval" where
  "py_or a b = (if truthy a then a else b)"

definition str_or :: "string \<Rightarrow> string \<Rightarrow> string" where
  "str_or a b = (if a \<noteq> [] then a else b)"

definition dget :: "string \<Rightarrow> pydict \<Rightarrow> pyval" where
  "dget k d = (case map_of d k of None \<Rightarrow> PNone | Some v \<Rightarrow> v)"

definition dhas :: "string \<Rightarrow> pydict \<Rightarrow> bool" where
  "dhas k d \<longleftrightarrow> map_of d k \<noteq> None"

text \<open>\<open>x if isinstance (x, dict) else {}\<close>, and the items of \<open>x or []\<close> when \<open>x\<close> is a list.\<close>

fun as_dict :: "pyval \<Rightarrow> pydict" where
  "as_dict (PDict d) = d"
| "as_dict _ = []"

fun is_dict :: "pyval \<Rightarrow> bool" where
  "is_dict (PDict d) = True"
| "is_dict _ = False"

fun is_list :: "pyval \<Rightarrow> bool" where
  "is_list (PList xs) = True"
| "is_list _ = False"

fun list_items :: "pyval \<Rightarrow> pyval list" where
  "list_items (PList xs) = xs"
| "list_items _ = []"

fun dict_rows :: "pyval list \<Rightarrow> pydict list" where
  "dict_rows [] = []"
| "dict_rows (PDict d # xs) = d # dict_rows xs"
| "dict_rows (_ # xs) = dict_rows xs"

fun is_true :: "pyval \<Rightarrow> bool" where
  "is_true (PBool b) = b"
| "is_true _ = False"

fun is_false :: "pyval \<Rightarrow> bool" where
  "is_false (PBool b) = (\<not> b)"
| "is_false _ = False"

subsection \<open>Text of a value\<close>

definition hex_digit :: "nat \<Rightarrow> char" where
  "hex_digit d = (if d < 10 then char_of (48 + d) else char_of (87 + d))"

definition hex2 :: "char \<Rightarrow> string" where
  "hex2 c = [hex_digit (ord_of c div 16), hex_digit (ord_of c mod 16)]"

definition repr_char :: "char \<Rightarrow> char \<Rightarrow> string" where
  "repr_char q c =
     (let n = ord_of c in
      if c = q \<or> n = 92 then [char_of (92::nat), c]
      else if n = 10 then [char_of (92::nat), CHR ''n'']
      else if n = 13 then [char_of (92::nat), CHR ''r'']
      else if n = 9 then [char_of (92::nat), CHR ''t'']
      else if n < 32 \<or> (127 \<le> n \<and> n \<le> 160) \<or> n = 173 then [char_of (92::nat), CHR ''x''] @ hex2 c
      else [c])"

definition repr_str :: "string \<Rightarrow> string" where
  "repr_str s =
     (let q = (if char_of (39::nat) \<in> set s \<and> char_of (34::nat) \<notin> set s
               then char_of (34::nat) else char_of (39::nat))
      in [q] @ concat (map (repr_char q) s) @ [q])"

text \<open>
  Text of a float: positional notation with the shortest fraction, up to sixteen decimals, which
  is Python's text for the floats of magnitude between 1e-4 and 1e16.
\<close>

fun frac_digits :: "nat \<Rightarrow> rat \<Rightarrow> string" where
  "frac_digits 0 r = []"
| "frac_digits (Suc k) r =
     (if r = 0 then [] else digit_char (nat \<lfloor>10 * r\<rfloor>) # frac_digits k (10 * r - of_int \<lfloor>10 * r\<rfloor>))"

definition float_str :: "rat \<Rightarrow> string" where
  "float_str r =
     (let a = \<bar>r\<bar>; w = nat \<lfloor>a\<rfloor>; f = frac_digits 16 (a - of_nat w)
      in (if r < 0 then ''-'' else '''') @ nat_str w @ ''.'' @ (if f = [] then ''0'' else f))"

fun py_repr :: "pyval \<Rightarrow> string" and repr_items :: "pyval list \<Rightarrow> string list"
  and repr_pairs :: "(string \<times> pyval) list \<Rightarrow> string list" where
  "py_repr PNone = ''None''"
| "py_repr (PBool b) = (if b then ''True'' else ''False'')"
| "py_repr (PInt i) = int_str i"
| "py_repr (PFloat r) = float_str r"
| "py_repr (PStr s) = repr_str s"
| "py_repr (PList xs) = ''['' @ join '', '' (repr_items xs) @ '']''"
| "py_repr (PDict d) = ''{'' @ join '', '' (repr_pairs d) @ ''}''"
| "repr_items [] = []"
| "repr_items (x # xs) = py_repr x # repr_items xs"
| "repr_pairs [] = []"
| "repr_pairs ((k, v) # d) = (repr_str k @ '': '' @ py_repr v) # repr_pairs d"

fun py_str :: "pyval \<Rightarrow> string" where
  "py_str (PStr s) = s"
| "py_str v = py_repr v"

text \<open>\<open>str (v or "")\<close>, the idiom every module starts from, and its stripped form.\<close>

definition text_of :: "pyval \<Rightarrow> string" where
  "text_of v = py_str (py_or v (PStr []))"

definition norm_of :: "pyval \<Rightarrow> string" where
  "norm_of v = strip (text_of v)"

text \<open>\<open>float (v)\<close> and \<open>int (v)\<close>; \<open>None\<close> stands for the \<open>TypeError\<close> or \<open>ValueError\<close> raised.\<close>

fun py_float :: "pyval \<Rightarrow> pyfloat option" where
  "py_float (PBool b) = Some (Fin (if b then 1 else 0))"
| "py_float (PInt i) = Some (Fin (of_int i))"
| "py_float (PFloat r) = Some (Fin r)"
| "py_float (PStr s) = parse_float s"
| "py_float _ = None"

fun py_int :: "pyval \<Rightarrow> int option" where
  "py_int (PBool b) = Some (if b then 1 else 0)"
| "py_int (PInt i) = Some i"
| "py_int (PFloat r) = Some (py_trunc r)"
| "py_int (PStr s) = parse_int s"
| "py_int _ = None"

text \<open>The items \<open>for x in v\<close> or \<open>list (v)\<close> goes through.\<close>

fun py_iter :: "pyval \<Rightarrow> pyval list option" where
  "py_iter (PList xs) = Some xs"
| "py_iter (PStr s) = Some (map (\<lambda>c. PStr [c]) s)"
| "py_iter (PDict d) = Some (map (PStr \<circ> fst) d)"
| "py_iter _ = None"

abbreviation iter_or_empty :: "pyval \<Rightarrow> pyval list option" where
  "iter_or_empty v \<equiv> py_iter (py_or v (PList []))"

subsection \<open>Results that may raise\<close>

text \<open>An exception is the left value; a block of statements stops at the first one.\<close>

fun bindE :: "'e + 'a \<Rightarrow> ('a \<Rightarrow> 'e + 'b) \<Rightarrow> 'e + 'b" where
  "bindE (Inl e) f = Inl e"
| "bindE (Inr x) f = f x"

fun of_opt :: "'e \<Rightarrow> 'a option \<Rightarrow> 'e + 'a" where
  "of_opt e None = Inl e"
| "of_opt e (Some x) = Inr x"

lemma bindE_eq_Inr: "bindE m f = Inr y \<longleftrightarrow> (\<exists>x. m = Inr x \<and> f x = Inr y)"
  by (cases m) auto

lemma bindE_eq_Inl: "bindE m f = Inl e \<longleftrightarrow> m = Inl e \<or> (\<exists>x. m = Inr x \<and> f x = Inl e)"
  by (cases m) auto

subsection \<open>Lists\<close>

text \<open>
  First occurrences under a key, in order: the loop with a \<open>seen\<close> set that several modules use.
\<close>

fun dedup_key :: "('a \<Rightarrow> 'k) \<Rightarrow> 'k list \<Rightarrow> 'a list \<Rightarrow> 'a list" where
  "dedup_key f seen [] = []"
| "dedup_key f seen (x # xs) =
     (if f x \<in> set seen then dedup_key f seen xs else x # dedup_key f (f x # seen) xs)"

text \<open>The loop that returns at the first hit.\<close>

fun first_some :: "('a \<Rightarrow> 'b option) \<Rightarrow> 'a list \<Rightarrow> 'b option" where
  "first_some f [] = None"
| "first_some f (x # xs) = (case f x of Some y \<Rightarrow> Some y | None \<Rightarrow> first_some f xs)"

subsection \<open>Lemmas on text\<close>

lemma dropWhile_idem_hd: "\<not> P (hd (dropWhile P xs)) \<or> dropWhile P xs = []"
  using hd_dropWhile by blast

lemma dropWhile_rev_dropWhile:
  "dropWhile P (rev (dropWhile P (rev (dropWhile P xs)))) = rev (dropWhile P (rev (dropWhile P xs)))"
proof (cases "dropWhile P xs")
  case Nil
  show ?thesis unfolding Nil by simp
next
  case (Cons y ys)
  then have ny: "\<not> P y" by (metis hd_dropWhile list.distinct(1) list.sel(1))
  then have "dropWhile P (rev (y # ys)) = dropWhile P (rev ys) @ [y]"
    by (simp add: dropWhile_append)
  with Cons ny show ?thesis by simp
qed

lemma strip_idem [simp]: "strip (strip s) = strip s"
  unfolding strip_def by (simp add: dropWhile_rev_dropWhile dropWhile_idem)

lemma strip_Nil [simp]: "strip [] = []"
  by (simp add: strip_def)

lemma strip_eq_Nil: "strip s = [] \<longleftrightarrow> (\<forall>c\<in>set s. is_space c)"
proof
  assume "strip s = []"
  then have all: "\<forall>c\<in>set (dropWhile is_space s). is_space c"
    by (simp add: strip_def dropWhile_eq_Nil_conv)
  have "dropWhile is_space s = []"
  proof (rule ccontr)
    assume ne: "dropWhile is_space s \<noteq> []"
    then have "\<not> is_space (hd (dropWhile is_space s))" by (rule hd_dropWhile)
    with all ne show False by simp
  qed
  then show "\<forall>c\<in>set s. is_space c" by (simp add: dropWhile_eq_Nil_conv)
next
  assume "\<forall>c\<in>set s. is_space c"
  then show "strip s = []" by (auto simp: strip_def dropWhile_eq_Nil_conv dest: set_dropWhileD)
qed

lemma upper_eq_Nil: "upper s = [] \<longleftrightarrow> s = []"
proof -
  have "upper_char c \<noteq> []" for c by (simp add: upper_char_def Let_def)
  then show ?thesis by (cases s) (simp_all add: upper_def)
qed

lemma lower_Nil [simp]: "lower [] = []"
  by (simp add: lower_def)

lemma length_lower [simp]: "length (lower s) = length s"
  by (simp add: lower_def)

lemma lower_eq_Nil [simp]: "lower s = [] \<longleftrightarrow> s = []"
  by (simp add: lower_def)

lemma ord_of_lt [simp]: "ord_of c < 256"
proof -
  have "of_char c mod 256 = (of_char c :: nat)" by (rule of_char_mod_256)
  then show ?thesis unfolding ord_of_def by (metis mod_less_divisor zero_less_numeral)
qed

lemma ord_of_char_of [simp]: "n < 256 \<Longrightarrow> ord_of (char_of n) = n"
  by (simp add: ord_of_def of_char_of)

lemma lower_char_idem [simp]: "lower_char (lower_char c) = lower_char c"
proof -
  let ?n = "ord_of c"
  consider "65 \<le> ?n \<and> ?n \<le> 90" | "192 \<le> ?n \<and> ?n \<le> 222 \<and> ?n \<noteq> 215"
    | "\<not> ((65 \<le> ?n \<and> ?n \<le> 90) \<or> (192 \<le> ?n \<and> ?n \<le> 222 \<and> ?n \<noteq> 215))" by blast
  then show ?thesis
    by cases (auto simp: lower_char_def Let_def)
qed

lemma lower_idem [simp]: "lower (lower s) = lower s"
  by (simp add: lower_def comp_def)

subsection \<open>Lemmas on values\<close>

lemma dget_Nil [simp]: "dget k [] = PNone"
  by (simp add: dget_def)

lemma dget_Cons [simp]: "dget k ((k', v) # d) = (if k = k' then v else dget k d)"
  by (simp add: dget_def)

lemma dget_update [simp]: "dget k (AList.update k' v d) = (if k = k' then v else dget k d)"
  by (simp add: dget_def update_conv')

lemma py_or_None [simp]: "py_or PNone b = b"
  by (simp add: py_or_def)

lemma text_of_PNone [simp]: "text_of PNone = []"
  by (simp add: text_of_def)

lemma text_of_PStr [simp]: "text_of (PStr s) = s"
  by (cases s) (simp_all add: text_of_def py_or_def)

lemma norm_of_PStr [simp]: "norm_of (PStr s) = strip s"
  by (simp add: norm_of_def)

lemma norm_of_PNone [simp]: "norm_of PNone = []"
  by (simp add: norm_of_def)

lemma strip_norm_of [simp]: "strip (norm_of v) = norm_of v"
  by (simp add: norm_of_def)

lemmas py_eval = py_or_def text_of_def norm_of_def str_or_def strip_def lower_def upper_def
  is_space_def lower_char_def upper_char_def ord_of_def Let_def

subsection \<open>Lemmas on lists and association lists\<close>

lemma set_dedup_key: "set (dedup_key f seen xs) \<subseteq> set xs"
  by (induction f seen xs rule: dedup_key.induct) auto

lemma dedup_key_keys:
  "f ` set (dedup_key f seen xs) = f ` set xs - set seen"
  by (induction f seen xs rule: dedup_key.induct) auto

lemma distinct_dedup_key: "distinct (map f (dedup_key f seen xs))"
proof (induction f seen xs rule: dedup_key.induct)
  case (2 f seen x xs)
  have "f x \<notin> f ` set (dedup_key f (f x # seen) xs)"
    by (simp add: dedup_key_keys)
  with 2 show ?case by simp
qed simp

lemma dedup_key_eq_Nil: "dedup_key f seen xs = [] \<longleftrightarrow> f ` set xs \<subseteq> set seen"
  by (metis (no_types, lifting) dedup_key_keys Diff_eq_empty_iff image_is_empty set_empty)

lemma map_fst_update: "k \<in> set (map fst d) \<Longrightarrow> map fst (AList.update k v d) = map fst d"
  by (simp add: update_keys)

lemma length_filter_update_one:
  assumes "distinct xs" and "x \<in> set xs"
  shows "length (filter (\<lambda>y. y = x) xs) = 1"
  using assms by (induction xs) (auto simp: filter_empty_conv)

subsection \<open>Lemmas on numbers\<close>

lemma py_round_of_int [simp]: "py_round (of_int i) = i"
  by (simp add: py_round_def)

lemma py_round_mono: "x \<le> y \<Longrightarrow> py_round x \<le> py_round y"
proof -
  assume le: "x \<le> y"
  have fl: "\<lfloor>x\<rfloor> \<le> \<lfloor>y\<rfloor>" using le by (rule floor_mono)
  have up: "py_round x \<le> \<lfloor>x\<rfloor> + 1" and lo: "\<lfloor>y\<rfloor> \<le> py_round y"
    by (auto simp: py_round_def Let_def)
  show ?thesis
  proof (cases "\<lfloor>x\<rfloor> = \<lfloor>y\<rfloor>")
    case True
    then show ?thesis using le by (auto simp: py_round_def Let_def)
  next
    case False
    with fl up lo show ?thesis by linarith
  qed
qed

lemma py_round4_range:
  assumes "0 \<le> x" and "x \<le> 1"
  shows "0 \<le> py_round4 x \<and> py_round4 x \<le> 1"
proof -
  have "py_round 0 \<le> py_round (x * 10000)" using assms by (intro py_round_mono) simp
  moreover have "py_round (x * 10000) \<le> py_round 10000" using assms by (intro py_round_mono) simp
  moreover have "py_round 0 = 0" "py_round 10000 = 10000"
    using py_round_of_int [of 0] py_round_of_int [of 10000] by simp_all
  ultimately show ?thesis by (simp add: py_round4_def)
qed

end
