(* ===== verification/Case_Lifecycle.thy ===== *)
theory Case_Lifecycle
  imports Prelude
begin

text \<open>
  Case lifecycle (\<open>llm_contracts/case_lifecycle.py\<close>) and the waiting-versus-stagnation verdict
  derived from it (\<open>stagnation_sot.py\<close>).

  \<open>CaseLifecycleState\<close> is a \<open>str\<close> enumeration, so every function takes the state as text and a
  member of the enumeration passes as its value; \<open>parse_state\<close> is the enumeration's constructor
  and its \<open>None\<close> the \<open>ValueError\<close>.  The Polish explanations a refused transition carries are the
  constructors of \<open>transition_reason\<close>; the display labels of \<open>_PL_LABELS\<close> are left out.

  The transition graph is a step relation.  Two locales state what the rest of the system relies
  on, terminal states that absorb and goals with a single way in, and are interpreted on it.
\<close>

subsection \<open>States and tables\<close>

datatype lifecycle_state =
    NEW_LEAD
  | QUALIFICATION
  | SITE_VISIT
  | OFFER_PREP
  | WAITING_CLIENT
  | NEGOTIATION
  | READY_INSTALL
  | IN_PROGRESS
  | COMPLETED
  | LOST
  | STAGNATING

fun state_value :: "lifecycle_state \<Rightarrow> string" where
  "state_value NEW_LEAD = ''new_lead''"
| "state_value QUALIFICATION = ''qualification''"
| "state_value SITE_VISIT = ''site_visit_required''"
| "state_value OFFER_PREP = ''offer_preparation''"
| "state_value WAITING_CLIENT = ''waiting_for_client''"
| "state_value NEGOTIATION = ''negotiation''"
| "state_value READY_INSTALL = ''ready_for_installation''"
| "state_value IN_PROGRESS = ''installation_in_progress''"
| "state_value COMPLETED = ''completed''"
| "state_value LOST = ''lost''"
| "state_value STAGNATING = ''stagnating''"

definition all_states :: "lifecycle_state list" where
  "all_states = [NEW_LEAD, QUALIFICATION, SITE_VISIT, OFFER_PREP, WAITING_CLIENT, NEGOTIATION,
     READY_INSTALL, IN_PROGRESS, COMPLETED, LOST, STAGNATING]"

definition parse_state :: "string \<Rightarrow> lifecycle_state option" where
  "parse_state s = find (\<lambda>st. state_value st = s) all_states"

fun allowed_transitions :: "lifecycle_state \<Rightarrow> lifecycle_state list" where
  "allowed_transitions NEW_LEAD = [QUALIFICATION, LOST]"
| "allowed_transitions QUALIFICATION = [SITE_VISIT, OFFER_PREP, LOST, STAGNATING]"
| "allowed_transitions SITE_VISIT = [OFFER_PREP, WAITING_CLIENT, LOST, STAGNATING]"
| "allowed_transitions OFFER_PREP = [WAITING_CLIENT, NEGOTIATION, LOST, STAGNATING]"
| "allowed_transitions WAITING_CLIENT = [NEGOTIATION, STAGNATING, LOST]"
| "allowed_transitions NEGOTIATION = [READY_INSTALL, STAGNATING, LOST]"
| "allowed_transitions READY_INSTALL = [IN_PROGRESS, STAGNATING]"
| "allowed_transitions IN_PROGRESS = [COMPLETED, STAGNATING]"
| "allowed_transitions COMPLETED = []"
| "allowed_transitions LOST = []"
| "allowed_transitions STAGNATING = [QUALIFICATION, OFFER_PREP, WAITING_CLIENT, NEGOTIATION, LOST]"

fun sla_hours_of :: "lifecycle_state \<Rightarrow> int option" where
  "sla_hours_of NEW_LEAD = Some 24"
| "sla_hours_of QUALIFICATION = Some 48"
| "sla_hours_of SITE_VISIT = Some 72"
| "sla_hours_of OFFER_PREP = Some 24"
| "sla_hours_of WAITING_CLIENT = Some 168"
| "sla_hours_of NEGOTIATION = Some 72"
| "sla_hours_of READY_INSTALL = Some 48"
| "sla_hours_of IN_PROGRESS = Some 168"
| "sla_hours_of _ = None"

definition terminal_states :: "lifecycle_state list" where
  "terminal_states = [COMPLETED, LOST]"

subsection \<open>Transition checks\<close>

definition is_terminal :: "string \<Rightarrow> bool" where
  "is_terminal state = (case parse_state state of None \<Rightarrow> False | Some st \<Rightarrow> st \<in> set terminal_states)"

definition is_valid_transition :: "string \<Rightarrow> string \<Rightarrow> bool" where
  "is_valid_transition current target =
     (case parse_state current of None \<Rightarrow> False
      | Some c \<Rightarrow> (case parse_state target of None \<Rightarrow> False
          | Some t \<Rightarrow> t \<in> set (allowed_transitions c)))"

datatype transition_reason =
    NoReason
  | UnknownCurrent string
  | UnknownTarget string
  | NotAllowed string string "string list"

record transition_result =
  tr_allowed :: bool
  tr_current :: string
  tr_target :: string
  tr_allowed_targets :: "string list option"
  tr_reason :: transition_reason

definition validate_transition :: "string \<Rightarrow> string \<Rightarrow> transition_result" where
  "validate_transition current target =
     (case parse_state current of
        None \<Rightarrow> \<lparr>tr_allowed = False, tr_current = current, tr_target = target,
                tr_allowed_targets = None, tr_reason = UnknownCurrent current\<rparr>
      | Some c \<Rightarrow>
     (case parse_state target of
        None \<Rightarrow> \<lparr>tr_allowed = False, tr_current = state_value c, tr_target = target,
                tr_allowed_targets = None, tr_reason = UnknownTarget target\<rparr>
      | Some t \<Rightarrow>
          if t \<in> set (allowed_transitions c)
          then \<lparr>tr_allowed = True, tr_current = state_value c, tr_target = state_value t,
                tr_allowed_targets = None, tr_reason = NoReason\<rparr>
          else (let targets = sort (map state_value (allowed_transitions c)) in
                \<lparr>tr_allowed = False, tr_current = state_value c, tr_target = state_value t,
                 tr_allowed_targets = Some targets,
                 tr_reason = NotAllowed (state_value c) (state_value t) targets\<rparr>)))"

definition list_allowed_transitions :: "string \<Rightarrow> string list" where
  "list_allowed_transitions state =
     (case parse_state state of None \<Rightarrow> []
      | Some st \<Rightarrow> sort (map state_value (allowed_transitions st)))"

subsection \<open>Status dialects\<close>

definition operational_to_lifecycle :: "(string \<times> lifecycle_state) list" where
  "operational_to_lifecycle =
     [(''raw_inquiry'', NEW_LEAD), (''enriching'', QUALIFICATION), (''ready_for_quote'', OFFER_PREP),
      (''pending_operator'', QUALIFICATION), (''node_a_error'', QUALIFICATION)]"

definition case_status_to_lifecycle :: "(string \<times> lifecycle_state) list" where
  "case_status_to_lifecycle =
     [(''open'', QUALIFICATION), (''merged'', QUALIFICATION), (''archived'', COMPLETED),
      (''resolved'', COMPLETED), (''closed'', COMPLETED)]"

definition pipeline_case_status_to_lifecycle :: "(string \<times> lifecycle_state) list" where
  "pipeline_case_status_to_lifecycle =
     [(''awaiting_review'', QUALIFICATION), (''awaiting_reply'', QUALIFICATION),
      (''active'', QUALIFICATION), (''waiting'', WAITING_CLIENT), (''open'', NEW_LEAD)]"

definition map_case_status_to_lifecycle :: "string \<Rightarrow> string \<Rightarrow> lifecycle_state \<Rightarrow> lifecycle_state" where
  "map_case_status_to_lifecycle status dialect dflt =
     (let text = lower (strip status);
          tables = (if lower (strip dialect) = ''pipeline''
                   then [pipeline_case_status_to_lifecycle, case_status_to_lifecycle]
                   else [case_status_to_lifecycle, pipeline_case_status_to_lifecycle])
      in case first_some (\<lambda>m. map_of m text) tables of None \<Rightarrow> dflt | Some st \<Rightarrow> st)"

definition map_operational_to_lifecycle :: "string \<Rightarrow> string \<Rightarrow> lifecycle_state \<Rightarrow> lifecycle_state" where
  "map_operational_to_lifecycle operational_code case_status dflt =
     (case map_of operational_to_lifecycle (lower (strip operational_code)) of
        Some st \<Rightarrow> st
      | None \<Rightarrow> (case map_of case_status_to_lifecycle (lower (strip case_status)) of
            Some st \<Rightarrow> st | None \<Rightarrow> dflt))"

definition map_lifecycle_to_operational :: "string \<Rightarrow> string" where
  "map_lifecycle_to_operational state =
     (case parse_state state of None \<Rightarrow> ''raw_inquiry''
      | Some st \<Rightarrow> (case map_of [(NEW_LEAD, ''raw_inquiry''), (QUALIFICATION, ''enriching''),
                                (OFFER_PREP, ''ready_for_quote''),
                                (WAITING_CLIENT, ''pending_operator'')] st of
            Some code \<Rightarrow> code | None \<Rightarrow> ''enriching''))"

subsection \<open>Waiting versus stagnation\<close>

datatype stagnation_status = Waiting | Active | Stagnating | Terminal | NotEvaluable

datatype sla_status = SlaOk | SlaAtRisk | SlaBreached | SlaUnknown

datatype sla_source = Temporal | NonTemporal | UnknownSource

datatype stagnation_reason =
    GuidanceFlag bool
  | WaitingFor string
  | NoLifecycleState
  | MailSilenceAlone
  | TerminalState lifecycle_state
  | WithoutSlaBudget
  | HoursUnmeasured
  | SlaBreachedReason int
  | SlaAtRiskReason int
  | SlaWithinBudget int
  | ExplicitStagnating
  | SlaBreachCandidate
  | WaitingWithinSla

record stagnation_result =
  sr_status :: stagnation_status
  sr_is_stagnating :: bool
  sr_is_waiting :: bool
  sr_lifecycle_state :: string
  sr_hours_in_state :: "pyfloat option"
  sr_sla_hours :: "int option"
  sr_sla_status :: sla_status
  sr_sla_status_source :: sla_source
  sr_waiting_for :: string
  sr_last_customer_signal_at :: string
  sr_reason_codes :: "stagnation_reason list"

definition coerce_state :: "pyval \<Rightarrow> lifecycle_state option" where
  "coerce_state v = (let text = lower (norm_of v) in if text = [] then None else parse_state text)"

definition coerce_hours :: "pyval \<Rightarrow> pyfloat option" where
  "coerce_hours v =
     (case v of PNone \<Rightarrow> None | PBool _ \<Rightarrow> None
      | _ \<Rightarrow> (case py_float v of None \<Rightarrow> None
          | Some h \<Rightarrow> if pf_less h (Fin 0) then None else Some h))"

definition sla_verdict :: "pyfloat option \<Rightarrow> int option \<Rightarrow> sla_status \<times> sla_source \<times> stagnation_reason list" where
  "sla_verdict hours sla_hours =
     (case sla_hours of None \<Rightarrow> (SlaUnknown, UnknownSource, [WithoutSlaBudget])
      | Some sla \<Rightarrow>
     (case hours of None \<Rightarrow> (SlaUnknown, NonTemporal, [HoursUnmeasured])
      | Some h \<Rightarrow>
          if pf_less (Fin (of_int sla)) h then (SlaBreached, Temporal, [SlaBreachedReason sla])
          else if pf_le (Fin (of_int sla * (8 / 10))) h then (SlaAtRisk, Temporal, [SlaAtRiskReason sla])
          else (SlaOk, Temporal, [SlaWithinBudget sla])))"

text \<open>
  Reason codes are cut to eighty characters; only the echoed party can be longer, and twelve of
  the eighty are the prefix \<open>waiting_for:\<close>.
\<close>

fun cut_reason :: "stagnation_reason \<Rightarrow> stagnation_reason" where
  "cut_reason (WaitingFor party) = WaitingFor (take 68 party)"
| "cut_reason r = r"

definition stagnation_result_of ::
  "stagnation_status \<Rightarrow> lifecycle_state option \<Rightarrow> pyfloat option \<Rightarrow> int option \<Rightarrow> sla_status \<Rightarrow>
   sla_source \<Rightarrow> stagnation_reason list \<Rightarrow> string \<Rightarrow> string \<Rightarrow> stagnation_result" where
  "stagnation_result_of status state hours sla_hours sla_st source reasons party signal =
     \<lparr>sr_status = status, sr_is_stagnating = (status = Stagnating), sr_is_waiting = (status = Waiting),
      sr_lifecycle_state = (case state of None \<Rightarrow> [] | Some st \<Rightarrow> state_value st),
      sr_hours_in_state = hours, sr_sla_hours = sla_hours, sr_sla_status = sla_st,
      sr_sla_status_source = source, sr_waiting_for = party,
      sr_last_customer_signal_at = strip signal, sr_reason_codes = take 10 (map cut_reason reasons)\<rparr>"

definition evaluate_waiting_vs_stagnation ::
  "pyval \<Rightarrow> pyval \<Rightarrow> string \<Rightarrow> string \<Rightarrow> bool option \<Rightarrow> stagnation_result" where
  "evaluate_waiting_vs_stagnation lifecycle hours_in_state waiting_for signal flag =
     (let hours = coerce_hours hours_in_state;
          party = lower (strip waiting_for);
          r0 = (case flag of None \<Rightarrow> [] | Some b \<Rightarrow> [GuidanceFlag b]) @
               (if party \<noteq> [] then [WaitingFor party] else [])
      in case coerce_state lifecycle of
           None \<Rightarrow> stagnation_result_of NotEvaluable None hours None SlaUnknown UnknownSource
             (r0 @ [NoLifecycleState] @ (if strip signal \<noteq> [] then [MailSilenceAlone] else [])) party signal
         | Some st \<Rightarrow>
             if st \<in> set terminal_states
             then stagnation_result_of Terminal (Some st) hours None SlaOk NonTemporal
                    (r0 @ [TerminalState st]) party signal
             else (let (sla_st, source, sla_reasons) = sla_verdict hours (sla_hours_of st);
                       r1 = r0 @ sla_reasons
                   in if st = STAGNATING
                      then stagnation_result_of Stagnating (Some st) hours (sla_hours_of st) sla_st source
                             (r1 @ [ExplicitStagnating]) party signal
                      else if sla_st = SlaBreached
                      then stagnation_result_of Stagnating (Some st) hours (sla_hours_of st) sla_st source
                             (r1 @ [SlaBreachCandidate]) party signal
                      else if st = WAITING_CLIENT
                      then stagnation_result_of Waiting (Some st) hours (sla_hours_of st) sla_st source
                             (r1 @ [WaitingWithinSla]) party signal
                      else stagnation_result_of Active (Some st) hours (sla_hours_of st) sla_st source
                             r1 party signal))"

record sla_projection =
  sp_sla_status :: sla_status
  sp_sla_status_source :: sla_source
  sp_sla_hours :: "int option"
  sp_hours_in_state :: "pyfloat option"
  sp_stagnation_status :: stagnation_status
  sp_is_stagnating :: bool

definition sla_status_projection :: "pyval \<Rightarrow> pyval \<Rightarrow> sla_projection" where
  "sla_status_projection lifecycle hours_in_state =
     (let v = evaluate_waiting_vs_stagnation lifecycle hours_in_state [] [] None in
      \<lparr>sp_sla_status = sr_sla_status v, sp_sla_status_source = sr_sla_status_source v,
       sp_sla_hours = sr_sla_hours v, sp_hours_in_state = sr_hours_in_state v,
       sp_stagnation_status = sr_status v, sp_is_stagnating = sr_is_stagnating v\<rparr>)"

definition waiting_vs_stagnation_from_guidance :: "pyval \<Rightarrow> pyval \<Rightarrow> pyval \<Rightarrow> string \<Rightarrow> stagnation_result" where
  "waiting_vs_stagnation_from_guidance guidance lifecycle hours_in_state signal =
     (let cg = as_dict guidance; flag = dget ''stagnation_flag'' cg in
      evaluate_waiting_vs_stagnation lifecycle hours_in_state (text_of (dget ''waiting_for'' cg)) signal
        (if flag = PNone then None else Some (truthy flag)))"

subsection \<open>Step relation and its contracts\<close>

inductive lifecycle_step :: "lifecycle_state \<Rightarrow> lifecycle_state \<Rightarrow> bool" where
  move: "is_valid_transition (state_value s) (state_value t) \<Longrightarrow> lifecycle_step s t"

inductive_simps lifecycle_step_iff: "lifecycle_step s t"

locale absorbing_states =
  fixes step :: "'s \<Rightarrow> 's \<Rightarrow> bool" and terminal :: "'s \<Rightarrow> bool"
  assumes terminal_stuck: "terminal s \<Longrightarrow> \<not> step s t"
    and nonterminal_moves: "\<not> terminal s \<Longrightarrow> \<exists>t. step s t"
begin

lemma absorbed: "step\<^sup>*\<^sup>* s t \<Longrightarrow> terminal s \<Longrightarrow> t = s"
  by (induction rule: converse_rtranclp_induct) (auto dest: terminal_stuck)

lemma terminal_iff_stuck: "terminal s \<longleftrightarrow> (\<forall>t. \<not> step s t)"
  using terminal_stuck nonterminal_moves by blast

end

locale single_entry =
  fixes step :: "'s \<Rightarrow> 's \<Rightarrow> bool" and goal gate :: 's
  assumes only_way_in: "step s goal \<Longrightarrow> s = gate"
begin

lemma passes_gate:
  "successively step (s # xs) \<Longrightarrow> goal \<in> set xs \<Longrightarrow> gate = s \<or> gate \<in> set xs"
proof (induction xs arbitrary: s)
  case Nil
  then show ?case by simp
next
  case (Cons x xs)
  show ?case
  proof (cases "x = goal")
    case True
    with Cons.prems show ?thesis using only_way_in by auto
  next
    case False
    with Cons have "gate = x \<or> gate \<in> set xs" by auto
    then show ?thesis by auto
  qed
qed

end

subsection \<open>Lemmas\<close>

lemma parse_state_value [simp]: "parse_state (state_value st) = Some st"
  by (cases st) (simp_all add: parse_state_def all_states_def)

lemma parse_state_Some: "parse_state s = Some st \<Longrightarrow> s = state_value st"
  unfolding parse_state_def by (auto simp: find_Some_iff)

lemma state_value_inj: "state_value s = state_value t \<longleftrightarrow> s = t"
  by (metis option.inject parse_state_value)

lemma lifecycle_step_table: "lifecycle_step s t \<longleftrightarrow> t \<in> set (allowed_transitions s)"
  by (simp add: lifecycle_step_iff is_valid_transition_def)

lemma terminal_no_targets: "s \<in> set terminal_states \<longleftrightarrow> allowed_transitions s = []"
  by (cases s) (simp_all add: terminal_states_def)

interpretation lc: absorbing_states lifecycle_step "\<lambda>s. s \<in> set terminal_states"
proof unfold_locales
  fix s t
  assume "s \<in> set terminal_states"
  then show "\<not> lifecycle_step s t" by (simp add: lifecycle_step_table terminal_no_targets)
next
  fix s
  assume "s \<notin> set terminal_states"
  then show "\<exists>t. lifecycle_step s t"
    by (auto simp: lifecycle_step_table terminal_no_targets neq_Nil_conv)
qed

interpretation fin: single_entry lifecycle_step COMPLETED IN_PROGRESS
proof unfold_locales
  fix s
  show "lifecycle_step s COMPLETED \<Longrightarrow> s = IN_PROGRESS"
    by (cases s) (simp_all add: lifecycle_step_table)
qed

interpretation work: single_entry lifecycle_step IN_PROGRESS READY_INSTALL
proof unfold_locales
  fix s
  show "lifecycle_step s IN_PROGRESS \<Longrightarrow> s = READY_INSTALL"
    by (cases s) (simp_all add: lifecycle_step_table)
qed

interpretation ready: single_entry lifecycle_step READY_INSTALL NEGOTIATION
proof unfold_locales
  fix s
  show "lifecycle_step s READY_INSTALL \<Longrightarrow> s = NEGOTIATION"
    by (cases s) (simp_all add: lifecycle_step_table)
qed

lemma sla_verdict_breached:
  "sla_verdict hours sla = (SlaBreached, src, rs) \<longleftrightarrow>
   (\<exists>h n. hours = Some h \<and> sla = Some n \<and> pf_less (Fin (of_int n)) h \<and>
      src = Temporal \<and> rs = [SlaBreachedReason n])"
  by (auto simp: sla_verdict_def split: option.splits if_splits)

lemma evaluate_status:
  "sr_status (evaluate_waiting_vs_stagnation lc hrs party signal flag) =
     (case coerce_state lc of None \<Rightarrow> NotEvaluable
      | Some st \<Rightarrow> if st \<in> set terminal_states then Terminal
          else if st = STAGNATING \<or> fst (sla_verdict (coerce_hours hrs) (sla_hours_of st)) = SlaBreached
          then Stagnating else if st = WAITING_CLIENT then Waiting else Active)"
  by (auto simp: evaluate_waiting_vs_stagnation_def stagnation_result_of_def Let_def
      split: option.split prod.split)

lemma evaluate_is_stagnating:
  "sr_is_stagnating (evaluate_waiting_vs_stagnation lc hrs party signal flag) \<longleftrightarrow>
   sr_status (evaluate_waiting_vs_stagnation lc hrs party signal flag) = Stagnating"
  by (auto simp: evaluate_waiting_vs_stagnation_def stagnation_result_of_def Let_def
      split: option.split prod.split)

lemma fst_sla_verdict_breached:
  "fst (sla_verdict hours sla) = SlaBreached \<longleftrightarrow>
   (\<exists>h n. hours = Some h \<and> sla = Some n \<and> pf_less (Fin (of_int n)) h)"
  by (auto simp: sla_verdict_def split: option.split)

lemma terminal_has_no_sla: "sla_hours_of st = Some n \<Longrightarrow> st \<notin> set terminal_states \<and> st \<noteq> STAGNATING"
  by (cases st) (simp_all add: terminal_states_def)

lemma is_terminal_value: "is_terminal (state_value s) \<longleftrightarrow> s \<in> set terminal_states"
  by (simp add: is_terminal_def)

lemma reach_chain:
  assumes "successively lifecycle_step (s # xs)" and "t \<in> set (s # xs)"
  shows "lifecycle_step\<^sup>*\<^sup>* s t"
  using assms
proof (induction xs arbitrary: s)
  case (Cons x xs)
  then show ?case by (auto intro: converse_rtranclp_into_rtranclp)
qed simp

lemma reach_lost_completed:
  assumes "s \<notin> set terminal_states"
  shows "lifecycle_step\<^sup>*\<^sup>* s COMPLETED \<and> lifecycle_step\<^sup>*\<^sup>* s LOST"
proof -
  have c: "lifecycle_step\<^sup>*\<^sup>* STAGNATING t" if "t \<in> {COMPLETED, LOST}" for t
    using that reach_chain [of STAGNATING "[NEGOTIATION, READY_INSTALL, IN_PROGRESS, COMPLETED]" COMPLETED]
      reach_chain [of STAGNATING "[LOST]" LOST]
    by (auto simp: lifecycle_step_table)
  have "lifecycle_step\<^sup>*\<^sup>* s STAGNATING"
    using assms reach_chain [of NEW_LEAD "[QUALIFICATION, STAGNATING]" STAGNATING]
    by (cases s) (auto simp: terminal_states_def lifecycle_step_table)
  then show ?thesis using c by (meson insertI1 insertI2 rtranclp_trans)
qed

lemma lifecycle_code:
  "map_lifecycle_to_operational (state_value s) =
     (if s = NEW_LEAD then ''raw_inquiry'' else if s = OFFER_PREP then ''ready_for_quote''
      else if s = WAITING_CLIENT then ''pending_operator'' else ''enriching'')"
  by (simp add: map_lifecycle_to_operational_def)

subsection \<open>Properties\<close>

text \<open>
  The detailed check \<open>validate_transition\<close> and the boolean check
  \<open>is_valid_transition\<close> decide the same transitions, on any pair of texts, and the targets a
  refusal reports are the ones \<open>list_allowed_transitions\<close> lists for the current state.
\<close>

theorem validate_transition_agrees:
  "tr_allowed (validate_transition c t) = is_valid_transition c t \<and>
   (tr_reason (validate_transition c t) = NoReason) = is_valid_transition c t \<and>
   (case tr_allowed_targets (validate_transition c t) of None \<Rightarrow> True
    | Some ts \<Rightarrow> ts = list_allowed_transitions c \<and> t \<notin> set ts)"
  by (auto simp: validate_transition_def is_valid_transition_def list_allowed_transitions_def Let_def
      state_value_inj dest!: parse_state_Some split: option.splits)

text \<open>
  A case that starts as a new lead and follows allowed transitions reaches
  \<open>COMPLETED\<close> only after negotiation, ready-for-installation and installation in progress.
\<close>

theorem completed_only_after_installation:
  assumes "successively lifecycle_step (NEW_LEAD # xs)" and "COMPLETED \<in> set xs"
  shows "{NEGOTIATION, READY_INSTALL, IN_PROGRESS} \<subseteq> set xs"
proof -
  have "IN_PROGRESS \<in> set xs" using fin.passes_gate [OF assms] by simp
  then have "READY_INSTALL \<in> set xs" using work.passes_gate [OF assms(1)] by simp
  then have "NEGOTIATION \<in> set xs" using ready.passes_gate [OF assms(1)] by simp
  with \<open>IN_PROGRESS \<in> set xs\<close> \<open>READY_INSTALL \<in> set xs\<close> show ?thesis by simp
qed

theorem completed_only_after_installation_witness:
  "{NEGOTIATION, READY_INSTALL, IN_PROGRESS} \<subseteq>
   set [QUALIFICATION, OFFER_PREP, NEGOTIATION, READY_INSTALL, IN_PROGRESS, COMPLETED]"
  by (rule completed_only_after_installation) (simp_all add: lifecycle_step_table)

text \<open>
  No case is stuck short of an end: a state is terminal exactly when it has no
  transition, a terminal state is never left, and from every other state both ends, completed
  and lost, can be reached by allowed transitions.
\<close>

theorem lifecycle_ends:
  "(is_terminal (state_value s) \<longleftrightarrow> (\<forall>t. \<not> lifecycle_step s t)) \<and>
   (if is_terminal (state_value s) then {t. lifecycle_step\<^sup>*\<^sup>* s t} = {s}
    else {COMPLETED, LOST} \<subseteq> {t. lifecycle_step\<^sup>*\<^sup>* s t})"
  using lc.terminal_iff_stuck lc.absorbed reach_lost_completed
  by (auto simp: is_terminal_value)

text \<open>
  Stagnation needs evidence: a case is reported stagnating exactly when its
  lifecycle state says so or a measured time in the state exceeds that state's SLA hours.  The
  guidance flag, the party waited for and the last customer signal never decide.
\<close>

theorem stagnation_needs_evidence:
  "sr_is_stagnating (evaluate_waiting_vs_stagnation lc hrs party signal flag) \<longleftrightarrow>
   coerce_state lc = Some STAGNATING \<or>
   (\<exists>st h n. coerce_state lc = Some st \<and> sla_hours_of st = Some n \<and>
      coerce_hours hrs = Some h \<and> pf_less (Fin (of_int n)) h)"
  using terminal_has_no_sla
  by (auto simp: evaluate_is_stagnating evaluate_status fst_sla_verdict_breached terminal_states_def
      split: option.split)

text \<open>
  The operational codes written for a lifecycle state read back as that state for
  exactly three of the eleven states; in particular \<open>WAITING_CLIENT\<close> is written as
  \<open>pending_operator\<close> and read back as \<open>QUALIFICATION\<close>.
\<close>

theorem operational_code_roundtrip:
  "map_operational_to_lifecycle (map_lifecycle_to_operational (state_value s)) cs d = s \<longleftrightarrow>
   s \<in> {NEW_LEAD, QUALIFICATION, OFFER_PREP}"
  unfolding lifecycle_code
  by (cases s) (simp_all add: map_operational_to_lifecycle_def operational_to_lifecycle_def py_eval)

end
