(* ===== verification/Circuit_Breaker.thy ===== *)
theory Circuit_Breaker
  imports Prelude
begin

text \<open>
  Circuit breaker per LLM provider (\<open>agent_runtime/circuit_breaker.py\<close>).

  The object is the record \<open>breaker\<close>; \<open>time.monotonic ()\<close> is the argument \<open>now\<close>.  The property
  \<open>is_open\<close> changes the state on its way (open to half-open), so \<open>is_open\<close> returns the new breaker
  with the answer.  \<open>breaker_step\<close> interleaves the three calls at non-decreasing clock readings;
  \<open>breaker_ok\<close> is its invariant.  Logging is left out.
\<close>

datatype br_state = CLOSED | OPEN | HALF_OPEN

record breaker =
  br_name :: string
  failure_threshold :: int
  recovery_timeout :: rat
  br_st :: br_state
  failures :: int
  opened_at :: "rat option"

definition new_breaker :: "string \<Rightarrow> int \<Rightarrow> rat \<Rightarrow> breaker" where
  "new_breaker name threshold timeout =
     \<lparr>br_name = name, failure_threshold = threshold, recovery_timeout = timeout,
      br_st = CLOSED, failures = 0, opened_at = None\<rparr>"

definition is_open :: "rat \<Rightarrow> breaker \<Rightarrow> bool \<times> breaker" where
  "is_open now b =
     (if br_st b = OPEN
      then (case opened_at b of
              Some t \<Rightarrow> if recovery_timeout b \<le> now - t then (False, b\<lparr>br_st := HALF_OPEN\<rparr>) else (True, b)
            | None \<Rightarrow> (True, b))
      else (False, b))"

definition record_success :: "breaker \<Rightarrow> breaker" where
  "record_success b = b\<lparr>br_st := CLOSED, failures := 0, opened_at := None\<rparr>"

definition record_failure :: "rat \<Rightarrow> breaker \<Rightarrow> breaker" where
  "record_failure now b =
     (let b' = b\<lparr>failures := failures b + 1\<rparr> in
      if failure_threshold b' \<le> failures b' then b'\<lparr>br_st := OPEN, opened_at := Some now\<rparr> else b')"

text \<open>The module-level registry: a breaker with the default thresholds on first use.\<close>

type_synonym breakers = "string \<rightharpoonup> breaker"

definition get_breaker :: "breakers \<Rightarrow> string \<Rightarrow> breaker \<times> breakers" where
  "get_breaker reg name =
     (case reg name of Some b \<Rightarrow> (b, reg)
      | None \<Rightarrow> (let b = new_breaker name 3 30 in (b, reg(name \<mapsto> b))))"

subsection \<open>Runs\<close>

inductive breaker_step :: "rat \<times> breaker \<Rightarrow> rat \<times> breaker \<Rightarrow> bool" where
  probe: "t \<le> now \<Longrightarrow> breaker_step (t, b) (now, snd (is_open now b))"
| succeed: "t \<le> now \<Longrightarrow> breaker_step (t, b) (now, record_success b)"
| fail: "t \<le> now \<Longrightarrow> breaker_step (t, b) (now, record_failure now b)"

inductive_cases breaker_stepE: "breaker_step (t, b) s"

definition breaker_ok :: "rat \<times> breaker \<Rightarrow> bool" where
  "breaker_ok s = (case s of (t, b) \<Rightarrow>
     1 \<le> failure_threshold b \<and> 0 \<le> failures b \<and>
     (case br_st b of
        CLOSED \<Rightarrow> failures b < failure_threshold b \<and> opened_at b = None
      | _ \<Rightarrow> failure_threshold b \<le> failures b \<and> (\<exists>t0. opened_at b = Some t0 \<and> t0 \<le> t)))"

subsection \<open>Lemmas\<close>

lemmas breaker_defs = is_open_def record_success_def record_failure_def new_breaker_def Let_def

lemma breaker_ok_new: "1 \<le> threshold \<Longrightarrow> breaker_ok (t, new_breaker name threshold timeout)"
  by (simp add: breaker_ok_def breaker_defs)

lemma breaker_ok_probe [inv_intros]: "breaker_ok (t, b) \<Longrightarrow> t \<le> now \<Longrightarrow> breaker_ok (now, snd (is_open now b))"
  by (auto simp: breaker_ok_def breaker_defs split: br_state.splits option.splits)

lemma breaker_ok_success [inv_intros]: "breaker_ok (t, b) \<Longrightarrow> breaker_ok (now, record_success b)"
  by (auto simp: breaker_ok_def breaker_defs)

lemma breaker_ok_failure [inv_intros]: "breaker_ok (t, b) \<Longrightarrow> t \<le> now \<Longrightarrow> breaker_ok (now, record_failure now b)"
  by (auto simp: breaker_ok_def breaker_defs split: br_state.splits)

lemma breaker_step_ok: "breaker_step s s' \<Longrightarrow> breaker_ok s \<Longrightarrow> breaker_ok s'"
  by (induction rule: breaker_step.induct) (auto intro: inv_intros)

lemma breaker_reach_ok: "breaker_step\<^sup>*\<^sup>* s s' \<Longrightarrow> breaker_ok s \<Longrightarrow> breaker_ok s'"
  by (induction rule: rtranclp_induct) (auto intro: breaker_step_ok)

lemma breaker_config_fixed:
  "failure_threshold (snd (is_open now b)) = failure_threshold b"
  "failure_threshold (record_success b) = failure_threshold b"
  "failure_threshold (record_failure now b) = failure_threshold b"
  "recovery_timeout (record_failure now b) = recovery_timeout b"
  by (auto simp: breaker_defs split: option.splits)

lemma fold_record_failure:
  assumes "br_st b = CLOSED" and "failures b + int (length ts) < failure_threshold b"
  shows "fold record_failure ts b = b\<lparr>failures := failures b + int (length ts)\<rparr>"
  using assms
proof (induction ts arbitrary: b)
  case (Cons t ts)
  then have step: "record_failure t b = b\<lparr>failures := failures b + 1\<rparr>"
    by (simp add: breaker_defs)
  with Cons.IH [of "b\<lparr>failures := failures b + 1\<rparr>"] Cons.prems show ?case
    by (simp add: algebra_simps)
qed simp

subsection \<open>Properties\<close>

text \<open>
  In every state reachable from a fresh breaker with a positive threshold, whatever
  the interleaving of probes, successes and failures: the breaker is open or half-open exactly
  when at least the threshold of consecutive failures has been counted, and then it has an opening
  time in the past; a failure recorded while half-open opens it again at once.
\<close>

theorem breaker_reachable_ok:
  assumes "1 \<le> threshold" and "breaker_step\<^sup>*\<^sup>* (t0, new_breaker name threshold timeout) (t, b)"
  shows "(br_st b \<noteq> CLOSED \<longleftrightarrow> failure_threshold b \<le> failures b) \<and>
    (br_st b \<noteq> CLOSED \<longleftrightarrow> (\<exists>t1. opened_at b = Some t1 \<and> t1 \<le> t)) \<and>
    (br_st b = HALF_OPEN \<longrightarrow> br_st (record_failure t b) = OPEN)"
proof -
  have ok: "breaker_ok (t, b)" using assms breaker_reach_ok breaker_ok_new by blast
  then show ?thesis
    by (auto simp: breaker_ok_def record_failure_def Let_def split: br_state.splits)
qed

theorem breaker_reachable_ok_witness:
  "(br_st (record_failure 5 (new_breaker ''groq'' 1 30)) \<noteq> CLOSED \<longleftrightarrow>
     failure_threshold (record_failure 5 (new_breaker ''groq'' 1 30))
       \<le> failures (record_failure 5 (new_breaker ''groq'' 1 30)))"
proof -
  have "breaker_step\<^sup>*\<^sup>* (0, new_breaker ''groq'' 1 30) (5, record_failure 5 (new_breaker ''groq'' 1 30))"
    by (rule r_into_rtranclp, rule breaker_step.fail) simp
  from breaker_reachable_ok [OF _ this] show ?thesis by simp
qed

text \<open>
  The breaker opens on exactly the threshold-th consecutive failure and stays open
  for exactly the recovery timeout: with fewer failures a probe answers \<open>False\<close>; with the failure
  that completes the threshold at time \<open>t\<close>, a probe at \<open>now\<close> answers \<open>True\<close> as long as fewer than
  \<open>timeout\<close> seconds have passed and otherwise moves to half-open, from where one success closes it.
\<close>

theorem breaker_opens_at_threshold:
  assumes "int (length ts) + 1 = threshold"
    and "b = fold record_failure ts (new_breaker name threshold timeout)"
  shows "fst (is_open now b) = False \<and>
    fst (is_open now (record_failure t b)) = (now - t < timeout) \<and>
    (if now - t < timeout then snd (is_open now (record_failure t b)) = record_failure t b
     else br_st (snd (is_open now (record_failure t b))) = HALF_OPEN) \<and>
    record_success (snd (is_open now (record_failure t b))) = new_breaker name threshold timeout"
proof -
  have b: "b = (new_breaker name threshold timeout)\<lparr>failures := int (length ts)\<rparr>"
    using assms fold_record_failure [of "new_breaker name threshold timeout" ts]
    by (simp add: new_breaker_def)
  show ?thesis using assms(1) unfolding b by (simp add: breaker_defs)
qed

theorem breaker_opens_at_threshold_witness:
  "fst (is_open 20 (record_failure 3 (fold record_failure [1, 2] (new_breaker ''groq'' 3 30)))) = (20 - 3 < (30::rat))"
  using breaker_opens_at_threshold [OF _ refl, of "[1, 2]" 3 20 "''groq''" 30 3] by simp

end
