(* ===== verification/Planner_Budget.thy ===== *)
theory Planner_Budget
  imports Prelude
begin

text \<open>
  Run budget of the planner (\<open>agent_runtime/planner_run_budget.py\<close>).  The dataclass is the record
  \<open>run_budget\<close>; \<open>check_before_turn\<close> and \<open>record_turn\<close> return their answer with the updated budget.
\<close>

record run_budget =
  max_turns :: int
  max_total_tool_calls :: int
  max_research_calls :: int
  max_repeated_objective_calls :: int
  max_tokens :: int
  max_tool_failures :: int
  deadline_seconds :: int
  turns_used :: int
  tool_calls_used :: int
  research_calls_used :: int
  tool_failures_used :: int
  tokens_used :: int
  exhausted_reason :: string
  research_tools :: "string list"

definition default_budget :: run_budget where
  "default_budget = \<lparr>max_turns = 12, max_total_tool_calls = 24, max_research_calls = 5,
     max_repeated_objective_calls = 1, max_tokens = 0, max_tool_failures = 4, deadline_seconds = 0,
     turns_used = 0, tool_calls_used = 0, research_calls_used = 0, tool_failures_used = 0,
     tokens_used = 0, exhausted_reason = [],
     research_tools = [''search_rag_knowledge'', ''search_gmail_thread'']\<rparr>"

record budget_remaining =
  rem_turns :: int
  rem_tool_calls :: int
  rem_research_calls :: int
  rem_tool_failures :: int
  rem_tokens :: int

definition remaining :: "run_budget \<Rightarrow> budget_remaining" where
  "remaining b = \<lparr>rem_turns = max 0 (max_turns b - turns_used b),
     rem_tool_calls = max 0 (max_total_tool_calls b - tool_calls_used b),
     rem_research_calls = max 0 (max_research_calls b - research_calls_used b),
     rem_tool_failures = max 0 (max_tool_failures b - tool_failures_used b),
     rem_tokens = (if max_tokens b \<noteq> 0 then max 0 (max_tokens b - tokens_used b) else - 1)\<rparr>"

definition exhaust :: "string \<Rightarrow> run_budget \<Rightarrow> string option \<times> run_budget" where
  "exhaust reason b = (Some reason, b\<lparr>exhausted_reason := reason\<rparr>)"

definition check_before_turn :: "run_budget \<Rightarrow> string option \<times> run_budget" where
  "check_before_turn b =
     (if exhausted_reason b \<noteq> [] then (Some (exhausted_reason b), b)
      else if max_turns b \<le> turns_used b then exhaust ''PLANNER_BUDGET_EXCEEDED:max_turns'' b
      else if max_total_tool_calls b \<le> tool_calls_used b
      then exhaust ''PLANNER_BUDGET_EXCEEDED:max_total_tool_calls'' b
      else if max_tool_failures b \<le> tool_failures_used b
      then exhaust ''PLANNER_BUDGET_EXCEEDED:max_tool_failures'' b
      else if max_tokens b \<noteq> 0 \<and> max_tokens b \<le> tokens_used b
      then exhaust ''PLANNER_BUDGET_EXCEEDED:max_tokens'' b
      else (None, b))"

record turn =
  tn_tool :: string
  tn_status :: string
  tn_tokens :: int

definition record_turn :: "turn \<Rightarrow> run_budget \<Rightarrow> string option \<times> run_budget" where
  "record_turn tn b =
     (let b1 = b\<lparr>turns_used := turns_used b + 1, tool_calls_used := tool_calls_used b + 1,
                 tokens_used := tokens_used b + max 0 (tn_tokens tn)\<rparr>;
          b2 = (if tn_tool tn \<in> set (research_tools b1)
                then (let b' = b1\<lparr>research_calls_used := research_calls_used b1 + 1\<rparr> in
                      if max_research_calls b' < research_calls_used b'
                      then b'\<lparr>exhausted_reason := ''PLANNER_BUDGET_EXCEEDED:max_research_calls''\<rparr>
                      else b')
                else b1);
          b3 = (if tn_status tn \<notin> {''ok''} then b2\<lparr>tool_failures_used := tool_failures_used b2 + 1\<rparr>
                else b2)
      in check_before_turn b3)"

definition build_planner_run_budget :: "int \<Rightarrow> (string \<times> int) list \<Rightarrow> run_budget" where
  "build_planner_run_budget max_rounds per_tool =
     (let rounds = max 1 (if max_rounds \<noteq> 0 then max_rounds else 12);
          research_cap = (case map_of per_tool ''search_rag_knowledge'' of
              Some n \<Rightarrow> if n \<noteq> 0 then n else 5 | None \<Rightarrow> 5);
          total_cap = (if per_tool \<noteq> []
              then min 48 (max (rounds * 2) (sum_list (map snd per_tool))) else rounds * 2)
      in default_budget\<lparr>max_turns := rounds, max_total_tool_calls := total_cap,
           max_research_calls := research_cap, max_repeated_objective_calls := 1, max_tokens := 0,
           max_tool_failures := max 2 (min 8 (if rounds div 2 \<noteq> 0 then rounds div 2 else 2)),
           deadline_seconds := 0\<rparr>)"

text \<open>
  The planner loop's discipline: before each turn ask \<open>check_before_turn\<close>, stop at the first
  refusal, otherwise take the turn and record it.  The result pairs the turns taken with the
  budget at the stop.
\<close>

fun run_turns :: "turn list \<Rightarrow> run_budget \<Rightarrow> turn list \<times> run_budget" where
  "run_turns [] b = ([], b)"
| "run_turns (tn # tns) b =
     (case check_before_turn b of
        (Some _, b') \<Rightarrow> ([], b')
      | (None, b') \<Rightarrow> (let (taken, b'') = run_turns tns (snd (record_turn tn b')) in (tn # taken, b'')))"

subsection \<open>Lemmas\<close>

definition is_research :: "run_budget \<Rightarrow> turn \<Rightarrow> bool" where
  "is_research b tn \<longleftrightarrow> tn_tool tn \<in> set (research_tools b)"

definition is_failure :: "turn \<Rightarrow> bool" where
  "is_failure tn \<longleftrightarrow> tn_status tn \<noteq> ''ok''"

lemma check_None:
  "check_before_turn b = (None, b') \<longleftrightarrow>
   b' = b \<and> exhausted_reason b = [] \<and> turns_used b < max_turns b \<and>
   tool_calls_used b < max_total_tool_calls b \<and> tool_failures_used b < max_tool_failures b \<and>
   (max_tokens b = 0 \<or> tokens_used b < max_tokens b)"
  by (auto simp: check_before_turn_def exhaust_def)

lemma check_fields [simp]:
  "max_turns (snd (check_before_turn b)) = max_turns b"
  "max_total_tool_calls (snd (check_before_turn b)) = max_total_tool_calls b"
  "max_research_calls (snd (check_before_turn b)) = max_research_calls b"
  "max_tool_failures (snd (check_before_turn b)) = max_tool_failures b"
  "turns_used (snd (check_before_turn b)) = turns_used b"
  "tool_calls_used (snd (check_before_turn b)) = tool_calls_used b"
  "research_calls_used (snd (check_before_turn b)) = research_calls_used b"
  "tool_failures_used (snd (check_before_turn b)) = tool_failures_used b"
  "research_tools (snd (check_before_turn b)) = research_tools b"
  by (auto simp: check_before_turn_def exhaust_def)

lemma check_reason: "fst (check_before_turn b) = Some r \<Longrightarrow> r \<noteq> [] \<and> exhausted_reason (snd (check_before_turn b)) = r"
  by (auto simp: check_before_turn_def exhaust_def split: if_splits)

lemma check_sticky: "exhausted_reason b \<noteq> [] \<Longrightarrow> check_before_turn b = (Some (exhausted_reason b), b)"
  by (simp add: check_before_turn_def)

lemma record_turn_fields:
  "max_turns (snd (record_turn tn b)) = max_turns b"
  "max_total_tool_calls (snd (record_turn tn b)) = max_total_tool_calls b"
  "max_research_calls (snd (record_turn tn b)) = max_research_calls b"
  "max_tool_failures (snd (record_turn tn b)) = max_tool_failures b"
  "research_tools (snd (record_turn tn b)) = research_tools b"
  "turns_used (snd (record_turn tn b)) = turns_used b + 1"
  "tool_calls_used (snd (record_turn tn b)) = tool_calls_used b + 1"
  "research_calls_used (snd (record_turn tn b)) = research_calls_used b + of_bool (is_research b tn)"
  "tool_failures_used (snd (record_turn tn b)) = tool_failures_used b + of_bool (is_failure tn)"
  by (simp_all add: record_turn_def Let_def is_research_def is_failure_def)

lemma record_turn_research_exhausts:
  assumes "is_research b tn" and "max_research_calls b < research_calls_used b + 1"
  shows "exhausted_reason (snd (record_turn tn b)) \<noteq> []"
  using assms by (simp add: record_turn_def Let_def is_research_def check_sticky)

lemma run_turns_exhausted:
  "exhausted_reason b \<noteq> [] \<Longrightarrow> run_turns tns b = ([], b)"
  by (cases tns) (simp_all add: check_sticky)

lemma run_turns_counts:
  "run_turns tns b = (taken, b') \<Longrightarrow>
   int (length taken) \<le> max 0 (max_turns b - turns_used b) \<and>
   int (length taken) \<le> max 0 (max_total_tool_calls b - tool_calls_used b) \<and>
   int (length (filter is_failure taken)) \<le> max 0 (max_tool_failures b - tool_failures_used b) \<and>
   int (length (filter (is_research b) taken)) \<le> max 0 (max_research_calls b - research_calls_used b) + 1"
proof (induction tns arbitrary: b taken b')
  case (Cons tn tns)
  show ?case
  proof (cases "fst (check_before_turn b)")
    case (Some r)
    with Cons.prems show ?thesis by (auto split: prod.splits)
  next
    case None
    then obtain c where c: "check_before_turn b = (None, c)" by (metis prod.collapse)
    then have [simp]: "c = b" and lim: "turns_used b < max_turns b"
        "tool_calls_used b < max_total_tool_calls b" "tool_failures_used b < max_tool_failures b"
      by (simp_all add: check_None)
    let ?b = "snd (record_turn tn b)"
    obtain taken' b'' where rest: "run_turns tns ?b = (taken', b'')" by (metis prod.collapse)
    with Cons.prems c have taken: "taken = tn # taken'" by simp
    have research_eq: "is_research ?b = is_research b"
      by (simp add: is_research_def fun_eq_iff record_turn_fields)
    note ih = Cons.IH [OF rest, unfolded research_eq record_turn_fields]
    show ?thesis
    proof (cases "is_research b tn \<and> max_research_calls b < research_calls_used b + 1")
      case True
      then have "taken' = []"
        using rest run_turns_exhausted [OF record_turn_research_exhausts] by simp
      then show ?thesis using lim by (simp add: taken)
    next
      case False
      then show ?thesis using ih lim by (auto simp: taken)
    qed
  qed
qed simp

lemma built_fields:
  fixes n :: int
  defines "r \<equiv> max 1 (if n \<noteq> 0 then n else 12)"
  shows "max_turns (build_planner_run_budget n per_tool) = r"
    and "max_tool_failures (build_planner_run_budget n per_tool) =
      max 2 (min 8 (if r div 2 \<noteq> 0 then r div 2 else 2))"
    and "max_total_tool_calls (build_planner_run_budget n per_tool) =
      (if per_tool \<noteq> [] then min 48 (max (r * 2) (sum_list (map snd per_tool))) else r * 2)"
    and "max_tokens (build_planner_run_budget n per_tool) = 0"
    and "turns_used (build_planner_run_budget n per_tool) = 0"
    and "tool_calls_used (build_planner_run_budget n per_tool) = 0"
    and "tool_failures_used (build_planner_run_budget n per_tool) = 0"
    and "exhausted_reason (build_planner_run_budget n per_tool) = []"
  unfolding r_def build_planner_run_budget_def Let_def default_budget_def
  by (simp_all only: run_budget.select_convs run_budget.update_convs)

subsection \<open>Properties\<close>

text \<open>
  However many turns the planner wants, a run from a fresh budget takes at most
  \<open>max_turns\<close> turns, at most \<open>max_total_tool_calls\<close> tool calls and at most \<open>max_tool_failures\<close>
  failed ones; research calls overrun their limit by at most one, because that limit is tested
  after the call.
\<close>

theorem run_within_budget:
  assumes "0 \<le> max_turns b" and "0 \<le> max_total_tool_calls b" and "0 \<le> max_tool_failures b"
    and "0 \<le> max_research_calls b"
    and "turns_used b = 0" and "tool_calls_used b = 0" and "tool_failures_used b = 0"
    and "research_calls_used b = 0"
  shows "int (length (fst (run_turns tns b))) \<le> min (max_turns b) (max_total_tool_calls b) \<and>
    int (length (filter is_failure (fst (run_turns tns b)))) \<le> max_tool_failures b \<and>
    int (length (filter (is_research b) (fst (run_turns tns b)))) \<le> max_research_calls b + 1"
  using run_turns_counts [of tns b "fst (run_turns tns b)" "snd (run_turns tns b)"] assms by simp

theorem run_within_budget_witness:
  "int (length (fst (run_turns (replicate 40 \<lparr>tn_tool = ''x'', tn_status = ''ok'', tn_tokens = 1\<rparr>) default_budget)))
     \<le> min (max_turns default_budget) (max_total_tool_calls default_budget)"
  using run_within_budget [of default_budget "replicate 40 \<lparr>tn_tool = ''x'', tn_status = ''ok'', tn_tokens = 1\<rparr>"]
  by (simp add: default_budget_def)

text \<open>
  The research limit is not strict: with a limit of one, a run of two research calls
  takes both of them before the budget reports exhaustion.
\<close>

theorem research_limit_overrun:
  "let b = build_planner_run_budget 12 [(''search_rag_knowledge'', 1)];
       tn = \<lparr>tn_tool = ''search_rag_knowledge'', tn_status = ''ok'', tn_tokens = 0\<rparr>
   in max_research_calls b = 1 \<and> fst (run_turns [tn, tn, tn] b) = [tn, tn]"
  by (simp add: build_planner_run_budget_def default_budget_def record_turn_def
      check_before_turn_def exhaust_def)

text \<open>
  An exhausted budget stays exhausted: the reason first reported is returned by
  every later check, whatever turns are still recorded, except that an over-limit research call
  replaces it by the research reason.
\<close>

theorem exhaustion_sticky:
  assumes "exhausted_reason b = r" and "r \<noteq> []"
  shows "check_before_turn b = (Some r, b) \<and>
    fst (record_turn tn b) \<in> {Some r, Some ''PLANNER_BUDGET_EXCEEDED:max_research_calls''} \<and>
    fst (run_turns tns b) = []"
  using assms by (simp add: check_sticky run_turns_exhausted record_turn_def Let_def)

theorem exhaustion_sticky_witness:
  "fst (run_turns [\<lparr>tn_tool = ''x'', tn_status = ''ok'', tn_tokens = 0\<rparr>]
     (default_budget\<lparr>exhausted_reason := ''PLANNER_BUDGET_EXCEEDED:max_turns''\<rparr>)) = []"
  using exhaustion_sticky [of "default_budget\<lparr>exhausted_reason := ''PLANNER_BUDGET_EXCEEDED:max_turns''\<rparr>"
      "''PLANNER_BUDGET_EXCEEDED:max_turns''"] by simp

text \<open>
  Every derived budget is usable: at least one turn, at least two and at most eight
  tolerated failures, at least as many tool calls as turns up to the cap of 48, and a first turn is
  always allowed.
\<close>

theorem built_budget_bounds:
  "let b = build_planner_run_budget n per_tool in
   1 \<le> max_turns b \<and> 2 \<le> max_tool_failures b \<and> max_tool_failures b \<le> 8 \<and>
   min 48 (2 * max_turns b) \<le> max_total_tool_calls b \<and>
   (per_tool = [] \<or> max_total_tool_calls b \<le> 48) \<and> check_before_turn b = (None, b)"
proof -
  define r where "r = max 1 (if n \<noteq> 0 then n else 12)"
  have r: "1 \<le> r" by (simp add: r_def)
  show ?thesis
    unfolding Let_def check_None built_fields r_def [symmetric] using r by auto
qed

end
