(* ===== verification/Llm_Deadline.thy ===== *)
theory Llm_Deadline
  imports Prelude
begin

text \<open>
  One deadline for a structured LLM stage (\<open>llm_deadline.py\<close>).

  \<open>time.monotonic ()\<close> is the argument \<open>now\<close>.  The two context variables are the record
  \<open>llm_ctx\<close>; the context managers \<open>stage_deadline\<close> and \<open>provider_budget_scope\<close> are functions
  that give the context the body runs under, and leaving the block is going back to the caller's
  context.  Seconds are rationals; \<open>resolve_stage_budget_sec\<close> and \<open>resolve_min_attempt_sec\<close> read a
  configuration value and return a Python float, which may be infinite.

  The locale \<open>time_window\<close> is the contract the two budgets share; its lemmas are interpreted on
  \<open>StageDeadline\<close> and on \<open>ProviderBudget\<close>.
\<close>

definition DEFAULT_LLM_STAGE_BUDGET_SEC :: rat where
  "DEFAULT_LLM_STAGE_BUDGET_SEC = 180"

definition DEFAULT_LLM_MIN_ATTEMPT_SEC :: rat where
  "DEFAULT_LLM_MIN_ATTEMPT_SEC = 5"

record stage_deadline =
  sd_stage_name :: string
  sd_budget_sec :: rat
  sd_started :: rat

definition sd_deadline :: "stage_deadline \<Rightarrow> rat" where
  "sd_deadline d = sd_started d + sd_budget_sec d"

definition sd_elapsed_sec :: "stage_deadline \<Rightarrow> rat \<Rightarrow> rat" where
  "sd_elapsed_sec d now = max 0 (now - sd_started d)"

definition sd_remaining_sec :: "stage_deadline \<Rightarrow> rat \<Rightarrow> rat" where
  "sd_remaining_sec d now = max 0 (sd_deadline d - now)"

definition sd_expired :: "stage_deadline \<Rightarrow> rat \<Rightarrow> bool" where
  "sd_expired d now \<longleftrightarrow> sd_remaining_sec d now \<le> 0"

definition sd_has_room_for_attempt :: "stage_deadline \<Rightarrow> rat \<Rightarrow> rat \<Rightarrow> bool" where
  "sd_has_room_for_attempt d now min_attempt_sec \<longleftrightarrow> max 0 min_attempt_sec \<le> sd_remaining_sec d now"

record deadline_telemetry =
  tl_stage :: string
  tl_configured_stage_budget_ms :: int
  tl_elapsed_ms :: int
  tl_remaining_budget_ms :: int

definition sd_telemetry :: "stage_deadline \<Rightarrow> rat \<Rightarrow> deadline_telemetry" where
  "sd_telemetry d now = \<lparr>tl_stage = sd_stage_name d,
     tl_configured_stage_budget_ms = py_round (sd_budget_sec d * 1000),
     tl_elapsed_ms = py_round (sd_elapsed_sec d now * 1000),
     tl_remaining_budget_ms = py_round (sd_remaining_sec d now * 1000)\<rparr>"

record provider_budget =
  pb_provider :: string
  pb_budget_sec :: rat
  pb_started :: rat

definition pb_elapsed_sec :: "provider_budget \<Rightarrow> rat \<Rightarrow> rat" where
  "pb_elapsed_sec p now = max 0 (now - pb_started p)"

definition pb_remaining_sec :: "provider_budget \<Rightarrow> rat \<Rightarrow> rat" where
  "pb_remaining_sec p now = max 0 (pb_started p + pb_budget_sec p - now)"

definition pb_has_room_for_attempt :: "provider_budget \<Rightarrow> rat \<Rightarrow> rat \<Rightarrow> bool" where
  "pb_has_room_for_attempt p now min_attempt_sec \<longleftrightarrow> max 0 min_attempt_sec \<le> pb_remaining_sec p now"

record llm_ctx =
  ctx_deadline :: "stage_deadline option"
  ctx_provider :: "provider_budget option"

definition remaining_sec :: "llm_ctx \<Rightarrow> rat \<Rightarrow> rat option" where
  "remaining_sec ctx now = map_option (\<lambda>d. sd_remaining_sec d now) (ctx_deadline ctx)"

definition stage_deadline_scope :: "llm_ctx \<Rightarrow> rat \<Rightarrow> string \<Rightarrow> rat \<Rightarrow> stage_deadline \<times> llm_ctx" where
  "stage_deadline_scope ctx now name budget =
     (let requested = max 0 budget;
          effective = (case ctx_deadline ctx of None \<Rightarrow> requested
                       | Some outer \<Rightarrow> min requested (sd_remaining_sec outer now));
          d = \<lparr>sd_stage_name = str_or name ''unknown_stage'', sd_budget_sec = effective, sd_started = now\<rparr>
      in (d, ctx\<lparr>ctx_deadline := Some d\<rparr>))"

definition provider_budget_scope ::
  "llm_ctx \<Rightarrow> rat \<Rightarrow> string \<Rightarrow> rat option \<Rightarrow> provider_budget option \<times> llm_ctx" where
  "provider_budget_scope ctx now provider budget =
     (case budget of None \<Rightarrow> (None, ctx)
      | Some b \<Rightarrow> (let p = \<lparr>pb_provider = str_or provider ''unknown_provider'',
                            pb_budget_sec = max 0 b, pb_started = now\<rparr>
                   in (Some p, ctx\<lparr>ctx_provider := Some p\<rparr>)))"

definition retry_window_sec :: "llm_ctx \<Rightarrow> rat \<Rightarrow> rat option" where
  "retry_window_sec ctx now =
     (case (ctx_deadline ctx, ctx_provider ctx) of
        (None, None) \<Rightarrow> None
      | (Some s, None) \<Rightarrow> Some (sd_remaining_sec s now)
      | (None, Some p) \<Rightarrow> Some (pb_remaining_sec p now)
      | (Some s, Some p) \<Rightarrow> Some (min (sd_remaining_sec s now) (pb_remaining_sec p now)))"

definition positive_or :: "rat \<Rightarrow> pyval \<Rightarrow> pyfloat" where
  "positive_or dflt raw =
     (case py_float raw of None \<Rightarrow> Fin dflt
      | Some v \<Rightarrow> if pf_less (Fin 0) v then v else Fin dflt)"

definition resolve_stage_budget_sec :: "pyval \<Rightarrow> pyfloat" where
  "resolve_stage_budget_sec raw = positive_or DEFAULT_LLM_STAGE_BUDGET_SEC raw"

definition resolve_min_attempt_sec :: "pyval \<Rightarrow> pyfloat" where
  "resolve_min_attempt_sec raw = positive_or DEFAULT_LLM_MIN_ATTEMPT_SEC raw"

definition active_deadline :: "llm_ctx \<Rightarrow> stage_deadline option \<Rightarrow> stage_deadline option" where
  "active_deadline ctx deadline = (case deadline of Some d \<Rightarrow> Some d | None \<Rightarrow> ctx_deadline ctx)"

definition provider_budget_sec :: "llm_ctx \<Rightarrow> rat \<Rightarrow> int \<Rightarrow> stage_deadline option \<Rightarrow> rat option" where
  "provider_budget_sec ctx now providers_remaining deadline =
     map_option (\<lambda>d. sd_remaining_sec d now / of_int (max 1 providers_remaining)) (active_deadline ctx deadline)"

definition attempt_timeout_sec ::
  "llm_ctx \<Rightarrow> rat \<Rightarrow> rat \<Rightarrow> rat option \<Rightarrow> stage_deadline option \<Rightarrow> rat" where
  "attempt_timeout_sec ctx now configured budget deadline =
     (let c0 = [configured];
          c1 = c0 @ (case budget of Some b \<Rightarrow> [max 0 b]
                     | None \<Rightarrow> (case ctx_provider ctx of Some p \<Rightarrow> [pb_remaining_sec p now] | None \<Rightarrow> []));
          c2 = c1 @ (case active_deadline ctx deadline of Some d \<Rightarrow> [sd_remaining_sec d now] | None \<Rightarrow> [])
      in max 0 (fold min (tl c2) (hd c2)))"

subsection \<open>The contract of a budget\<close>

locale time_window =
  fixes started budget :: "'w \<Rightarrow> rat" and remaining :: "'w \<Rightarrow> rat \<Rightarrow> rat"
    and has_room :: "'w \<Rightarrow> rat \<Rightarrow> rat \<Rightarrow> bool"
  assumes remaining_eq: "remaining w now = max 0 (started w + budget w - now)"
    and has_room_eq: "has_room w now m \<longleftrightarrow> max 0 m \<le> remaining w now"
begin

lemma remaining_nonneg: "0 \<le> remaining w now"
  by (simp add: remaining_eq)

lemma remaining_antimono: "now \<le> later \<Longrightarrow> remaining w later \<le> remaining w now"
  by (simp add: remaining_eq)

lemma remaining_start: "0 \<le> budget w \<Longrightarrow> remaining w (started w) = budget w"
  by (simp add: remaining_eq)

lemma remaining_within: "started w \<le> now \<Longrightarrow> remaining w now \<le> max 0 (budget w)"
  by (simp add: remaining_eq)

lemma spend: "0 \<le> dt \<Longrightarrow> dt \<le> remaining w now \<Longrightarrow> remaining w (now + dt) = remaining w now - dt"
  by (auto simp: remaining_eq)

lemma room_positive_deadline: "has_room w now m \<Longrightarrow> 0 < m \<Longrightarrow> now + m \<le> started w + budget w"
  by (auto simp: has_room_eq remaining_eq max_def split: if_splits)

lemma room_antimono: "has_room w later m \<Longrightarrow> now \<le> later \<Longrightarrow> has_room w now m"
  using remaining_antimono [of now later w] by (simp add: has_room_eq)

end

interpretation stage: time_window sd_started sd_budget_sec sd_remaining_sec sd_has_room_for_attempt
  by unfold_locales
     (simp_all add: sd_remaining_sec_def sd_deadline_def sd_has_room_for_attempt_def)

interpretation slice: time_window pb_started pb_budget_sec pb_remaining_sec pb_has_room_for_attempt
  by unfold_locales (simp_all add: pb_remaining_sec_def pb_has_room_for_attempt_def)

subsection \<open>Lemmas\<close>

lemma scope_started [simp]:
  "sd_started (fst (stage_deadline_scope ctx now name budget)) = now"
  "ctx_deadline (snd (stage_deadline_scope ctx now name budget)) = Some (fst (stage_deadline_scope ctx now name budget))"
  "ctx_provider (snd (stage_deadline_scope ctx now name budget)) = ctx_provider ctx"
  by (simp_all add: stage_deadline_scope_def Let_def)

lemma scope_budget_nonneg: "0 \<le> sd_budget_sec (fst (stage_deadline_scope ctx now name budget))"
  using stage.remaining_nonneg by (auto simp: stage_deadline_scope_def Let_def split: option.split)

lemma scope_budget_le: "sd_budget_sec (fst (stage_deadline_scope ctx now name budget)) \<le> max 0 budget"
  by (auto simp: stage_deadline_scope_def Let_def split: option.split)

lemma scope_budget_outer:
  "ctx_deadline ctx = Some outer \<Longrightarrow>
   sd_budget_sec (fst (stage_deadline_scope ctx now name budget)) \<le> sd_remaining_sec outer now"
  by (auto simp: stage_deadline_scope_def Let_def)

lemma fold_min_le: "fold min xs a \<le> (a :: rat) \<and> (\<forall>x \<in> set xs. fold min xs a \<le> x)"
proof (induction xs arbitrary: a)
  case (Cons x xs)
  show ?case using Cons [of "min x a"] by auto
qed simp

text \<open>A stack of nested stages: each entered, at its own time, inside the one before.\<close>

fun nest :: "llm_ctx \<Rightarrow> (rat \<times> string \<times> rat) list \<Rightarrow> llm_ctx" where
  "nest ctx [] = ctx"
| "nest ctx ((now, name, budget) # stages) = nest (snd (stage_deadline_scope ctx now name budget)) stages"

lemma scope_within_outer:
  assumes "ctx_deadline ctx = Some outer" and "now \<le> t"
  shows "sd_remaining_sec (fst (stage_deadline_scope ctx now name budget)) t \<le> sd_remaining_sec outer t"
proof -
  let ?d = "fst (stage_deadline_scope ctx now name budget)"
  have "sd_budget_sec ?d \<le> sd_remaining_sec outer now" using assms(1) by (rule scope_budget_outer)
  then show ?thesis using assms(2) by (auto simp: stage.remaining_eq)
qed

lemma nest_within:
  assumes "ctx_deadline ctx = Some outer" and "\<forall>s \<in> set stages. fst s \<le> t"
  shows "\<exists>d. ctx_deadline (nest ctx stages) = Some d \<and> sd_remaining_sec d t \<le> sd_remaining_sec outer t"
  using assms
proof (induction stages arbitrary: ctx outer)
  case (Cons s stages)
  obtain now name budget where s: "s = (now, name, budget)" by (cases s)
  let ?sc = "stage_deadline_scope ctx now name budget"
  have le: "sd_remaining_sec (fst ?sc) t \<le> sd_remaining_sec outer t"
    using Cons.prems by (intro scope_within_outer) (simp_all add: s)
  obtain d where "ctx_deadline (nest (snd ?sc) stages) = Some d"
    and "sd_remaining_sec d t \<le> sd_remaining_sec (fst ?sc) t"
    using Cons.IH [of "snd ?sc" "fst ?sc"] Cons.prems by auto
  with le show ?case by (auto simp: s)
qed auto

subsection \<open>Properties\<close>

text \<open>
  The outermost caller's contract always holds: however many stages are nested
  inside a stage, and whatever budgets they ask for, the innermost one never has more time left
  than the outermost.
\<close>

theorem nested_stages_never_extend:
  assumes "ctx_deadline ctx = Some outer" and "\<forall>s \<in> set stages. fst s \<le> t"
  shows "\<exists>d. ctx_deadline (nest ctx stages) = Some d \<and>
     0 \<le> sd_remaining_sec d t \<and> sd_remaining_sec d t \<le> sd_remaining_sec outer t"
  using nest_within [OF assms] stage.remaining_nonneg by blast

theorem nested_stages_never_extend_witness:
  "\<exists>d. ctx_deadline (nest \<lparr>ctx_deadline = Some \<lparr>sd_stage_name = ''intake'', sd_budget_sec = 60, sd_started = 0\<rparr>,
        ctx_provider = None\<rparr> [(10, ''inner'', 500)]) = Some d \<and>
     0 \<le> sd_remaining_sec d 20 \<and>
     sd_remaining_sec d 20 \<le> sd_remaining_sec \<lparr>sd_stage_name = ''intake'', sd_budget_sec = 60, sd_started = 0\<rparr> 20"
  by (rule nested_stages_never_extend) simp_all

text \<open>
  An attempt never gets more time than is left: the timeout is non-negative, at
  most the configured one, at most what the stage has left, and at most what the provider's slice
  has left; with no deadline and no slice it is the configured timeout.
\<close>

theorem attempt_timeout_bounded:
  "0 \<le> attempt_timeout_sec ctx now configured None None \<and>
   attempt_timeout_sec ctx now configured None None \<le> max 0 configured \<and>
   (case ctx_deadline ctx of None \<Rightarrow> True
    | Some d \<Rightarrow> attempt_timeout_sec ctx now configured None None \<le> sd_remaining_sec d now) \<and>
   (case ctx_provider ctx of None \<Rightarrow> True
    | Some p \<Rightarrow> attempt_timeout_sec ctx now configured None None \<le> pb_remaining_sec p now) \<and>
   (if ctx_deadline ctx = None \<and> ctx_provider ctx = None
    then attempt_timeout_sec ctx now configured None None = max 0 configured else True)"
  using stage.remaining_nonneg slice.remaining_nonneg
  by (auto simp: attempt_timeout_sec_def active_deadline_def Let_def le_max_iff_disj split: option.splits)

text \<open>
  Splitting evenly is fair: when the provider about to be tried, one of \<open>n\<close> still
  to try, spends no more than its share, the share of the next provider is at least as large, and
  the last provider is offered everything that is left.
\<close>

theorem shares_roll_forward:
  assumes "2 \<le> n" and "provider_budget_sec ctx now n (Some d) = Some share"
    and "0 \<le> spent" and "spent \<le> share"
  shows "(\<exists>next. provider_budget_sec ctx (now + spent) (n - 1) (Some d) = Some next \<and> share \<le> next) \<and>
    provider_budget_sec ctx now 1 (Some d) = Some (sd_remaining_sec d now)"
proof -
  let ?R = "sd_remaining_sec d now"
  have share: "share = ?R / of_int n"
    using assms(1,2) by (auto simp: provider_budget_sec_def active_deadline_def)
  have R: "0 \<le> ?R" by (rule stage.remaining_nonneg)
  have "?R * 1 \<le> ?R * of_int n" using R assms(1) by (intro mult_left_mono) simp_all
  then have "?R / of_int n \<le> ?R" using assms(1) by (simp add: divide_le_eq)
  then have "spent \<le> ?R" using assms(4) share by simp
  then have rest: "sd_remaining_sec d (now + spent) = ?R - spent"
    using stage.spend assms(3) by simp
  have "?R - share = share * of_int (n - 1)"
    using assms(1) by (simp add: share field_simps)
  with assms(4) have "share * of_int (n - 1) \<le> ?R - spent" by simp
  then have "share \<le> (?R - spent) / of_int (n - 1)" using assms(1) by (simp add: le_divide_eq)
  then show ?thesis
    using assms(1) by (simp add: provider_budget_sec_def active_deadline_def rest max_def)
qed

theorem shares_roll_forward_witness:
  "\<exists>next. provider_budget_sec \<lparr>ctx_deadline = None, ctx_provider = None\<rparr> (0 + 40) (3 - 1)
      (Some \<lparr>sd_stage_name = ''intake'', sd_budget_sec = 180, sd_started = 0\<rparr>) = Some next \<and> 60 \<le> next"
proof -
  let ?d = "\<lparr>sd_stage_name = ''intake'', sd_budget_sec = 180, sd_started = 0\<rparr>"
  have "provider_budget_sec \<lparr>ctx_deadline = None, ctx_provider = None\<rparr> 0 3 (Some ?d) = Some 60"
    by (simp add: provider_budget_sec_def active_deadline_def sd_remaining_sec_def sd_deadline_def)
  from shares_roll_forward [OF _ this, of 40] show ?thesis by simp
qed

end
