(* ===== verification/Llm_Router.thy ===== *)
theory Llm_Router
  imports Llm_Deadline
begin

text \<open>
  Provider routing for structured LLM calls (\<open>llm_provider_router.py\<close>).

  A provider's \<open>call\<close> is outside the module: it is a function of the context it runs under and of
  the clock, and gives its outcome (an exception or a response with request metadata) and the time
  it returned at.  The clock is read once per synchronous stretch, so time passes in calls only.
  An exception carries what the classifier looks at: whether it is a \<open>DeadlineExhausted\<close>, its
  \<open>details\<close> and its text.  A status code that Python could not hash is no member of a set.

  The routing loop is \<open>run_loop\<close>, over the providers still to try; \<open>llm_run\<close> starts it.
\<close>

subsection \<open>Errors\<close>

datatype error_class =
    deadline_exhausted
  | rate_limit
  | json_schema
  | quota_exhausted
  | not_found
  | server_error
  | timeout_class
  | network
  | auth
  | config
  | empty_content
  | contract

fun error_class_str :: "error_class \<Rightarrow> string" where
  "error_class_str deadline_exhausted = ''deadline_exhausted''"
| "error_class_str rate_limit = ''rate_limit''"
| "error_class_str json_schema = ''json_schema''"
| "error_class_str quota_exhausted = ''quota_exhausted''"
| "error_class_str not_found = ''not_found''"
| "error_class_str server_error = ''server_error''"
| "error_class_str timeout_class = ''timeout''"
| "error_class_str network = ''network''"
| "error_class_str auth = ''auth''"
| "error_class_str config = ''config''"
| "error_class_str empty_content = ''empty_content''"
| "error_class_str contract = ''contract''"

record error_info =
  ei_error_class :: error_class
  ei_retryable :: bool
  ei_chain_terminal :: "bool option"

definition stops_chain :: "error_info \<Rightarrow> bool" where
  "stops_chain info = (case ei_chain_terminal info of None \<Rightarrow> \<not> ei_retryable info | Some b \<Rightarrow> b)"

abbreviation info_of :: "error_class \<Rightarrow> bool \<Rightarrow> error_info" where
  "info_of c retry \<equiv> \<lparr>ei_error_class = c, ei_retryable = retry, ei_chain_terminal = None\<rparr>"

record llm_exc =
  ex_is_deadline_exhausted :: bool
  ex_details :: pydict
  ex_message :: string

fun eq_int :: "pyval \<Rightarrow> int \<Rightarrow> bool" where
  "eq_int (PInt i) n = (i = n)"
| "eq_int (PFloat r) n = (r = of_int n)"
| "eq_int (PBool b) n = (of_bool b = n)"
| "eq_int _ n = False"

fun int_at_least :: "pyval \<Rightarrow> int \<Rightarrow> bool" where
  "int_at_least (PInt i) n = (n \<le> i)"
| "int_at_least (PBool b) n = (n \<le> of_bool b)"
| "int_at_least _ n = False"

definition is_empty_message_content_error :: "string \<Rightarrow> pydict \<Rightarrow> bool" where
  "is_empty_message_content_error message details =
     (let text = lower message in
      lower (norm_of (dget ''error_class'' details)) = ''empty_content'' \<or>
      (contains text ''message.content'' \<and>
         (contains text ''empty'' \<or> contains text ''none'' \<or> contains text ''null'' \<or>
          contains text ''whitespace'')) \<or>
      contains text ''empty content'' \<or>
      (contains text ''empty'' \<and> contains text ''content'' \<and>
         (contains text ''message'' \<or> contains text ''assistant'' \<or> contains text ''response'')) \<or>
      contains text ''does not contain final assistant text'')"

definition classify_provider_error :: "llm_exc \<Rightarrow> error_info" where
  "classify_provider_error e =
     (let details = ex_details e; status = dget ''status_code'' details; message = lower (ex_message e);
          has = contains message
      in if ex_is_deadline_exhausted e \<or> text_of (dget ''error_class'' details) = ''deadline_exhausted''
         then info_of deadline_exhausted False
         else if eq_int status 429 \<or> has ''too many requests'' \<or> has ''rate limit''
         then info_of rate_limit True
         else if eq_int status 400 \<and>
                 (has ''json_validate'' \<or> has ''failed_generation'' \<or> has ''failed to generate json'')
         then info_of json_schema True
         else if eq_int status 402 \<or> has ''requires more credits'' \<or> (has ''insufficient'' \<and> has ''credit'')
         then info_of quota_exhausted True
         else if eq_int status 404 \<or> eq_int status 408 \<or>
                 (status = PNone \<and> (contains ('' '' @ message @ '' '') '' 404 '' \<or> has ''not found''))
         then info_of not_found True
         else if int_at_least status 500 then info_of server_error True
         else if has ''timeout'' then info_of timeout_class True
         else if has ''failed to connect'' \<or> has ''network'' \<or> has ''connection''
         then info_of network True
         else if eq_int status 401 \<or> eq_int status 403 \<or> has ''invalid api key'' \<or>
                 has ''unauthorized'' \<or> has ''forbidden''
         then \<lparr>ei_error_class = auth, ei_retryable = False, ei_chain_terminal = Some False\<rparr>
         else if has ''missing'' \<and> (has ''api_key'' \<or> has ''base_url'' \<or> has ''configured'')
         then info_of config False
         else if is_empty_message_content_error message details then info_of empty_content True
         else info_of contract False)"

subsection \<open>Providers, attempts, results\<close>

type_synonym call_outcome = "llm_exc + pyval \<times> pydict"

record llm_provider =
  pr_provider :: string
  pr_backend :: string
  pr_model :: string
  pr_call :: "llm_ctx \<Rightarrow> rat \<Rightarrow> call_outcome \<times> rat"
  pr_configured :: bool
  pr_missing_config :: string

datatype attempt_status = Skipped | Failed | Success

record attempt =
  at_provider :: string
  at_model :: string
  at_status :: attempt_status
  at_error_class :: "error_class option"
  at_retryable :: "bool option"
  at_latency_ms :: int
  at_provider_budget_ms :: "int option"
  at_remaining_budget_ms :: "int option"
  at_configured_stage_budget_ms :: "int option"

definition attempt_record ::
  "llm_provider \<Rightarrow> attempt_status \<Rightarrow> error_class option \<Rightarrow> bool option \<Rightarrow> rat \<Rightarrow> rat \<Rightarrow>
   stage_deadline option \<Rightarrow> rat option \<Rightarrow> attempt" where
  "attempt_record p status ec retry started now deadline budget =
     \<lparr>at_provider = pr_provider p, at_model = pr_model p, at_status = status, at_error_class = ec,
      at_retryable = retry, at_latency_ms = py_round ((now - started) * 1000),
      at_provider_budget_ms = map_option (\<lambda>b. py_round (b * 1000)) budget,
      at_remaining_budget_ms = map_option (\<lambda>d. py_round (sd_remaining_sec d now * 1000)) deadline,
      at_configured_stage_budget_ms = map_option (\<lambda>d. py_round (sd_budget_sec d * 1000)) deadline\<rparr>"

record router =
  rt_providers :: "llm_provider list"
  rt_min_attempt_sec :: rat

datatype terminal_reason = stage_deadline_exhausted | provider_chain_failed | provider_chain_exhausted

record router_error =
  re_message :: string
  re_exc_details :: pydict
  re_attempts :: "attempt list"
  re_fallback_used :: bool
  re_fallback_reason :: "string option"
  re_terminal_failure_reason :: terminal_reason
  re_stage_deadline :: "deadline_telemetry option"

record router_meta =
  rm_request_meta :: pydict
  rm_attempts :: "attempt list"
  rm_selected_provider :: string
  rm_fallback_used :: bool
  rm_fallback_reason :: "string option"
  rm_backend :: string
  rm_fallback_index :: nat
  rm_stage_deadline :: "deadline_telemetry option"

type_synonym router_result = "router_error + pyval \<times> router_meta"

definition configured_remaining :: "llm_provider list \<Rightarrow> int" where
  "configured_remaining ps = int (length (filter pr_configured ps))"

definition opt_int_str :: "int option \<Rightarrow> string" where
  "opt_int_str i = (case i of None \<Rightarrow> ''None'' | Some n \<Rightarrow> int_str n)"

definition attempt_summary :: "llm_provider list \<Rightarrow> attempt \<Rightarrow> string" where
  "attempt_summary providers a =
     (if at_status a = Skipped \<and> at_error_class a = Some deadline_exhausted
      then at_provider a @ '' not attempted (stage budget exhausted: '' @
           opt_int_str (at_remaining_budget_ms a) @ ''ms left of '' @
           opt_int_str (at_configured_stage_budget_ms a) @ ''ms)''
      else if at_status a = Skipped
      then at_provider a @ '' unconfigured (missing '' @
           (case find (\<lambda>p. pr_provider p = at_provider a \<and> \<not> pr_configured p) providers of
              None \<Rightarrow> [] | Some p \<Rightarrow> pr_missing_config p) @ '')''
      else at_provider a @ '' failed ('' @
           (case at_error_class a of None \<Rightarrow> ''None'' | Some c \<Rightarrow> error_class_str c) @ '')'')"

definition exhausted_chain_message :: "llm_provider list \<Rightarrow> attempt list \<Rightarrow> string" where
  "exhausted_chain_message providers attempts =
     (if attempts = [] then ''No LLM provider was configured for structured output.''
      else ''All LLM providers exhausted: '' @ join ''; '' (map (attempt_summary providers) attempts) @ ''.'')"

definition non_empty :: "string \<Rightarrow> string option" where
  "non_empty s = (if s = [] then None else Some s)"

definition chain_exhausted ::
  "router \<Rightarrow> stage_deadline option \<Rightarrow> attempt list \<Rightarrow> string \<Rightarrow> rat \<Rightarrow> router_error" where
  "chain_exhausted r deadline attempts first_failure now =
     \<lparr>re_message = exhausted_chain_message (rt_providers r) attempts, re_exc_details = [],
      re_attempts = attempts, re_fallback_used = (1 < length attempts),
      re_fallback_reason = non_empty first_failure,
      re_terminal_failure_reason =
        (if list_ex (\<lambda>a. at_error_class a = Some deadline_exhausted) attempts
         then stage_deadline_exhausted else provider_chain_exhausted),
      re_stage_deadline = map_option (\<lambda>d. sd_telemetry d now) deadline\<rparr>"

definition call_failed ::
  "llm_exc \<Rightarrow> error_info \<Rightarrow> stage_deadline option \<Rightarrow> nat \<Rightarrow> attempt list \<Rightarrow> string \<Rightarrow> rat \<Rightarrow> router_error" where
  "call_failed e info deadline index attempts first_failure now =
     \<lparr>re_message = ex_message e, re_exc_details = ex_details e, re_attempts = attempts,
      re_fallback_used = (0 < index), re_fallback_reason = (if 0 < index then Some first_failure else None),
      re_terminal_failure_reason =
        (if ei_error_class info = deadline_exhausted then stage_deadline_exhausted else provider_chain_failed),
      re_stage_deadline = map_option (\<lambda>d. sd_telemetry d now) deadline\<rparr>"

definition call_succeeded ::
  "llm_provider \<Rightarrow> pydict \<Rightarrow> stage_deadline option \<Rightarrow> nat \<Rightarrow> attempt list \<Rightarrow> string \<Rightarrow> rat \<Rightarrow> router_meta" where
  "call_succeeded p meta deadline index attempts first_failure now =
     \<lparr>rm_request_meta = meta, rm_attempts = attempts, rm_selected_provider = pr_provider p,
      rm_fallback_used = (0 < index), rm_fallback_reason = (if 0 < index then Some first_failure else None),
      rm_backend = pr_backend p, rm_fallback_index = index,
      rm_stage_deadline = map_option (\<lambda>d. sd_telemetry d now) deadline\<rparr>"

subsection \<open>The loop\<close>

definition out_of_room :: "router \<Rightarrow> stage_deadline option \<Rightarrow> llm_provider \<Rightarrow> rat \<Rightarrow> bool" where
  "out_of_room r deadline p now =
     (case deadline of None \<Rightarrow> False
      | Some d \<Rightarrow> pr_configured p \<and> \<not> sd_has_room_for_attempt d now (rt_min_attempt_sec r))"

fun run_loop ::
  "router \<Rightarrow> llm_ctx \<Rightarrow> llm_provider list \<Rightarrow> nat \<Rightarrow> attempt list \<Rightarrow> string \<Rightarrow> rat \<Rightarrow> router_result \<times> rat" where
  "run_loop r ctx [] index attempts first_failure now =
     (Inl (chain_exhausted r (ctx_deadline ctx) attempts first_failure now), now)"
| "run_loop r ctx (p # ps) index attempts first_failure now =
     (let deadline = ctx_deadline ctx in
      if out_of_room r deadline p now
      then (Inl (chain_exhausted r deadline
                   (attempts @ [attempt_record p Skipped (Some deadline_exhausted) (Some False) now now deadline None])
                   (if index = 0 then ''stage_deadline_exhausted_before_first_provider'' else first_failure) now), now)
      else if \<not> pr_configured p
      then run_loop r ctx ps (Suc index)
             (attempts @ [attempt_record p Skipped (Some config) (Some False) now now None None])
             (if index = 0 then pr_provider p @ ''_config_missing_'' @ pr_missing_config p else first_failure) now
      else (let share = provider_budget_sec ctx now (configured_remaining (p # ps)) deadline in
            case pr_call p (snd (provider_budget_scope ctx now (pr_provider p) share)) now of
              (Inl e, t) \<Rightarrow>
                (let info = classify_provider_error e;
                     attempts' = attempts @ [attempt_record p Failed (Some (ei_error_class info))
                                               (Some (ei_retryable info)) now t deadline share];
                     ff = (if index = 0 then pr_provider p @ ''_'' @ error_class_str (ei_error_class info)
                           else first_failure)
                 in if stops_chain info \<or> length (rt_providers r) \<le> index + 1
                    then (Inl (call_failed e info deadline index attempts' ff t), t)
                    else run_loop r ctx ps (Suc index) attempts' ff t)
            | (Inr (resp, meta), t) \<Rightarrow>
                (let attempts' = attempts @ [attempt_record p Success None None now t deadline share]
                 in (Inr (resp, call_succeeded p meta deadline index attempts' first_failure t), t))))"

definition llm_run :: "router \<Rightarrow> llm_ctx \<Rightarrow> rat \<Rightarrow> router_result \<times> rat" where
  "llm_run r ctx now = run_loop r ctx (rt_providers r) 0 [] [] now"

subsection \<open>Vocabulary of the properties\<close>

text \<open>What a caller sees of a result, and a provider that returns within the slice it is given.\<close>

fun response_of :: "router_result \<Rightarrow> pyval option" where
  "response_of (Inl e) = None"
| "response_of (Inr (resp, m)) = Some resp"

fun result_attempts :: "router_result \<Rightarrow> attempt list" where
  "result_attempts (Inl e) = re_attempts e"
| "result_attempts (Inr (resp, m)) = rm_attempts m"

definition keeps_slice :: "llm_provider \<Rightarrow> bool" where
  "keeps_slice p \<longleftrightarrow> (\<forall>ctx now b. ctx_provider ctx = Some b \<longrightarrow>
     now \<le> snd (pr_call p ctx now) \<and> snd (pr_call p ctx now) \<le> now + pb_remaining_sec b now)"

definition offered :: "rat \<Rightarrow> attempt list \<Rightarrow> bool" where
  "offered q ats \<longleftrightarrow> (\<forall>a \<in> set ats. at_status a \<noteq> Skipped \<longrightarrow>
     (\<exists>ms. at_provider_budget_ms a = Some ms \<and> py_round (q * 1000) \<le> ms))"

subsection \<open>Lemmas\<close>

lemmas router_result_defs = chain_exhausted_def call_failed_def call_succeeded_def attempt_record_def

lemma configured_remaining_simps [simp]:
  "configured_remaining [] = 0"
  "configured_remaining (p # ps) = configured_remaining ps + of_bool (pr_configured p)"
  by (simp_all add: configured_remaining_def)

lemma configured_remaining_nonneg [simp]: "0 \<le> configured_remaining ps"
  by (simp add: configured_remaining_def)

lemma configured_remaining_filter [simp]:
  "configured_remaining (filter pr_configured ps) = configured_remaining ps"
  by (simp add: configured_remaining_def)

lemma share_of_stage:
  assumes "ctx_deadline ctx = Some d"
  shows "provider_budget_sec ctx now n (ctx_deadline ctx) = Some (sd_remaining_sec d now / of_int (max 1 n))"
  using assms by (simp add: provider_budget_sec_def active_deadline_def)

text \<open>A call made under the slice \<open>share\<close> spends between nothing and the slice.\<close>

lemma slice_spent:
  assumes "keeps_slice p" and "0 \<le> share"
    and "pr_call p (snd (provider_budget_scope ctx now name (Some share))) now = (out, t)"
  shows "now \<le> t \<and> t \<le> now + share"
proof -
  let ?ctx = "snd (provider_budget_scope ctx now name (Some share))"
  let ?b = "\<lparr>pb_provider = str_or name ''unknown_provider'', pb_budget_sec = max 0 share, pb_started = now\<rparr>"
  have "ctx_provider ?ctx = Some ?b" by (simp add: provider_budget_scope_def Let_def)
  moreover have "pb_remaining_sec ?b now = share"
    using assms(2) by (simp add: pb_remaining_sec_def)
  ultimately show ?thesis using assms(1,3) unfolding keeps_slice_def by (metis snd_conv)
qed

text \<open>One iteration with a call, under a stage deadline.\<close>

definition failed_attempt ::
  "llm_provider \<Rightarrow> llm_exc \<Rightarrow> rat \<Rightarrow> rat \<Rightarrow> stage_deadline option \<Rightarrow> rat option \<Rightarrow> attempt" where
  "failed_attempt p e now t dl share =
     attempt_record p Failed (Some (ei_error_class (classify_provider_error e)))
       (Some (ei_retryable (classify_provider_error e))) now t dl share"

lemma run_loop_call:
  assumes "pr_configured p" and "\<not> out_of_room r (ctx_deadline ctx) p now"
    and "provider_budget_sec ctx now (configured_remaining (p # ps)) (ctx_deadline ctx) = share"
    and "pr_call p (snd (provider_budget_scope ctx now (pr_provider p) share)) now = (out, t)"
  shows "run_loop r ctx (p # ps) i ats ff now =
    (case out of
       Inl e \<Rightarrow>
         (let info = classify_provider_error e;
              ats' = ats @ [failed_attempt p e now t (ctx_deadline ctx) share];
              ff' = (if i = 0 then pr_provider p @ ''_'' @ error_class_str (ei_error_class info) else ff)
          in if stops_chain info \<or> length (rt_providers r) \<le> i + 1
             then (Inl (call_failed e info (ctx_deadline ctx) i ats' ff' t), t)
             else run_loop r ctx ps (Suc i) ats' ff' t)
     | Inr (resp, meta) \<Rightarrow>
         (Inr (resp, call_succeeded p meta (ctx_deadline ctx) i
                 (ats @ [attempt_record p Success None None now t (ctx_deadline ctx) share]) ff t), t))"
  using assms unfolding run_loop.simps Let_def failed_attempt_def
  by (simp del: configured_remaining_simps split: sum.split)

lemma share_bounds:
  assumes "pr_configured p" and "share = sd_remaining_sec d now / of_int (max 1 (configured_remaining (p # ps)))"
  shows "0 \<le> share" and "share \<le> sd_remaining_sec d now"
    and "share * of_int (configured_remaining ps) = sd_remaining_sec d now - share"
    and "q * of_int (configured_remaining (p # ps)) \<le> sd_remaining_sec d now \<Longrightarrow> q \<le> share"
proof -
  let ?R = "sd_remaining_sec d now"
  define k where "k = (of_int (configured_remaining ps) :: rat)"
  have k: "0 \<le> k" by (simp add: k_def)
  have R: "0 \<le> ?R" by (rule stage.remaining_nonneg)
  have eq: "share = ?R / (k + 1)" using assms by (simp add: max_def k_def)
  then have prod: "share * (k + 1) = ?R" using k by simp
  show "0 \<le> share" using R k by (simp add: eq)
  with k have "0 \<le> share * k" by simp
  with prod show "share \<le> ?R" by (simp add: algebra_simps)
  show "share * of_int (configured_remaining ps) = ?R - share"
    using prod by (simp add: algebra_simps flip: k_def)
  show "q \<le> share" if "q * of_int (configured_remaining (p # ps)) \<le> ?R"
    using that assms(1) k by (simp add: eq pos_le_divide_eq flip: k_def)
qed

lemma remaining_before_deadline:
  "now \<le> sd_deadline d \<Longrightarrow> now + sd_remaining_sec d now = sd_deadline d"
  by (simp add: sd_remaining_sec_def)

lemma run_loop_time:
  assumes "ctx_deadline ctx = Some d" and "\<forall>p \<in> set ps. keeps_slice p" and "now \<le> sd_deadline d"
  shows "snd (run_loop r ctx ps i ats ff now) \<le> sd_deadline d"
  using assms
proof (induction ps arbitrary: i ats ff now)
  case (Cons p ps)
  show ?case
  proof (cases "out_of_room r (ctx_deadline ctx) p now \<or> \<not> pr_configured p")
    case True
    then show ?thesis using Cons by (auto simp: Let_def)
  next
    case False
    obtain share where share: "share = sd_remaining_sec d now / of_int (max 1 (configured_remaining (p # ps)))"
      by blast
    obtain out t where call:
      "pr_call p (snd (provider_budget_scope ctx now (pr_provider p) (Some share))) now = (out, t)"
      by fastforce
    note b = share_bounds [OF _ share]
    have "t \<le> now + share" using slice_spent [OF _ _ call] Cons.prems(2) b(1) False by simp
    then have t: "t \<le> sd_deadline d"
      using b(2) False remaining_before_deadline [OF Cons.prems(3)] by simp
    have step: "provider_budget_sec ctx now (configured_remaining (p # ps)) (ctx_deadline ctx) = Some share"
      unfolding share by (rule share_of_stage [OF Cons.prems(1)])
    show ?thesis
      using False t Cons.IH [OF Cons.prems(1) _ t] Cons.prems(2)
      by (subst run_loop_call [OF _ _ step call]) (auto simp: Let_def split: sum.split)
  qed
qed simp

lemma offered_append [simp]: "offered q (ats @ bs) \<longleftrightarrow> offered q ats \<and> offered q bs"
  by (auto simp: offered_def)

lemma offered_skip [simp]: "offered q [attempt_record p Skipped ec rt s t dl b]"
  by (simp add: offered_def attempt_record_def)

lemma offered_call:
  "q \<le> b \<Longrightarrow> offered q [attempt_record p st ec rt s t dl (Some b)]"
  by (simp add: offered_def attempt_record_def py_round_mono)

lemma run_loop_offered:
  assumes "ctx_deadline ctx = Some d" and "\<forall>p \<in> set ps. keeps_slice p"
    and "q * of_int (configured_remaining ps) \<le> sd_remaining_sec d now" and "0 \<le> q"
    and "offered q ats"
  shows "offered q (result_attempts (fst (run_loop r ctx ps i ats ff now)))"
  using assms
proof (induction ps arbitrary: i ats ff now)
  case Nil
  then show ?case by (simp add: chain_exhausted_def)
next
  case (Cons p ps)
  let ?R = "sd_remaining_sec d now"
  show ?case
  proof (cases "out_of_room r (ctx_deadline ctx) p now \<or> \<not> pr_configured p")
    case True
    then show ?thesis using Cons by (auto simp: Let_def chain_exhausted_def)
  next
    case False
    obtain share where share: "share = ?R / of_int (max 1 (configured_remaining (p # ps)))" by blast
    obtain out t where call:
      "pr_call p (snd (provider_budget_scope ctx now (pr_provider p) (Some share))) now = (out, t)"
      by fastforce
    have b: "0 \<le> share" "share \<le> ?R" "share * of_int (configured_remaining ps) = ?R - share"
      using share_bounds [OF _ share] False by simp_all
    have sp: "now \<le> t" "t \<le> now + share" using slice_spent [OF _ b(1) call] Cons.prems(2) by simp_all
    have q: "q \<le> share" using share_bounds(4) [OF _ share Cons.prems(3)] False by simp
    have "sd_remaining_sec d t = ?R - (t - now)"
      using stage.spend [of "t - now" d now] sp b(2) by simp
    moreover have "q * of_int (configured_remaining ps) \<le> share * of_int (configured_remaining ps)"
      using q by (intro mult_right_mono) simp_all
    ultimately have rest: "q * of_int (configured_remaining ps) \<le> sd_remaining_sec d t"
      using sp b(3) by linarith
    have step: "provider_budget_sec ctx now (configured_remaining (p # ps)) (ctx_deadline ctx) = Some share"
      unfolding share by (rule share_of_stage [OF Cons.prems(1)])
    have off: "offered q (ats @ [failed_attempt p e now t (ctx_deadline ctx) (Some share)])" for e
      using Cons.prems(5) offered_call [OF q] by (simp add: failed_attempt_def)
    have "offered q (ats @ [attempt_record p Success None None now t (ctx_deadline ctx) (Some share)])"
      using Cons.prems(5) offered_call [OF q] by simp
    then show ?thesis
      using False off Cons.IH [OF Cons.prems(1) _ rest Cons.prems(4) off] Cons.prems(2)
      by (subst run_loop_call [OF _ _ step call])
         (auto simp: Let_def call_failed_def call_succeeded_def split: sum.split simp del: offered_append)
  qed
qed

lemma run_loop_all_unconfigured:
  "filter pr_configured ps = [] \<Longrightarrow> response_of (fst (run_loop r ctx ps i ats ff now)) = None"
proof (induction ps arbitrary: i ats ff now)
  case (Cons p ps)
  then have "\<not> pr_configured p" by (auto split: if_splits)
  moreover from this have "\<not> out_of_room r (ctx_deadline ctx) p now"
    by (simp add: out_of_room_def split: option.split)
  ultimately show ?case using Cons by (simp add: Let_def)
qed simp

lemma run_loop_filter:
  assumes "length (rt_providers r) = i + length ps"
    and "length (rt_providers r') = i' + length (filter pr_configured ps)"
    and "rt_min_attempt_sec r' = rt_min_attempt_sec r"
  shows "response_of (fst (run_loop r ctx ps i ats ff now)) =
    response_of (fst (run_loop r' ctx (filter pr_configured ps) i' ats' ff' now))"
  using assms
proof (induction ps arbitrary: i ats ff now i' ats' ff')
  case (Cons p ps)
  have room: "out_of_room r' dl p now = out_of_room r dl p now" for dl
    unfolding out_of_room_def using Cons.prems(3) by presburger
  show ?case
  proof (cases "out_of_room r (ctx_deadline ctx) p now \<or> \<not> pr_configured p")
    case True
    show ?thesis
    proof (cases "pr_configured p")
      case False
      then have "\<not> out_of_room r dl p now" for dl by (simp add: out_of_room_def split: option.split)
      with False show ?thesis using Cons by (simp add: Let_def)
    next
      case conf: True
      with True room show ?thesis by (simp add: Let_def)
    qed
  next
    case False
    let ?share = "provider_budget_sec ctx now (configured_remaining (p # ps)) (ctx_deadline ctx)"
    obtain out t where call:
      "pr_call p (snd (provider_budget_scope ctx now (pr_provider p) ?share)) now = (out, t)"
      by fastforce
    have step': "provider_budget_sec ctx now (configured_remaining (p # filter pr_configured ps)) (ctx_deadline ctx) = ?share"
      by simp
    have len: "length (rt_providers r) = Suc i + length ps" using Cons.prems(1) by simp
    have len': "length (rt_providers r') = Suc i' + length (filter pr_configured ps)"
      using Cons.prems(2) False by simp
    note ih = Cons.IH [OF len len' Cons.prems(3)]
    have conf: "filter pr_configured (p # ps) = p # filter pr_configured ps" using False by simp
    show ?thesis
    proof (cases out)
      case (Inr rm)
      then show ?thesis unfolding conf
        using False room
        by (subst run_loop_call [OF _ _ refl call], simp, simp, subst run_loop_call [OF _ _ step' call])
           (auto split: prod.split)
    next
      case (Inl e)
      show ?thesis unfolding conf
        using False room Inl ih run_loop_all_unconfigured [of ps r] len len'
        by (subst run_loop_call [OF _ _ refl call], simp, simp, subst run_loop_call [OF _ _ step' call])
           (auto simp: Let_def)
    qed
  qed
qed simp

text \<open>What is known of a success that was reached from attempt number \<open>i\<close> on.\<close>

definition good_success :: "llm_provider list \<Rightarrow> nat \<Rightarrow> pyval \<Rightarrow> router_meta \<Rightarrow> bool" where
  "good_success ps i resp m \<longleftrightarrow>
     i \<le> rm_fallback_index m \<and> rm_fallback_index m < i + length ps \<and>
     length (rm_attempts m) = Suc (rm_fallback_index m) \<and>
     map at_status (rm_attempts m) = map at_status (butlast (rm_attempts m)) @ [Success] \<and>
     (\<forall>a \<in> set (butlast (rm_attempts m)). at_status a \<noteq> Success) \<and>
     (let p = ps ! (rm_fallback_index m - i) in
        pr_configured p \<and> rm_selected_provider m = pr_provider p \<and> rm_backend m = pr_backend p \<and>
        (\<exists>ctx t. fst (pr_call p ctx t) = Inr (resp, rm_request_meta m))) \<and>
     rm_fallback_used m = (0 < rm_fallback_index m)"

lemma good_success_Cons: "good_success ps (Suc i) resp m \<Longrightarrow> good_success (p # ps) i resp m"
  by (auto simp: good_success_def Let_def nth_Cons' Suc_diff_le)

lemma run_loop_success:
  assumes "run_loop r ctx ps i ats ff now = (Inr (resp, m), t)" and "length ats = i"
    and "\<forall>a \<in> set ats. at_status a \<noteq> Success"
  shows "good_success ps i resp m"
  using assms
proof (induction ps arbitrary: i ats ff now)
  case (Cons p ps)
  show ?case
  proof (cases "out_of_room r (ctx_deadline ctx) p now \<or> \<not> pr_configured p")
    case True
    then have "\<exists>as f. run_loop r ctx ps (Suc i) (ats @ [as]) f now = (Inr (resp, m), t) \<and> at_status as \<noteq> Success"
      using Cons.prems(1) by (auto simp: Let_def attempt_record_def split: if_splits)
    then show ?thesis using Cons by (auto intro!: good_success_Cons)
  next
    case False
    let ?share = "provider_budget_sec ctx now (configured_remaining (p # ps)) (ctx_deadline ctx)"
    obtain out u where call:
      "pr_call p (snd (provider_budget_scope ctx now (pr_provider p) ?share)) now = (out, u)"
      by fastforce
    note step = run_loop_call [OF _ _ refl call, of r i ats ff]
    show ?thesis
    proof (cases out)
      case (Inl e)
      have "\<exists>f. run_loop r ctx ps (Suc i) (ats @ [failed_attempt p e now u (ctx_deadline ctx) ?share]) f u
              = (Inr (resp, m), t)"
        using Cons.prems(1) False Inl step by (auto simp: Let_def split: if_splits)
      moreover have "at_status (failed_attempt p e now u (ctx_deadline ctx) ?share) \<noteq> Success"
        by (simp add: failed_attempt_def attempt_record_def)
      ultimately show ?thesis using Cons by (auto intro!: good_success_Cons)
    next
      case (Inr rm)
      then have "rm = (resp, rm_request_meta m)"
        and m: "m = call_succeeded p (rm_request_meta m) (ctx_deadline ctx) i
              (ats @ [attempt_record p Success None None now u (ctx_deadline ctx) ?share]) ff u"
        using Cons.prems(1) False step
        by (auto simp: call_succeeded_def split: prod.splits)
      with Inr call have "\<exists>ctx t. fst (pr_call p ctx t) = Inr (resp, rm_request_meta m)"
        by (metis fst_conv)
      then show ?thesis
        using Cons.prems(2,3) False
        by (subst m) (auto simp: good_success_def call_succeeded_def attempt_record_def)
    qed
  qed
qed simp

text \<open>What every branch of the classifier gives.\<close>

definition info_ok :: "error_info \<Rightarrow> bool" where
  "info_ok info \<longleftrightarrow>
     (stops_chain info \<longleftrightarrow> ei_error_class info \<in> {deadline_exhausted, config, contract}) \<and>
     (ei_retryable info \<longleftrightarrow> ei_error_class info \<notin> {deadline_exhausted, auth, config, contract})"

lemma info_ok_if: "info_ok a \<Longrightarrow> info_ok b \<Longrightarrow> info_ok (if c then a else b)"
  by simp

lemma info_ok_retryable:
  "c \<notin> {deadline_exhausted, auth, config, contract} \<Longrightarrow> info_ok (info_of c True)"
  by (simp add: info_ok_def stops_chain_def)

lemma info_ok_final: "c \<in> {deadline_exhausted, config, contract} \<Longrightarrow> info_ok (info_of c False)"
  by (auto simp: info_ok_def stops_chain_def)

lemma info_ok_auth:
  "info_ok \<lparr>ei_error_class = auth, ei_retryable = False, ei_chain_terminal = Some False\<rparr>"
  by (simp add: info_ok_def stops_chain_def)

subsection \<open>Properties\<close>

text \<open>
  Which failures end the chain: exactly an exhausted deadline, a configuration gap
  and a contract violation; a retryable failure and a rejected credential never keep a later
  provider from its turn, and an exhausted deadline always ends the chain.
\<close>

theorem classification_stops:
  "(stops_chain (classify_provider_error e) \<longleftrightarrow>
      ei_error_class (classify_provider_error e) \<in> {deadline_exhausted, config, contract}) \<and>
   (ei_retryable (classify_provider_error e) \<longleftrightarrow>
      ei_error_class (classify_provider_error e) \<notin> {deadline_exhausted, auth, config, contract}) \<and>
   (ex_is_deadline_exhausted e \<longrightarrow> ei_error_class (classify_provider_error e) = deadline_exhausted)"
proof -
  have "info_ok (classify_provider_error e)"
    unfolding classify_provider_error_def Let_def
    by (intro info_ok_if info_ok_retryable info_ok_final info_ok_auth) simp_all
  moreover have "ex_is_deadline_exhausted e \<longrightarrow> ei_error_class (classify_provider_error e) = deadline_exhausted"
    by (simp add: classify_provider_error_def Let_def)
  ultimately show ?thesis unfolding info_ok_def by blast
qed

theorem classification_stops_witness:
  "ei_error_class (classify_provider_error \<lparr>ex_is_deadline_exhausted = True, ex_details = [], ex_message = ''late''\<rparr>)
     = deadline_exhausted"
  using classification_stops [of "\<lparr>ex_is_deadline_exhausted = True, ex_details = [], ex_message = ''late''\<rparr>"]
  by simp

text \<open>
  Property C40.  A stage never overruns: when every provider returns within the slice it is given,
  a run started before the stage deadline ends by the stage deadline, however the providers fail.
\<close>

theorem run_ends_by_deadline:
  assumes "ctx_deadline ctx = Some d" and "\<forall>p \<in> set (rt_providers r). keeps_slice p"
    and "now \<le> sd_deadline d"
  shows "snd (llm_run r ctx now) \<le> sd_deadline d"
  unfolding llm_run_def using assms by (rule run_loop_time)

definition slow_provider :: "string \<Rightarrow> llm_provider" where
  "slow_provider name = \<lparr>pr_provider = name, pr_backend = ''http'', pr_model = ''m'',
     pr_call = (\<lambda>ctx now. (Inl \<lparr>ex_is_deadline_exhausted = False, ex_details = [], ex_message = ''timeout''\<rparr>,
        case ctx_provider ctx of None \<Rightarrow> now | Some b \<Rightarrow> now + pb_remaining_sec b now)),
     pr_configured = True, pr_missing_config = []\<rparr>"

definition sample_router :: router where
  "sample_router = \<lparr>rt_providers = [slow_provider ''a'', slow_provider ''b''], rt_min_attempt_sec = 5\<rparr>"

definition sample_ctx :: llm_ctx where
  "sample_ctx = \<lparr>ctx_deadline = Some \<lparr>sd_stage_name = ''intake'', sd_budget_sec = 180, sd_started = 0\<rparr>,
     ctx_provider = None\<rparr>"

lemma slow_keeps_slice: "keeps_slice (slow_provider name)"
  using slice.remaining_nonneg by (simp add: keeps_slice_def slow_provider_def)

theorem run_ends_by_deadline_witness: "snd (llm_run sample_router sample_ctx 0) \<le> 180"
  using run_ends_by_deadline [of sample_ctx "\<lparr>sd_stage_name = ''intake'', sd_budget_sec = 180, sd_started = 0\<rparr>"
      sample_router 0]
  by (simp add: sample_ctx_def sample_router_def slow_keeps_slice sd_deadline_def)

text \<open>
  A slow primary cannot eat the fallback's turn: when every provider returns within
  its slice, each provider that is called at all is offered at least an even share of what the stage
  had left when the run started, among the configured providers, in milliseconds as recorded.
\<close>

theorem fallback_gets_even_share:
  assumes "ctx_deadline ctx = Some d" and "\<forall>p \<in> set (rt_providers r). keeps_slice p"
    and "a \<in> set (result_attempts (fst (llm_run r ctx now)))" and "at_status a \<noteq> Skipped"
  shows "\<exists>ms. at_provider_budget_ms a = Some ms \<and>
    py_round (sd_remaining_sec d now / of_int (max 1 (configured_remaining (rt_providers r))) * 1000) \<le> ms"
proof -
  let ?R = "sd_remaining_sec d now" and ?n = "configured_remaining (rt_providers r)"
  let ?q = "?R / of_int (max 1 ?n)"
  have R: "0 \<le> ?R" by (rule stage.remaining_nonneg)
  then have q: "0 \<le> ?q" by simp
  have "?q * of_int ?n \<le> ?R"
  proof (cases "1 \<le> ?n")
    case False
    then have "?n = 0" using configured_remaining_nonneg [of "rt_providers r"] by linarith
    with R show ?thesis by simp
  qed simp
  then have "offered ?q (result_attempts (fst (llm_run r ctx now)))"
    unfolding llm_run_def using assms(1,2) q by (intro run_loop_offered) (simp_all add: offered_def)
  then show ?thesis using assms(3,4) by (simp add: offered_def)
qed

lemma sample_attempts:
  "map at_status (result_attempts (fst (llm_run sample_router sample_ctx 0))) = [Failed, Failed]"
  by (simp add: llm_run_def sample_router_def sample_ctx_def slow_provider_def out_of_room_def Let_def
      provider_budget_sec_def active_deadline_def provider_budget_scope_def sd_remaining_sec_def
      sd_deadline_def sd_has_room_for_attempt_def pb_remaining_sec_def classify_provider_error_def
      stops_chain_def call_failed_def attempt_record_def py_eval)

theorem fallback_gets_even_share_witness:
  "\<exists>a ms. a \<in> set (result_attempts (fst (llm_run sample_router sample_ctx 0))) \<and>
     at_provider_budget_ms a = Some ms \<and> py_round (180 / 2 * 1000) \<le> ms"
proof -
  have "Failed \<in> at_status ` set (result_attempts (fst (llm_run sample_router sample_ctx 0)))"
    by (metis list.set_intros(1) list.set_map sample_attempts)
  then obtain a where a: "a \<in> set (result_attempts (fst (llm_run sample_router sample_ctx 0)))"
      "at_status a \<noteq> Skipped"
    by (metis (no_types, lifting) attempt_status.distinct(1) imageE)
  have kept: "\<forall>p \<in> set (rt_providers sample_router). keeps_slice p"
    by (simp add: sample_router_def slow_keeps_slice)
  have n: "configured_remaining (rt_providers sample_router) = 2"
    by (simp add: sample_router_def configured_remaining_def slow_provider_def)
  have dl: "ctx_deadline sample_ctx = Some \<lparr>sd_stage_name = ''intake'', sd_budget_sec = 180, sd_started = 0\<rparr>"
    by (simp add: sample_ctx_def)
  from fallback_gets_even_share [OF dl kept a] a(1) show ?thesis
    by (simp add: n sd_remaining_sec_def sd_deadline_def) blast
qed

text \<open>
  An unconfigured provider changes nothing but the record: the response of a chain,
  or its failure, is that of the chain without the unconfigured providers, wherever they stand.
\<close>

theorem unconfigured_irrelevant:
  "response_of (fst (llm_run r ctx now)) =
   response_of (fst (llm_run (r\<lparr>rt_providers := filter pr_configured (rt_providers r)\<rparr>) ctx now))"
  unfolding llm_run_def by (simp add: run_loop_filter)

text \<open>
  A success is honest about where it came from: the selected provider is configured
  and really returned the response and its metadata, it stands at the reported index, one attempt is
  recorded for each provider up to it, only the last of them a success, and the fallback flag says
  whether it is not the first.
\<close>

theorem success_is_first_success:
  assumes "fst (llm_run r ctx now) = Inr (resp, m)"
  shows "good_success (rt_providers r) 0 resp m"
proof -
  obtain t where "run_loop r ctx (rt_providers r) 0 [] [] now = (Inr (resp, m), t)"
    using assms by (metis llm_run_def prod.collapse)
  then show ?thesis by (rule run_loop_success) simp_all
qed

definition echo_provider :: llm_provider where
  "echo_provider = (slow_provider ''echo'')\<lparr>pr_call := (\<lambda>ctx now. (Inr (PStr ''ok'', []), now + 1))\<rparr>"

theorem success_is_first_success_witness:
  "\<exists>m. good_success [slow_provider ''a'', echo_provider] 0 (PStr ''ok'') m"
proof -
  let ?r = "\<lparr>rt_providers = [slow_provider ''a'', echo_provider], rt_min_attempt_sec = 5\<rparr>"
  let ?ctx = "\<lparr>ctx_deadline = None, ctx_provider = None\<rparr>"
  have "\<exists>m. fst (llm_run ?r ?ctx 0) = Inr (PStr ''ok'', m)"
    by (simp add: llm_run_def slow_provider_def echo_provider_def out_of_room_def Let_def
        provider_budget_sec_def active_deadline_def provider_budget_scope_def classify_provider_error_def
        stops_chain_def py_eval)
  then show ?thesis using success_is_first_success [of ?r ?ctx 0] by auto
qed

end
