(* ===== verification/Argument_Constraints.thy ===== *)
theory Argument_Constraints
  imports Prelude
begin

text \<open>
  Argument-level constraints on planner tools (\<open>agent_runtime/tool_argument_constraints.py\<close>).

  A constraint is always built by \<open>build_argument_constraint\<close>, so it is a record here with its mode
  a datatype; the arguments a planner proposes are an untyped dictionary.  Tuples and sets are lists.
\<close>

subsection \<open>Normalization\<close>

definition norm_text :: "pyval \<Rightarrow> string" where
  "norm_text v = strip (if v = PNone then [] else py_str v)"

fun set_items :: "pyval \<Rightarrow> pyval list" where
  "set_items PNone = []"
| "set_items (PList xs) = xs"
| "set_items v = [v]"

definition norm_set :: "pyval \<Rightarrow> string list" where
  "norm_set v = sort_key lower (dedup_key lower [] (filter (\<lambda>t. t \<noteq> []) (map norm_text (set_items v))))"

definition normalize_argument_value :: "pyval \<Rightarrow> pyval" where
  "normalize_argument_value v = (case v of
       PList xs \<Rightarrow> PList (map PStr (norm_set v))
     | PBool b \<Rightarrow> v
     | PInt i \<Rightarrow> v
     | PFloat r \<Rightarrow> v
     | _ \<Rightarrow> PStr (norm_text v))"

definition text_equal :: "pyval \<Rightarrow> pyval \<Rightarrow> bool" where
  "text_equal l r \<longleftrightarrow> lower (norm_text l) = lower (norm_text r)"

definition compact_repr :: "pyval \<Rightarrow> string" where
  "compact_repr v = (case v of
       PList xs \<Rightarrow> join '','' (map strip (norm_set v))
     | PBool b \<Rightarrow> (if b then ''true'' else ''false'')
     | _ \<Rightarrow> norm_text v)"

subsection \<open>Constraints\<close>

datatype constraint_mode = EXACT | ONE_OF | SUBSET_OF | PRESENT | ABSENT | PLANNER_GENERATED

fun mode_str :: "constraint_mode \<Rightarrow> string" where
  "mode_str EXACT = ''EXACT''"
| "mode_str ONE_OF = ''ONE_OF''"
| "mode_str SUBSET_OF = ''SUBSET_OF''"
| "mode_str PRESENT = ''PRESENT''"
| "mode_str ABSENT = ''ABSENT''"
| "mode_str PLANNER_GENERATED = ''PLANNER_GENERATED''"

definition ARGUMENT_CONSTRAINT_MODES :: "constraint_mode list" where
  "ARGUMENT_CONSTRAINT_MODES = [EXACT, ONE_OF, SUBSET_OF, PRESENT, ABSENT, PLANNER_GENERATED]"

text \<open>Where a canonical value comes from and which decision version it belongs to.\<close>

record provenance =
  pv_source_kind :: string
  pv_source_ref :: string
  pv_decision_id :: string
  pv_decision_version_id :: string
  pv_semantic_hash :: string

definition norm_provenance :: "provenance \<Rightarrow> provenance" where
  "norm_provenance p = \<lparr>pv_source_kind = strip (pv_source_kind p), pv_source_ref = strip (pv_source_ref p),
     pv_decision_id = strip (pv_decision_id p), pv_decision_version_id = strip (pv_decision_version_id p),
     pv_semantic_hash = strip (pv_semantic_hash p)\<rparr>"

record arg_constraint =
  ac_argument_name :: string
  ac_mode :: constraint_mode
  ac_expected_value :: pyval
  ac_allowed_values :: "pyval list"
  ac_provenance :: provenance

text \<open>\<open>None\<close> is the \<open>ValueError\<close> of an unknown mode.\<close>

definition build_argument_constraint ::
  "string \<Rightarrow> string \<Rightarrow> pyval \<Rightarrow> pyval list \<Rightarrow> provenance \<Rightarrow> arg_constraint option" where
  "build_argument_constraint name mode expected allowed prov =
     map_option (\<lambda>m. \<lparr>ac_argument_name = strip name, ac_mode = m, ac_expected_value = expected,
         ac_allowed_values = allowed, ac_provenance = norm_provenance prov\<rparr>)
       (find (\<lambda>m. mode_str m = upper (strip mode)) ARGUMENT_CONSTRAINT_MODES)"

definition CANONICAL_SEMANTIC_FIELD_NAMES :: "string list" where
  "CANONICAL_SEMANTIC_FIELD_NAMES =
     [''case_id'', ''thread_id'', ''customer_id'', ''decision_id'', ''decision_version_id'', ''semantic_hash'',
      ''action_type'', ''target'', ''channel'', ''recipient'', ''required_information'', ''attachment_ids'',
      ''draft_hash'', ''approval_receipt'', ''body'', ''subject'']"

definition intent_allowed_for :: "string \<Rightarrow> string list" where
  "intent_allowed_for action_intent =
     (let intent_raw = lower (strip action_intent) in
      if intent_raw \<in> {''ask_for_missing_data'', ''request_missing_info''} then [''missing_info'']
      else if intent_raw \<in> {''quote'', ''provide_offer'', ''provide_quote''} then [''quote'']
      else [''quote'', ''missing_info''])"

text \<open>The modes of the projection are literals, so building its constraints never raises.\<close>

definition project_slice_argument_constraints ::
  "string \<Rightarrow> string \<Rightarrow> string \<Rightarrow> string \<Rightarrow> string \<Rightarrow> string \<Rightarrow> string list \<Rightarrow> string \<Rightarrow> arg_constraint list" where
  "project_slice_argument_constraints action_intent action_target action_channel canonical_decision_id
     decision_version_id source_semantic_hash allowed_action_tools tool_name =
     (let allowed_action = filter (\<lambda>t. t \<noteq> []) (map strip allowed_action_tools);
          target = lower (strip action_target);
          channel = lower (strip action_channel);
          common = \<lparr>pv_source_kind = ''canonical_action_decision'', pv_source_ref = decision_version_id,
             pv_decision_id = canonical_decision_id, pv_decision_version_id = decision_version_id,
             pv_semantic_hash = source_semantic_hash\<rparr>
      in if strip tool_name \<notin> set allowed_action then []
         else if target \<noteq> ''customer'' \<or> (channel \<noteq> [] \<and> channel \<noteq> ''mail'') then []
         else List.map_filter id
           (build_argument_constraint ''intent'' ''ONE_OF'' (PStr []) (map PStr (intent_allowed_for action_intent)) common #
            map (\<lambda>name. build_argument_constraint name ''ABSENT'' (PStr []) [] common)
              CANONICAL_SEMANTIC_FIELD_NAMES))"

subsection \<open>Violations\<close>

record violation =
  vi_argument_name :: string
  vi_mode :: constraint_mode
  vi_reason_code :: string
  vi_expected :: string
  vi_proposed :: string
  vi_provenance :: provenance

definition violation_of :: "string \<Rightarrow> arg_constraint \<Rightarrow> pyval \<Rightarrow> string \<Rightarrow> string \<Rightarrow> violation" where
  "violation_of name c proposed reason expected =
     \<lparr>vi_argument_name = name, vi_mode = ac_mode c, vi_reason_code = reason, vi_expected = expected,
      vi_proposed = compact_repr proposed, vi_provenance = norm_provenance (ac_provenance c)\<rparr>"

definition check_one :: "string \<Rightarrow> arg_constraint \<Rightarrow> pyval \<Rightarrow> violation option" where
  "check_one name c proposed =
     (let allowed = map (\<lambda>item. lower (norm_text item)) (ac_allowed_values c);
          allowed_text = join '','' (map norm_text (ac_allowed_values c))
      in case ac_mode c of
           ABSENT \<Rightarrow> Some (violation_of name c proposed ''ARGUMENT_NOT_ALLOWED'' ''(absent)'')
         | EXACT \<Rightarrow>
             (if text_equal proposed (ac_expected_value c) then None
              else Some (violation_of name c proposed ''CANONICAL_ARGUMENT_MISMATCH''
                     (compact_repr (ac_expected_value c))))
         | ONE_OF \<Rightarrow>
             (if lower (norm_text proposed) \<in> set allowed then None
              else Some (violation_of name c proposed ''ARGUMENT_OUTSIDE_CANONICAL_SET'' allowed_text))
         | SUBSET_OF \<Rightarrow>
             (if set (map (\<lambda>item. lower (strip item)) (norm_set proposed)) \<subseteq> set allowed then None
              else Some (violation_of name c proposed ''ARGUMENT_OUTSIDE_CANONICAL_SET'' allowed_text))
         | PRESENT \<Rightarrow> None
         | PLANNER_GENERATED \<Rightarrow> None)"

text \<open>The constraint in force for a name: the last one built for it.\<close>

definition constraints_by_name :: "arg_constraint list \<Rightarrow> (string \<times> arg_constraint) list" where
  "constraints_by_name cs = fold (\<lambda>c m.
     if strip (ac_argument_name c) = [] then m else AList.update (strip (ac_argument_name c)) c m) cs []"

definition unknown_violation :: "string \<Rightarrow> pyval \<Rightarrow> violation" where
  "unknown_violation name proposed =
     \<lparr>vi_argument_name = name, vi_mode = ABSENT, vi_reason_code = ''ARGUMENT_NOT_ALLOWED'',
      vi_expected = ''(not part of tool contract)'', vi_proposed = compact_repr proposed,
      vi_provenance = \<lparr>pv_source_kind = ''canonical_action_decision'', pv_source_ref = [], pv_decision_id = [],
        pv_decision_version_id = [], pv_semantic_hash = []\<rparr>\<rparr>"

definition argument_violation :: "(string \<times> arg_constraint) list \<Rightarrow> string \<times> pyval \<Rightarrow> violation option" where
  "argument_violation by_name arg =
     (let name = strip (fst arg) in
      if name = [] then None
      else case map_of by_name name of
             None \<Rightarrow> Some (unknown_violation name (snd arg))
           | Some c \<Rightarrow> check_one name c (snd arg))"

definition unsupplied :: "pyval \<Rightarrow> bool" where
  "unsupplied v = (case v of PNone \<Rightarrow> True | PStr s \<Rightarrow> strip s = [] | PList xs \<Rightarrow> xs = [] | _ \<Rightarrow> False)"

definition presence_violation :: "pydict \<Rightarrow> arg_constraint \<Rightarrow> violation option" where
  "presence_violation arguments c =
     (if ac_mode c = PRESENT \<and> unsupplied (dget (strip (ac_argument_name c)) arguments)
      then Some \<lparr>vi_argument_name = strip (ac_argument_name c), vi_mode = PRESENT,
             vi_reason_code = ''MISSING_REQUIRED_CANONICAL_ARGUMENT'', vi_expected = ''(required)'',
             vi_proposed = [], vi_provenance = norm_provenance (ac_provenance c)\<rparr>
      else None)"

definition constraint_violations :: "pyval \<Rightarrow> arg_constraint list \<Rightarrow> violation list" where
  "constraint_violations v constraints =
     (let arguments = as_dict v in
      if constraints = [] then []
      else List.map_filter (argument_violation (constraints_by_name constraints)) arguments @
           List.map_filter (presence_violation arguments) constraints)"

definition violations_reason_codes :: "violation list \<Rightarrow> string list" where
  "violations_reason_codes vs = sort (remdups (filter (\<lambda>c. c \<noteq> []) (map vi_reason_code vs)))"

subsection \<open>Lemmas\<close>

text \<open>When an argument satisfies a constraint.\<close>

definition satisfies :: "pyval \<Rightarrow> arg_constraint \<Rightarrow> bool" where
  "satisfies v c = (case ac_mode c of
       ABSENT \<Rightarrow> False
     | EXACT \<Rightarrow> text_equal v (ac_expected_value c)
     | ONE_OF \<Rightarrow> lower (norm_text v) \<in> (lower \<circ> norm_text) ` set (ac_allowed_values c)
     | SUBSET_OF \<Rightarrow> lower ` set (norm_set v) \<subseteq> (lower \<circ> norm_text) ` set (ac_allowed_values c)
     | PRESENT \<Rightarrow> True
     | PLANNER_GENERATED \<Rightarrow> True)"

lemma norm_text_strip [simp]: "strip (norm_text v) = norm_text v"
  by (simp add: norm_text_def)

lemma norm_set_strip: "t \<in> set (norm_set v) \<Longrightarrow> strip t = t \<and> t \<noteq> []"
  using set_dedup_key [of lower "[]"] by (fastforce simp: norm_set_def)

lemma check_one_None: "check_one name c v = None \<longleftrightarrow> satisfies v c"
proof -
  have "(\<lambda>item. lower (strip item)) ` set (norm_set v) = lower ` set (norm_set v)"
    using norm_set_strip [of _ v] by force
  then show ?thesis
    by (auto simp: check_one_def satisfies_def Let_def comp_def split: constraint_mode.split)
qed

lemma map_filter_Nil: "List.map_filter f xs = [] \<longleftrightarrow> list_all (\<lambda>x. f x = None) xs"
  by (induction xs) (auto simp: map_filter_simps split: option.split)

lemma argument_violation_None:
  "argument_violation by_name (k, v) = None \<longleftrightarrow>
     strip k = [] \<or> (\<exists>c. map_of by_name (strip k) = Some c \<and> satisfies v c)"
  by (auto simp: argument_violation_def Let_def check_one_None split: option.split)

lemma argument_reason: "argument_violation by_name arg = Some vi \<Longrightarrow> vi_reason_code vi \<noteq> []"
proof -
  have "vi_reason_code vi \<noteq> []" if "check_one n c v = Some vi" for n c v
    using that by (cases "ac_mode c") (auto simp: check_one_def violation_of_def Let_def split: if_splits)
  then show "argument_violation by_name arg = Some vi \<Longrightarrow> vi_reason_code vi \<noteq> []"
    by (auto simp: argument_violation_def unknown_violation_def Let_def split: if_splits option.splits)
qed

lemma presence_reason: "presence_violation args c = Some vi \<Longrightarrow> vi_reason_code vi \<noteq> []"
  by (auto simp: presence_violation_def split: if_splits)

lemma set_map_filter: "y \<in> set (List.map_filter f xs) \<Longrightarrow> \<exists>x. f x = Some y"
  by (induction xs) (auto simp: map_filter_simps split: option.splits)

lemma reason_code_nonempty:
  assumes "vi \<in> set (constraint_violations v cs)"
  shows "vi_reason_code vi \<noteq> []"
proof -
  from assms consider "vi \<in> set (List.map_filter (argument_violation (constraints_by_name cs)) (as_dict v))"
    | "vi \<in> set (List.map_filter (presence_violation (as_dict v)) cs)"
    unfolding constraint_violations_def Let_def by (auto split: if_splits)
  then show ?thesis
  proof cases
    case 1
    from set_map_filter [OF 1] obtain x where "argument_violation (constraints_by_name cs) x = Some vi" ..
    then show ?thesis by (rule argument_reason)
  next
    case 2
    from set_map_filter [OF 2] obtain x where "presence_violation (as_dict v) x = Some vi" ..
    then show ?thesis by (rule presence_reason)
  qed
qed

lemma violations_reason_codes_Nil:
  "violations_reason_codes (constraint_violations v cs) = [] \<longleftrightarrow> constraint_violations v cs = []"
proof -
  have "filter (\<lambda>c. c \<noteq> []) (map vi_reason_code (constraint_violations v cs)) =
      map vi_reason_code (constraint_violations v cs)"
    using reason_code_nonempty by (auto simp: filter_id_conv)
  moreover have "sort xs = [] \<longleftrightarrow> xs = []" for xs :: "string list"
    by (metis sort_key_simps(1) length_0_conv length_sort)
  ultimately show ?thesis by (simp add: violations_reason_codes_def)
qed

lemma violations_Nil:
  assumes "K \<noteq> []"
  shows "constraint_violations (PDict args) K = [] \<longleftrightarrow>
     list_all (\<lambda>(k, v). strip k = [] \<or>
       (case map_of (constraints_by_name K) (strip k) of None \<Rightarrow> False | Some con \<Rightarrow> satisfies v con)) args \<and>
     list_all (\<lambda>con. ac_mode con \<noteq> PRESENT \<or> \<not> unsupplied (dget (strip (ac_argument_name con)) args)) K"
proof -
  have "argument_violation m (k, v) = None \<longleftrightarrow> strip k = [] \<or>
      (case map_of m (strip k) of None \<Rightarrow> False | Some con \<Rightarrow> satisfies v con)" for m k v
    by (auto simp: argument_violation_None split: option.split)
  moreover have "presence_violation args con = None \<longleftrightarrow>
      ac_mode con \<noteq> PRESENT \<or> \<not> unsupplied (dget (strip (ac_argument_name con)) args)" for con
    by (simp add: presence_violation_def)
  ultimately show ?thesis
    using assms by (auto simp: constraint_violations_def map_filter_Nil list_all_iff split: prod.splits)
qed

lemma slice_constraint:
  assumes "strip tool_name \<in> set (filter (\<lambda>t. t \<noteq> []) (map strip tools))" and "lower (strip tgt) = ''customer''"
    and "lower (strip ch) = ''mail''"
  shows "map_of (constraints_by_name (project_slice_argument_constraints i tgt ch d v h tools tool_name)) k =
    (if k = ''intent'' then Some \<lparr>ac_argument_name = ''intent'', ac_mode = ONE_OF, ac_expected_value = PStr [],
        ac_allowed_values = map PStr (intent_allowed_for i), ac_provenance = norm_provenance
          \<lparr>pv_source_kind = ''canonical_action_decision'', pv_source_ref = v, pv_decision_id = d,
           pv_decision_version_id = v, pv_semantic_hash = h\<rparr>\<rparr>
     else if k \<in> set CANONICAL_SEMANTIC_FIELD_NAMES
     then Some \<lparr>ac_argument_name = k, ac_mode = ABSENT, ac_expected_value = PStr [], ac_allowed_values = [],
        ac_provenance = norm_provenance
          \<lparr>pv_source_kind = ''canonical_action_decision'', pv_source_ref = v, pv_decision_id = d,
           pv_decision_version_id = v, pv_semantic_hash = h\<rparr>\<rparr>
     else None)"
proof -
  have strips: "list_all (\<lambda>n. strip n = n \<and> n \<noteq> []) (''intent'' # CANONICAL_SEMANTIC_FIELD_NAMES)"
    by code_simp
  have modes: "find (\<lambda>m. mode_str m = upper (strip ''ONE_OF'')) ARGUMENT_CONSTRAINT_MODES = Some ONE_OF"
    "find (\<lambda>m. mode_str m = upper (strip ''ABSENT'')) ARGUMENT_CONSTRAINT_MODES = Some ABSENT"
    by code_simp+
  show ?thesis
    using assms strips
    by (simp add: project_slice_argument_constraints_def build_argument_constraint_def modes Let_def
        CANONICAL_SEMANTIC_FIELD_NAMES_def map_filter_simps constraints_by_name_def update_conv')
qed

lemma slice_modes:
  "list_all (\<lambda>con. ac_mode con \<noteq> PRESENT) (project_slice_argument_constraints i tgt ch d v h tools tool_name)"
proof -
  have modes: "find (\<lambda>m. mode_str m = upper (strip ''ONE_OF'')) ARGUMENT_CONSTRAINT_MODES = Some ONE_OF"
    "find (\<lambda>m. mode_str m = upper (strip ''ABSENT'')) ARGUMENT_CONSTRAINT_MODES = Some ABSENT"
    by code_simp+
  show ?thesis
    by (auto simp: project_slice_argument_constraints_def build_argument_constraint_def modes Let_def
        map_filter_def list_all_iff)
qed

lemma intents_normal: "(lower \<circ> norm_text) ` set (map PStr (intent_allowed_for i)) = set (intent_allowed_for i)"
proof -
  have "lower (norm_text (PStr ''missing_info'')) = ''missing_info''" "lower (norm_text (PStr ''quote'')) = ''quote''"
    by code_simp+
  then show ?thesis by (simp add: intent_allowed_for_def Let_def)
qed

subsection \<open>Properties\<close>

text \<open>
  What passes the monitor: for a constraint set that is not empty, no violation is
  reported exactly when every argument with a name is constrained under that name and satisfies the
  constraint in force, and every required argument is supplied.
\<close>

theorem no_violation_iff:
  "constraint_violations (PDict args) (c # cs) = [] \<longleftrightarrow>
     list_all (\<lambda>(k, v). strip k = [] \<or>
       (case map_of (constraints_by_name (c # cs)) (strip k) of None \<Rightarrow> False | Some con \<Rightarrow> satisfies v con)) args \<and>
     list_all (\<lambda>con. \<not> (ac_mode con = PRESENT \<and> unsupplied (dget (strip (ac_argument_name con)) args))) (c # cs)"
  unfolding de_Morgan_conj by (rule violations_Nil) simp

text \<open>
  The enforced slice leaves the planner one choice: against the constraints projected
  for the customer mail slice, an argument set passes exactly when every named argument is \<open>intent\<close>
  and its value is one the decision's intent allows; no identity, destination or content field passes
  under any name.
\<close>

theorem slice_leaves_intent_only:
  assumes "strip tool_name \<noteq> []" and "strip tool_name \<in> strip ` set tools" and "lower (strip tgt) = ''customer''"
    and "lower (strip ch) = ''mail''"
  shows "constraint_violations (PDict args) (project_slice_argument_constraints i tgt ch d v h tools tool_name) = [] \<longleftrightarrow>
    list_all (\<lambda>(k, x). strip k = [] \<or>
      strip k = ''intent'' \<and> lower (norm_text x) \<in> set (intent_allowed_for i)) args"
proof -
  let ?K = "project_slice_argument_constraints i tgt ch d v h tools tool_name"
  have mem: "strip tool_name \<in> set (filter (\<lambda>t. t \<noteq> []) (map strip tools))" using assms(1,2) by auto
  note look = slice_constraint [OF mem assms(3,4)]
  have "?K \<noteq> []" using look [of i d v h "''intent''"] by (auto simp: constraints_by_name_def)
  moreover have "list_all (\<lambda>con. ac_mode con \<noteq> PRESENT) ?K" by (rule slice_modes)
  moreover have "(lower \<circ> norm_text) ` set (map PStr (intent_allowed_for i)) = set (intent_allowed_for i)"
    by (rule intents_normal)
  then have "(case map_of (constraints_by_name ?K) (strip k) of None \<Rightarrow> False | Some con \<Rightarrow> satisfies x con) \<longleftrightarrow>
      strip k = ''intent'' \<and> lower (norm_text x) \<in> set (intent_allowed_for i)" for k x
    unfolding look by (auto simp: satisfies_def)
  ultimately show ?thesis by (subst violations_Nil) (auto simp: list_all_iff)
qed

theorem slice_leaves_intent_only_witness:
  "constraint_violations (PDict [(''intent'', PStr ''missing_info'')])
     (project_slice_argument_constraints ''ask_for_missing_data'' ''customer'' ''mail'' ''d'' ''d:r1'' ''sh''
        [''generate_draft_reply''] ''generate_draft_reply'') = [] \<and>
   constraint_violations (PDict [(''recipient'', PStr ''x'')])
     (project_slice_argument_constraints ''ask_for_missing_data'' ''customer'' ''mail'' ''d'' ''d:r1'' ''sh''
        [''generate_draft_reply''] ''generate_draft_reply'') \<noteq> []"
proof -
  have hyp: "strip ''generate_draft_reply'' \<noteq> []" "strip ''generate_draft_reply'' \<in> strip ` set [''generate_draft_reply'']"
    "lower (strip ''customer'') = ''customer''" "lower (strip ''mail'') = ''mail''"
    by code_simp+
  have "list_all (\<lambda>(k, x). strip k = [] \<or>
      strip k = ''intent'' \<and> lower (norm_text x) \<in> set (intent_allowed_for ''ask_for_missing_data''))
      [(''intent'', PStr ''missing_info'')]"
    "\<not> list_all (\<lambda>(k, x). strip k = [] \<or>
      strip k = ''intent'' \<and> lower (norm_text x) \<in> set (intent_allowed_for ''ask_for_missing_data''))
      [(''recipient'', PStr ''x'')]"
    by code_simp+
  then show ?thesis unfolding slice_leaves_intent_only [OF hyp] by blast
qed

end
