(* ===== verification/Cad.thy ===== *)
theory Cad
  imports Prelude "HOL-Library.Multiset"
begin

text \<open>
  The canonicalization boundary of \<open>canonical_action_decision.py\<close>: a business decision proposal
  becomes a frozen canonical action decision (CAD) or a canonicalization failure.

  Proposals, decisions and failures cross module boundaries as plain dictionaries, so they are
  \<open>pydict\<close> here, with the keys of the source in the order of the source.  SHA-256 of the UTF-8
  text (as hex digits), the hex digits of a fresh UUID and the current time are arguments.  A
  \<open>for\<close> over a number raises \<open>TypeError\<close>: the result is then \<open>None\<close>.
\<close>

subsection \<open>Vocabularies\<close>

definition CANONICAL_ACTION_DECISION_SCHEMA_VERSION :: string where
  "CANONICAL_ACTION_DECISION_SCHEMA_VERSION = ''canonical_action_decision.v1''"

definition BUSINESS_DECISION_PROPOSAL_SCHEMA_VERSION :: string where
  "BUSINESS_DECISION_PROPOSAL_SCHEMA_VERSION = ''business_decision_proposal.v1''"

definition CANONICALIZATION_FAILURE_SCHEMA_VERSION :: string where
  "CANONICALIZATION_FAILURE_SCHEMA_VERSION = ''canonicalization_failure.v1''"

definition DECISION_REVISION_REQUEST_SCHEMA_VERSION :: string where
  "DECISION_REVISION_REQUEST_SCHEMA_VERSION = ''decision_revision_request.v1''"

definition CANONICAL_GOALS :: "string list" where
  "CANONICAL_GOALS = [''obtain_missing_service_information'']"

definition CANONICAL_ACTION_TYPES :: "string list" where
  "CANONICAL_ACTION_TYPES = [''ask_for_missing_data'']"

definition CANONICAL_TARGETS :: "string list" where
  "CANONICAL_TARGETS = [''customer'', ''operator'', ''supplier'', ''internal'', ''none'']"

definition CANONICAL_CHANNELS :: "string list" where
  "CANONICAL_CHANNELS = [''mail'', ''phone'', ''internal'', ''none'']"

definition ACTION_TYPE_CHANNELS :: "(string \<times> string list) list" where
  "ACTION_TYPE_CHANNELS = [(''ask_for_missing_data'', [''mail''])]"

definition REVISION_REASON_CODES :: "string list" where
  "REVISION_REASON_CODES =
     [''NEW_CONFLICTING_EVIDENCE'', ''FAILED_PRECONDITION'', ''CANONICAL_FACT_CHANGED'',
      ''STALE_SITUATION'', ''TOOL_CAPABILITY_MISSING'', ''POLICY_REEVALUATION_REQUIRED'',
      ''IMPOSSIBLE_PRECONDITION'', ''OUT_OF_SCOPE_REQUEST'']"

definition REVISION_REQUEST_STATUSES :: "string list" where
  "REVISION_REQUEST_STATUSES = [''PENDING'', ''ACCEPTED'', ''REJECTED'', ''SUPERSEDED'']"

subsection \<open>Coercions\<close>

text \<open>
  \<open>max (0.0, min (1.0, round (number, 4)))\<close>: \<open>min (1.0, nan)\<close> is its first argument.
\<close>

definition as_float :: "pyval \<Rightarrow> rat" where
  "as_float v = (case py_float v of
       None \<Rightarrow> 0
     | Some (Fin r) \<Rightarrow> max 0 (min 1 (py_round4 r))
     | Some PosInf \<Rightarrow> 1
     | Some NegInf \<Rightarrow> 0
     | Some NaN \<Rightarrow> 1)"

definition as_list :: "pyval \<Rightarrow> string list" where
  "as_list v = filter (\<lambda>t. t \<noteq> []) (map norm_of (list_items v))"

definition string_or :: "pyval \<Rightarrow> string \<Rightarrow> string" where
  "string_or v dflt = str_or (norm_of v) dflt"

text \<open>The dictionaries among the items of \<open>v or []\<close>.\<close>

fun iter_dicts :: "pyval \<Rightarrow> pydict list option" where
  "iter_dicts (PList xs) = Some (dict_rows xs)"
| "iter_dicts (PBool b) = (if b then None else Some [])"
| "iter_dicts (PInt i) = (if i = 0 then Some [] else None)"
| "iter_dicts (PFloat r) = (if r = 0 then Some [] else None)"
| "iter_dicts _ = Some []"

subsection \<open>Canonical JSON and the semantic hash\<close>

definition json_char :: "char \<Rightarrow> string" where
  "json_char c =
     (if c = CHR 0x22 \<or> c = CHR 0x5C then [CHR 0x5C, c]
      else if c = CHR 0x0A then [CHR 0x5C, CHR ''n'']
      else if c = CHR 0x0D then [CHR 0x5C, CHR ''r'']
      else if c = CHR 0x09 then [CHR 0x5C, CHR ''t'']
      else if c = CHR 0x0C then [CHR 0x5C, CHR ''f'']
      else if c = CHR 0x08 then [CHR 0x5C, CHR ''b'']
      else if ord_of c < 32 then [CHR 0x5C, CHR ''u'', CHR ''0'', CHR ''0''] @ hex2 c
      else [c])"

definition json_str :: "string \<Rightarrow> string" where
  "json_str s = [CHR 0x22] @ concat (map json_char s) @ [CHR 0x22]"

definition json_str_list :: "string list \<Rightarrow> string" where
  "json_str_list ss = ''['' @ join '','' (map json_str ss) @ '']''"

text \<open>\<open>json.dumps\<close> with sorted keys and compact separators, on pairs of a key and its value's text.\<close>

definition json_obj :: "(string \<times> string) list \<Rightarrow> string" where
  "json_obj kvs = ''{'' @ join '','' (map (\<lambda>(k, t). json_str k @ '':'' @ t) (sort_key fst kvs)) @ ''}''"

record semantic_fields =
  sf_case_id :: string
  sf_situation_version :: string
  sf_goal :: string
  sf_action_type :: string
  sf_target :: string
  sf_channel :: string
  sf_required_information :: "string list"

definition canonical_payload :: "string \<Rightarrow> semantic_fields \<Rightarrow> string" where
  "canonical_payload schema_version f = json_obj
     [(''schema_version'', json_str schema_version),
      (''case_id'', json_str (strip (sf_case_id f))),
      (''situation_version'', json_str (strip (sf_situation_version f))),
      (''goal'', json_str (strip (sf_goal f))),
      (''action_type'', json_str (strip (sf_action_type f))),
      (''target'', json_str (strip (sf_target f))),
      (''channel'', json_str (strip (sf_channel f))),
      (''required_information'',
         json_str_list (sort (as_list (PList (map PStr (sf_required_information f)))))),
      (''semantic_status'', json_str ''FROZEN'')]"

definition semantic_hash_of :: "(string \<Rightarrow> string) \<Rightarrow> semantic_fields \<Rightarrow> string" where
  "semantic_hash_of sha256 f =
     ''sh_'' @ take 32 (sha256 (canonical_payload CANONICAL_ACTION_DECISION_SCHEMA_VERSION f))"

definition decision_version_id_of :: "string \<Rightarrow> int \<Rightarrow> string" where
  "decision_version_id_of decision_id revision =
     strip decision_id @ '':r'' @ int_str (max 1 (if revision = 0 then 1 else revision))"

subsection \<open>Proposals\<close>

definition risk_class_from_business :: "pydict \<Rightarrow> string" where
  "risk_class_from_business br =
     (let urgency = lower (norm_of (dget ''urgency'' br)) in
      if urgency \<in> {''high'', ''critical''} then ''high''
      else if urgency = ''medium'' then ''medium'' else ''low'')"

definition proposal_confidence :: "pyval \<Rightarrow> rat" where
  "proposal_confidence conf = (case conf of
       PDict d \<Rightarrow> as_float (dget ''action_confidence'' d)
     | PInt i \<Rightarrow> as_float conf
     | PBool b \<Rightarrow> as_float conf
     | PFloat r \<Rightarrow> as_float conf
     | _ \<Rightarrow> 0)"

definition build_business_decision_proposal :: "string \<Rightarrow> pyval \<Rightarrow> pydict option" where
  "build_business_decision_proposal uuid business_reasoning_result =
     (let br = as_dict business_reasoning_result;
          action = norm_of (dget ''recommended_next_action'' br)
      in if action \<noteq> ''collect_data'' then None
         else Some
           [(''schema_version'', PStr BUSINESS_DECISION_PROPOSAL_SCHEMA_VERSION),
            (''proposal_id'', PStr (''bprop_'' @ take 22 uuid)),
            (''goal'', PStr ''obtain_missing_service_information''),
            (''action_type'', PStr ''ask_for_missing_data''),
            (''target'', PStr ''customer''),
            (''channel'', PStr ''mail''),
            (''required_information'', PList (map PStr (as_list (dget ''missing_information'' br)))),
            (''confidence'', PFloat (proposal_confidence (dget ''confidence'' br))),
            (''reason'', PStr (norm_of (dget ''recommended_action_reason'' br))),
            (''risk_class'', PStr (risk_class_from_business br))])"

subsection \<open>State surface\<close>

definition dedupe :: "string list \<Rightarrow> string list" where
  "dedupe values = dedup_key lower [] (filter (\<lambda>t. t \<noteq> []) (map strip values))"

definition gap_label :: "pydict \<Rightarrow> string" where
  "gap_label row =
     string_or (dget ''label'' row)
       (string_or (dget ''field_name'' row) (norm_of (dget ''fact_key'' row)))"

definition state_missing_information :: "pyval \<Rightarrow> pyval \<Rightarrow> pyval \<Rightarrow> string list option" where
  "state_missing_information situation_understanding case_context_pack intake_result =
     (let su = as_dict situation_understanding; pack = as_dict case_context_pack;
          intake = as_dict intake_result
      in map_option (\<lambda>gaps. dedupe
           (as_list (dget ''missing_information'' su) @ as_list (dget ''missing_critical_fields'' su) @
            as_list (dget ''required_information'' su) @
            filter (\<lambda>l. l \<noteq> []) (map gap_label gaps) @
            as_list (dget ''missing_information'' intake)))
          (iter_dicts (dget ''completeness_gaps'' pack)))"

definition conflict_key :: "pydict \<Rightarrow> string" where
  "conflict_key row = string_or (dget ''fact_key'' row) (norm_of (dget ''key'' row))"

definition conflicted_fact_keys :: "pyval \<Rightarrow> string list option" where
  "conflicted_fact_keys case_context_pack =
     map_option (\<lambda>rows. map (\<lambda>row. lower (conflict_key row))
         (filter (\<lambda>row. conflict_key row \<noteq> [] \<and>
             (is_false (dget ''decision_usable'' row) \<or> norm_of (dget ''trust_state'' row) = ''conflicted''))
           rows))
       (iter_dicts (dget ''conflicting_facts'' (as_dict case_context_pack)))"

subsection \<open>Canonicalization\<close>

definition proposal_failure :: "string \<Rightarrow> pydict \<Rightarrow> string list \<Rightarrow> string \<Rightarrow> pydict" where
  "proposal_failure now prop reason_codes failed_precondition =
     [(''schema_version'', PStr CANONICALIZATION_FAILURE_SCHEMA_VERSION),
      (''proposal_id'', PStr (norm_of (dget ''proposal_id'' prop))),
      (''reason_codes'', PList (map PStr reason_codes)),
      (''failed_precondition'',
         PStr (str_or failed_precondition (if reason_codes = [] then [] else hd reason_codes))),
      (''occurred_at'', PStr now),
      (''decision_state'', PStr ''NO_CANONICAL_DECISION'')]"

definition code_if :: "bool \<Rightarrow> string \<Rightarrow> string list" where
  "code_if b reason = (if b then [reason] else [])"

definition contract_violations :: "string \<Rightarrow> string \<Rightarrow> string \<Rightarrow> string \<Rightarrow> string list \<Rightarrow> string list" where
  "contract_violations goal action_type target channel required =
     code_if (goal \<notin> set CANONICAL_GOALS) ''goal_not_in_contract'' @
     code_if (action_type \<notin> set CANONICAL_ACTION_TYPES) ''action_type_not_in_contract'' @
     code_if (target \<notin> set CANONICAL_TARGETS) ''target_not_in_contract'' @
     code_if (channel \<notin> set CANONICAL_CHANNELS) ''channel_not_in_contract'' @
     code_if (case map_of ACTION_TYPE_CHANNELS action_type of
                None \<Rightarrow> False | Some legal \<Rightarrow> channel \<notin> set legal) ''channel_illegal_for_action_type'' @
     code_if (required = []) ''required_information_empty''"

definition state_violations :: "string list \<Rightarrow> string list \<Rightarrow> string list \<Rightarrow> string list" where
  "state_violations required state_missing conflicted =
     (if state_missing = [] then [''missing_information_unavailable'']
      else code_if (list_ex (\<lambda>item. lower item \<notin> set (map lower state_missing)) required)
             ''required_information_not_in_state'') @
     code_if (list_ex (\<lambda>item. lower item \<in> set conflicted) required) ''conflicted_fact_as_certainty''"

definition proposal_fields :: "string \<Rightarrow> string \<Rightarrow> pydict \<Rightarrow> semantic_fields" where
  "proposal_fields case_id situation_version prop =
     \<lparr>sf_case_id = strip case_id, sf_situation_version = strip situation_version,
      sf_goal = norm_of (dget ''goal'' prop), sf_action_type = norm_of (dget ''action_type'' prop),
      sf_target = norm_of (dget ''target'' prop), sf_channel = norm_of (dget ''channel'' prop),
      sf_required_information = as_list (dget ''required_information'' prop)\<rparr>"

definition frozen_decision ::
  "(string \<Rightarrow> string) \<Rightarrow> string \<Rightarrow> pydict \<Rightarrow> semantic_fields \<Rightarrow> string \<Rightarrow> int \<Rightarrow> pydict" where
  "frozen_decision sha256 now prop f dec_id revision =
     [(''schema_version'', PStr CANONICAL_ACTION_DECISION_SCHEMA_VERSION),
      (''decision_id'', PStr dec_id),
      (''revision'', PInt revision),
      (''decision_version_id'', PStr (decision_version_id_of dec_id revision)),
      (''case_id'', PStr (sf_case_id f)),
      (''situation_version'', PStr (sf_situation_version f)),
      (''goal'', PStr (sf_goal f)),
      (''action_type'', PStr (sf_action_type f)),
      (''target'', PStr (sf_target f)),
      (''channel'', PStr (sf_channel f)),
      (''required_information'', PList (map PStr (sf_required_information f))),
      (''confidence'', PFloat (as_float (dget ''confidence'' prop))),
      (''risk_class'', PStr (string_or (dget ''risk_class'' prop) ''low'')),
      (''semantic_hash'', PStr (semantic_hash_of sha256 f)),
      (''semantic_status'', PStr ''FROZEN''),
      (''revision_status'', PStr ''CURRENT''),
      (''proposal_id'', PStr (norm_of (dget ''proposal_id'' prop))),
      (''provenance'', PDict
         [(''proposal_id'', PStr (norm_of (dget ''proposal_id'' prop))),
          (''situation_version'', PStr (sf_situation_version f))]),
      (''created_at'', PStr now)]"

record canon_state =
  cs_situation_understanding :: pyval
  cs_case_context_pack :: pyval
  cs_intake_result :: pyval

definition state_reason_codes :: "canon_state \<Rightarrow> string list \<Rightarrow> string list option" where
  "state_reason_codes cs required =
     (case state_missing_information (cs_situation_understanding cs) (cs_case_context_pack cs)
             (cs_intake_result cs) of
        None \<Rightarrow> None
      | Some state_missing \<Rightarrow>
          (case conflicted_fact_keys (cs_case_context_pack cs) of
             None \<Rightarrow> None
           | Some conflicted \<Rightarrow> Some (state_violations required state_missing conflicted)))"

definition canonicalize ::
  "(string \<Rightarrow> string) \<Rightarrow> string \<Rightarrow> string \<Rightarrow> pyval \<Rightarrow> canon_state \<Rightarrow> string \<Rightarrow> string \<Rightarrow> string \<Rightarrow> int \<Rightarrow>
   pydict option" where
  "canonicalize sha256 uuid now proposal cs case_id situation_version decision_id revision =
     (case proposal of
        PDict prop \<Rightarrow>
          (let f = proposal_fields case_id situation_version prop;
               contract_codes = contract_violations (sf_goal f) (sf_action_type f) (sf_target f)
                 (sf_channel f) (sf_required_information f)
           in if contract_codes \<noteq> [] then Some (proposal_failure now prop contract_codes [])
              else (case state_reason_codes cs (sf_required_information f) of
                      None \<Rightarrow> None
                    | Some state_codes \<Rightarrow>
                        if state_codes \<noteq> [] then Some (proposal_failure now prop state_codes [])
                        else Some (frozen_decision sha256 now prop f
                               (str_or (strip decision_id) (''dec_'' @ take 22 uuid))
                               (max 1 (if revision = 0 then 1 else revision)))))
      | _ \<Rightarrow> Some (proposal_failure now [(''proposal_id'', PStr [])] [''proposal_incomplete'']
               ''business_decision_proposal''))"

definition canonical_decision_code :: "pyval \<Rightarrow> string" where
  "canonical_decision_code v = (case v of PDict d \<Rightarrow> norm_of (dget ''action_type'' d) | _ \<Rightarrow> [])"

definition semantic_signature_matches :: "pyval \<Rightarrow> pyval \<Rightarrow> bool" where
  "semantic_signature_matches l r = (case (l, r) of
       (PDict a, PDict b) \<Rightarrow> norm_of (dget ''semantic_hash'' a) = norm_of (dget ''semantic_hash'' b)
     | _ \<Rightarrow> False)"

definition canonicalization_failure_review_state :: "pyval \<Rightarrow> pydict" where
  "canonicalization_failure_review_state v =
     (let failure = as_dict v in
      [(''workflow_state'', PStr ''NEEDS_REVIEW''),
       (''decision_state'', PStr (string_or (dget ''decision_state'' failure) ''NO_CANONICAL_DECISION'')),
       (''reason_codes'', PList (map PStr (as_list (dget ''reason_codes'' failure)))),
       (''failed_precondition'', PStr (norm_of (dget ''failed_precondition'' failure))),
       (''operational_status'', PStr ''pending_operator_review''),
       (''proposal_id'', PStr (norm_of (dget ''proposal_id'' failure)))])"

definition build_decision_revision_request ::
  "string \<Rightarrow> string \<Rightarrow> string \<Rightarrow> int \<Rightarrow> string \<Rightarrow> string \<Rightarrow> string \<Rightarrow> string \<Rightarrow> pyval \<Rightarrow>
   string \<Rightarrow> string \<Rightarrow> string \<Rightarrow> pydict" where
  "build_decision_revision_request uuid now decision_id revision reason_code failed_precondition
     source_layer source_event_id evidence_refs request_id requested_at status =
     (let reason = (if reason_code \<in> set REVISION_REASON_CODES then reason_code else ''NEW_CONFLICTING_EVIDENCE'');
          stat = (if status \<in> set REVISION_REQUEST_STATUSES then status else ''PENDING'');
          evidence = dict_rows (list_items evidence_refs);
          rv = max 1 (if revision = 0 then 1 else revision);
          dec_id = strip decision_id
      in [(''schema_version'', PStr DECISION_REVISION_REQUEST_SCHEMA_VERSION),
          (''request_id'', PStr (str_or (strip request_id) (''revreq_'' @ take 22 uuid))),
          (''decision_id'', PStr dec_id),
          (''current_revision'', PInt rv),
          (''revision'', PInt rv),
          (''current_decision_version_id'', PStr (decision_version_id_of dec_id rv)),
          (''reason_code'', PStr reason),
          (''failed_precondition'', PStr (strip failed_precondition)),
          (''source_layer'', PStr (strip source_layer)),
          (''source_event_id'', PStr (strip source_event_id)),
          (''evidence_refs'', PList (map PDict evidence)),
          (''requested_at'', PStr (str_or (strip requested_at) now)),
          (''status'', PStr stat)])"

definition build_canonical_decision_for_stage ::
  "(string \<Rightarrow> string) \<Rightarrow> string \<Rightarrow> string \<Rightarrow> string \<Rightarrow> pyval \<Rightarrow> canon_state \<Rightarrow> string \<Rightarrow> string \<Rightarrow>
   (pydict option \<times> pydict option) option" where
  "build_canonical_decision_for_stage sha256 uuid1 uuid2 now business_reasoning_result cs case_id situation_version =
     (case build_business_decision_proposal uuid1 business_reasoning_result of
        None \<Rightarrow> Some (None, None)
      | Some proposal \<Rightarrow>
          map_option (\<lambda>outcome.
              if dget ''semantic_status'' outcome = PStr ''FROZEN'' then (Some outcome, None)
              else (None, Some outcome))
            (canonicalize sha256 uuid2 now (PDict proposal) cs case_id situation_version [] 1))"

subsection \<open>Canonical text is decodable\<close>

fun unhex :: "char \<Rightarrow> nat" where
  "unhex c = (if ord_of c < 58 then ord_of c - 48 else ord_of c - 87)"

definition unjson :: "string \<Rightarrow> char \<times> string" where
  "unjson s =
     (if hd s \<noteq> CHR 0x5C then (hd s, tl s)
      else if s ! 1 = CHR ''n'' then (CHR 0x0A, drop 2 s)
      else if s ! 1 = CHR ''r'' then (CHR 0x0D, drop 2 s)
      else if s ! 1 = CHR ''t'' then (CHR 0x09, drop 2 s)
      else if s ! 1 = CHR ''f'' then (CHR 0x0C, drop 2 s)
      else if s ! 1 = CHR ''b'' then (CHR 0x08, drop 2 s)
      else if s ! 1 = CHR ''u'' then (char_of (unhex (s ! 4) * 16 + unhex (s ! 5)), drop 6 s)
      else (s ! 1, drop 2 s))"

lemma unhex_hex_digit: "d < 16 \<Longrightarrow> unhex (hex_digit d) = d"
  by (simp add: hex_digit_def)

lemma char_of_ord_of [simp]: "char_of (ord_of c) = c"
  by (simp add: ord_of_def)

lemma ord_of_eq_iff: "c = d \<longleftrightarrow> ord_of c = ord_of d"
  by (metis char_of_ord_of)

lemma unjson_json_char: "unjson (json_char c @ r) = (c, r)"
proof -
  have hex: "char_of (unhex (hex_digit (ord_of c div 16)) * 16 + unhex (hex_digit (ord_of c mod 16))) = c"
    using ord_of_lt [of c] by (simp only: unhex_hex_digit) (simp add: unhex_hex_digit)
  consider "c = CHR 0x22" | "c = CHR 0x5C" | "c = CHR 0x0A" | "c = CHR 0x0D" | "c = CHR 0x09"
    | "c = CHR 0x0C" | "c = CHR 0x08" | (hex) "json_char c = [CHR 0x5C, CHR ''u'', CHR ''0'', CHR ''0''] @ hex2 c"
    | (plain) "json_char c = [c]" "c \<noteq> CHR 0x5C"
    unfolding json_char_def by argo
  then show ?thesis
    by cases (simp_all add: json_char_def unjson_def hex2_def hex del: unhex.simps)
qed

lemma json_char_hd: "\<exists>x xs. json_char c = x # xs \<and> x \<noteq> CHR 0x22"
  by (auto simp: json_char_def Let_def)

lemma json_chars_prefix:
  "concat (map json_char s) @ CHR 0x22 # r = concat (map json_char t) @ CHR 0x22 # u
   \<Longrightarrow> s = t \<and> r = u"
proof (induction s arbitrary: t)
  case Nil
  then show ?case using json_char_hd [of "hd t"] by (cases t) auto
next
  case (Cons c s)
  then obtain d t' where t: "t = d # t'"
    using json_char_hd [of c] by (cases t) auto
  have "unjson (json_char c @ concat (map json_char s) @ CHR 0x22 # r)
      = unjson (json_char d @ concat (map json_char t') @ CHR 0x22 # u)"
    using Cons.prems t by simp
  then show ?case using Cons.IH [of t'] t by (simp add: unjson_json_char)
qed

lemma json_str_prefix: "json_str s @ r = json_str t @ u \<longleftrightarrow> s = t \<and> r = u"
  using json_chars_prefix [of s r t u] by (auto simp: json_str_def)

lemma json_str_inj: "json_str s = json_str t \<longleftrightarrow> s = t"
  using json_str_prefix [of s "[]" t "[]"] by simp

lemma json_str_Nil [simp]: "json_str s \<noteq> []"
  by (simp add: json_str_def)

lemma join_Cons: "ss \<noteq> [] \<Longrightarrow> join sep (s # ss) = s @ sep @ join sep ss"
  by (cases ss) auto

lemma json_join_prefix:
  "join '','' (map json_str ss) @ CHR '']'' # r = join '','' (map json_str ts) @ CHR '']'' # u
   \<Longrightarrow> ss = ts \<and> r = u"
proof (induction ss arbitrary: ts)
  case Nil
  then show ?case by (cases ts rule: remdups_adj.cases) (auto simp: json_str_def)
next
  case (Cons s ss)
  show ?case
  proof (cases ts)
    case Nil
    with Cons.prems show ?thesis by (cases ss) (auto simp: json_str_def)
  next
    case (Cons t ts')
    show ?thesis
    proof (cases "ss = []"; cases "ts' = []")
      assume "ss = []" "ts' = []"
      with Cons Cons.prems show ?thesis by (simp add: json_str_prefix)
    next
      assume "ss = []" "ts' \<noteq> []"
      with Cons Cons.prems show ?thesis by (simp add: json_str_prefix join_Cons)
    next
      assume "ss \<noteq> []" "ts' = []"
      with Cons Cons.prems show ?thesis by (simp add: json_str_prefix join_Cons)
    next
      assume "ss \<noteq> []" "ts' \<noteq> []"
      with Cons Cons.prems Cons.IH [of ts'] show ?thesis by (simp add: json_str_prefix join_Cons)
    qed
  qed
qed

lemma json_str_list_prefix: "json_str_list ss @ r = json_str_list ts @ u \<longleftrightarrow> ss = ts \<and> r = u"
  using json_join_prefix [of ss r ts u] by (auto simp: json_str_list_def)

text \<open>The nine keys in sorted order.\<close>

lemma canonical_payload_eq:
  "canonical_payload v f =
     ''{'' @ json_str ''action_type'' @ '':'' @ json_str (strip (sf_action_type f)) @
     '','' @ json_str ''case_id'' @ '':'' @ json_str (strip (sf_case_id f)) @
     '','' @ json_str ''channel'' @ '':'' @ json_str (strip (sf_channel f)) @
     '','' @ json_str ''goal'' @ '':'' @ json_str (strip (sf_goal f)) @
     '','' @ json_str ''required_information'' @ '':'' @
       json_str_list (sort (as_list (PList (map PStr (sf_required_information f))))) @
     '','' @ json_str ''schema_version'' @ '':'' @ json_str v @
     '','' @ json_str ''semantic_status'' @ '':'' @ json_str ''FROZEN'' @
     '','' @ json_str ''situation_version'' @ '':'' @ json_str (strip (sf_situation_version f)) @
     '','' @ json_str ''target'' @ '':'' @ json_str (strip (sf_target f)) @ ''}''"
  unfolding canonical_payload_def json_obj_def by simp

text \<open>Equal meaning: the same six identifiers up to surrounding space, the same requested items as a multiset.\<close>

definition same_semantics :: "semantic_fields \<Rightarrow> semantic_fields \<Rightarrow> bool" where
  "same_semantics f g \<longleftrightarrow>
     strip (sf_case_id f) = strip (sf_case_id g) \<and>
     strip (sf_situation_version f) = strip (sf_situation_version g) \<and>
     strip (sf_goal f) = strip (sf_goal g) \<and> strip (sf_action_type f) = strip (sf_action_type g) \<and>
     strip (sf_target f) = strip (sf_target g) \<and> strip (sf_channel f) = strip (sf_channel g) \<and>
     mset (as_list (PList (map PStr (sf_required_information f)))) =
       mset (as_list (PList (map PStr (sf_required_information g))))"

lemma canonical_payload_inj: "canonical_payload v f = canonical_payload v g \<longleftrightarrow> same_semantics f g"
proof -
  have sorted: "sort xs = sort ys \<longleftrightarrow> mset xs = mset ys" for xs ys :: "string list"
    by (metis mset_sort properties_for_sort sorted_sort)
  show ?thesis
    unfolding canonical_payload_eq same_semantics_def
    by (simp add: json_str_prefix json_str_list_prefix json_str_inj sorted) blast
qed

subsection \<open>Version identities\<close>

lemma digits_val_snoc: "digits_val (s @ [c]) = 10 * digits_val s + (ord_of c - 48)"
  by (simp add: digits_val_def)

lemma digit_char_ord: "d < 10 \<Longrightarrow> ord_of (digit_char d) = 48 + d"
  by (simp add: digit_char_def)

lemma digits_val_nat_str: "digits_val (nat_str n) = n"
proof (induction n rule: nat_str.induct)
  case (1 n)
  show ?case
  proof (cases "n < 10")
    case True
    then show ?thesis by (simp add: nat_str.simps [of n] digits_val_def digit_char_ord)
  next
    case False
    then show ?thesis using 1 by (simp add: nat_str.simps [of n] digits_val_snoc digit_char_ord)
  qed
qed

lemma nat_str_digits: "list_all is_digit (nat_str n)"
proof (induction n rule: nat_str.induct)
  case (1 n)
  then show ?case
    by (cases "n < 10") (simp_all add: nat_str.simps [of n] is_digit_def digit_char_ord)
qed

lemma nat_str_inj: "nat_str m = nat_str n \<longleftrightarrow> m = n"
  by (metis digits_val_nat_str)

text \<open>A text that ends in \<open>r\<close> and digits splits in one way.\<close>

lemma digit_suffix_unique:
  assumes "x @ CHR ''r'' # s = y @ CHR ''r'' # t" and "list_all is_digit s" and "list_all is_digit t"
  shows "x = y \<and> s = t"
proof -
  have nr: "\<not> is_digit (CHR ''r'')" by (simp add: is_digit_def ord_of_def)
  have "takeWhile is_digit (rev (x @ CHR ''r'' # s)) = rev s"
    and "takeWhile is_digit (rev (y @ CHR ''r'' # t)) = rev t"
    using assms(2,3) nr by (simp_all add: takeWhile_append list_all_iff)
  with assms(1) show ?thesis by simp
qed

lemma version_id_eq:
  "decision_version_id_of i m = decision_version_id_of j n \<longleftrightarrow> strip i = strip j \<and> max 1 m = max 1 n"
proof -
  have pos: "int_str (max 1 (if k = 0 then 1 else k)) = nat_str (nat (max 1 k))" for k
    by (simp add: int_str_def max_def)
  have split: "s @ '':r'' @ nat_str a = t @ '':r'' @ nat_str b \<longleftrightarrow> s = t \<and> a = b" for s t a b
    using digit_suffix_unique [of "s @ '':''" "nat_str a" "t @ '':''" "nat_str b"]
    by (auto simp: nat_str_digits nat_str_inj)
  have "nat (max 1 m) = nat (max 1 n) \<longleftrightarrow> max 1 m = max 1 n" by (auto simp: max_def split: if_splits)
  then show ?thesis by (simp only: decision_version_id_of_def pos split)
qed

text \<open>Identities survive normalization.\<close>

lemma strip_fixed: "s \<noteq> [] \<Longrightarrow> \<not> is_space (hd s) \<Longrightarrow> \<not> is_space (last s) \<Longrightarrow> strip s = s"
proof -
  assume s: "s \<noteq> []" "\<not> is_space (hd s)" "\<not> is_space (last s)"
  have drop: "dropWhile is_space t = t" if "t \<noteq> []" "\<not> is_space (hd t)" for t
    using that by (cases t) auto
  show ?thesis using s drop [of s] drop [of "rev s"] by (simp add: strip_def hd_rev)
qed

lemma strip_hd: "strip s \<noteq> [] \<Longrightarrow> \<not> is_space (hd (strip s))"
  unfolding strip_def by (metis dropWhile_rev_dropWhile hd_dropWhile)

lemma strip_version_id: "strip i \<noteq> [] \<Longrightarrow> strip (decision_version_id_of i n) = decision_version_id_of i n"
proof -
  assume i: "strip i \<noteq> []"
  let ?k = "nat (max 1 (if n = 0 then 1 else n))"
  have v: "decision_version_id_of i n = strip i @ '':r'' @ nat_str ?k"
    by (simp add: decision_version_id_of_def int_str_def max_def)
  have ne: "nat_str ?k \<noteq> []" by (subst nat_str.simps) simp
  then have "is_digit (last (nat_str ?k))" using nat_str_digits [of ?k] by (simp add: list_all_iff)
  then have "\<not> is_space (last (nat_str ?k))" by (auto simp: is_digit_def is_space_def Let_def)
  then show ?thesis unfolding v using i ne strip_hd [OF i] by (intro strip_fixed) simp_all
qed

subsection \<open>Canonicalization, branch by branch\<close>

definition frozen :: "pydict option \<Rightarrow> bool" where
  "frozen outcome \<longleftrightarrow> (case outcome of None \<Rightarrow> False | Some d \<Rightarrow> dget ''semantic_status'' d = PStr ''FROZEN'')"

lemma frozen_failure [simp]: "\<not> frozen (Some (proposal_failure now prop codes pre))"
  by (simp add: frozen_def proposal_failure_def)

lemma frozen_decision [simp]: "frozen (Some (frozen_decision sha256 now prop f i r))"
  by (simp add: frozen_def frozen_decision_def)

lemma frozen_None [simp]: "\<not> frozen None"
  by (simp add: frozen_def)

lemma code_if_Nil [simp]: "code_if b c = [] \<longleftrightarrow> \<not> b"
  by (simp add: code_if_def)

lemma contract_violations_Nil:
  "contract_violations g a t c req = [] \<longleftrightarrow>
     g = ''obtain_missing_service_information'' \<and> a = ''ask_for_missing_data'' \<and>
     t \<in> set CANONICAL_TARGETS \<and> c = ''mail'' \<and> req \<noteq> []"
  by (auto simp: contract_violations_def CANONICAL_GOALS_def CANONICAL_ACTION_TYPES_def
      CANONICAL_CHANNELS_def ACTION_TYPE_CHANNELS_def)

lemma state_violations_Nil:
  "req \<noteq> [] \<Longrightarrow> state_violations req missing conflicted = [] \<longleftrightarrow>
     lower ` set req \<subseteq> lower ` set missing - set conflicted"
  by (auto simp: state_violations_def list_ex_iff)

lemma canonicalize_frozen_shape:
  assumes "frozen (canonicalize sha256 uuid now proposal cs cid sv did r)"
  obtains p where "proposal = PDict p"
    and "contract_violations (norm_of (dget ''goal'' p)) (norm_of (dget ''action_type'' p))
           (norm_of (dget ''target'' p)) (norm_of (dget ''channel'' p))
           (as_list (dget ''required_information'' p)) = []"
    and "state_reason_codes cs (as_list (dget ''required_information'' p)) = Some []"
    and "canonicalize sha256 uuid now proposal cs cid sv did r =
           Some (frozen_decision sha256 now p (proposal_fields cid sv p)
             (str_or (strip did) (''dec_'' @ take 22 uuid)) (max 1 (if r = 0 then 1 else r)))"
  using assms
  by (auto simp: canonicalize_def Let_def proposal_fields_def split: pyval.splits if_splits option.splits)

lemma as_list_PStrs: "list_all (\<lambda>t. strip t = t \<and> t \<noteq> []) ts \<Longrightarrow> as_list (PList (map PStr ts)) = ts"
  by (induction ts) (auto simp: as_list_def)

lemma canonicalize_frozen_codes:
  "frozen (canonicalize sha256 uuid now (PDict prop) cs cid sv did r) \<longleftrightarrow>
     contract_violations (norm_of (dget ''goal'' prop)) (norm_of (dget ''action_type'' prop))
       (norm_of (dget ''target'' prop)) (norm_of (dget ''channel'' prop))
       (as_list (dget ''required_information'' prop)) = [] \<and>
     state_reason_codes cs (as_list (dget ''required_information'' prop)) = Some []"
  by (auto simp: canonicalize_def Let_def proposal_fields_def split: option.splits)

definition contract_reasons :: "string list" where
  "contract_reasons = [''goal_not_in_contract'', ''action_type_not_in_contract'', ''target_not_in_contract'',
     ''channel_not_in_contract'', ''channel_illegal_for_action_type'', ''required_information_empty'']"

definition state_reasons :: "string list" where
  "state_reasons = [''missing_information_unavailable'', ''required_information_not_in_state'',
     ''conflicted_fact_as_certainty'']"

lemma canonicalize_outcomes:
  "(\<exists>codes. set codes \<subseteq> set (contract_reasons @ state_reasons) \<and> codes \<noteq> [] \<and>
      canonicalize sha256 uuid now (PDict prop) cs cid sv did r = Some (proposal_failure now prop codes [])) \<or>
   (\<exists>i n. canonicalize sha256 uuid now (PDict prop) cs cid sv did r =
      Some (frozen_decision sha256 now prop (proposal_fields cid sv prop) i n)) \<or>
   canonicalize sha256 uuid now (PDict prop) cs cid sv did r = None"
proof -
  let ?f = "proposal_fields cid sv prop" and ?R = "set (contract_reasons @ state_reasons)"
  let ?cv = "contract_violations (sf_goal ?f) (sf_action_type ?f) (sf_target ?f) (sf_channel ?f)
      (sf_required_information ?f)"
  have cv: "set (contract_violations g a t c req) \<subseteq> ?R" for g a t c req
    by (auto simp: contract_violations_def code_if_def contract_reasons_def)
  have sv: "set codes \<subseteq> ?R" if "state_reason_codes cs req = Some codes" for req codes
    using that by (auto simp: state_reason_codes_def state_violations_def code_if_def state_reasons_def
        split: option.splits if_splits)
  show ?thesis
  proof (cases "?cv = []")
    case False
    then have "canonicalize sha256 uuid now (PDict prop) cs cid sv did r = Some (proposal_failure now prop ?cv [])"
      by (simp add: canonicalize_def Let_def)
    with False cv show ?thesis by blast
  next
    case True
    show ?thesis
    proof (cases "state_reason_codes cs (sf_required_information ?f)")
      case None
      with True show ?thesis by (simp add: canonicalize_def Let_def)
    next
      case (Some codes)
      with True have "canonicalize sha256 uuid now (PDict prop) cs cid sv did r =
          (if codes \<noteq> [] then Some (proposal_failure now prop codes [])
           else Some (frozen_decision sha256 now prop ?f (str_or (strip did) (''dec_'' @ take 22 uuid))
             (max 1 (if r = 0 then 1 else r))))"
        by (simp add: canonicalize_def Let_def)
      with sv [OF Some] show ?thesis by (cases "codes = []") auto
    qed
  qed
qed

lemma reason_codes_normal:
  "set codes \<subseteq> set (contract_reasons @ state_reasons) \<Longrightarrow> as_list (PList (map PStr codes)) = codes"
proof -
  assume "set codes \<subseteq> set (contract_reasons @ state_reasons)"
  moreover have "list_all (\<lambda>t. strip t = t \<and> t \<noteq> []) (contract_reasons @ state_reasons)"
    by code_simp
  ultimately show ?thesis by (intro as_list_PStrs) (auto simp: list_all_iff)
qed

lemma as_list_normal: "list_all (\<lambda>t. strip t = t \<and> t \<noteq> []) (as_list v)"
  by (auto simp: as_list_def list_all_iff)

lemma as_list_idem [simp]: "as_list (PList (map PStr (as_list v))) = as_list v"
  by (rule as_list_PStrs [OF as_list_normal])

lemma as_float_range: "0 \<le> as_float v \<and> as_float v \<le> 1"
  by (simp add: as_float_def split: option.split pyfloat.split)

subsection \<open>Properties\<close>

text \<open>
  Property C35.  When a proposal becomes a decision: exactly when its four semantic fields are in
  the contract (the goal and the action type of the slice, a known target, the mail channel), it
  asks for something, the case's state can be read, and every item it asks for is among the
  information the state says is missing and none is a conflicted fact.
\<close>

theorem canonicalize_frozen_iff:
  "frozen (canonicalize sha256 uuid now (PDict prop) cs cid sv did r) \<longleftrightarrow>
     norm_of (dget ''goal'' prop) = ''obtain_missing_service_information'' \<and>
     norm_of (dget ''action_type'' prop) = ''ask_for_missing_data'' \<and>
     norm_of (dget ''target'' prop) \<in> set CANONICAL_TARGETS \<and>
     norm_of (dget ''channel'' prop) = ''mail'' \<and>
     as_list (dget ''required_information'' prop) \<noteq> [] \<and>
     (\<exists>missing conflicted.
        state_missing_information (cs_situation_understanding cs) (cs_case_context_pack cs)
          (cs_intake_result cs) = Some missing \<and>
        conflicted_fact_keys (cs_case_context_pack cs) = Some conflicted \<and>
        lower ` set (as_list (dget ''required_information'' prop)) \<subseteq> lower ` set missing - set conflicted)"
proof -
  let ?req = "as_list (dget ''required_information'' prop)"
  have "state_reason_codes cs ?req = Some [] \<longleftrightarrow>
     (\<exists>missing conflicted.
        state_missing_information (cs_situation_understanding cs) (cs_case_context_pack cs)
          (cs_intake_result cs) = Some missing \<and>
        conflicted_fact_keys (cs_case_context_pack cs) = Some conflicted \<and>
        lower ` set ?req \<subseteq> lower ` set missing - set conflicted)" if "?req \<noteq> []"
    by (auto simp: state_reason_codes_def state_violations_Nil [OF that] split: option.splits)
  then show ?thesis by (auto simp: canonicalize_frozen_codes contract_violations_Nil)
qed

text \<open>
  Property C36.  A frozen decision is the proposal, unchanged: it carries the proposal's goal,
  action type, target, channel and requested items, its version identity is that of its own
  decision id and revision, its hash is the semantic hash of the very fields it carries, its
  revision is at least 1, its status CURRENT and its confidence between 0 and 1.
\<close>

theorem frozen_decision_conserves:
  assumes "canonicalize sha256 uuid now (PDict prop) cs cid sv did r = Some d"
    and "dget ''semantic_status'' d = PStr ''FROZEN''"
  shows "norm_of (dget ''goal'' d) = norm_of (dget ''goal'' prop) \<and>
    norm_of (dget ''action_type'' d) = norm_of (dget ''action_type'' prop) \<and>
    norm_of (dget ''target'' d) = norm_of (dget ''target'' prop) \<and>
    norm_of (dget ''channel'' d) = norm_of (dget ''channel'' prop) \<and>
    as_list (dget ''required_information'' d) = as_list (dget ''required_information'' prop) \<and>
    dget ''semantic_hash'' d = PStr (semantic_hash_of sha256
      (proposal_fields (norm_of (dget ''case_id'' d)) (norm_of (dget ''situation_version'' d)) d)) \<and>
    (\<exists>i n c. dget ''decision_id'' d = PStr i \<and> dget ''revision'' d = PInt n \<and> 1 \<le> n \<and>
       dget ''decision_version_id'' d = PStr (decision_version_id_of i n) \<and>
       dget ''confidence'' d = PFloat c \<and> 0 \<le> c \<and> c \<le> 1) \<and>
    dget ''revision_status'' d = PStr ''CURRENT''"
proof -
  have "frozen (canonicalize sha256 uuid now (PDict prop) cs cid sv did r)"
    using assms by (simp add: frozen_def)
  then have "d = frozen_decision sha256 now prop (proposal_fields cid sv prop)
      (str_or (strip did) (''dec_'' @ take 22 uuid)) (max 1 (if r = 0 then 1 else r))"
    by (rule canonicalize_frozen_shape) (use assms(1) in simp)
  then show ?thesis
    by (simp add: frozen_decision_def proposal_fields_def as_float_range)
qed

definition sample_br :: pyval where
  "sample_br = PDict [(''recommended_next_action'', PStr ''collect_data''),
     (''missing_information'', PList [PStr ''Adres'', PStr ''telefon'']), (''confidence'', PFloat (3/4))]"

definition sample_proposal :: pydict where
  "sample_proposal = the (build_business_decision_proposal ''ab'' sample_br)"

definition sample_canon_state :: canon_state where
  "sample_canon_state = \<lparr>cs_situation_understanding = PDict [(''missing_information'', PList [PStr ''adres''])],
     cs_case_context_pack = PDict [(''completeness_gaps'', PList [PDict [(''label'', PStr ''Telefon'')]])],
     cs_intake_result = PNone\<rparr>"

lemma sample_codes:
  "contract_violations (norm_of (dget ''goal'' sample_proposal)) (norm_of (dget ''action_type'' sample_proposal))
     (norm_of (dget ''target'' sample_proposal)) (norm_of (dget ''channel'' sample_proposal))
     (as_list (dget ''required_information'' sample_proposal)) = []"
  by code_simp

lemma sample_state_codes:
  "state_reason_codes sample_canon_state (as_list (dget ''required_information'' sample_proposal)) = Some []"
  by code_simp

lemma sample_frozen:
  "frozen (canonicalize sha256 uuid now (PDict sample_proposal) sample_canon_state cid sv did r)"
  by (simp add: canonicalize_frozen_codes sample_codes sample_state_codes)

theorem frozen_decision_conserves_witness:
  "\<exists>d. canonicalize id ''ab'' ''t'' (PDict sample_proposal) sample_canon_state ''case-1'' ''v1'' [] 1 = Some d \<and>
     norm_of (dget ''action_type'' d) = norm_of (dget ''action_type'' sample_proposal) \<and>
     as_list (dget ''required_information'' d) = as_list (dget ''required_information'' sample_proposal)"
proof -
  obtain d where d: "canonicalize id ''ab'' ''t'' (PDict sample_proposal) sample_canon_state ''case-1'' ''v1'' [] 1 = Some d"
      "dget ''semantic_status'' d = PStr ''FROZEN''"
    using sample_frozen [of id "''ab''" "''t''" "''case-1''" "''v1''" "[]" 1]
    by (auto simp: frozen_def split: option.splits)
  show ?thesis using frozen_decision_conserves [OF d] d(1) by blast
qed

text \<open>
  Property C37.  The semantic hash is the meaning: if the truncated digest does not collide on the
  two canonical texts at hand, two decisions have the same hash exactly when they agree on case,
  situation, goal, action, target, channel and the multiset of requested items; time, rationale,
  confidence and the order of the items do not enter.
\<close>

theorem semantic_hash_is_meaning:
  fixes f g :: semantic_fields
  assumes "take 32 (sha256 (canonical_payload CANONICAL_ACTION_DECISION_SCHEMA_VERSION f)) =
       take 32 (sha256 (canonical_payload CANONICAL_ACTION_DECISION_SCHEMA_VERSION g)) \<Longrightarrow>
     canonical_payload CANONICAL_ACTION_DECISION_SCHEMA_VERSION f =
       canonical_payload CANONICAL_ACTION_DECISION_SCHEMA_VERSION g"
  shows "semantic_hash_of sha256 f = semantic_hash_of sha256 g \<longleftrightarrow> same_semantics f g"
  using assms canonical_payload_inj [of CANONICAL_ACTION_DECISION_SCHEMA_VERSION f g]
  by (auto simp only: semantic_hash_of_def append_same_eq same_append_eq)

definition sample_fields :: "string list \<Rightarrow> semantic_fields" where
  "sample_fields req = \<lparr>sf_case_id = ''c'', sf_situation_version = ''v'', sf_goal = ''g'',
     sf_action_type = ''a'', sf_target = ''t'', sf_channel = ''mail'', sf_required_information = req\<rparr>"

text \<open>A stand-in digest that tells the two sample texts apart.\<close>

definition sample_digest :: "string \<Rightarrow> string" where
  "sample_digest text = nat_str (length text)"

theorem semantic_hash_is_meaning_witness:
  "semantic_hash_of sample_digest (sample_fields [''x'', ''yy'']) = semantic_hash_of sample_digest (sample_fields [''yy '', ''x''])
   \<and> semantic_hash_of sample_digest (sample_fields [''x'']) \<noteq> semantic_hash_of sample_digest (sample_fields [''yy''])"
proof
  have same: "same_semantics (sample_fields [''x'', ''yy'']) (sample_fields [''yy '', ''x''])"
    by (simp add: same_semantics_def sample_fields_def as_list_def py_eval)
  then show "semantic_hash_of sample_digest (sample_fields [''x'', ''yy'']) =
      semantic_hash_of sample_digest (sample_fields [''yy '', ''x''])"
    by (subst semantic_hash_is_meaning) (simp_all add: canonical_payload_inj)
next
  have "\<not> same_semantics (sample_fields [''x'']) (sample_fields [''yy''])"
    by (simp add: same_semantics_def sample_fields_def as_list_def py_eval)
  moreover have "take 32 (sample_digest (canonical_payload CANONICAL_ACTION_DECISION_SCHEMA_VERSION (sample_fields [''x'']))) \<noteq>
      take 32 (sample_digest (canonical_payload CANONICAL_ACTION_DECISION_SCHEMA_VERSION (sample_fields [''yy''])))"
    by code_simp
  ultimately show "semantic_hash_of sample_digest (sample_fields [''x'']) \<noteq> semantic_hash_of sample_digest (sample_fields [''yy''])"
    by (subst semantic_hash_is_meaning) simp_all
qed

text \<open>
  Version identities are unambiguous: two decision versions have the same identity
  exactly when they have the same decision id (up to surrounding space) and the same revision.
\<close>

theorem version_id_unambiguous:
  "decision_version_id_of i m = decision_version_id_of j n \<longleftrightarrow> strip i = strip j \<and> max 1 m = max 1 n"
  by (rule version_id_eq)

text \<open>
  The stage helper decides once: for a \<open>collect_data\<close> recommendation exactly one of
  decision and failure is there, the failure names at least one reason code and maps to the
  \<open>NEEDS_REVIEW\<close> workflow state with those codes; for any other recommendation both are absent.
\<close>

theorem stage_decides_once:
  "case build_canonical_decision_for_stage sha256 u1 u2 now br cs cid sv of
     None \<Rightarrow> norm_of (dget ''recommended_next_action'' (as_dict br)) = ''collect_data''
   | Some (None, None) \<Rightarrow> norm_of (dget ''recommended_next_action'' (as_dict br)) \<noteq> ''collect_data''
   | Some (Some d, None) \<Rightarrow> norm_of (dget ''recommended_next_action'' (as_dict br)) = ''collect_data'' \<and>
       canonical_decision_code (PDict d) = ''ask_for_missing_data''
   | Some (None, Some e) \<Rightarrow> norm_of (dget ''recommended_next_action'' (as_dict br)) = ''collect_data'' \<and>
       as_list (dget ''reason_codes'' e) \<noteq> [] \<and>
       dget ''workflow_state'' (canonicalization_failure_review_state (PDict e)) = PStr ''NEEDS_REVIEW'' \<and>
       as_list (dget ''reason_codes'' (canonicalization_failure_review_state (PDict e))) =
         as_list (dget ''reason_codes'' e)
   | Some (Some d, Some e) \<Rightarrow> False"
proof (cases "build_business_decision_proposal u1 br")
  case None
  then show ?thesis
    by (auto simp: build_canonical_decision_for_stage_def build_business_decision_proposal_def Let_def
        split: if_splits)
next
  case (Some p)
  then have collect: "norm_of (dget ''recommended_next_action'' (as_dict br)) = ''collect_data''"
    and action: "norm_of (dget ''action_type'' p) = ''ask_for_missing_data''"
    by (auto simp: build_business_decision_proposal_def Let_def strip_def is_space_def ord_of_def split: if_splits)
  have "strip ''ask_for_missing_data'' = ''ask_for_missing_data''"
    by (simp add: strip_def is_space_def ord_of_def)
  then show ?thesis
    using Some collect action canonicalize_outcomes [of sha256 u2 now p cs cid sv "[]" 1] reason_codes_normal
    by (auto simp: build_canonical_decision_for_stage_def frozen_decision_def proposal_fields_def
        proposal_failure_def canonical_decision_code_def canonicalization_failure_review_state_def)
qed

end
