(* ===== verification/Decision_Store.thy ===== *)
theory Decision_Store
  imports Prelude
begin

text \<open>
  The durable side of a decision's revision history: the decision-revision tables of the in-memory
  mailbox store (\<open>mailbox_memory/inmemory.py\<close>), the reference implementation of the store the
  revision ledger writes through to.

  The two tables are association lists in insertion order, keyed by version and by request id.
  \<open>accept_decision_revision_transition\<close> raises before it writes anything, so an exception leaves
  the store as it was.  The sort of a fetch converts every revision number with \<open>int\<close>; a row on
  which this raises makes the fetch raise (\<open>None\<close>).  The store's lock makes every operation
  atomic, so an operation is one step.

  The locale \<open>revision_store\<close> is what a client of the tables relies on; it is interpreted on the
  functions below.
\<close>

subsection \<open>Operations\<close>

record decision_store =
  decision_revisions :: "(string \<times> pydict) list"
  decision_revision_requests :: "(string \<times> pydict) list"

definition empty_store :: decision_store where
  "empty_store = \<lparr>decision_revisions = [], decision_revision_requests = []\<rparr>"

datatype store_error = TransitionIncomplete | OldNotCurrent | VersionExists string

definition setdefault :: "string \<Rightarrow> pyval \<Rightarrow> pydict \<Rightarrow> pydict" where
  "setdefault k v d = (if dhas k d then d else d @ [(k, v)])"

definition append_decision_revision :: "pydict \<Rightarrow> decision_store \<Rightarrow> decision_store" where
  "append_decision_revision row st =
     (let version_id = norm_of (dget ''decision_version_id'' row) in
      if version_id = [] then st
      else case map_of (decision_revisions st) version_id of
             Some _ \<Rightarrow> st
           | None \<Rightarrow>
               (let payload = setdefault ''superseded_by_version_id'' (PStr [])
                      (setdefault ''supersedes_version_id'' (PStr [])
                        (setdefault ''revision_status'' (PStr ''CURRENT'') row))
                in st\<lparr>decision_revisions := AList.update version_id payload (decision_revisions st)\<rparr>))"

definition append_decision_revision_request :: "pydict \<Rightarrow> decision_store \<Rightarrow> decision_store" where
  "append_decision_revision_request row st =
     (let request_id = norm_of (dget ''request_id'' row) in
      if request_id = [] then st
      else let payload = setdefault ''reject_reason'' (PStr []) row;
               stored = (case map_of (decision_revision_requests st) request_id of
                   None \<Rightarrow> payload
                 | Some existing \<Rightarrow>
                     (let e1 = AList.update ''status''
                            (py_or (dget ''status'' payload) (py_or (dget ''status'' existing) (PStr ''PENDING'')))
                            existing
                      in AList.update ''reject_reason''
                           (py_or (dget ''reject_reason'' payload) (py_or (dget ''reject_reason'' e1) (PStr []))) e1))
           in st\<lparr>decision_revision_requests :=
                   AList.update request_id stored (decision_revision_requests st)\<rparr>)"

definition accept_decision_revision_transition ::
  "pydict \<Rightarrow> pydict \<Rightarrow> pydict \<Rightarrow> decision_store \<Rightarrow> store_error + decision_store" where
  "accept_decision_revision_transition old_cad new_cad request st =
     (let old_version = norm_of (dget ''decision_version_id'' old_cad);
          new_version = norm_of (dget ''decision_version_id'' new_cad);
          request_id = norm_of (dget ''request_id'' request);
          decision_id = norm_of (dget ''decision_id'' old_cad)
      in if decision_id = [] \<or> old_version = [] \<or> new_version = [] \<or> request_id = []
         then Inl TransitionIncomplete
         else case map_of (decision_revisions st) old_version of
                None \<Rightarrow> Inl OldNotCurrent
              | Some old_row \<Rightarrow>
                  if text_of (dget ''revision_status'' old_row) \<noteq> ''CURRENT'' then Inl OldNotCurrent
                  else if map_of (decision_revisions st) new_version \<noteq> None then Inl (VersionExists new_version)
                  else
                    (let superseded = AList.update ''superseded_by_version_id'' (PStr new_version)
                           (AList.update ''revision_status'' (PStr ''SUPERSEDED'') old_row);
                         new_row = AList.update ''supersedes_version_id'' (PStr old_version)
                           (AList.update ''revision_status'' (PStr ''CURRENT'') new_cad);
                         accepted = (case map_of (decision_revision_requests st) request_id of
                             Some existing \<Rightarrow> AList.update ''status'' (PStr ''ACCEPTED'') existing
                           | None \<Rightarrow> AList.update ''reject_reason'' (PStr [])
                               (AList.update ''status'' (PStr ''ACCEPTED'') request))
                     in Inr (st\<lparr>
                          decision_revisions := AList.update new_version new_row
                            (AList.update old_version superseded (decision_revisions st)),
                          decision_revision_requests :=
                            AList.update request_id accepted (decision_revision_requests st)\<rparr>)))"

text \<open>\<open>int (item.get (key) or 0)\<close>.\<close>

definition int_field :: "string \<Rightarrow> pydict \<Rightarrow> int option" where
  "int_field k row = py_int (py_or (dget k row) (PInt 0))"

text \<open>A stable sort by an integer field, which raises when one of the conversions does.\<close>

definition sort_by_int :: "string \<Rightarrow> pydict list \<Rightarrow> pydict list option" where
  "sort_by_int k rows =
     (if list_all (\<lambda>row. int_field k row \<noteq> None) rows
      then Some (sort_key (\<lambda>row. the (int_field k row)) rows) else None)"

definition fetch_decision_revisions :: "string \<Rightarrow> decision_store \<Rightarrow> pydict list option" where
  "fetch_decision_revisions decision_id st =
     sort_by_int ''revision''
       (filter (\<lambda>item. norm_of (dget ''decision_id'' item) = strip decision_id)
         (map snd (decision_revisions st)))"

definition request_time_key :: "pydict \<Rightarrow> string" where
  "request_time_key item = text_of (py_or (dget ''requested_at'' item) (dget ''created_at'' item))"

definition fetch_decision_revision_requests :: "string \<Rightarrow> decision_store \<Rightarrow> pydict list" where
  "fetch_decision_revision_requests decision_id st =
     sort_key request_time_key
       (filter (\<lambda>item. norm_of (dget ''decision_id'' item) = strip decision_id)
         (map snd (decision_revision_requests st)))"

definition list_decision_lineage_ids :: "decision_store \<Rightarrow> string list" where
  "list_decision_lineage_ids st =
     sort (remdups (filter (\<lambda>i. i \<noteq> [])
       (map (\<lambda>item. norm_of (dget ''decision_id'' item)) (map snd (decision_revisions st)))))"

subsection \<open>Histories\<close>

text \<open>
  What matters of a row for the revision history: its version, its revision number and whether it
  is current.  A history is the list of these views, oldest first.
\<close>

abbreviation did :: "pydict \<Rightarrow> string" where
  "did row \<equiv> norm_of (dget ''decision_id'' row)"

abbreviation ver :: "pydict \<Rightarrow> string" where
  "ver row \<equiv> norm_of (dget ''decision_version_id'' row)"

abbreviation cur :: "pydict \<Rightarrow> bool" where
  "cur row \<equiv> norm_of (dget ''revision_status'' row) = ''CURRENT''"

type_synonym row_view = "string \<times> int option \<times> bool"

definition view :: "pydict \<Rightarrow> row_view" where
  "view row = (ver row, int_field ''revision'' row, cur row)"

definition rows_of :: "string \<Rightarrow> decision_store \<Rightarrow> pydict list" where
  "rows_of i st = filter (\<lambda>row. did row = i) (map snd (decision_revisions st))"

definition hist :: "decision_store \<Rightarrow> string \<Rightarrow> row_view list" where
  "hist st i = map view (rows_of i st)"

text \<open>
  A row a decision boundary writes: identified by its own decision id and version, with a revision
  number and one of the two statuses.
\<close>

definition wf_row :: "pydict \<Rightarrow> bool" where
  "wf_row row \<longleftrightarrow> did row \<noteq> [] \<and> ver row \<noteq> [] \<and> int_field ''revision'' row \<noteq> None \<and>
     (dget ''revision_status'' row = PStr ''CURRENT'' \<or> dget ''revision_status'' row = PStr ''SUPERSEDED'')"

definition store_ok :: "decision_store \<Rightarrow> bool" where
  "store_ok st \<longleftrightarrow> distinct (map fst (decision_revisions st)) \<and>
     list_all (\<lambda>(k, row). ver row = k \<and> wf_row row) (decision_revisions st)"

text \<open>A decision's history: consecutive revisions of distinct versions, the last one and only it current.\<close>

definition chain :: "row_view list \<Rightarrow> bool" where
  "chain h \<longleftrightarrow> h = [] \<or>
     (distinct (map fst h) \<and> (\<exists>a. map (fst \<circ> snd) h = map (\<lambda>k. Some (a + int k)) [0..<length h]) \<and>
      map (snd \<circ> snd) h = replicate (length h - 1) False @ [True])"

definition supersede :: "row_view list \<Rightarrow> row_view \<Rightarrow> row_view list" where
  "supersede h new = map (\<lambda>(v, n, c). (v, n, False)) h @ [new]"

subsection \<open>Lemmas on histories\<close>

lemma chain_Nil [simp]: "chain []"
  by (simp add: chain_def)

lemma chain_single [simp]: "chain [(v, n, c)] \<longleftrightarrow> n \<noteq> None \<and> c"
  by (cases n) (auto simp: chain_def intro: exI)

lemma chain_split:
  assumes "chain h" and "h \<noteq> []"
  obtains g v n where "h = g @ [(v, Some n, True)]" and "\<forall>e \<in> set g. \<not> snd (snd e)"
    and "v \<notin> set (map fst g)"
    and "map (fst \<circ> snd) h = map (\<lambda>k. Some (n + 1 - int (length h) + int k)) [0..<length h]"
proof -
  obtain g e where h: "h = g @ [e]" using assms(2) by (metis append_butlast_last_id)
  obtain a where a: "map (fst \<circ> snd) h = map (\<lambda>k. Some (a + int k)) [0..<length h]"
    using assms unfolding chain_def by blast
  have flags: "map (snd \<circ> snd) g = replicate (length g) False" "snd (snd e)"
    using assms unfolding chain_def h by auto
  then have g: "\<forall>e \<in> set g. \<not> snd (snd e)"
    by (metis comp_apply image_eqI in_set_replicate list.set_map)
  have "fst (snd e) = Some (a + int (length g))" using a unfolding h by simp
  then have "e = (fst e, Some (a + int (length g)), True)" using flags(2) by (cases e) auto
  moreover have "fst e \<notin> set (map fst g)" using assms unfolding chain_def h by auto
  ultimately show ?thesis
    using that [of g "fst e" "a + int (length g)"] h g a by (simp add: algebra_simps)
qed

lemma chain_current: "chain h \<Longrightarrow> h \<noteq> [] \<Longrightarrow> filter (\<lambda>e. snd (snd e)) h = [last h]"
  by (erule (1) chain_split) (simp add: filter_empty_conv)

lemma chain_last: "chain h \<Longrightarrow> h \<noteq> [] \<Longrightarrow> snd (snd (last h)) \<and> fst (snd (last h)) \<noteq> None"
  by (erule (1) chain_split) simp

lemma chain_distinct: "chain h \<Longrightarrow> distinct (map fst h)"
  by (auto simp: chain_def)

lemma chain_supersede:
  assumes "chain h" and "h \<noteq> []" and "fst (snd (last h)) = Some n" and "v \<notin> set (map fst h)"
  shows "chain (supersede h (v, Some (n + 1), True))"
proof -
  from assms(1,2) obtain g w m where h: "h = g @ [(w, Some m, True)]"
    and nums: "map (fst \<circ> snd) h = map (\<lambda>k. Some (m + 1 - int (length h) + int k)) [0..<length h]"
    by (rule chain_split)
  have n: "n = m" using assms(3) h by simp
  have keep: "map fst (map (\<lambda>(v, n, c). (v, n, False)) h) = map fst h"
    "map (fst \<circ> snd) (map (\<lambda>(v, n, c). (v, n, False)) h) = map (fst \<circ> snd) h"
    "map (snd \<circ> snd) (map (\<lambda>(v, n, c). (v, n, False)) h) = replicate (length h) False"
    by (simp_all add: case_prod_beta comp_def map_replicate_const)
  have "map (fst \<circ> snd) (supersede h (v, Some (n + 1), True)) =
      map (\<lambda>k. Some (m + 1 - int (length h) + int k)) [0..<length (supersede h (v, Some (n + 1), True))]"
    unfolding supersede_def map_append keep nums by (simp add: n)
  moreover have "distinct (map fst (supersede h (v, Some (n + 1), True)))"
    unfolding supersede_def map_append keep using chain_distinct [OF assms(1)] assms(4) by simp
  moreover have "map (snd \<circ> snd) (supersede h (v, Some (n + 1), True)) =
      replicate (length (supersede h (v, Some (n + 1), True)) - 1) False @ [True]"
    unfolding supersede_def map_append keep by simp
  ultimately show ?thesis unfolding chain_def by blast
qed

lemma chain_sorted: "chain h \<Longrightarrow> sorted (map (\<lambda>e. the (fst (snd e))) h)"
proof (cases "h = []")
  case False
  assume "chain h"
  with False obtain a where "map (fst \<circ> snd) h = map (\<lambda>k. Some (a + int k)) [0..<length h]"
    unfolding chain_def by blast
  then have "map the (map (fst \<circ> snd) h) = map the (map (\<lambda>k. Some (a + int k)) [0..<length h])"
    by (simp only:)
  then have "map (\<lambda>e. the (fst (snd e))) h = map (\<lambda>k. a + int k) [0..<length h]"
    by (simp add: comp_def)
  then show ?thesis by (simp add: sorted_iff_nth_mono)
qed simp

lemma chain_number_bound:
  assumes "chain h" and "(v, Some m, c) \<in> set h" and "fst (snd (last h)) = Some n"
  shows "m \<le> n"
proof -
  have ne: "h \<noteq> []" using assms(2) by auto
  from assms(1) ne obtain g w k where h: "h = g @ [(w, Some k, True)]"
    and nums: "map (fst \<circ> snd) h = map (\<lambda>j. Some (k + 1 - int (length h) + int j)) [0..<length h]"
    by (rule chain_split)
  have "Some m \<in> set (map (fst \<circ> snd) h)" using assms(2) by force
  then obtain j where "j < length h" "m = k + 1 - int (length h) + int j" unfolding nums by auto
  then have "m \<le> k" by linarith
  with h assms(3) show ?thesis by simp
qed

subsection \<open>Lemmas on the tables\<close>

lemma dget_setdefault:
  "dget k (setdefault k' v d) = (if k = k' \<and> \<not> dhas k' d then v else dget k d)"
  by (auto simp: setdefault_def dget_def dhas_def map_add_def split: option.splits)

lemma dhas_iff: "dget k d \<noteq> PNone \<Longrightarrow> dhas k d"
  by (cases "map_of d k") (simp_all add: dget_def dhas_def)

lemma update_new: "k \<notin> fst ` set xs \<Longrightarrow> AList.update k v xs = xs @ [(k, v)]"
  by (induction xs) auto

lemma update_at:
  "distinct (map fst xs) \<Longrightarrow> k \<in> fst ` set xs \<Longrightarrow>
   AList.update k v xs = map (\<lambda>(k', w). if k' = k then (k, v) else (k', w)) xs"
proof (induction xs)
  case (Cons x xs)
  show ?case
  proof (cases "fst x = k")
    case True
    then have "map (\<lambda>(k', w). if k' = k then (k, v) else (k', w)) xs = xs"
      using Cons.prems by (intro map_idI) (auto simp: rev_image_eqI)
    with True show ?thesis by (cases x) simp
  next
    case False
    with Cons show ?thesis by (cases x) auto
  qed
qed simp

lemma store_ok_row:
  assumes "store_ok st" and "(k, row) \<in> set (decision_revisions st)"
  shows "ver row = k \<and> wf_row row \<and> row \<in> set (rows_of (did row) st)"
proof -
  have "ver row = k \<and> wf_row row" using assms unfolding store_ok_def list_all_iff by blast
  moreover have "row \<in> set (map snd (decision_revisions st))" using assms(2) by force
  ultimately show ?thesis by (simp add: rows_of_def)
qed

lemma rows_of_wf:
  assumes "store_ok st" and "row \<in> set (rows_of i st)"
  shows "wf_row row \<and> did row = i \<and> (ver row, row) \<in> set (decision_revisions st)"
proof -
  obtain k where k: "(k, row) \<in> set (decision_revisions st)" and "did row = i"
    using assms(2) by (auto simp: rows_of_def)
  with store_ok_row [OF assms(1) k] show ?thesis by simp
qed

lemma hist_versions: "fst ` set (hist st i) = ver ` set (rows_of i st)"
  by (simp add: hist_def view_def image_image)

lemma version_fresh:
  assumes "store_ok st" and "\<forall>i. v \<notin> fst ` set (hist st i)"
  shows "v \<notin> fst ` set (decision_revisions st)"
  using assms store_ok_row by (fastforce simp: hist_versions)

lemma rows_of_update_new:
  assumes "v \<notin> fst ` set (decision_revisions st)"
  shows "rows_of i (st\<lparr>decision_revisions := AList.update v row (decision_revisions st)\<rparr>) =
    rows_of i st @ (if did row = i then [row] else [])"
  using assms by (simp add: rows_of_def update_new)

lemma rows_of_update_at:
  assumes "store_ok st" and "(v, old) \<in> set (decision_revisions st)" and "did row = did old"
  shows "rows_of i (st\<lparr>decision_revisions := AList.update v row (decision_revisions st)\<rparr>) =
    map (\<lambda>r. if ver r = v then row else r) (rows_of i st)"
proof -
  have d: "distinct (map fst (decision_revisions st))" and k: "v \<in> fst ` set (decision_revisions st)"
    using assms by (auto simp: store_ok_def rev_image_eqI)
  have "filter (\<lambda>r. did r = i) (map snd (map (\<lambda>(k', w). if k' = v then (v, row) else (k', w)) xs)) =
      map (\<lambda>r. if ver r = v then row else r) (filter (\<lambda>r. did r = i) (map snd xs))"
    if "\<forall>(k, r) \<in> set xs. ver r = k \<and> (k = v \<longrightarrow> did r = did row)" for xs
    using that by (induction xs) auto
  moreover have "\<forall>(k, r) \<in> set (decision_revisions st). ver r = k \<and> (k = v \<longrightarrow> did r = did row)"
    using assms d store_ok_row [OF assms(1)] by (auto dest: map_of_is_SomeI [OF d])
  ultimately show ?thesis
    by (simp add: rows_of_def update_at [OF d k])
qed

lemma store_ok_update:
  assumes "store_ok st" and "wf_row row" and "ver row = v"
  shows "store_ok (st\<lparr>decision_revisions := AList.update v row (decision_revisions st)\<rparr>)"
proof -
  have "set (AList.update v row xs) \<subseteq> insert (v, row) (set xs)" for xs
    by (induction xs) auto
  then show ?thesis
    using assms distinct_update [of "decision_revisions st" v row] unfolding store_ok_def list_all_iff by fastforce
qed

lemma view_eq: "view row = (v, n, c) \<longleftrightarrow> ver row = v \<and> int_field ''revision'' row = n \<and> cur row = c"
  by (simp add: view_def)

lemma current_strip: "strip ''CURRENT'' = ''CURRENT''" "strip ''SUPERSEDED'' = ''SUPERSEDED''"
  by (simp_all add: strip_def is_space_def ord_of_def)

lemma insert_hist:
  assumes "store_ok st" and "wf_row row" and "\<forall>i. ver row \<notin> fst ` set (hist st i)"
  shows "store_ok (st\<lparr>decision_revisions := AList.update (ver row) row (decision_revisions st)\<rparr>) \<and>
    hist (st\<lparr>decision_revisions := AList.update (ver row) row (decision_revisions st)\<rparr>) =
      (hist st)(did row := hist st (did row) @ [view row])"
  using store_ok_update [OF assms(1,2) refl] version_fresh [OF assms(1,3)]
  by (auto simp: fun_eq_iff hist_def rows_of_update_new)

lemma append_hist:
  assumes "store_ok st" and "wf_row row" and "cur row" and "\<forall>i. ver row \<notin> fst ` set (hist st i)"
  shows "store_ok (append_decision_revision row st) \<and>
    hist (append_decision_revision row st) = (hist st)(did row := hist st (did row) @ [view row])"
proof -
  let ?p = "setdefault ''superseded_by_version_id'' (PStr []) (setdefault ''supersedes_version_id'' (PStr [])
      (setdefault ''revision_status'' (PStr ''CURRENT'') row))"
  have none: "map_of (decision_revisions st) (ver row) = None"
    using version_fresh [OF assms(1,4)] by (simp add: map_of_eq_None_iff)
  have has: "dhas ''revision_status'' row" using assms(2) by (auto simp: wf_row_def intro!: dhas_iff)
  have same: "did ?p = did row" "ver ?p = ver row" "dget ''revision_status'' ?p = dget ''revision_status'' row"
    "int_field ''revision'' ?p = int_field ''revision'' row"
    using has by (simp_all add: dget_setdefault int_field_def)
  then have v: "view ?p = view row" by (simp add: view_def)
  have wf: "wf_row ?p" using assms(2) unfolding wf_row_def same .
  have "append_decision_revision row st =
      st\<lparr>decision_revisions := AList.update (ver ?p) ?p (decision_revisions st)\<rparr>"
    unfolding same using assms(2) none by (simp add: append_decision_revision_def wf_row_def Let_def)
  with insert_hist [OF assms(1) wf] assms(4) show ?thesis unfolding same v by simp
qed

text \<open>The current row of a history is in the table and says so.\<close>

lemma current_row:
  assumes ok: "store_ok st" and ch: "chain (hist st i)" and ne: "hist st i \<noteq> []"
  obtains row n where "map_of (decision_revisions st) (fst (last (hist st i))) = Some row"
    and "wf_row row" and "did row = i" and "view row = last (hist st i)"
    and "last (hist st i) = (fst (last (hist st i)), Some n, True)"
    and "dget ''revision_status'' row = PStr ''CURRENT''"
proof -
  from chain_last [OF ch ne] obtain n where l: "last (hist st i) = (fst (last (hist st i)), Some n, True)"
    by (cases "last (hist st i)") auto
  from ne have "last (hist st i) \<in> set (hist st i)" by simp
  then obtain row where row: "row \<in> set (rows_of i st)" "view row = last (hist st i)"
    unfolding hist_def by auto
  then have vr: "view row = (fst (last (hist st i)), Some n, True)" using l by simp
  note wr = rows_of_wf [OF ok row(1)]
  have "map_of (decision_revisions st) (fst (last (hist st i))) = Some row"
    using wr vr ok unfolding store_ok_def by (auto simp: view_eq)
  moreover have "dget ''revision_status'' row = PStr ''CURRENT''"
    using wr vr by (auto simp: wf_row_def view_eq current_strip)
  ultimately show ?thesis using that row(2) wr l by blast
qed

text \<open>Replacing the current row by one that differs in its status only.\<close>

lemma supersede_views:
  assumes "chain (map view rows)" and "rows \<noteq> []"
    and "view row = (ver (last rows), int_field ''revision'' (last rows), False)"
  shows "map view (map (\<lambda>r. if ver r = ver (last rows) then row else r) rows) =
    map (\<lambda>(v, n, c). (v, n, False)) (map view rows)"
proof -
  have "map view rows \<noteq> []" using assms(2) by simp
  with assms(1) obtain g v n where h: "map view rows = g @ [(v, Some n, True)]"
    and g: "\<forall>e \<in> set g. \<not> snd (snd e)" and vg: "v \<notin> set (map fst g)"
    by (rule chain_split)
  have l: "view (last rows) = (v, Some n, True)" using h assms(2) by (metis last_map last_snoc)
  have "map view (map (\<lambda>r. if ver r = ver (last rows) then row else r) rows)
      = map (\<lambda>(w, m, c). if w = v then (v, Some n, False) else (w, m, c)) (map view rows)"
    using l assms(3) by (simp add: view_def)
  also have "\<dots> = map (\<lambda>(w, m, c). (w, m, False)) (map view rows)"
    unfolding h using g vg by (fastforce simp: rev_image_eqI)
  finally show ?thesis .
qed

lemma replace_hist:
  assumes ok: "store_ok st" and ch: "chain (hist st i)" and ne: "hist st i \<noteq> []"
    and row: "map_of (decision_revisions st) (fst (last (hist st i))) = Some old" "did old = i"
    and new: "wf_row row" "did row = i" "view row = (fst (last (hist st i)), fst (snd (last (hist st i))), False)"
  shows "store_ok (st\<lparr>decision_revisions := AList.update (ver row) row (decision_revisions st)\<rparr>) \<and>
    hist (st\<lparr>decision_revisions := AList.update (ver row) row (decision_revisions st)\<rparr>) =
      (hist st)(i := map (\<lambda>(v, n, c). (v, n, False)) (hist st i))"
proof -
  define v where "v = ver row"
  have ne': "rows_of i st \<noteq> []" using ne by (simp add: hist_def)
  then have l: "last (hist st i) = view (last (rows_of i st))" by (simp add: hist_def last_map)
  then have v: "ver (last (rows_of i st)) = v" using new(3) by (simp add: v_def view_def)
  have look: "map_of (decision_revisions st) v = Some old" using row(1) l v by (simp add: view_def)
  have rows: "rows_of j (st\<lparr>decision_revisions := AList.update v row (decision_revisions st)\<rparr>) =
      map (\<lambda>r. if ver r = v then row else r) (rows_of j st)" for j
    using rows_of_update_at [OF ok map_of_SomeD [OF look], of row j] row(2) new(2) by simp
  have other: "map (\<lambda>r. if ver r = v then row else r) (rows_of j st) = rows_of j st" if "j \<noteq> i" for j
  proof (intro map_idI)
    fix r assume r: "r \<in> set (rows_of j st)"
    from rows_of_wf [OF ok r] have "(ver r, r) \<in> set (decision_revisions st)" "did r = j" by auto
    then have "map_of (decision_revisions st) (ver r) = Some r" using ok unfolding store_ok_def by auto
    with look that row(2) \<open>did r = j\<close> show "(if ver r = v then row else r) = r" by auto
  qed
  have "view row = (ver (last (rows_of i st)), int_field ''revision'' (last (rows_of i st)), False)"
    using new(3) l by (simp add: view_def)
  from supersede_views [OF ch [unfolded hist_def] ne' this]
  have "hist (st\<lparr>decision_revisions := AList.update v row (decision_revisions st)\<rparr>) j =
      ((hist st)(i := map (\<lambda>(v, n, c). (v, n, False)) (hist st i))) j" for j
    using other [of j] v by (cases "j = i") (simp_all add: hist_def rows)
  with store_ok_update [OF ok new(1) refl] show ?thesis by (simp add: fun_eq_iff v_def)
qed

lemma transition_hist:
  assumes ok: "store_ok st" and wf: "wf_row old" "wf_row new" and did: "did new = did old"
    and req: "norm_of (dget ''request_id'' request) \<noteq> []"
    and fresh: "\<forall>i. ver new \<notin> fst ` set (hist st i)"
    and ch: "chain (hist st (did old))" and ne: "hist st (did old) \<noteq> []"
    and last: "fst (last (hist st (did old))) = ver old"
  shows "\<exists>st'. accept_decision_revision_transition old new request st = Inr st' \<and> store_ok st' \<and>
    hist st' = (hist st)(did old := supersede (hist st (did old)) (ver new, int_field ''revision'' new, True))"
proof -
  from ok ch ne obtain row n where row: "map_of (decision_revisions st) (fst (last (hist st (did old)))) = Some row"
    "wf_row row" "did row = did old" "view row = last (hist st (did old))"
    "last (hist st (did old)) = (fst (last (hist st (did old))), Some n, True)"
    "dget ''revision_status'' row = PStr ''CURRENT''"
    by (rule current_row)
  define new_row where "new_row = AList.update ''supersedes_version_id'' (PStr (ver old))
      (AList.update ''revision_status'' (PStr ''CURRENT'') new)"
  define old_row where "old_row = AList.update ''superseded_by_version_id'' (PStr (ver new))
      (AList.update ''revision_status'' (PStr ''SUPERSEDED'') row)"
  define st1 where "st1 = st\<lparr>decision_revisions := AList.update (ver old_row) old_row (decision_revisions st)\<rparr>"
  define st2 where "st2 = st1\<lparr>decision_revisions := AList.update (ver new_row) new_row (decision_revisions st1)\<rparr>"
  have o: "did old_row = did old" "wf_row old_row" "ver old_row = ver old"
      "view old_row = (fst (last (hist st (did old))), fst (snd (last (hist st (did old)))), False)"
    using row last [folded row(4)] unfolding row(4) [symmetric]
    by (auto simp: old_row_def wf_row_def view_def int_field_def current_strip last)
  have nw: "did new_row = did old" "wf_row new_row" "ver new_row = ver new"
      "view new_row = (ver new, int_field ''revision'' new, True)"
    using wf(2) did by (simp_all add: new_row_def wf_row_def view_def int_field_def current_strip)
  have none: "map_of (decision_revisions st) (ver new) = None"
    using version_fresh [OF ok fresh] by (simp add: map_of_eq_None_iff)
  obtain rq where op: "accept_decision_revision_transition old new request st =
      Inr (st2\<lparr>decision_revision_requests := rq\<rparr>)"
    using wf req row(1,6) none last o(3) nw(3)
    by (simp add: accept_decision_revision_transition_def wf_row_def Let_def st2_def st1_def old_row_def new_row_def)
  note h1 = replace_hist [OF ok ch ne row(1,3) o(2,1,4), folded st1_def]
  have "\<forall>i. ver new_row \<notin> fst ` set (hist st1 i)"
    using fresh nw(3) h1 by (auto simp: image_image case_prod_beta)
  from insert_hist [OF conjunct1 [OF h1] nw(2) this] h1 nw
  have "store_ok st2" "hist st2 = (hist st)(did old := supersede (hist st (did old)) (ver new, int_field ''revision'' new, True))"
    by (simp_all add: st2_def supersede_def)
  moreover have "hist (st2\<lparr>decision_revision_requests := rq\<rparr>) = hist st2"
    "store_ok (st2\<lparr>decision_revision_requests := rq\<rparr>) = store_ok st2"
    by (simp_all add: fun_eq_iff hist_def rows_of_def store_ok_def)
  ultimately show ?thesis using op by simp
qed

lemma fetch_hist:
  assumes "store_ok st" and "chain (hist st i)" and "strip i = i"
  shows "\<exists>rows. fetch_decision_revisions i st = Some rows \<and> map view rows = hist st i"
proof -
  have "list_all (\<lambda>row. int_field ''revision'' row \<noteq> None) (rows_of i st)"
    using rows_of_wf [OF assms(1)] by (auto simp: list_all_iff wf_row_def)
  moreover have "sorted (map (\<lambda>row. the (int_field ''revision'' row)) (rows_of i st))"
    using chain_sorted [OF assms(2)] by (simp add: hist_def view_def comp_def)
  then have "sort_key (\<lambda>row. the (int_field ''revision'' row)) (rows_of i st) = rows_of i st"
    by (rule sort_key_id_if_sorted)
  ultimately have "fetch_decision_revisions i st = Some (rows_of i st)"
    unfolding fetch_decision_revisions_def sort_by_int_def using assms(3) by (simp add: rows_of_def)
  then show ?thesis by (simp add: hist_def)
qed

lemma lineage_ids:
  assumes "store_ok st"
  shows "set (list_decision_lineage_ids st) = {i. hist st i \<noteq> []} \<and> distinct (list_decision_lineage_ids st)"
proof -
  have "i \<in> set (list_decision_lineage_ids st) \<longleftrightarrow> hist st i \<noteq> []" for i
    using assms by (auto simp: list_decision_lineage_ids_def hist_def rows_of_def filter_empty_conv
        store_ok_def list_all_iff wf_row_def)
  then show ?thesis by (auto simp: list_decision_lineage_ids_def)
qed

subsection \<open>The contract of a revision store\<close>

text \<open>
  What the revision ledger relies on: writing a fresh row extends the history of its decision and no
  other, an accepted transition supersedes the history's current row, and a fetch gives the history
  back in revision order.
\<close>

locale revision_store =
  fixes ok :: "'st \<Rightarrow> bool" and history :: "'st \<Rightarrow> string \<Rightarrow> row_view list"
    and append_row :: "pydict \<Rightarrow> 'st \<Rightarrow> 'st"
    and transition :: "pydict \<Rightarrow> pydict \<Rightarrow> pydict \<Rightarrow> 'st \<Rightarrow> store_error + 'st"
    and fetch :: "string \<Rightarrow> 'st \<Rightarrow> pydict list option" and ids :: "'st \<Rightarrow> string list"
  assumes append_law: "ok st \<Longrightarrow> wf_row row \<Longrightarrow> cur row \<Longrightarrow> \<forall>i. ver row \<notin> fst ` set (history st i) \<Longrightarrow>
      ok (append_row row st) \<and> history (append_row row st) = (history st)(did row := history st (did row) @ [view row])"
    and transition_law: "ok st \<Longrightarrow> wf_row old \<Longrightarrow> wf_row new \<Longrightarrow> did new = did old \<Longrightarrow>
      norm_of (dget ''request_id'' request) \<noteq> [] \<Longrightarrow> \<forall>i. ver new \<notin> fst ` set (history st i) \<Longrightarrow>
      chain (history st (did old)) \<Longrightarrow> history st (did old) \<noteq> [] \<Longrightarrow>
      fst (last (history st (did old))) = ver old \<Longrightarrow>
      \<exists>st'. transition old new request st = Inr st' \<and> ok st' \<and>
        history st' = (history st)(did old := supersede (history st (did old)) (ver new, int_field ''revision'' new, True))"
    and fetch_law: "ok st \<Longrightarrow> chain (history st i) \<Longrightarrow> strip i = i \<Longrightarrow>
      \<exists>rows. fetch i st = Some rows \<and> map view rows = history st i"
    and ids_law: "ok st \<Longrightarrow> set (ids st) = {i. history st i \<noteq> []} \<and> distinct (ids st)"
begin

definition all_chains :: "'st \<Rightarrow> bool" where
  "all_chains st \<longleftrightarrow> (\<forall>i. chain (history st i))"

lemma append_chains:
  assumes "ok st" and "all_chains st" and "wf_row row" and "cur row" and "history st (did row) = []"
    and "\<forall>i. ver row \<notin> fst ` set (history st i)"
  shows "ok (append_row row st) \<and> all_chains (append_row row st) \<and>
    history (append_row row st) = (history st)(did row := [view row])"
proof -
  have "chain [view row]" using assms(3,4) by (simp add: view_def wf_row_def)
  then show ?thesis
    using append_law [OF assms(1,3,4,6)] assms(2,5) by (auto simp: all_chains_def)
qed

lemma transition_chains:
  assumes "ok st" and "all_chains st" and "wf_row old" and "wf_row new" and "did new = did old"
    and "norm_of (dget ''request_id'' request) \<noteq> []" and "\<forall>i. ver new \<notin> fst ` set (history st i)"
    and "history st (did old) \<noteq> []" and "last (history st (did old)) = view old"
    and "int_field ''revision'' new = map_option (\<lambda>n. n + 1) (int_field ''revision'' old)"
  shows "\<exists>st'. transition old new request st = Inr st' \<and> ok st' \<and> all_chains st' \<and>
    history st' = (history st)(did old := supersede (history st (did old)) (ver new, int_field ''revision'' new, True))"
proof -
  have ch: "chain (history st (did old))" using assms(2) by (simp add: all_chains_def)
  obtain n where n: "int_field ''revision'' old = Some n" using assms(3) by (auto simp: wf_row_def)
  have "chain (supersede (history st (did old)) (ver new, Some (n + 1), True))"
    using ch assms(7,8,9) n by (intro chain_supersede) (simp_all add: view_def)
  moreover have "fst (last (history st (did old))) = ver old" using assms(9) by (simp add: view_def)
  note transition_law [OF assms(1,3-7) ch assms(8) this]
  ultimately show ?thesis using assms(2,10) n by (auto simp: all_chains_def)
qed

text \<open>A fetched history has exactly one current row, its last.\<close>

lemma fetch_one_current:
  assumes "ok st" and "all_chains st" and "strip i = i" and "history st i \<noteq> []"
  shows "\<exists>rows. fetch i st = Some rows \<and> map view rows = history st i \<and> length (filter cur rows) = 1"
proof -
  have ch: "chain (history st i)" using assms(2) by (simp add: all_chains_def)
  from fetch_law [OF assms(1) ch assms(3)] obtain rows where
    rows: "fetch i st = Some rows" "map view rows = history st i" by blast
  have "filter (\<lambda>e. snd (snd e)) (map view rows) = map view (filter cur rows)"
    by (simp add: filter_map comp_def view_def)
  then have "length (filter cur rows) = 1"
    using chain_current [OF ch assms(4)] arg_cong [of _ _ length] unfolding rows(2) by fastforce
  with rows show ?thesis by blast
qed

end

interpretation ds: revision_store store_ok hist append_decision_revision
    accept_decision_revision_transition fetch_decision_revisions list_decision_lineage_ids
  by unfold_locales (rule append_hist transition_hist fetch_hist lineage_ids; assumption)+

end
