(* ===== verification/Revision_Ledger.thy ===== *)
theory Revision_Ledger
  imports Cad Decision_Store
begin

text \<open>
  The decision-revision state machine: \<open>DecisionRevisionLedger\<close> and its callers in
  \<open>canonical_action_decision.py\<close>.

  The object is the record \<open>ledger\<close>.  Its durable store, when it has one, is part of the record;
  the events given to the event sink are the list \<open>lg_events\<close>, which only grows when a sink is
  there.  A sink that raises is ignored by the code, so what it does with an event has no effect.
  Every operation returns its result, or the exception it raises, together with the ledger it
  leaves.  The lock makes an operation one step.  The current time and the hex digits of fresh
  UUIDs are arguments.  Rows are copied on the way in and out, so they are values.
\<close>

subsection \<open>State and errors\<close>

record ledger =
  lg_lineages :: "(string \<times> pydict list) list"
  lg_requests :: "pydict list"
  lg_audit :: "pydict list"
  lg_events :: "pydict list"
  lg_sink :: bool
  lg_store :: "decision_store option"

datatype ledger_error =
    RevisionError string
  | StoreError store_error
  | ValueConversion

definition new_ledger :: "bool \<Rightarrow> decision_store option \<Rightarrow> ledger" where
  "new_ledger sink st = \<lparr>lg_lineages = [], lg_requests = [], lg_audit = [], lg_events = [],
     lg_sink = sink, lg_store = st\<rparr>"

subsection \<open>Lineages\<close>

definition lineage :: "string \<Rightarrow> ledger \<Rightarrow> pydict list" where
  "lineage i L = (case map_of (lg_lineages L) i of None \<Rightarrow> [] | Some rows \<Rightarrow> rows)"

definition emit :: "string \<Rightarrow> string \<Rightarrow> pydict \<Rightarrow> ledger \<Rightarrow> ledger" where
  "emit now event_type payload L =
     (if \<not> lg_sink L then L
      else case int_field ''revision'' payload of
             None \<Rightarrow> L
           | Some n \<Rightarrow> L\<lparr>lg_events := lg_events L @
               [[(''schema_version'', PStr ''decision_revision_event.v1''),
                 (''event_type'', PStr event_type),
                 (''decision_id'', PStr (did payload)),
                 (''decision_version_id'', PStr (ver payload)),
                 (''revision'', PInt n),
                 (''created_at'', PStr now)]]\<rparr>)"

definition current_locked :: "string \<Rightarrow> ledger \<Rightarrow> pydict option" where
  "current_locked i L = find cur (rev (lineage i L))"

definition register_cad :: "string \<Rightarrow> pyval \<Rightarrow> ledger \<Rightarrow> (ledger_error + pydict) \<times> ledger" where
  "register_cad now v L =
     (let cad = as_dict v; decision_id = did cad; version_id = ver cad in
      if decision_id = [] \<or> version_id = [] then (Inl (RevisionError ''invalid_cad_identity''), L)
      else
        let L1 = (if map_of (lg_lineages L) decision_id = None
                  then L\<lparr>lg_lineages := lg_lineages L @ [(decision_id, [])]\<rparr> else L)
        in case current_locked decision_id L1 of
             Some current \<Rightarrow>
               if dget ''decision_version_id'' current = PStr version_id then (Inr current, L1)
               else (Inl (RevisionError ''one_current_revision_violation''), L1)
           | None \<Rightarrow>
               (Inr cad, emit now ''decision_registered'' cad
                 (L1\<lparr>lg_store := map_option (append_decision_revision cad) (lg_store L1),
                     lg_lineages := AList.update decision_id (lineage decision_id L1 @ [cad]) (lg_lineages L1)\<rparr>)))"

definition current_cad :: "string \<Rightarrow> ledger \<Rightarrow> pydict option" where
  "current_cad decision_id L = current_locked (strip decision_id) L"

definition current_revision :: "string \<Rightarrow> ledger \<Rightarrow> int option" where
  "current_revision decision_id L =
     (case current_cad decision_id L of None \<Rightarrow> Some 0 | Some c \<Rightarrow> int_field ''revision'' c)"

definition expected_revision :: "string \<Rightarrow> ledger \<Rightarrow> int option" where
  "expected_revision decision_id L = map_option (\<lambda>n. n + 1) (current_revision decision_id L)"

definition is_current :: "pyval \<Rightarrow> ledger \<Rightarrow> bool" where
  "is_current v L =
     (let cad = as_dict v in
      if did cad = [] \<or> ver cad = [] then False
      else case current_cad (did cad) L of None \<Rightarrow> False | Some c \<Rightarrow> ver c = ver cad)"

definition revisions :: "string \<Rightarrow> ledger \<Rightarrow> pydict list" where
  "revisions decision_id L = lineage (strip decision_id) L"

subsection \<open>Requests\<close>

abbreviation rid :: "pydict \<Rightarrow> string" where
  "rid request \<equiv> norm_of (dget ''request_id'' request)"

text \<open>The duplicate search; \<open>None\<close> is the \<open>ValueError\<close> of a conversion on the way.\<close>

fun find_duplicate :: "pydict \<Rightarrow> pydict list \<Rightarrow> pydict option option" where
  "find_duplicate request [] = Some None"
| "find_duplicate request (existing # rest) =
     (if rid existing = rid request then Some (Some existing)
      else if did existing = did request
      then case (int_field ''current_revision'' existing, int_field ''current_revision'' request) of
             (Some a, Some b) \<Rightarrow>
               if a = b \<and> norm_of (dget ''reason_code'' existing) = norm_of (dget ''reason_code'' request) \<and>
                  norm_of (dget ''status'' existing) = ''PENDING''
               then Some (Some existing) else find_duplicate request rest
           | _ \<Rightarrow> None
      else find_duplicate request rest)"

definition stale_audit_entry :: "string \<Rightarrow> pydict \<Rightarrow> int \<Rightarrow> int \<Rightarrow> pydict" where
  "stale_audit_entry now request expected actual =
     [(''decision_id'', PStr (did request)), (''request_id'', PStr (rid request)),
      (''expected_revision'', PInt expected), (''actual_revision'', PInt actual),
      (''outcome'', PStr ''REJECTED''), (''reason_code'', PStr ''STALE_REVISION_REQUEST''),
      (''created_at'', PStr now)]"

definition record_request ::
  "string \<Rightarrow> pydict \<Rightarrow> ledger \<Rightarrow> (ledger_error + pydict \<times> string) \<times> ledger" where
  "record_request now request L =
     (case current_revision (did request) L of
        None \<Rightarrow> (Inl ValueConversion, L)
      | Some expected \<Rightarrow>
     (case find_duplicate request (lg_requests L) of
        None \<Rightarrow> (Inl ValueConversion, L)
      | Some (Some existing) \<Rightarrow> (Inr (existing, ''DUPLICATE_REVISION_REQUEST''), L)
      | Some None \<Rightarrow>
     (case int_field ''current_revision'' request of
        None \<Rightarrow> (Inl ValueConversion, L)
      | Some actual \<Rightarrow>
          if actual \<noteq> expected
          then (let stale = AList.update ''reject_reason'' (PStr ''STALE_REVISION_REQUEST'')
                      (AList.update ''status'' (PStr ''REJECTED'') request)
                in (Inr (stale, ''STALE_REVISION_REQUEST''),
                    L\<lparr>lg_store := map_option (append_decision_revision_request stale) (lg_store L),
                      lg_requests := lg_requests L @ [stale],
                      lg_audit := lg_audit L @ [stale_audit_entry now stale expected actual]\<rparr>))
          else (Inr (request, ''PENDING''),
                emit now ''decision_revision_requested'' request
                  (L\<lparr>lg_store := map_option (append_decision_revision_request request) (lg_store L),
                     lg_requests := lg_requests L @ [request]\<rparr>)))))"

definition request_status :: "string \<Rightarrow> ledger \<Rightarrow> pydict option" where
  "request_status request_id L = find (\<lambda>r. rid r = strip request_id) (lg_requests L)"

text \<open>\<open>self._requests\<close> with every entry of that id replaced.\<close>

definition put_request :: "pydict \<Rightarrow> pydict list \<Rightarrow> pydict list" where
  "put_request request rs = map (\<lambda>item. if rid item = rid request then request else item) rs"

subsection \<open>Acceptance and rejection\<close>

definition superseded_row :: "pydict \<Rightarrow> pydict \<Rightarrow> pydict" where
  "superseded_row old_cad new_cad = AList.update ''superseded_by_version_id'' (PStr (ver new_cad))
     (AList.update ''revision_status'' (PStr ''SUPERSEDED'') old_cad)"

definition stamped_row :: "pydict \<Rightarrow> pydict \<Rightarrow> pydict" where
  "stamped_row old_cad new_cad = AList.update ''supersedes_version_id'' (PStr (ver old_cad))
     (AList.update ''revision_status'' (PStr ''CURRENT'') new_cad)"

record acceptance =
  ac_old_cad :: pydict
  ac_new_cad :: pydict
  ac_request :: pydict

definition accepted_audit_entry :: "string \<Rightarrow> pydict \<Rightarrow> pydict \<Rightarrow> pydict \<Rightarrow> pydict" where
  "accepted_audit_entry now old_cad new_cad request =
     [(''decision_id'', PStr (did old_cad)), (''request_id'', PStr (rid request)),
      (''old_version_id'', PStr (ver old_cad)), (''new_version_id'', PStr (ver new_cad)),
      (''reason_code'', PStr (norm_of (dget ''reason_code'' request))),
      (''outcome'', PStr ''ACCEPTED''), (''created_at'', PStr now)]"

text \<open>The in-memory half of an acceptance, after the store has made the transition.\<close>

definition apply_acceptance ::
  "string \<Rightarrow> pydict \<Rightarrow> pydict \<Rightarrow> pydict \<Rightarrow> ledger \<Rightarrow> acceptance \<times> ledger" where
  "apply_acceptance now old_cad new_cad request L =
     (let decision_id = did old_cad;
          old_row = superseded_row old_cad new_cad;
          new_row = stamped_row old_cad new_cad;
          rows = map (\<lambda>item. if ver item = ver old_cad then old_row else item) (lineage decision_id L) @ [new_row];
          accepted = AList.update ''status'' (PStr ''ACCEPTED'') request
      in (\<lparr>ac_old_cad = old_row, ac_new_cad = new_row, ac_request = accepted\<rparr>,
          emit now ''decision_revision_accepted'' new_row
            (L\<lparr>lg_lineages := AList.update decision_id rows (lg_lineages L),
               lg_requests := put_request accepted (lg_requests L),
               lg_audit := lg_audit L @ [accepted_audit_entry now old_cad new_cad request]\<rparr>)))"

definition accept_revision ::
  "string \<Rightarrow> pydict \<Rightarrow> pydict \<Rightarrow> pydict \<Rightarrow> ledger \<Rightarrow> (ledger_error + acceptance) \<times> ledger" where
  "accept_revision now old_cad new_cad request L =
     (if did new_cad \<noteq> did old_cad then (Inl (RevisionError ''revision_decision_id_mismatch''), L)
      else case (int_field ''revision'' new_cad, int_field ''revision'' old_cad) of
             (Some n, Some m) \<Rightarrow>
               if n \<noteq> m + 1 then (Inl (RevisionError ''revision_not_monotonic''), L)
               else if \<not> is_current (PDict old_cad) L then (Inl (RevisionError ''stale_revision_request''), L)
               else (case current_locked (did old_cad) L of
                       None \<Rightarrow> (Inl (RevisionError ''stale_revision_request''), L)
                     | Some current \<Rightarrow>
                         if ver current \<noteq> ver old_cad then (Inl (RevisionError ''stale_revision_request''), L)
                         else (case lg_store L of
                                 None \<Rightarrow> map_prod Inr id (apply_acceptance now old_cad new_cad request L)
                               | Some st \<Rightarrow>
                                   (case accept_decision_revision_transition old_cad new_cad request st of
                                      Inl e \<Rightarrow> (Inl (StoreError e), L)
                                    | Inr st' \<Rightarrow> map_prod Inr id
                                        (apply_acceptance now old_cad new_cad request (L\<lparr>lg_store := Some st'\<rparr>)))))
           | _ \<Rightarrow> (Inl ValueConversion, L))"

definition rejected_audit_entry :: "string \<Rightarrow> pydict \<Rightarrow> pydict" where
  "rejected_audit_entry now request =
     [(''decision_id'', PStr (did request)), (''request_id'', PStr (rid request)),
      (''reason_code'', PStr (norm_of (dget ''reason_code'' request))), (''outcome'', PStr ''REJECTED''),
      (''reject_reason'', dget ''reject_reason'' request), (''created_at'', PStr now)]"

definition reject_request :: "string \<Rightarrow> pydict \<Rightarrow> string \<Rightarrow> ledger \<Rightarrow> (pydict option \<times> pydict) \<times> ledger" where
  "reject_request now request reason L =
     (let rejected = AList.update ''reject_reason'' (PStr (str_or (strip reason) ''REVISION_NOT_JUSTIFIED''))
            (AList.update ''status'' (PStr ''REJECTED'') request);
          L1 = emit now ''decision_revision_rejected'' rejected
            (L\<lparr>lg_store := map_option (append_decision_revision_request rejected) (lg_store L),
               lg_requests := put_request rejected (lg_requests L),
               lg_audit := lg_audit L @ [rejected_audit_entry now rejected]\<rparr>)
      in ((current_locked (did rejected) L1, rejected), L1))"

definition audit_trail :: "string \<Rightarrow> ledger \<Rightarrow> pydict list" where
  "audit_trail decision_id L = filter (\<lambda>item. did item = strip decision_id) (lg_audit L)"

subsection \<open>Rebuilding from the store\<close>

text \<open>The revisions by the version they supersede; a later one replaces an earlier one.\<close>

definition by_supersedes :: "pydict list \<Rightarrow> (string \<times> pydict) list" where
  "by_supersedes revs = fold (\<lambda>row m.
     let src = norm_of (dget ''supersedes_version_id'' row) in
     if src = [] then m else AList.update src row m) revs []"

definition rebuild_audit_entry :: "string \<Rightarrow> (string \<times> pydict) list \<Rightarrow> pydict \<Rightarrow> pydict list" where
  "rebuild_audit_entry decision_id superseding request =
     (let status = norm_of (dget ''status'' request);
          reason = norm_of (dget ''reason_code'' request);
          created = string_or (dget ''requested_at'' request) (norm_of (dget ''created_at'' request));
          old_version = norm_of (dget ''current_decision_version_id'' request)
      in if status = ''ACCEPTED''
         then [[(''decision_id'', PStr decision_id), (''request_id'', PStr (rid request)),
                (''old_version_id'', PStr old_version),
                (''new_version_id'', PStr (case map_of superseding old_version of
                     None \<Rightarrow> [] | Some row \<Rightarrow> if row = [] then [] else ver row)),
                (''reason_code'', PStr reason), (''outcome'', PStr ''ACCEPTED''), (''created_at'', PStr created)]]
         else if status = ''REJECTED''
         then [[(''decision_id'', PStr decision_id), (''request_id'', PStr (rid request)),
                (''reason_code'', PStr reason), (''outcome'', PStr ''REJECTED''),
                (''reject_reason'', PStr (norm_of (dget ''reject_reason'' request))),
                (''created_at'', PStr created)]]
         else [])"

definition rebuild_audit :: "string \<Rightarrow> pydict list \<Rightarrow> pydict list \<Rightarrow> pydict list" where
  "rebuild_audit decision_id revs requests =
     concat (map (rebuild_audit_entry decision_id (by_supersedes revs)) requests)"

fun rebuild_loop :: "decision_store \<Rightarrow> string list \<Rightarrow> ledger \<Rightarrow> ledger_error option \<times> ledger" where
  "rebuild_loop st [] L = (None, L)"
| "rebuild_loop st (i # ids) L =
     (case Option.bind (fetch_decision_revisions i st) (sort_by_int ''revision'') of
        None \<Rightarrow> (Some ValueConversion, L)
      | Some revs \<Rightarrow>
          if revs \<noteq> [] \<and> length (filter cur revs) \<noteq> 1
          then (Some (RevisionError ''rebuild_one_current_violation''), L)
          else (let requests = sort_key (\<lambda>r. norm_of (dget ''requested_at'' r))
                      (fetch_decision_revision_requests i st)
                in rebuild_loop st ids
                     (L\<lparr>lg_lineages := AList.update i revs (lg_lineages L),
                        lg_requests := lg_requests L @ requests,
                        lg_audit := lg_audit L @ rebuild_audit i revs requests\<rparr>)))"

definition rebuild :: "ledger \<Rightarrow> ledger_error option \<times> ledger" where
  "rebuild L = (case lg_store L of
       None \<Rightarrow> (None, L)
     | Some st \<Rightarrow> rebuild_loop st (list_decision_lineage_ids st)
         (L\<lparr>lg_lineages := [], lg_requests := [], lg_audit := []\<rparr>))"

definition from_store :: "bool \<Rightarrow> decision_store \<Rightarrow> ledger_error + ledger" where
  "from_store sink st = (case rebuild (new_ledger sink (Some st)) of
       (Some e, _) \<Rightarrow> Inl e
     | (None, L) \<Rightarrow> Inr L)"

datatype boot_error = RevisionStateInvalid string | BootUncaught ledger_error

definition build_store_backed_decision_ledger :: "decision_store \<Rightarrow> boot_error + ledger" where
  "build_store_backed_decision_ledger st = (case from_store False st of
       Inr L \<Rightarrow> Inr L
     | Inl (RevisionError c) \<Rightarrow> Inl (RevisionStateInvalid c)
     | Inl e \<Rightarrow> Inl (BootUncaught e))"

subsection \<open>Requesting and evaluating a revision\<close>

definition request_decision_revision ::
  "string \<Rightarrow> string \<Rightarrow> string \<Rightarrow> int \<Rightarrow> string \<Rightarrow> string \<Rightarrow> string \<Rightarrow> string \<Rightarrow> pyval \<Rightarrow> ledger \<Rightarrow>
   (ledger_error + pydict \<times> string \<times> string) \<times> ledger" where
  "request_decision_revision uuid now decision_id current_rev reason_code failed_precondition
     source_layer source_event_id evidence_refs L =
     (let request = build_decision_revision_request uuid now decision_id current_rev reason_code
            failed_precondition source_layer source_event_id evidence_refs [] [] ''PENDING''
      in map_prod (map_sum id (\<lambda>(req, status). (req, status, rid req))) id (record_request now request L))"

record revision_outcome =
  ro_accepted :: bool
  ro_reason_codes :: "string list"
  ro_needs_review :: bool
  ro_request :: pydict
  ro_current_cad :: pyval
  ro_old_cad :: "pydict option"
  ro_new_cad :: "pydict option"

definition rejected_outcome :: "string list \<Rightarrow> bool \<Rightarrow> pydict \<Rightarrow> pyval \<Rightarrow> revision_outcome" where
  "rejected_outcome codes review request current =
     \<lparr>ro_accepted = False, ro_reason_codes = codes, ro_needs_review = review, ro_request = request,
      ro_current_cad = current, ro_old_cad = None, ro_new_cad = None\<rparr>"

text \<open>The request as the ledger has it after a rejection: \<open>request_status (...) or request\<close>.\<close>

definition status_or :: "pydict \<Rightarrow> ledger \<Rightarrow> pydict" where
  "status_or request L = (case request_status (rid request) L of
       None \<Rightarrow> request | Some r \<Rightarrow> if r = [] then request else r)"

definition evaluate_decision_revision ::
  "(string \<Rightarrow> string) \<Rightarrow> string \<Rightarrow> string \<Rightarrow> string \<Rightarrow> pyval \<Rightarrow> pyval \<Rightarrow> pyval \<Rightarrow> canon_state \<Rightarrow> ledger \<Rightarrow>
   (ledger_error + revision_outcome) \<times> ledger" where
  "evaluate_decision_revision sha256 uuid1 uuid2 now request_v current_v business_reasoning_result cs L =
     (let request = as_dict request_v; current = as_dict current_v; decision_id = did request in
      if norm_of (dget ''status'' request) \<noteq> ''PENDING''
      then (Inr (rejected_outcome [''DECISION_REVISION_REJECTED''] False request current_v), L)
      else if did current \<noteq> decision_id \<or> \<not> is_current (PDict current) L
      then (Inr (rejected_outcome [''STALE_REVISION_REQUEST''] False request (PDict current)), L)
      else case build_business_decision_proposal uuid1 business_reasoning_result of
        None \<Rightarrow>
          (let L1 = snd (reject_request now request ''NO_BOUNDED_CANONICAL_DECISION'' L)
           in (Inr (rejected_outcome [''DECISION_REVISION_REJECTED'', ''NO_BOUNDED_CANONICAL_DECISION''] True
                 (status_or request L1) (PDict current)), L1))
      | Some proposal \<Rightarrow>
          (case int_field ''revision'' current of
             None \<Rightarrow> (Inl ValueConversion, L)
           | Some n \<Rightarrow>
          (case canonicalize sha256 uuid2 now (PDict proposal) cs (norm_of (dget ''case_id'' current))
                  (norm_of (dget ''situation_version'' current)) decision_id (n + 1) of
             None \<Rightarrow> (Inl ValueConversion, L)
           | Some outcome \<Rightarrow>
               if dget ''semantic_status'' outcome \<noteq> PStr ''FROZEN''
               then (let codes = as_list (dget ''reason_codes'' outcome);
                         L1 = snd (reject_request now request (''CANONICALIZATION_FAILED:'' @ join '','' codes) L)
                     in (Inr (rejected_outcome ([''DECISION_REVISION_REJECTED''] @ codes) False
                           (status_or request L1) (PDict current)), L1))
               else (case accept_revision now current outcome request L of
                       (Inl e, L1) \<Rightarrow> (Inl e, L1)
                     | (Inr a, L1) \<Rightarrow>
                         (Inr \<lparr>ro_accepted = True, ro_reason_codes = [''DECISION_REVISION_ACCEPTED''],
                               ro_needs_review = False, ro_request = ac_request a, ro_current_cad = PNone,
                               ro_old_cad = Some (ac_old_cad a), ro_new_cad = Some (ac_new_cad a)\<rparr>, L1)))))"

subsection \<open>Artifacts bound to a decision version\<close>

definition artifact_version_matches :: "pyval \<Rightarrow> pyval \<Rightarrow> bool" where
  "artifact_version_matches artifact current =
     (let a = ver (as_dict artifact); c = ver (as_dict current) in a \<noteq> [] \<and> c \<noteq> [] \<and> a = c)"

definition stale_artifact_reason :: "pyval \<Rightarrow> pyval \<Rightarrow> string option" where
  "stale_artifact_reason artifact current =
     (let a = ver (as_dict artifact) in
      if a = [] then None
      else if a \<noteq> ver (as_dict current) then Some ''STALE_DECISION_REVISION'' else None)"

definition approval_binds_revision :: "pyval \<Rightarrow> pyval \<Rightarrow> bool" where
  "approval_binds_revision approval_artifact current = artifact_version_matches approval_artifact current"

subsection \<open>Lemmas on the ledger's fields\<close>

lemma emit_fields [simp]:
  "lg_lineages (emit now e p L) = lg_lineages L" "lg_requests (emit now e p L) = lg_requests L"
  "lg_audit (emit now e p L) = lg_audit L" "lg_store (emit now e p L) = lg_store L"
  by (simp_all add: emit_def split: option.split)

lemma lineage_cong: "lg_lineages L = lg_lineages M \<Longrightarrow> lineage i L = lineage i M"
  by (simp add: lineage_def)

lemma lineage_update:
  "lineage i (L\<lparr>lg_lineages := AList.update j rows (lg_lineages L)\<rparr>) = (if i = j then rows else lineage i L)"
  by (simp add: lineage_def update_conv')

lemma lineage_setdefault:
  "map_of (lg_lineages L) j = None \<Longrightarrow> lineage i (L\<lparr>lg_lineages := lg_lineages L @ [(j, [])]\<rparr>) = lineage i L"
  by (auto simp: lineage_def map_add_def split: option.split)

definition lhist :: "ledger \<Rightarrow> string \<Rightarrow> row_view list" where
  "lhist L i = map view (lineage i L)"

text \<open>
  A row of the decision boundary: its version is the version identity of its decision and revision.
\<close>

definition canonical_row :: "pydict \<Rightarrow> bool" where
  "canonical_row row \<longleftrightarrow> wf_row row \<and>
     (\<exists>n. 1 \<le> n \<and> int_field ''revision'' row = Some n \<and> ver row = decision_version_id_of (did row) n)"

definition ledger_ok :: "ledger \<Rightarrow> bool" where
  "ledger_ok L \<longleftrightarrow> (\<forall>i. chain (lhist L i)) \<and>
     (\<forall>i. \<forall>row \<in> set (lineage i L). canonical_row row \<and> did row = i) \<and>
     (case lg_store L of None \<Rightarrow> True | Some st \<Rightarrow> store_ok st \<and> hist st = lhist L)"

lemma ledger_okD:
  assumes "ledger_ok L"
  shows "chain (map view (lineage i L))"
    and "row \<in> set (lineage i L) \<Longrightarrow> canonical_row row" and "row \<in> set (lineage i L) \<Longrightarrow> did row = i"
    and "lg_store L = Some st \<Longrightarrow> store_ok st" and "lg_store L = Some st \<Longrightarrow> hist st = lhist L"
  using assms by (auto simp: ledger_ok_def lhist_def)

lemma chain_find_current:
  assumes "chain (map view rows)"
  shows "find cur (rev rows) = (if rows = [] then None else Some (last rows))"
proof (cases rows rule: rev_cases)
  case (snoc xs x)
  have "snd (snd (last (map view rows)))" using chain_last [OF assms] snoc by simp
  then have "cur x" using snoc by (simp add: view_def)
  with snoc show ?thesis by simp
qed simp

lemma current_locked_ok:
  assumes "ledger_ok L"
  shows "current_locked i L = (if lineage i L = [] then None else Some (last (lineage i L)))"
  unfolding current_locked_def by (rule chain_find_current [OF ledger_okD(1) [OF assms]])

lemma canonical_same:
  assumes "canonical_row a" and "canonical_row b" and "ver a = ver b"
  shows "did a = did b \<and> int_field ''revision'' a = int_field ''revision'' b"
proof -
  obtain n where n: "1 \<le> n" "int_field ''revision'' a = Some n" "ver a = decision_version_id_of (did a) n"
    using assms(1) unfolding canonical_row_def by blast
  obtain m where m: "1 \<le> m" "int_field ''revision'' b = Some m" "ver b = decision_version_id_of (did b) m"
    using assms(2) unfolding canonical_row_def by blast
  have "strip (did a) = strip (did b) \<and> max 1 n = max 1 m"
    using assms(3) n(3) m(3) by (simp only: version_id_eq [symmetric])
  with n m show ?thesis by simp
qed

text \<open>A version no row of its own decision has is fresh in the whole ledger.\<close>

lemma version_fresh_ledger:
  assumes "ledger_ok L" and "canonical_row row" and "ver row \<notin> ver ` set (lineage (did row) L)"
  shows "\<forall>i. ver row \<notin> fst ` set (lhist L i)"
proof (intro allI notI)
  fix i assume "ver row \<in> fst ` set (lhist L i)"
  then obtain r where r: "r \<in> set (lineage i L)" "ver r = ver row"
    by (auto simp: lhist_def view_def)
  from ledger_okD(2,3) [OF assms(1) r(1)] have "canonical_row r" "did r = i" .
  then have "did row = i" using canonical_same [OF _ assms(2) r(2)] by simp
  moreover have "ver row \<in> ver ` set (lineage i L)" unfolding r(2) [symmetric] using r(1) by (rule imageI)
  ultimately show False using assms(3) by simp
qed

lemma ledger_ok_cong:
  assumes "ledger_ok L" and "\<And>i. lineage i M = lineage i L" and "lg_store M = lg_store L"
  shows "ledger_ok M"
proof -
  have h: "lhist M = lhist L" using assms(2) by (simp add: fun_eq_iff lhist_def)
  show ?thesis using assms(1) unfolding ledger_ok_def assms(2,3) h .
qed

lemma ledger_ok_same:
  assumes "ledger_ok L" and "lg_lineages M = lg_lineages L"
    and "case lg_store L of None \<Rightarrow> lg_store M = None
         | Some st \<Rightarrow> \<exists>rq. lg_store M = Some (st\<lparr>decision_revision_requests := rq\<rparr>)"
  shows "ledger_ok M"
proof -
  have "hist (st\<lparr>decision_revision_requests := rq\<rparr>) = hist st"
    "store_ok (st\<lparr>decision_revision_requests := rq\<rparr>) = store_ok st" for st rq
    by (simp_all add: fun_eq_iff hist_def rows_of_def store_ok_def)
  moreover have "lhist M = lhist L" "\<And>i. lineage i M = lineage i L"
    using assms(2) by (simp_all add: fun_eq_iff lhist_def lineage_def)
  ultimately show ?thesis
    using assms(1,3) by (cases "lg_store L") (auto simp: ledger_ok_def)
qed

subsection \<open>Every operation keeps the ledger consistent\<close>

lemma append_request_store: "\<exists>rq. append_decision_revision_request r st = st\<lparr>decision_revision_requests := rq\<rparr>"
proof (cases "norm_of (dget ''request_id'' r) = []")
  case True
  then have "append_decision_revision_request r st =
      st\<lparr>decision_revision_requests := decision_revision_requests st\<rparr>"
    by (simp add: append_decision_revision_request_def)
  then show ?thesis by blast
next
  case False
  then show ?thesis by (auto simp: append_decision_revision_request_def Let_def)
qed

lemma append_request_ok:
  assumes "ledger_ok L" and "lg_lineages M = lg_lineages L"
    and "lg_store M = map_option (append_decision_revision_request r) (lg_store L)"
  shows "ledger_ok M"
  using assms(1,2)
proof (rule ledger_ok_same)
  show "case lg_store L of None \<Rightarrow> lg_store M = None
      | Some st \<Rightarrow> \<exists>rq. lg_store M = Some (st\<lparr>decision_revision_requests := rq\<rparr>)"
    using assms(3) append_request_store [of r] by (cases "lg_store L") auto
qed

lemma record_request_frame:
  "let M = snd (record_request now request L) in lg_lineages M = lg_lineages L \<and>
     (lg_store M = lg_store L \<or> (\<exists>r. lg_store M = map_option (append_decision_revision_request r) (lg_store L)))"
  by (auto simp: record_request_def Let_def split: option.splits)

lemma record_request_ok [inv_intros]: "ledger_ok L \<Longrightarrow> ledger_ok (snd (record_request now request L))"
proof -
  assume ok: "ledger_ok L"
  let ?M = "snd (record_request now request L)"
  from record_request_frame [of now request L] consider "lg_lineages ?M = lg_lineages L" "lg_store ?M = lg_store L"
    | r where "lg_lineages ?M = lg_lineages L" "lg_store ?M = map_option (append_decision_revision_request r) (lg_store L)"
    unfolding Let_def by blast
  then show ?thesis
  proof cases
    case 1
    then show ?thesis by (intro ledger_ok_cong [OF ok]) (simp_all add: lineage_def)
  next
    case 2
    then show ?thesis by (rule append_request_ok [OF ok])
  qed
qed

lemma reject_request_frame:
  "\<exists>r. lg_lineages (snd (reject_request now request reason L)) = lg_lineages L \<and>
     lg_store (snd (reject_request now request reason L)) = map_option (append_decision_revision_request r) (lg_store L)"
  by (auto simp: reject_request_def Let_def)

lemma reject_request_ok [inv_intros]: "ledger_ok L \<Longrightarrow> ledger_ok (snd (reject_request now request reason L))"
  using reject_request_frame [of now request reason L] by (auto intro: append_request_ok)

text \<open>A ledger and a store that move together.\<close>

lemma ledger_ok_extend:
  assumes ok: "ledger_ok L" and rows: "lineage i M = rows" "\<And>j. j \<noteq> i \<Longrightarrow> lineage j M = lineage j L"
    and ch: "chain (map view rows)" and can: "\<forall>row \<in> set rows. canonical_row row \<and> did row = i"
    and st: "case lg_store L of None \<Rightarrow> lg_store M = None
      | Some st \<Rightarrow> \<exists>st'. lg_store M = Some st' \<and> store_ok st' \<and> hist st' = (hist st)(i := map view rows)"
  shows "ledger_ok M"
proof -
  have h: "lhist M = (lhist L)(i := map view rows)"
    using rows by (auto simp: fun_eq_iff lhist_def)
  have "chain (lhist M j)" for j
    using ok ch unfolding h ledger_ok_def by simp
  moreover have "\<forall>row \<in> set (lineage j M). canonical_row row \<and> did row = j" for j
    using ledger_okD(2,3) [OF ok, of _ j] can rows by (cases "j = i") auto
  moreover have "case lg_store M of None \<Rightarrow> True | Some st \<Rightarrow> store_ok st \<and> hist st = lhist M"
    using st ledger_okD(5) [OF ok] unfolding h by (cases "lg_store L") auto
  ultimately show ?thesis by (simp add: ledger_ok_def)
qed

lemma register_cad_ok [inv_intros]:
  assumes ok: "ledger_ok L" and can: "canonical_row cad" and "cur cad"
  shows "ledger_ok (snd (register_cad now (PDict cad) L))"
proof -
  let ?i = "did cad"
  let ?L1 = "if map_of (lg_lineages L) ?i = None then L\<lparr>lg_lineages := lg_lineages L @ [(?i, [])]\<rparr> else L"
  have lin1: "lineage j ?L1 = lineage j L" for j by (simp add: lineage_setdefault)
  have ok1: "ledger_ok ?L1"
    by (rule ledger_ok_cong [OF ok lin1]) simp
  have wf: "wf_row cad" "?i \<noteq> []" "ver cad \<noteq> []" using can by (auto simp: canonical_row_def wf_row_def)
  show ?thesis
  proof (cases "current_locked ?i ?L1")
    case (Some c)
    then show ?thesis using ok1 wf by (simp add: register_cad_def Let_def)
  next
    case None
    then have empty: "lineage ?i ?L1 = []" using current_locked_ok [OF ok1] by (metis option.distinct(1))
    let ?M = "?L1\<lparr>lg_store := map_option (append_decision_revision cad) (lg_store ?L1),
        lg_lineages := AList.update ?i (lineage ?i ?L1 @ [cad]) (lg_lineages ?L1)\<rparr>"
    have "ledger_ok ?M"
    proof (rule ledger_ok_extend [OF ok1, where i = ?i and rows = "[cad]"])
      show "lineage ?i ?M = [cad]" "\<And>j. j \<noteq> ?i \<Longrightarrow> lineage j ?M = lineage j ?L1"
        using empty by (simp_all add: lineage_def update_conv')
      show "chain (map view [cad])" using wf(1) assms(3) by (simp add: view_def wf_row_def)
      show "\<forall>row \<in> set [cad]. canonical_row row \<and> did row = ?i" using can by simp
      have fresh: "\<forall>j. ver cad \<notin> fst ` set (lhist ?L1 j)"
        using version_fresh_ledger [OF ok1 can] empty by simp
      show "case lg_store ?L1 of None \<Rightarrow> lg_store ?M = None
        | Some st \<Rightarrow> \<exists>st'. lg_store ?M = Some st' \<and> store_ok st' \<and> hist st' = (hist st)(?i := map view [cad])"
      proof (cases "lg_store ?L1")
        case (Some st)
        note s = ledger_okD(4,5) [OF ok1 Some]
        have "hist st ?i = []" using s(2) empty by (simp add: lhist_def)
        with ds.append_law [OF s(1) wf(1) assms(3)] fresh s(2) Some show ?thesis by simp
      qed simp
    qed
    then have "ledger_ok (emit now e p ?M)" for e p
      by (rule ledger_ok_cong) (simp_all add: lineage_def)
    with None wf show ?thesis by (simp add: register_cad_def Let_def)
  qed
qed

lemma apply_acceptance_lineage:
  "lineage j (snd (apply_acceptance now old new request L)) =
     (if j = did old
      then map (\<lambda>item. if ver item = ver old then superseded_row old new else item) (lineage (did old) L) @
        [stamped_row old new]
      else lineage j L)"
  "lg_store (snd (apply_acceptance now old new request L)) = lg_store L"
  by (simp_all add: apply_acceptance_def Let_def lineage_def update_conv')

lemma stamped_fields:
  "did (stamped_row old new) = did new" "ver (stamped_row old new) = ver new"
  "int_field ''revision'' (stamped_row old new) = int_field ''revision'' new"
  "dget ''revision_status'' (stamped_row old new) = PStr ''CURRENT''"
  by (simp_all add: stamped_row_def int_field_def)

lemma superseded_fields:
  "did (superseded_row old new) = did old" "ver (superseded_row old new) = ver old"
  "int_field ''revision'' (superseded_row old new) = int_field ''revision'' old"
  "dget ''revision_status'' (superseded_row old new) = PStr ''SUPERSEDED''"
  by (simp_all add: superseded_row_def int_field_def)

lemma stamped_view: "view (stamped_row old new) = (ver new, int_field ''revision'' new, True)"
  by (simp add: view_def stamped_fields current_strip)

lemma canonical_stamped: "canonical_row new \<Longrightarrow> canonical_row (stamped_row old new)"
  unfolding canonical_row_def wf_row_def by (simp add: stamped_row_def int_field_def)

lemma canonical_superseded: "canonical_row old \<Longrightarrow> canonical_row (superseded_row old new)"
  unfolding canonical_row_def wf_row_def by (simp add: superseded_row_def int_field_def)

text \<open>The rows an accepted revision leaves behind.\<close>

lemma accepted_rows:
  assumes ok: "ledger_ok L" and ne: "lineage i L \<noteq> []" and old: "old = last (lineage i L)"
    and new: "canonical_row new" "did new = i" "int_field ''revision'' new = map_option (\<lambda>n. n + 1) (int_field ''revision'' old)"
  defines "rows \<equiv> map (\<lambda>item. if ver item = ver old then superseded_row old new else item) (lineage i L) @ [stamped_row old new]"
  shows "map view rows = supersede (lhist L i) (ver new, int_field ''revision'' new, True)"
    and "\<forall>row \<in> set rows. canonical_row row \<and> did row = i"
    and "ver new \<notin> ver ` set (lineage i L)"
proof -
  have mem: "old \<in> set (lineage i L)" using ne old by simp
  note c = ledger_okD(2,3) [OF ok mem]
  have "view (superseded_row old new) = (ver old, int_field ''revision'' old, False)"
    by (simp add: view_def superseded_fields current_strip)
  then show "map view rows = supersede (lhist L i) (ver new, int_field ''revision'' new, True)"
    using supersede_views [OF ledger_okD(1) [OF ok] ne, of "superseded_row old new"] old
    by (simp add: rows_def supersede_def lhist_def stamped_view)
  show "\<forall>row \<in> set rows. canonical_row row \<and> did row = i"
    using ledger_okD(2,3) [OF ok, of _ i] canonical_stamped [OF new(1)] canonical_superseded [OF c(1)] c(2) new(2)
    by (auto simp: rows_def stamped_fields superseded_fields)
  show "ver new \<notin> ver ` set (lineage i L)"
  proof
    assume "ver new \<in> ver ` set (lineage i L)"
    then obtain r where r: "r \<in> set (lineage i L)" "ver new = ver r" by blast
    obtain n where n: "int_field ''revision'' old = Some n" using c(1) by (auto simp: canonical_row_def)
    have "int_field ''revision'' r = Some (n + 1)"
      using canonical_same [OF new(1) ledger_okD(2) [OF ok r(1)] r(2)] new(3) n by simp
    then have "(ver r, Some (n + 1), cur r) \<in> set (map view (lineage i L))" using r(1) by (force simp: view_def)
    moreover have "fst (snd (last (map view (lineage i L)))) = Some n"
      using ne old n by (simp add: last_map view_def)
    ultimately have "n + 1 \<le> n" by (rule chain_number_bound [OF ledger_okD(1) [OF ok]])
    then show False by simp
  qed
qed

lemma accept_revision_current:
  assumes ok: "ledger_ok L" and old: "current_locked i L = Some old"
    and new: "canonical_row new" "did new = i" "int_field ''revision'' new = map_option (\<lambda>n. n + 1) (int_field ''revision'' old)"
    and req: "rid request \<noteq> []"
  shows "\<exists>st'. (case lg_store L of None \<Rightarrow> st' = None | Some st \<Rightarrow> \<exists>t. st' = Some t \<and>
          accept_decision_revision_transition old new request st = Inr t) \<and>
     accept_revision now old new request L =
       map_prod Inr id (apply_acceptance now old new request (L\<lparr>lg_store := st'\<rparr>)) \<and>
     ledger_ok (snd (accept_revision now old new request L))"
proof -
  have ne: "lineage i L \<noteq> []" and last: "old = last (lineage i L)"
    using old current_locked_ok [OF ok, of i] by (auto split: if_splits)
  then have mem: "old \<in> set (lineage i L)" by simp
  have c: "canonical_row old" "did old = i" using ledger_okD(2,3) [OF ok mem] .
  obtain n where n: "int_field ''revision'' old = Some n" "int_field ''revision'' new = Some (n + 1)"
    using c(1) new(3) by (auto simp: canonical_row_def)
  have wf: "wf_row old" "wf_row new" using c(1) new(1) by (auto simp: canonical_row_def)
  note rows = accepted_rows [OF ok ne last new]
  have isc: "is_current (PDict old) L"
    using wf(1) old unfolding c(2) [symmetric] by (simp add: is_current_def current_cad_def wf_row_def)
  have fresh: "\<forall>j. ver new \<notin> fst ` set (lhist L j)"
    using version_fresh_ledger [OF ok new(1)] rows(3) new(2) by simp
  have "\<exists>st'. case lg_store L of None \<Rightarrow> st' = None | Some st \<Rightarrow> \<exists>t. st' = Some t \<and>
      accept_decision_revision_transition old new request st = Inr t \<and> store_ok t \<and>
      hist t = (hist st)(i := supersede (lhist L i) (ver new, int_field ''revision'' new, True))"
  proof (cases "lg_store L")
    case (Some st)
    note s = ledger_okD(4,5) [OF ok Some]
    have "chain (hist st (did old))" "hist st (did old) \<noteq> []" "fst (last (hist st (did old))) = ver old"
      using s(2) ledger_okD(1) [OF ok, of i] ne last c(2) by (simp_all add: lhist_def last_map view_def)
    from ds.transition_law [OF s(1) wf _ req _ this] fresh s(2) new(2) c(2) Some show ?thesis by auto
  qed simp
  then obtain st' where st': "case lg_store L of None \<Rightarrow> st' = None | Some st \<Rightarrow> \<exists>t. st' = Some t \<and>
      accept_decision_revision_transition old new request st = Inr t \<and> store_ok t \<and>
      hist t = (hist st)(i := supersede (lhist L i) (ver new, int_field ''revision'' new, True))" ..
  have op: "accept_revision now old new request L =
      map_prod Inr id (apply_acceptance now old new request (L\<lparr>lg_store := st'\<rparr>))"
  proof (cases "lg_store L")
    case None
    then have "L\<lparr>lg_store := st'\<rparr> = L" using st' by (cases L) simp
    with None n isc old c(2) new(2) show ?thesis by (simp add: accept_revision_def)
  next
    case (Some st)
    with st' n isc old c(2) new(2) show ?thesis by (auto simp: accept_revision_def)
  qed
  have lin: "lineage j (L\<lparr>lg_store := st'\<rparr>) = lineage j L" for j by (simp add: lineage_def)
  have "ledger_ok (snd (apply_acceptance now old new request (L\<lparr>lg_store := st'\<rparr>)))"
    using rows c(2) st' ledger_okD(1) [OF ok, of i] ne last n wf
    by (intro ledger_ok_extend [OF ok, where i = i and
          rows = "map (\<lambda>item. if ver item = ver old then superseded_row old new else item) (lineage i L) @ [stamped_row old new]"])
      (auto simp: apply_acceptance_lineage lin lhist_def last_map view_def image_image
        intro!: chain_supersede split: option.splits)
  with op st' show ?thesis by (intro exI [of _ st']) (auto split: option.splits)
qed

text \<open>What the canonicalization boundary freezes is a canonical row.\<close>

lemma strip_dec_id: "strip (''dec_'' @ s) \<noteq> []"
proof -
  have "CHR ''d'' \<in> set (rev (dropWhile is_space (''dec_'' @ s)))" "\<not> is_space (CHR ''d'')"
    by (simp_all add: is_space_def ord_of_def)
  then show ?thesis unfolding strip_def by (metis dropWhile_eq_Nil_conv rev_is_Nil_conv)
qed

lemma frozen_canonical:
  assumes "canonicalize sha256 uuid now (PDict p) cs cid sv i r = Some d"
    and "dget ''semantic_status'' d = PStr ''FROZEN''"
  shows "canonical_row d \<and> cur d \<and> int_field ''revision'' d = Some (max 1 r) \<and>
    (strip i \<noteq> [] \<longrightarrow> did d = strip i)"
proof -
  define i' where "i' = str_or (strip i) (''dec_'' @ take 22 uuid)"
  have "frozen (canonicalize sha256 uuid now (PDict p) cs cid sv i r)"
    using assms by (simp add: frozen_def)
  then have d: "d = frozen_decision sha256 now p (proposal_fields cid sv p) i' (max 1 (if r = 0 then 1 else r))"
    by (rule canonicalize_frozen_shape) (use assms(1) i'_def in simp)
  have ne: "strip i' \<noteq> []" using strip_dec_id [of "take 22 uuid"] by (simp add: i'_def str_or_def)
  have mx: "max 1 (if r = 0 then 1 else r) = max 1 r" by simp
  have "decision_version_id_of i' n = decision_version_id_of (strip i') n" for n
    by (simp add: decision_version_id_of_def)
  then have f: "did d = strip i'" "ver d = decision_version_id_of (did d) (max 1 r)"
      "int_field ''revision'' d = Some (max 1 r)" "dget ''revision_status'' d = PStr ''CURRENT''"
    using strip_version_id [OF ne] unfolding d mx
    by (simp_all add: frozen_decision_def int_field_def py_or_def)
  have vne: "ver d \<noteq> []" using f(2) by (simp add: decision_version_id_of_def)
  have "canonical_row d"
    unfolding canonical_row_def wf_row_def using f ne vne by (intro conjI exI [of _ "max 1 r"]) auto
  moreover have "strip i \<noteq> [] \<Longrightarrow> strip i' = strip i" by (simp add: i'_def str_or_def)
  ultimately show ?thesis using f by (auto simp: current_strip)
qed

lemma evaluate_ok [inv_intros]:
  assumes ok: "ledger_ok L" and cur: "current_cad i L = Some current" and req: "rid request \<noteq> []"
  shows "ledger_ok (snd (evaluate_decision_revision sha256 u1 u2 now (PDict request) (PDict current) br cs L))"
proof -
  have mem: "current \<in> set (lineage (strip i) L)" and cl: "current_locked (strip i) L = Some current"
    using cur current_locked_ok [OF ok] by (auto simp: current_cad_def split: if_splits)
  have c: "canonical_row current" "did current = strip i" using ledger_okD(2,3) [OF ok mem] .
  then obtain n where n: "int_field ''revision'' current = Some n" "1 \<le> n" by (auto simp: canonical_row_def)
  have acc: "ledger_ok M" if "canonicalize sha256 u2 now (PDict p) cs a b (did request) (n + 1) = Some d"
    "dget ''semantic_status'' d = PStr ''FROZEN''" "did current = did request"
    "accept_revision now current d request L = (x, M)" for a b d x M p
  proof -
    have "strip (did request) \<noteq> []" using c(1) that(3) by (simp add: canonical_row_def wf_row_def)
    with frozen_canonical [OF that(1,2)] n have "canonical_row d" "did d = strip i"
      "int_field ''revision'' d = map_option (\<lambda>n. n + 1) (int_field ''revision'' current)"
      using c(2) that(3) by auto
    from accept_revision_current [OF ok cl this req, of now] that(4) show ?thesis by auto
  qed
  show ?thesis
    using ok n acc reject_request_ok [OF ok]
    by (auto simp: evaluate_decision_revision_def Let_def split: option.splits sum.splits prod.splits)
qed

subsection \<open>Reachable ledgers\<close>

text \<open>
  The interleavings of the ledger's operations as the decision boundary uses them: it registers the
  decisions it has frozen, records and rejects any request, and evaluates a request against the
  ledger's own current decision.
\<close>

inductive ledger_step :: "ledger \<Rightarrow> ledger \<Rightarrow> bool" where
  register: "canonicalize sha256 uuid now (PDict p) cs cid sv i n = Some cad \<Longrightarrow>
     dget ''semantic_status'' cad = PStr ''FROZEN'' \<Longrightarrow>
     ledger_step L (snd (register_cad now (PDict cad) L))"
| recorded: "ledger_step L (snd (record_request now request L))"
| rejected: "ledger_step L (snd (reject_request now request reason L))"
| evaluated: "current_cad i L = Some current \<Longrightarrow> rid request \<noteq> [] \<Longrightarrow>
     ledger_step L (snd (evaluate_decision_revision sha256 u1 u2 now (PDict request) (PDict current) br cs L))"

definition reachable :: "ledger \<Rightarrow> bool" where
  "reachable L \<longleftrightarrow> (\<exists>sink. ledger_step\<^sup>*\<^sup>* (new_ledger sink (Some empty_store)) L)"

lemma new_ledger_ok: "ledger_ok (new_ledger sink (Some empty_store))"
  by (simp add: ledger_ok_def new_ledger_def empty_store_def lhist_def lineage_def store_ok_def
      fun_eq_iff hist_def rows_of_def)

lemma ledger_step_ok: "ledger_step L M \<Longrightarrow> ledger_ok L \<Longrightarrow> ledger_ok M"
proof (induction rule: ledger_step.induct)
  case (register sha256 uuid now p cs cid sv i n cad L)
  with frozen_canonical [OF register(1,2)] show ?case by (auto intro: inv_intros)
qed (auto intro: inv_intros)

lemma reachable_ok: "reachable L \<Longrightarrow> ledger_ok L"
proof -
  assume "reachable L"
  then obtain sink where "ledger_step\<^sup>*\<^sup>* (new_ledger sink (Some empty_store)) L"
    unfolding reachable_def by blast
  then show ?thesis by (induction rule: rtranclp_induct) (auto intro: new_ledger_ok ledger_step_ok)
qed

lemma reject_store [simp]: "lg_store (snd (reject_request now request reason L)) = None \<longleftrightarrow> lg_store L = None"
  by (simp add: reject_request_def Let_def)

lemma accept_store: "accept_revision now old new request L = (x, M) \<Longrightarrow> lg_store M = None \<longleftrightarrow> lg_store L = None"
  by (auto simp: accept_revision_def apply_acceptance_def Let_def split: option.splits sum.splits if_splits)

lemma evaluate_store:
  "lg_store (snd (evaluate_decision_revision sha256 u1 u2 now rv cv br cs L)) = None \<longleftrightarrow> lg_store L = None"
proof -
  have acc: "lg_store (snd (case accept_revision now old new request L of
        (Inl e, L1) \<Rightarrow> (Inl e, L1) | (Inr a, L1) \<Rightarrow> (f a, L1))) = None \<longleftrightarrow> lg_store L = None" for old new request f
    using accept_store [of now old new request L] by (auto split: prod.split sum.split)
  show ?thesis
    unfolding evaluate_decision_revision_def Let_def by (simp add: acc split: option.split)
qed

lemma reachable_store: "reachable L \<Longrightarrow> \<exists>st. lg_store L = Some st"
proof -
  have step: "lg_store L \<noteq> None \<Longrightarrow> lg_store M \<noteq> None" if "ledger_step L M" for L M
    using that
  proof (induction rule: ledger_step.induct)
    case (recorded L now request)
    then show ?case using record_request_frame [of now request L] by (auto simp: Let_def)
  next
    case (register sha256 uuid now p cs cid sv i n cad L)
    then show ?case by (simp add: register_cad_def Let_def split: option.split)
  qed (simp_all only: reject_store evaluate_store not_False_eq_True)
  assume "reachable L"
  then obtain sink where "ledger_step\<^sup>*\<^sup>* (new_ledger sink (Some empty_store)) L"
    unfolding reachable_def by blast
  then have "lg_store L \<noteq> None"
    by (induction rule: rtranclp_induct) (auto simp: new_ledger_def dest: step)
  then show ?thesis by blast
qed

subsection \<open>What a rebuild loads\<close>

definition loadable :: "decision_store \<Rightarrow> string \<Rightarrow> pydict list option" where
  "loadable st i = (case Option.bind (fetch_decision_revisions i st) (sort_by_int ''revision'') of
     None \<Rightarrow> None
   | Some revs \<Rightarrow> if revs \<noteq> [] \<and> length (filter cur revs) \<noteq> 1 then None else Some revs)"

lemma sort_by_int_idem: "sort_by_int k rows = Some srt \<Longrightarrow> sort_by_int k srt = Some srt"
  by (auto simp: sort_by_int_def list_all_iff sort_key_id_if_sorted split: if_splits)

lemma loadable_eq:
  "loadable st i = (case fetch_decision_revisions i st of None \<Rightarrow> None
     | Some revs \<Rightarrow> if revs \<noteq> [] \<and> length (filter cur revs) \<noteq> 1 then None else Some revs)"
  using sort_by_int_idem by (auto simp: loadable_def fetch_decision_revisions_def split: option.split)

lemma rebuild_step:
  "case loadable st i of
     None \<Rightarrow> \<exists>e. rebuild_loop st (i # ids) L = (Some e, L)
   | Some revs \<Rightarrow> \<exists>M. rebuild_loop st (i # ids) L = rebuild_loop st ids M \<and>
       (\<forall>j. lineage j M = (if j = i then revs else lineage j L))"
  by (auto simp: loadable_def Let_def lineage_def update_conv' split: option.split intro!: exI)

lemma rebuild_loop_loads:
  "fst (rebuild_loop st ids L) = None \<longleftrightarrow> (\<forall>i \<in> set ids. loadable st i \<noteq> None)"
proof (induction ids arbitrary: L)
  case (Cons i ids)
  show ?case
    using rebuild_step [of st i ids L] Cons by (cases "loadable st i") auto
qed simp

lemma rebuild_loop_lineage:
  assumes "\<forall>i \<in> set ids. loadable st i \<noteq> None"
  shows "lineage j (snd (rebuild_loop st ids L)) = (if j \<in> set ids then the (loadable st j) else lineage j L)"
  using assms
proof (induction ids arbitrary: L)
  case (Cons i ids)
  then show ?case using rebuild_step [of st i ids L] by (cases "loadable st i") auto
qed simp

lemma boot_iff:
  "(\<exists>L. build_store_backed_decision_ledger st = Inr L) \<longleftrightarrow>
     (\<forall>i \<in> set (list_decision_lineage_ids st). loadable st i \<noteq> None)"
  using rebuild_loop_loads [of st "list_decision_lineage_ids st" "new_ledger False (Some st)"]
  by (auto simp: build_store_backed_decision_ledger_def from_store_def rebuild_def new_ledger_def
      split: prod.splits option.splits sum.splits ledger_error.splits)

lemma boot_lineage:
  assumes "build_store_backed_decision_ledger st = Inr M"
  shows "lineage j M = (if j \<in> set (list_decision_lineage_ids st) then the (loadable st j) else [])"
proof -
  have load: "\<forall>i \<in> set (list_decision_lineage_ids st). loadable st i \<noteq> None"
    using assms boot_iff by blast
  have "M = snd (rebuild_loop st (list_decision_lineage_ids st) (new_ledger False (Some st)))"
    using assms by (auto simp: build_store_backed_decision_ledger_def from_store_def rebuild_def new_ledger_def
      split: prod.splits option.splits sum.splits ledger_error.splits)
  then show ?thesis using rebuild_loop_lineage [OF load] by (simp add: new_ledger_def lineage_def)
qed

lemma recover:
  assumes ok: "ledger_ok L" and st: "lg_store L = Some st"
  shows "\<exists>M. build_store_backed_decision_ledger st = Inr M \<and> (\<forall>i. lhist M i = lhist L i)"
proof -
  note s = ledger_okD(4,5) [OF ok st]
  have ids: "i \<in> set (list_decision_lineage_ids st) \<longleftrightarrow> lhist L i \<noteq> []" for i
    using ds.ids_law [OF s(1)] s(2) by simp
  have load: "\<exists>rows. loadable st i = Some rows \<and> map view rows = lhist L i" if "lhist L i \<noteq> []" for i
  proof -
    obtain row where "row \<in> set (lineage i L)" using \<open>lhist L i \<noteq> []\<close> by (cases "lineage i L") (auto simp: lhist_def)
    then have "strip i = i" using ledger_okD(3) [OF ok] by (metis strip_norm_of)
    moreover have "ds.all_chains st" using ok s(2) by (simp add: ds.all_chains_def ledger_ok_def)
    ultimately show ?thesis
      using ds.fetch_one_current [OF s(1), of i] that s(2) by (auto simp: loadable_eq)
  qed
  then have "\<forall>i \<in> set (list_decision_lineage_ids st). loadable st i \<noteq> None" using ids by fastforce
  then obtain M where M: "build_store_backed_decision_ledger st = Inr M" using boot_iff by blast
  have "lhist M i = lhist L i" for i
    using boot_lineage [OF M, of i] load [of i] ids [of i] by (auto simp: lhist_def)
  with M show ?thesis by blast
qed

subsection \<open>The request log\<close>

definition pending :: "pydict \<Rightarrow> bool" where
  "pending r \<longleftrightarrow> norm_of (dget ''status'' r) = ''PENDING''"

definition request_key :: "pydict \<Rightarrow> string \<times> int option \<times> string" where
  "request_key r = (did r, int_field ''current_revision'' r, norm_of (dget ''reason_code'' r))"

definition requests_ok :: "pydict list \<Rightarrow> bool" where
  "requests_ok rs \<longleftrightarrow> distinct (map rid rs) \<and> distinct (map request_key (filter pending rs))"

lemma find_duplicate_none:
  "find_duplicate r rs = Some None \<Longrightarrow> e \<in> set rs \<Longrightarrow>
   rid e \<noteq> rid r \<and> \<not> (pending e \<and> int_field ''current_revision'' r \<noteq> None \<and> request_key e = request_key r)"
proof (induction rs)
  case (Cons x rs)
  then have "rid x \<noteq> rid r" "find_duplicate r rs = Some None"
    "\<not> (pending x \<and> int_field ''current_revision'' r \<noteq> None \<and> request_key x = request_key r)"
    by (auto simp: request_key_def pending_def split: if_splits option.splits)
  with Cons show ?case by auto
qed simp

lemma requests_ok_append:
  assumes "requests_ok rs" and "find_duplicate r rs = Some None" and "int_field ''current_revision'' r \<noteq> None"
    and "rid r' = rid r" and "pending r' \<Longrightarrow> r' = r"
  shows "requests_ok (rs @ [r'])"
proof -
  note none = find_duplicate_none [OF assms(2)]
  have "rid r' \<notin> rid ` set rs" using none assms(4) by fastforce
  moreover have "request_key r' \<notin> request_key ` set (filter pending rs)" if p: "pending r'"
    using none assms(3) assms(5) [OF p] by fastforce
  ultimately show ?thesis using assms(1) by (simp add: requests_ok_def)
qed

text \<open>Settling a request: every entry of its id is replaced by one that is not pending.\<close>

lemma requests_ok_put:
  assumes "requests_ok rs" and "\<not> pending r"
  shows "requests_ok (put_request r rs)"
proof -
  have "map rid (put_request r rs) = map rid rs" by (simp add: put_request_def)
  moreover have "filter pending (put_request r rs) = filter pending (filter (\<lambda>x. rid x \<noteq> rid r) rs)"
    using assms(2) by (induction rs) (auto simp: put_request_def)
  moreover have "filter pending (filter (\<lambda>x. rid x \<noteq> rid r) rs) = filter (\<lambda>x. rid x \<noteq> rid r) (filter pending rs)"
    by (simp add: conj_commute)
  moreover have "distinct (map request_key (filter (\<lambda>x. rid x \<noteq> rid r) (filter pending rs)))"
    using assms(1) distinct_map_filter unfolding requests_ok_def by blast
  ultimately show ?thesis using assms(1) by (simp add: requests_ok_def)
qed

lemma status_not_pending:
  "\<not> pending (AList.update ''reject_reason'' v (AList.update ''status'' (PStr ''REJECTED'') r))"
  "\<not> pending (AList.update ''status'' (PStr ''ACCEPTED'') r)"
  by (simp_all add: pending_def strip_def is_space_def ord_of_def)

lemma record_requests: "requests_ok (lg_requests L) \<Longrightarrow> requests_ok (lg_requests (snd (record_request now r L)))"
  using status_not_pending(1)
  by (auto simp: record_request_def Let_def split: option.split intro!: requests_ok_append)

lemma reject_requests:
  "requests_ok (lg_requests L) \<Longrightarrow> requests_ok (lg_requests (snd (reject_request now r reason L)))"
  by (simp add: reject_request_def Let_def requests_ok_put status_not_pending)

lemma accept_requests:
  "requests_ok (lg_requests L) \<Longrightarrow> accept_revision now old new r L = (x, M) \<Longrightarrow> requests_ok (lg_requests M)"
  by (auto simp: accept_revision_def apply_acceptance_def Let_def requests_ok_put status_not_pending
      split: option.splits sum.splits if_splits)

lemma evaluate_requests:
  assumes "requests_ok (lg_requests L)"
  shows "requests_ok (lg_requests (snd (evaluate_decision_revision sha256 u1 u2 now rv cv br cs L)))"
proof -
  have acc: "requests_ok (lg_requests (snd (case accept_revision now old new request L of
        (Inl e, L1) \<Rightarrow> (Inl e, L1) | (Inr a, L1) \<Rightarrow> (f a, L1))))" for old new request f
    using accept_requests [OF assms, of now old new request] by (auto split: prod.split sum.split)
  show ?thesis
    unfolding evaluate_decision_revision_def Let_def
    using assms by (simp add: acc reject_requests split: option.split)
qed

lemma reachable_requests: "reachable L \<Longrightarrow> requests_ok (lg_requests L)"
proof -
  have step: "requests_ok (lg_requests L) \<Longrightarrow> requests_ok (lg_requests M)" if "ledger_step L M" for L M
    using that
  proof (induction rule: ledger_step.induct)
    case (register sha256 uuid now p cs cid sv i n cad L)
    then show ?case by (simp add: register_cad_def Let_def split: option.split)
  qed (simp_all add: record_requests reject_requests evaluate_requests)
  assume "reachable L"
  then obtain sink where "ledger_step\<^sup>*\<^sup>* (new_ledger sink (Some empty_store)) L"
    unfolding reachable_def by blast
  then show ?thesis
    by (induction rule: rtranclp_induct) (auto simp: new_ledger_def requests_ok_def dest: step)
qed

subsection \<open>Outcomes of an evaluation\<close>

lemma reject_lineages [simp]: "lg_lineages (snd (reject_request now r reason L)) = lg_lineages L"
  by (simp add: reject_request_def Let_def)

lemma map_prod_Inr [simp]:
  "map_prod Inr id p = (Inr a, M) \<longleftrightarrow> p = (a, M)" "map_prod Inr id p \<noteq> (Inl e, M)"
  by (cases p; simp)+

lemma accept_error: "accept_revision now old new r L = (Inl e, M) \<Longrightarrow> M = L"
  by (auto simp: accept_revision_def split: option.splits sum.splits if_splits)

lemma accept_success:
  assumes "accept_revision now old new r L = (Inr a, M)"
  shows "did new = did old \<and> int_field ''revision'' old \<noteq> None \<and>
    int_field ''revision'' new = map_option (\<lambda>n. n + 1) (int_field ''revision'' old) \<and>
    is_current (PDict old) L \<and> ac_old_cad a = superseded_row old new \<and> ac_new_cad a = stamped_row old new \<and>
    lineage j M = (if j = did old
      then map (\<lambda>item. if ver item = ver old then superseded_row old new else item) (lineage j L) @ [stamped_row old new]
      else lineage j L)"
proof -
  have keep: "lineage k (L\<lparr>lg_store := st\<rparr>) = lineage k L" for k st by (simp add: lineage_def)
  have facts: "did new = did old \<and> int_field ''revision'' old \<noteq> None \<and>
      int_field ''revision'' new = map_option (\<lambda>n. n + 1) (int_field ''revision'' old) \<and> is_current (PDict old) L \<and>
      (apply_acceptance now old new r L = (a, M) \<or> (\<exists>st. apply_acceptance now old new r (L\<lparr>lg_store := st\<rparr>) = (a, M)))"
    using assms by (fastforce simp: accept_revision_def split: option.splits sum.splits if_splits)
  then obtain K where K: "apply_acceptance now old new r K = (a, M)" "\<And>k. lineage k K = lineage k L"
    using keep by blast
  have "ac_old_cad a = superseded_row old new" "ac_new_cad a = stamped_row old new"
    using K(1) by (auto simp: apply_acceptance_def Let_def)
  with facts apply_acceptance_lineage(1) [of j now old new r K] K show ?thesis by auto
qed

definition outcome_ok :: "string \<Rightarrow> pydict \<Rightarrow> pydict \<Rightarrow> ledger \<Rightarrow> (ledger_error + revision_outcome) \<times> ledger \<Rightarrow> bool" where
  "outcome_ok now current request L r \<longleftrightarrow> (case fst r of
       Inl e \<Rightarrow> lg_lineages (snd r) = lg_lineages L
     | Inr oc \<Rightarrow> if ro_accepted oc
         then \<exists>new a. accept_revision now current new request L = (Inr a, snd r) \<and>
              did request = did current \<and> pending request \<and>
              ro_old_cad oc = Some (ac_old_cad a) \<and> ro_new_cad oc = Some (ac_new_cad a)
         else lg_lineages (snd r) = lg_lineages L \<and> ro_new_cad oc = None)"

lemma outcome_rejected:
  "lg_lineages M = lg_lineages L \<Longrightarrow> outcome_ok now current request L (Inr (rejected_outcome codes b q c), M)"
  by (simp add: outcome_ok_def rejected_outcome_def)

lemma outcome_raised: "outcome_ok now current request L (Inl e, L)"
  by (simp add: outcome_ok_def)

lemma outcome_accepted:
  "did request = did current \<Longrightarrow> pending request \<Longrightarrow>
   outcome_ok now current request L (case accept_revision now current d request L of
        (Inl e, L1) \<Rightarrow> (Inl e, L1)
      | (Inr a, L1) \<Rightarrow> (Inr \<lparr>ro_accepted = True, ro_reason_codes = codes,
           ro_needs_review = rv, ro_request = ac_request a, ro_current_cad = cc,
           ro_old_cad = Some (ac_old_cad a), ro_new_cad = Some (ac_new_cad a)\<rparr>, L1))"
  using accept_error [of now current d request L] by (auto simp: outcome_ok_def split: prod.split sum.split)

lemma evaluate_outcome:
  "outcome_ok now (as_dict cv) (as_dict rv) L (evaluate_decision_revision sha256 u1 u2 now rv cv br cs L)"
proof (cases "pending (as_dict rv) \<and> did (as_dict cv) = did (as_dict rv) \<and> is_current (PDict (as_dict cv)) L")
  case False
  then show ?thesis
    by (auto simp: evaluate_decision_revision_def Let_def pending_def outcome_rejected)
next
  case True
  show ?thesis
  proof (cases "build_business_decision_proposal u1 br")
    case None
    with True show ?thesis
      by (simp add: evaluate_decision_revision_def Let_def pending_def outcome_rejected)
  next
    case (Some p)
    with True show ?thesis
      by (simp add: evaluate_decision_revision_def Let_def pending_def outcome_rejected outcome_raised
          outcome_accepted split: option.split)
  qed
qed

subsection \<open>A sample ledger\<close>

definition sample_cad :: pydict where
  "sample_cad = the (canonicalize sample_digest ''ab'' ''t'' (PDict sample_proposal) sample_canon_state
     ''case-1'' ''v1'' ''dec_1'' 1)"

definition sample_ledger :: ledger where
  "sample_ledger = snd (register_cad ''t'' (PDict sample_cad) (new_ledger False (Some empty_store)))"

definition sample_request :: pydict where
  "sample_request = build_decision_revision_request ''cd'' ''t1'' ''dec_1'' 1 ''STALE_SITUATION'' [] [] []
     PNone [] [] ''PENDING''"

lemma sample_cad_eq:
  "canonicalize sample_digest ''ab'' ''t'' (PDict sample_proposal) sample_canon_state ''case-1'' ''v1'' ''dec_1'' 1
     = Some sample_cad" "dget ''semantic_status'' sample_cad = PStr ''FROZEN''"
  using sample_frozen [of sample_digest "''ab''" "''t''" "''case-1''" "''v1''" "''dec_1''" 1]
  by (auto simp: sample_cad_def frozen_def split: option.splits)

lemma sample_reachable: "reachable sample_ledger"
  unfolding reachable_def sample_ledger_def
  using ledger_step.register [OF sample_cad_eq] by blast

lemma sample_did: "did sample_cad = ''dec_1''"
proof -
  have "strip ''dec_1'' = ''dec_1''" by (simp add: strip_def is_space_def ord_of_def)
  with frozen_canonical [OF sample_cad_eq] show ?thesis by simp
qed

lemma sample_current: "current_cad ''dec_1'' sample_ledger = Some sample_cad" "revisions ''dec_1'' sample_ledger = [sample_cad]"
proof -
  have s: "strip ''dec_1'' = ''dec_1''" by (simp add: strip_def is_space_def ord_of_def)
  have c: "cur sample_cad" "ver sample_cad \<noteq> []"
    using frozen_canonical [OF sample_cad_eq] by (auto simp: canonical_row_def wf_row_def)
  have l: "lineage ''dec_1'' sample_ledger = [sample_cad]"
    using c by (simp add: sample_ledger_def register_cad_def sample_did new_ledger_def current_locked_def
        lineage_def Let_def emit_def)
  then show "current_cad ''dec_1'' sample_ledger = Some sample_cad" "revisions ''dec_1'' sample_ledger = [sample_cad]"
    using c by (simp_all add: current_cad_def current_locked_def revisions_def s)
qed

subsection \<open>Properties\<close>

text \<open>
  Property C11.  Exactly one current revision: in every reachable ledger a decision that has
  revisions has exactly one that is \<open>CURRENT\<close>, the newest; revision numbers run without gaps and
  version identities do not repeat.
\<close>

theorem one_current_revision:
  assumes "reachable L" and "revisions i L \<noteq> []"
  shows "current_cad i L = Some (last (revisions i L)) \<and>
    filter cur (revisions i L) = [last (revisions i L)] \<and>
    (\<exists>a. map (int_field ''revision'') (revisions i L) = map (\<lambda>k. Some (a + int k)) [0..<length (revisions i L)]) \<and>
    distinct (map ver (revisions i L))"
proof -
  note ok = reachable_ok [OF assms(1)]
  let ?rows = "lineage (strip i) L"
  have ne: "?rows \<noteq> []" using assms(2) by (simp add: revisions_def)
  have ch: "chain (map view ?rows)" by (rule ledger_okD(1) [OF ok])
  then have *: "distinct (map fst (map view ?rows))"
    "\<exists>a. map (fst \<circ> snd) (map view ?rows) = map (\<lambda>k. Some (a + int k)) [0..<length ?rows]"
    using ne by (auto simp: chain_def)
  have "filter (\<lambda>e. snd (snd e)) (map view ?rows) = map view (filter cur ?rows)"
    by (simp add: filter_map comp_def view_def)
  then have "map view (filter cur ?rows) = [last (map view ?rows)]"
    using chain_current [OF ch] ne by simp
  then have "length (map view (filter cur ?rows)) = length [last (map view ?rows)]" by (simp only:)
  then have "length (filter cur ?rows) = 1" by simp
  moreover have "cur (last ?rows)" using chain_last [OF ch] ne by (simp add: last_map view_def)
  then have "last ?rows \<in> set (filter cur ?rows)" using ne by simp
  ultimately have "filter cur ?rows = [last ?rows]" by (cases "filter cur ?rows") auto
  with * ne current_locked_ok [OF ok] show ?thesis
    by (simp add: revisions_def current_cad_def view_def comp_def)
qed

theorem one_current_revision_witness: "filter cur (revisions ''dec_1'' sample_ledger) = [sample_cad]"
  using one_current_revision [OF sample_reachable, of "''dec_1''"] by (simp add: sample_current)

text \<open>
  Property C10.  A restart loses nothing: from the durable store of any reachable ledger the boot
  seam rebuilds a ledger, and that ledger has the same revisions in the same order with the same
  versions, numbers and statuses, and so the same current decision.
\<close>

theorem restart_recovers:
  assumes "reachable L"
  shows "\<exists>st M. lg_store L = Some st \<and> build_store_backed_decision_ledger st = Inr M \<and>
    (\<forall>i. map view (revisions i M) = map view (revisions i L)) \<and>
    (\<forall>i. map_option view (current_cad i M) = map_option view (current_cad i L))"
proof -
  note ok = reachable_ok [OF assms]
  obtain st where st: "lg_store L = Some st" using reachable_store [OF assms] by blast
  from recover [OF ok st] obtain M where M: "build_store_backed_decision_ledger st = Inr M"
    "\<And>i. map view (lineage i M) = map view (lineage i L)" unfolding lhist_def by blast
  have cur: "current_locked i K = (if lineage i K = [] then None else Some (last (lineage i K)))"
    if "chain (map view (lineage i K))" for i K
    unfolding current_locked_def by (rule chain_find_current [OF that])
  have "map_option view (current_locked i M) = map_option view (current_locked i L)" for i
  proof -
    have ch: "chain (map view (lineage i L))" by (rule ledger_okD(1) [OF ok])
    have e: "lineage i M = [] \<longleftrightarrow> lineage i L = []" using M(2) [of i] by (metis map_is_Nil_conv)
    have "view (last (lineage i M)) = view (last (lineage i L))" if "lineage i L \<noteq> []"
      using last_map [of "lineage i M" view] last_map [of "lineage i L" view] that e M(2) [of i] by simp
    with ch e cur [of i L] cur [of i M] M(2) [of i] show ?thesis by simp
  qed
  with st M show ?thesis by (auto simp: revisions_def current_cad_def)
qed

theorem restart_recovers_witness:
  "\<exists>st M. lg_store sample_ledger = Some st \<and> build_store_backed_decision_ledger st = Inr M \<and>
     map_option view (current_cad ''dec_1'' M) = Some (view sample_cad)"
proof -
  from restart_recovers [OF sample_reachable] obtain st M where r:
    "lg_store sample_ledger = Some st" "build_store_backed_decision_ledger st = Inr M"
    "\<And>i. map_option view (current_cad i M) = map_option view (current_cad i sample_ledger)" by blast
  have "map_option view (current_cad ''dec_1'' M) = Some (view sample_cad)"
    using r(3) [of "''dec_1''"] by (simp only: sample_current option.map)
  with r(1,2) show ?thesis by blast
qed

text \<open>
  Evaluation is the only writer, and an all-or-nothing one: when an evaluation
  raises or rejects, no decision's revisions change and no new decision is returned; when it accepts,
  the request was pending and named the decision of the current revision it was given, that revision
  was current, it is now superseded, the returned decision is its successor by number and is current,
  and no other decision's revisions changed.
\<close>

theorem evaluation_all_or_nothing:
  "case evaluate_decision_revision sha256 u1 u2 now rv cv br cs L of
     (Inl e, M) \<Rightarrow> lineage j M = lineage j L
   | (Inr oc, M) \<Rightarrow>
       if ro_accepted oc
       then norm_of (dget ''status'' (as_dict rv)) = ''PENDING'' \<and> did (as_dict rv) = did (as_dict cv) \<and>
         is_current (PDict (as_dict cv)) L \<and>
         (\<exists>old new. ro_old_cad oc = Some old \<and> ro_new_cad oc = Some new \<and>
            ver old = ver (as_dict cv) \<and> \<not> cur old \<and> cur new \<and> did new = did (as_dict cv) \<and>
            int_field ''revision'' new = map_option (\<lambda>n. n + 1) (int_field ''revision'' (as_dict cv)) \<and>
            current_cad (did new) M = Some new \<and>
            lineage j M = (if j = did new
              then map (\<lambda>item. if ver item = ver old then old else item) (lineage j L) @ [new]
              else lineage j L))
       else lineage j M = lineage j L \<and> ro_new_cad oc = None"
proof -
  obtain out M where eq: "evaluate_decision_revision sha256 u1 u2 now rv cv br cs L = (out, M)" by fastforce
  note ok = evaluate_outcome [of now cv rv L sha256 u1 u2 br cs, unfolded eq outcome_ok_def fst_conv snd_conv]
  show ?thesis
  proof (cases out)
    case (Inl e)
    with ok eq show ?thesis by (simp add: lineage_def)
  next
    case (Inr oc)
    show ?thesis
    proof (cases "ro_accepted oc")
      case False
      with ok Inr eq show ?thesis by (simp add: lineage_def)
    next
      case True
      then obtain new a where acc: "accept_revision now (as_dict cv) new (as_dict rv) L = (Inr a, M)"
        and f: "did (as_dict rv) = did (as_dict cv)" "pending (as_dict rv)"
          "ro_old_cad oc = Some (ac_old_cad a)" "ro_new_cad oc = Some (ac_new_cad a)"
        using ok Inr by auto
      have flags: "\<not> cur (superseded_row x y)" "cur (stamped_row x y)" for x y
        by (simp_all add: superseded_fields stamped_fields current_strip)
      note s = accept_success [OF acc]
      have "current_cad (did (as_dict cv)) M = Some (stamped_row (as_dict cv) new)"
        using s [of "did (as_dict cv)"] flags by (simp add: current_cad_def current_locked_def)
      with s [of j] f True Inr eq flags show ?thesis
        by (auto simp: pending_def stamped_fields superseded_fields)
    qed
  qed
qed

lemma current_row_canonical:
  assumes "reachable L" and "current_cad i L = Some old"
  shows "canonical_row old"
proof -
  note ok = reachable_ok [OF assms(1)]
  have "old \<in> set (lineage (strip i) L)"
    using assms(2) current_locked_ok [OF ok] by (auto simp: current_cad_def split: if_splits)
  then show ?thesis by (rule ledger_okD(2) [OF ok])
qed

text \<open>An accepted revision takes the place of the one it was evaluated against.\<close>

lemma accepted_supersedes:
  assumes "reachable L" and "current_cad i L = Some old" and "rid request \<noteq> []"
    and "evaluate_decision_revision sha256 u1 u2 now (PDict request) (PDict old) br cs L = (Inr oc, M)"
    and "ro_accepted oc"
  shows "\<exists>new. ro_new_cad oc = Some new \<and> current_cad i M = Some new \<and> ver new \<noteq> ver old \<and> ver new \<noteq> []"
    and "did old = strip i"
proof -
  note ok = reachable_ok [OF assms(1)]
  have ne: "lineage (strip i) L \<noteq> []" and last: "old = last (lineage (strip i) L)"
    using assms(2) current_locked_ok [OF ok] by (auto simp: current_cad_def split: if_splits)
  then have mem: "old \<in> set (lineage (strip i) L)" by simp
  have c: "canonical_row old" "did old = strip i" using ledger_okD(2,3) [OF ok mem] .
  show "did old = strip i" by (rule c(2))
  from evaluate_outcome [of now "PDict old" "PDict request" L sha256 u1 u2 br cs] assms(4,5)
  obtain new a where acc: "accept_revision now old new request L = (Inr a, M)" and
    new: "ro_new_cad oc = Some (ac_new_cad a)"
    by (auto simp: outcome_ok_def)
  note s = accept_success [OF acc, of "did old"]
  have cr: "current_cad i M = Some (stamped_row old new)"
    using s c(2) by (simp add: current_cad_def current_locked_def stamped_fields current_strip)
  have "ledger_ok M"
    using evaluate_ok [OF ok assms(2,3), of sha256 u1 u2 now br cs] assms(4) by simp
  then have row: "canonical_row (stamped_row old new)"
    using s c(2) mem ledger_okD(2) [of M "stamped_row old new" "strip i"] by auto
  have differ: "ver (stamped_row old new) \<noteq> ver old"
  proof
    assume "ver (stamped_row old new) = ver old"
    then have "int_field ''revision'' (stamped_row old new) = int_field ''revision'' old"
      using canonical_same [OF row c(1)] by simp
    with s show False by (auto simp: stamped_fields)
  qed
  moreover have "ver (stamped_row old new) \<noteq> []" using row by (simp add: canonical_row_def wf_row_def)
  ultimately show "\<exists>new. ro_new_cad oc = Some new \<and> current_cad i M = Some new \<and> ver new \<noteq> ver old \<and> ver new \<noteq> []"
    using cr s new by auto
qed

text \<open>
  Property C38.  No second acceptance: once an evaluation of a reachable ledger has accepted a
  revision of its current decision, that decision is no longer current, a second evaluation against
  it is rejected as stale and changes nothing, and an approval that binds the old version does not
  bind the new one.
\<close>

theorem no_second_acceptance:
  assumes "reachable L" and "current_cad i L = Some old" and "rid request \<noteq> []"
    and "evaluate_decision_revision sha256 u1 u2 now (PDict request) (PDict old) br cs L = (Inr oc, M)"
    and "ro_accepted oc" and "norm_of (dget ''status'' request2) = ''PENDING''"
  shows "\<not> is_current (PDict old) M \<and>
    evaluate_decision_revision sha256 v1 v2 now2 (PDict request2) (PDict old) br2 cs2 M =
      (Inr (rejected_outcome [''STALE_REVISION_REQUEST''] False request2 (PDict old)), M) \<and>
    (\<exists>new. ro_new_cad oc = Some new \<and> current_cad i M = Some new \<and>
      \<not> (approval_binds_revision approval (PDict old) \<and> approval_binds_revision approval (PDict new)))"
proof -
  obtain new where new: "ro_new_cad oc = Some new" "current_cad i M = Some new" "ver new \<noteq> ver old"
    using accepted_supersedes(1) [OF assms(1-5)] by blast
  have "\<not> is_current (PDict old) M"
    using new accepted_supersedes(2) [OF assms(1-5)] by (auto simp: is_current_def current_cad_def)
  then show ?thesis
    using assms(6) new
    by (auto simp: evaluate_decision_revision_def Let_def approval_binds_revision_def artifact_version_matches_def)
qed

definition sample_evaluation :: "(ledger_error + revision_outcome) \<times> ledger" where
  "sample_evaluation = evaluate_decision_revision sample_digest ''u1'' ''u2'' ''t2'' (PDict sample_request)
     (PDict sample_cad) sample_br sample_canon_state sample_ledger"

lemma sample_evaluation_accepts: "case fst sample_evaluation of Inl e \<Rightarrow> False | Inr oc \<Rightarrow> ro_accepted oc"
  by code_simp

lemma sample_request_facts: "rid sample_request \<noteq> []" "norm_of (dget ''status'' sample_request) = ''PENDING''"
  by code_simp+

theorem no_second_acceptance_witness:
  "\<not> is_current (PDict sample_cad) (snd sample_evaluation)"
proof -
  obtain oc where oc: "fst sample_evaluation = Inr oc" "ro_accepted oc"
    using sample_evaluation_accepts by (auto split: sum.splits)
  then have ev: "evaluate_decision_revision sample_digest ''u1'' ''u2'' ''t2'' (PDict sample_request)
      (PDict sample_cad) sample_br sample_canon_state sample_ledger = (Inr oc, snd sample_evaluation)"
    unfolding sample_evaluation_def by (metis prod.collapse)
  show ?thesis
    using no_second_acceptance [OF sample_reachable sample_current(1) sample_request_facts(1) ev oc(2)
        sample_request_facts(2)] by blast
qed

lemma lineage_ids_rows:
  assumes "i \<in> set (list_decision_lineage_ids st)"
  shows "strip i = i" and "fetch_decision_revisions i st \<noteq> Some []"
proof -
  obtain row where row: "row \<in> set (map snd (decision_revisions st))" "did row = i" "strip i = i"
    using assms by (force simp: list_decision_lineage_ids_def)
  then have "row \<in> set (filter (\<lambda>item. did item = strip i) (map snd (decision_revisions st)))" by simp
  then have "row \<in> set rows" if "fetch_decision_revisions i st = Some rows" for rows
    using that unfolding fetch_decision_revisions_def sort_by_int_def by (force split: if_splits)
  then show "fetch_decision_revisions i st \<noteq> Some []" by fastforce
  show "strip i = i" by (rule row(3))
qed

lemma find_only:
  assumes "filter P xs = [c]"
  shows "find P (rev xs) = Some c"
proof -
  have first: "find P ys = (case filter P ys of [] \<Rightarrow> None | y # _ \<Rightarrow> Some y)" for ys by (induction ys) auto
  show ?thesis using assms by (simp add: first rev_filter [symmetric])
qed

lemma rebuild_loop_error:
  assumes "\<forall>i \<in> set ids. fetch_decision_revisions i st \<noteq> None" and "\<exists>i \<in> set ids. loadable st i = None"
  shows "fst (rebuild_loop st ids L) = Some (RevisionError ''rebuild_one_current_violation'')"
  using assms
proof (induction ids arbitrary: L)
  case (Cons i ids)
  obtain rows where rows: "fetch_decision_revisions i st = Some rows" using Cons.prems(1) by auto
  then have sorted: "sort_by_int ''revision'' rows = Some rows"
    using sort_by_int_idem unfolding fetch_decision_revisions_def by blast
  show ?case
  proof (cases "loadable st i")
    case None
    then show ?thesis using rows sorted by (simp add: loadable_eq split: if_splits)
  next
    case (Some revs)
    then have "\<exists>j \<in> set ids. loadable st j = None" using Cons.prems(2) by auto
    from Cons.IH [OF _ this] Cons.prems(1) show ?thesis
      using Some rows sorted by (simp add: loadable_eq Let_def split: if_splits)
  qed
qed simp

text \<open>
  Property C39.  What boot takes from a store and when it refuses one.  A ledger that the boot seam returns holds, for
  every decision of the store, the decision's rows in the order of their revisions, exactly one of them is marked
  \<open>CURRENT\<close>, and that row is the ledger's current decision.  And when the rows of every decision
  can be read but some decision has no row or several rows marked \<open>CURRENT\<close>, boot ends in the error for an
  invalid revision state.  Nothing is claimed of the order within a lineage, which boot does not
  check although the error's docstring lists it (\<open>boot_accepts_rewound_lineage\<close>).
\<close>

theorem boot_takes_the_one_current_row:
  "(\<forall>L. build_store_backed_decision_ledger st = Inr L \<longrightarrow>
      (\<forall>i \<in> set (list_decision_lineage_ids st). \<exists>rows c. fetch_decision_revisions i st = Some rows \<and>
         revisions i L = rows \<and> filter cur rows = [c] \<and> current_cad i L = Some c)) \<and>
   ((\<forall>i \<in> set (list_decision_lineage_ids st). fetch_decision_revisions i st \<noteq> None) \<and>
    (\<exists>i \<in> set (list_decision_lineage_ids st). \<exists>rows. fetch_decision_revisions i st = Some rows \<and>
       length (filter cur rows) \<noteq> 1) \<longrightarrow>
      build_store_backed_decision_ledger st = Inl (RevisionStateInvalid ''rebuild_one_current_violation''))"
proof (intro conjI allI impI ballI)
  fix L i
  assume boot: "build_store_backed_decision_ledger st = Inr L" and i: "i \<in> set (list_decision_lineage_ids st)"
  have "loadable st i \<noteq> None" using boot boot_iff i by blast
  then obtain rows where load: "loadable st i = Some rows" by blast
  then have rows: "fetch_decision_revisions i st = Some rows" "length (filter cur rows) = 1"
    using lineage_ids_rows(2) [OF i] by (auto simp: loadable_eq split: option.splits if_splits)
  then obtain c where c: "filter cur rows = [c]" by (auto simp: length_Suc_conv)
  have "lineage i L = rows" using boot_lineage [OF boot, of i] i load by simp
  then have "revisions i L = rows" "current_cad i L = Some c"
    using find_only [OF c]
    by (simp_all add: revisions_def current_cad_def current_locked_def lineage_ids_rows(1) [OF i])
  with rows(1) c show "\<exists>rows c. fetch_decision_revisions i st = Some rows \<and>
         revisions i L = rows \<and> filter cur rows = [c] \<and> current_cad i L = Some c" by blast
next
  assume bad: "(\<forall>i \<in> set (list_decision_lineage_ids st). fetch_decision_revisions i st \<noteq> None) \<and>
    (\<exists>i \<in> set (list_decision_lineage_ids st). \<exists>rows. fetch_decision_revisions i st = Some rows \<and>
       length (filter cur rows) \<noteq> 1)"
  then obtain i rows where i: "i \<in> set (list_decision_lineage_ids st)" "fetch_decision_revisions i st = Some rows"
    "length (filter cur rows) \<noteq> 1" by blast
  then have "loadable st i = None" using lineage_ids_rows(2) [OF i(1)] by (simp add: loadable_eq)
  with i(1) bad have "fst (rebuild_loop st (list_decision_lineage_ids st) (new_ledger False (Some st))) =
      Some (RevisionError ''rebuild_one_current_violation'')"
    by (intro rebuild_loop_error) blast+
  then show "build_store_backed_decision_ledger st = Inl (RevisionStateInvalid ''rebuild_one_current_violation'')"
    by (auto simp: build_store_backed_decision_ledger_def from_store_def rebuild_def new_ledger_def split: prod.splits)
qed

text \<open>
  What boot does not check: the order of a lineage.  A store whose only \<open>CURRENT\<close> row
  is revision 1 of a decision that also has a superseded revision 2 is loaded, and revision 1 is then
  the current decision.
\<close>

definition rewound_store :: decision_store where
  "rewound_store = \<lparr>decision_revisions =
     [(''d:r1'', [(''decision_id'', PStr ''d''), (''decision_version_id'', PStr ''d:r1''), (''revision'', PInt 1),
        (''revision_status'', PStr ''CURRENT'')]),
      (''d:r2'', [(''decision_id'', PStr ''d''), (''decision_version_id'', PStr ''d:r2''), (''revision'', PInt 2),
        (''revision_status'', PStr ''SUPERSEDED''), (''supersedes_version_id'', PStr ''d:r1'')])],
     decision_revision_requests = []\<rparr>"

theorem boot_accepts_rewound_lineage:
  "(case build_store_backed_decision_ledger rewound_store of Inl e \<Rightarrow> None
    | Inr L \<Rightarrow> Some (current_revision ''d'' L, length (revisions ''d'' L))) = Some (Some 1, 2)"
  by code_simp

definition two_current_store :: decision_store where
  "two_current_store = \<lparr>decision_revisions =
     [(''d:r1'', [(''decision_id'', PStr ''d''), (''decision_version_id'', PStr ''d:r1''), (''revision'', PInt 1),
        (''revision_status'', PStr ''CURRENT'')]),
      (''d:r2'', [(''decision_id'', PStr ''d''), (''decision_version_id'', PStr ''d:r2''), (''revision'', PInt 2),
        (''revision_status'', PStr ''CURRENT'')])],
     decision_revision_requests = []\<rparr>"

theorem boot_takes_the_one_current_row_witness:
  "build_store_backed_decision_ledger two_current_store =
     Inl (RevisionStateInvalid ''rebuild_one_current_violation'')"
proof (rule boot_takes_the_one_current_row [THEN conjunct2, THEN mp])
  have ids: "list_decision_lineage_ids two_current_store = [''d'']" by code_simp
  have "fetch_decision_revisions ''d'' two_current_store =
      Some (map snd (decision_revisions two_current_store))"
    "length (filter cur (map snd (decision_revisions two_current_store))) \<noteq> 1"
    by code_simp+
  then show "(\<forall>i \<in> set (list_decision_lineage_ids two_current_store).
        fetch_decision_revisions i two_current_store \<noteq> None) \<and>
      (\<exists>i \<in> set (list_decision_lineage_ids two_current_store). \<exists>rows.
        fetch_decision_revisions i two_current_store = Some rows \<and> length (filter cur rows) \<noteq> 1)"
    unfolding ids by simp
qed

text \<open>
  The request log: in every reachable ledger no two recorded requests share an id,
  and no two pending ones ask for the same revision of the same decision for the same reason.
\<close>

theorem request_log_guard:
  assumes "reachable L"
  shows "distinct (map rid (lg_requests L)) \<and>
    distinct (map (\<lambda>r. (did r, int_field ''current_revision'' r, norm_of (dget ''reason_code'' r)))
      (filter (\<lambda>r. norm_of (dget ''status'' r) = ''PENDING'') (lg_requests L)))"
  using reachable_requests [OF assms]
  unfolding requests_ok_def request_key_def [abs_def] pending_def [abs_def] .

definition sample_log :: ledger where
  "sample_log = snd (record_request ''t2''
     (build_decision_revision_request ''ef'' ''t2'' ''dec_1'' 1 ''FAILED_PRECONDITION'' [] [] [] PNone [] [] ''PENDING'')
     (snd (record_request ''t1'' sample_request sample_ledger)))"

lemma sample_log_reachable: "reachable sample_log"
  using sample_reachable ledger_step.recorded
  unfolding reachable_def sample_log_def by (meson rtranclp.rtrancl_into_rtrancl)

theorem request_log_guard_witness:
  "length (lg_requests sample_log) = 2 \<and> distinct (map rid (lg_requests sample_log))"
proof
  show "length (lg_requests sample_log) = 2" by code_simp
  show "distinct (map rid (lg_requests sample_log))" using request_log_guard [OF sample_log_reachable] by blast
qed

end
