(* ===== verification/Write_Boundary.thy ===== *)
theory Write_Boundary
  imports Argument_Constraints Revision_Ledger
begin

text \<open>
  The post-approval write boundary (\<open>agent_runtime/write_argument_binding.py\<close>): whether an artifact
  may be handed over for delivery.

  The approved snapshot is a record with the fields the boundary reads; the artifact the caller wants
  to authorize is an untyped dictionary; the decision's current version comes from the revision
  ledger.  The address pattern is matched as the regular expression engine does: leftmost start,
  greedy local part, and the longest domain that leaves a dot and at least two letters.
\<close>

subsection \<open>Addresses\<close>

definition is_alpha :: "char \<Rightarrow> bool" where
  "is_alpha c \<longleftrightarrow> (let n = ord_of c in (65 \<le> n \<and> n \<le> 90) \<or> (97 \<le> n \<and> n \<le> 122))"

definition is_local_char :: "char \<Rightarrow> bool" where
  "is_local_char c \<longleftrightarrow> is_alpha c \<or> is_digit c \<or> c \<in> set ''._%+-''"

definition is_domain_char :: "char \<Rightarrow> bool" where
  "is_domain_char c \<longleftrightarrow> is_alpha c \<or> is_digit c \<or> c \<in> set ''.-''"

text \<open>The domain part: backtracking from the last possible dot of the run.\<close>

fun match_domain :: "string \<Rightarrow> nat \<Rightarrow> string option" where
  "match_domain run 0 = None"
| "match_domain run (Suc k) =
     (let letters = takeWhile is_alpha (drop (Suc (Suc k)) run) in
      if Suc k < length run \<and> run ! Suc k = CHR ''.'' \<and> 2 \<le> length letters
      then Some (take (Suc (Suc k)) run @ letters)
      else match_domain run k)"

definition match_email_at :: "string \<Rightarrow> string option" where
  "match_email_at s =
     (let local_part = takeWhile is_local_char s; rest = dropWhile is_local_char s in
      if local_part = [] \<or> rest = [] \<or> hd rest \<noteq> CHR ''@'' then None
      else let run = takeWhile is_domain_char (tl rest) in
           map_option (\<lambda>d. local_part @ ''@'' @ d) (match_domain run (length run)))"

fun search_email :: "string \<Rightarrow> string option" where
  "search_email [] = None"
| "search_email (c # s) = (case match_email_at (c # s) of Some m \<Rightarrow> Some m | None \<Rightarrow> search_email s)"

definition norm_email :: "pyval \<Rightarrow> string" where
  "norm_email v = (case search_email (norm_text v) of None \<Rightarrow> [] | Some m \<Rightarrow> lower (strip m))"

subsection \<open>The approved snapshot\<close>

record w_action =
  wa_id :: string
  wa_enabled :: bool
  wa_draft_id :: string
  wa_body_hash :: string
  wa_revision :: int
  wa_decision_version_id :: string
  wa_source_semantic_hash :: string

record w_receipt =
  wr_state :: string
  wr_target_email :: string
  wr_thread_id :: string
  wr_draft_id :: string
  wr_body_hash :: string

record w_envelope =
  we_canonical_decision_id :: string
  we_decision_version_id :: string
  we_source_semantic_hash :: string

record w_snapshot =
  ws_case_id :: string
  ws_actions :: "w_action list"
  ws_hitl_required :: bool
  ws_receipt :: "w_receipt option"
  ws_envelope :: "w_envelope option"

record w_reference =
  rf_action_id :: string
  rf_case_id :: string
  rf_draft_id :: string
  rf_body_hash :: string
  rf_revision :: int
  rf_decision_id :: string
  rf_decision_version_id :: string
  rf_semantic_hash :: string
  rf_target_email :: string
  rf_thread_id :: string
  rf_receipt_state :: string
  rf_receipt_draft_id :: string
  rf_receipt_body_hash :: string
  rf_action_present :: bool

definition find_approved_action :: "w_snapshot option \<Rightarrow> string \<Rightarrow> w_action option" where
  "find_approved_action snapshot action_id = (case snapshot of
       None \<Rightarrow> None
     | Some sn \<Rightarrow> find (\<lambda>a. wa_id a = action_id) (ws_actions sn))"

text \<open>A text field of an object that may be missing.\<close>

definition field_of :: "('a \<Rightarrow> string) \<Rightarrow> 'a option \<Rightarrow> string" where
  "field_of f x = (case x of None \<Rightarrow> [] | Some y \<Rightarrow> strip (f y))"

definition approved_write_reference :: "w_snapshot option \<Rightarrow> string \<Rightarrow> w_reference" where
  "approved_write_reference snapshot action_id =
     (let action = find_approved_action snapshot action_id;
          receipt = Option.bind snapshot ws_receipt;
          envelope = Option.bind snapshot ws_envelope
      in \<lparr>rf_action_id = strip action_id,
          rf_case_id = field_of ws_case_id snapshot,
          rf_draft_id = field_of wa_draft_id action,
          rf_body_hash = field_of wa_body_hash action,
          rf_revision = (case action of None \<Rightarrow> 0 | Some a \<Rightarrow> if wa_revision a = 0 then 1 else wa_revision a),
          rf_decision_id = field_of we_canonical_decision_id envelope,
          rf_decision_version_id =
            str_or (field_of wa_decision_version_id action) (field_of we_decision_version_id envelope),
          rf_semantic_hash =
            str_or (field_of wa_source_semantic_hash action) (field_of we_source_semantic_hash envelope),
          rf_target_email = (case receipt of None \<Rightarrow> norm_email (PStr []) | Some r \<Rightarrow> norm_email (PStr (wr_target_email r))),
          rf_thread_id = field_of wr_thread_id receipt,
          rf_receipt_state = field_of wr_state receipt,
          rf_receipt_draft_id = field_of wr_draft_id receipt,
          rf_receipt_body_hash = field_of wr_body_hash receipt,
          rf_action_present = (case action of None \<Rightarrow> False | Some a \<Rightarrow> wa_enabled a)\<rparr>)"

definition reference_provenance :: "w_reference \<Rightarrow> provenance" where
  "reference_provenance ref = \<lparr>pv_source_kind = ''approved_hitl_artifact'',
     pv_source_ref = rf_decision_version_id ref, pv_decision_id = rf_decision_id ref,
     pv_decision_version_id = rf_decision_version_id ref, pv_semantic_hash = rf_semantic_hash ref\<rparr>"

text \<open>The fields of the artifact and their approved values, in the order of the projection.\<close>

definition bound_fields :: "w_reference \<Rightarrow> (string \<times> pyval) list" where
  "bound_fields ref =
     [(''case_id'', PStr (rf_case_id ref)), (''draft_id'', PStr (rf_draft_id ref)),
      (''body_hash'', PStr (rf_body_hash ref)), (''revision'', PInt (rf_revision ref)),
      (''decision_version_id'', PStr (rf_decision_version_id ref)),
      (''semantic_hash'', PStr (rf_semantic_hash ref)), (''recipient'', PStr (rf_target_email ref))]"

definition project_write_execution_constraints :: "w_reference \<Rightarrow> arg_constraint list" where
  "project_write_execution_constraints ref = List.map_filter
     (\<lambda>(name, expected). build_argument_constraint name ''EXACT'' expected [] (reference_provenance ref))
     (bound_fields ref)"

subsection \<open>The verdict\<close>

record write_verdict =
  wv_pass :: bool
  wv_reason_codes :: "string list"
  wv_violations :: "violation list"
  wv_approved_action_id :: string
  wv_canonical :: w_reference
  wv_canonical_thread :: string
  wv_proposed :: pydict

definition boundary_violation ::
  "w_reference \<Rightarrow> string \<Rightarrow> constraint_mode \<Rightarrow> string \<Rightarrow> string \<Rightarrow> string \<Rightarrow> violation" where
  "boundary_violation ref name mode reason expected proposed =
     \<lparr>vi_argument_name = name, vi_mode = mode, vi_reason_code = reason, vi_expected = expected,
      vi_proposed = proposed, vi_provenance = reference_provenance ref\<rparr>"

definition viol_if :: "bool \<Rightarrow> violation \<Rightarrow> violation list" where
  "viol_if b v = (if b then [v] else [])"

text \<open>The checks on the approval and its receipt.\<close>

definition approval_violations :: "w_snapshot option \<Rightarrow> w_reference \<Rightarrow> violation list" where
  "approval_violations snapshot ref =
     viol_if (case snapshot of None \<Rightarrow> False | Some sn \<Rightarrow> ws_hitl_required sn)
       (boundary_violation ref ''approval'' PRESENT ''APPROVAL_MISSING''
          ''operator approval granted'' ''hitl_gate.required=true'') @
     viol_if (rf_receipt_state ref \<noteq> ''ready_for_manual_send'' \<or> rf_body_hash ref = [])
       (boundary_violation ref ''approval_receipt'' EXACT ''APPROVAL_ARTIFACT_MISMATCH''
          ''ready_for_manual_send with body_hash'' (rf_receipt_state ref)) @
     viol_if (rf_receipt_draft_id ref \<noteq> [] \<and> rf_draft_id ref \<noteq> [] \<and> rf_receipt_draft_id ref \<noteq> rf_draft_id ref)
       (boundary_violation ref ''draft_id'' EXACT ''APPROVAL_ARTIFACT_MISMATCH''
          (rf_draft_id ref) (rf_receipt_draft_id ref)) @
     viol_if (rf_receipt_body_hash ref \<noteq> [] \<and> rf_body_hash ref \<noteq> [] \<and> rf_receipt_body_hash ref \<noteq> rf_body_hash ref)
       (boundary_violation ref ''body_hash'' EXACT ''APPROVAL_ARTIFACT_MISMATCH''
          (rf_body_hash ref) (rf_receipt_body_hash ref)) @
     viol_if (\<not> rf_action_present ref \<or> rf_body_hash ref = [])
       (boundary_violation ref ''approved_action'' PRESENT ''UNBOUND_EXECUTION_ARGUMENT''
          ''enabled action with draft identity'' ''missing'')"

text \<open>The check against the durable current revision.\<close>

definition revision_violations :: "ledger option \<Rightarrow> w_reference \<Rightarrow> violation list" where
  "revision_violations led ref =
     (if rf_decision_id ref = [] \<or> rf_decision_version_id ref = []
      then [boundary_violation ref ''decision_version_id'' EXACT ''UNBOUND_EXECUTION_ARGUMENT''
              ''canonical decision version binding'' (rf_decision_version_id ref)]
      else case led of
             None \<Rightarrow> [boundary_violation ref ''decision_version_id'' EXACT ''UNBOUND_EXECUTION_ARGUMENT''
                       ''current durable revision'' (rf_decision_version_id ref)]
           | Some L \<Rightarrow>
               (let durable_version = (case current_cad (rf_decision_id ref) L of
                      None \<Rightarrow> [] | Some c \<Rightarrow> norm_text (dget ''decision_version_id'' c))
                in if durable_version = []
                   then [boundary_violation ref ''decision_version_id'' EXACT ''UNBOUND_EXECUTION_ARGUMENT''
                           ''current durable revision'' (rf_decision_version_id ref)]
                   else viol_if (durable_version \<noteq> rf_decision_version_id ref)
                          (boundary_violation ref ''decision_version_id'' EXACT ''STALE_DECISION_REVISION''
                             durable_version (rf_decision_version_id ref))))"

definition binding_violations :: "w_reference \<Rightarrow> violation list" where
  "binding_violations ref =
     viol_if (rf_semantic_hash ref = [])
       (boundary_violation ref ''semantic_hash'' EXACT ''UNBOUND_EXECUTION_ARGUMENT'' ''canonical semantic hash'' []) @
     viol_if (rf_target_email ref = [])
       (boundary_violation ref ''recipient'' EXACT ''UNBOUND_EXECUTION_ARGUMENT'' ''approved recipient'' [])"

text \<open>The runtime's own resolution of recipient and thread, merged into the artifact.\<close>

definition merge_target :: "pydict \<Rightarrow> pyval \<Rightarrow> pydict \<times> string" where
  "merge_target proposed resolved_target = (case resolved_target of
       PDict t \<Rightarrow>
         (let with_recipient = AList.update ''recipient'' (PStr (norm_email (dget ''to'' t))) proposed;
              thread = norm_text (dget ''thread_id'' t)
          in (if thread \<noteq> [] then setdefault ''thread_id'' (PStr thread) with_recipient else with_recipient, thread))
     | _ \<Rightarrow> (proposed, []))"

definition thread_violations :: "w_reference \<Rightarrow> string \<Rightarrow> string \<Rightarrow> violation list" where
  "thread_violations ref canonical_thread proposed_thread =
     (if canonical_thread \<noteq> []
      then viol_if (proposed_thread \<noteq> canonical_thread)
             (boundary_violation ref ''thread_id'' EXACT ''CANONICAL_ARGUMENT_MISMATCH'' canonical_thread proposed_thread)
      else viol_if (proposed_thread \<noteq> [])
             (boundary_violation ref ''thread_id'' ABSENT ''ARGUMENT_NOT_ALLOWED''
                ''(absent - no canonical thread)'' proposed_thread))"

definition preview_violations :: "w_reference \<Rightarrow> string \<Rightarrow> violation list" where
  "preview_violations ref expected_hash =
     viol_if (expected_hash \<noteq> [] \<and> rf_body_hash ref \<noteq> [] \<and> expected_hash \<noteq> rf_body_hash ref)
       (boundary_violation ref ''body_hash'' EXACT ''CANONICAL_ARGUMENT_MISMATCH'' (rf_body_hash ref) expected_hash)"

definition evaluate_write_execution_binding ::
  "w_snapshot option \<Rightarrow> string \<Rightarrow> pydict option \<Rightarrow> pyval \<Rightarrow> ledger option \<Rightarrow> string option \<Rightarrow> write_verdict" where
  "evaluate_write_execution_binding snapshot action_id proposed resolved_target led expected_body_hash =
     (let ref = approved_write_reference snapshot action_id;
          (merged, canonical_thread) =
            merge_target (case proposed of None \<Rightarrow> [] | Some p \<Rightarrow> p) resolved_target;
          gate = approval_violations snapshot ref @ revision_violations led ref @ binding_violations ref @
            thread_violations ref canonical_thread (norm_text (dget ''thread_id'' merged)) @
            preview_violations ref (case expected_body_hash of None \<Rightarrow> [] | Some h \<Rightarrow> strip h);
          arg_violations = constraint_violations
            (PDict (filter (\<lambda>(k, v). k \<noteq> ''thread_id'') merged)) (project_write_execution_constraints ref);
          codes = map vi_reason_code gate @ violations_reason_codes arg_violations;
          ordered = dedup_key id [] (filter (\<lambda>c. c \<noteq> []) (map strip codes))
      in \<lparr>wv_pass = (ordered = []), wv_reason_codes = ordered, wv_violations = gate @ arg_violations,
          wv_approved_action_id = rf_action_id ref, wv_canonical = ref,
          wv_canonical_thread = str_or canonical_thread (rf_thread_id ref), wv_proposed = merged\<rparr>)"

subsection \<open>Lemmas\<close>

definition boundary_codes :: "string list" where
  "boundary_codes = [''APPROVAL_MISSING'', ''APPROVAL_ARTIFACT_MISMATCH'', ''UNBOUND_EXECUTION_ARGUMENT'',
     ''STALE_DECISION_REVISION'', ''CANONICAL_ARGUMENT_MISMATCH'', ''ARGUMENT_NOT_ALLOWED'',
     ''ARGUMENT_OUTSIDE_CANONICAL_SET'', ''MISSING_REQUIRED_CANONICAL_ARGUMENT'']"

lemma boundary_codes_strip: "c \<in> set boundary_codes \<Longrightarrow> strip c = c \<and> c \<noteq> []"
proof -
  have "list_all (\<lambda>c. strip c = c \<and> c \<noteq> []) boundary_codes" by code_simp
  then show "c \<in> set boundary_codes \<Longrightarrow> strip c = c \<and> c \<noteq> []" by (simp add: list_all_iff)
qed

lemma set_viol_if: "v \<in> set (viol_if b w) \<Longrightarrow> v = w"
  by (simp add: viol_if_def split: if_splits)

lemma viol_if_Nil [simp]: "viol_if b w = [] \<longleftrightarrow> \<not> b"
  by (simp add: viol_if_def)

text \<open>Every gate's violations carry a code of the taxonomy.\<close>

definition coded :: "violation list \<Rightarrow> bool" where
  "coded vs \<longleftrightarrow> set (map vi_reason_code vs) \<subseteq> set boundary_codes"

lemma coded_Nil [intro!]: "coded []"
  by (simp add: coded_def)

lemma coded_append [intro!]: "coded vs \<Longrightarrow> coded ws \<Longrightarrow> coded (vs @ ws)"
  by (simp add: coded_def)

lemma coded_viol [intro!]: "vi_reason_code v \<in> set boundary_codes \<Longrightarrow> coded (viol_if b v)"
  by (auto simp: coded_def viol_if_def)

lemma coded_single [intro!]: "vi_reason_code v \<in> set boundary_codes \<Longrightarrow> coded [v]"
  by (simp add: coded_def)

lemma boundary_code: "reason \<in> set boundary_codes \<Longrightarrow> vi_reason_code (boundary_violation ref n m reason e p) \<in> set boundary_codes"
  by (simp add: boundary_violation_def)

lemma gate_coded:
  "coded (approval_violations snapshot ref)" "coded (revision_violations led ref)"
  "coded (binding_violations ref)" "coded (thread_violations ref a b)" "coded (preview_violations ref h)"
proof -
  note codes = boundary_code boundary_codes_def
  show "coded (approval_violations snapshot ref)" unfolding approval_violations_def
    by (intro coded_append coded_viol boundary_code) (simp_all add: boundary_codes_def)
  show "coded (revision_violations led ref)" unfolding revision_violations_def Let_def
    by (auto split: option.split intro!: boundary_code) (simp_all add: boundary_codes_def)
  show "coded (binding_violations ref)" unfolding binding_violations_def
    by (intro coded_append coded_viol boundary_code) (simp_all add: boundary_codes_def)
  show "coded (thread_violations ref a b)" unfolding thread_violations_def
    by (auto intro!: boundary_code) (simp_all add: boundary_codes_def)
  show "coded (preview_violations ref h)" unfolding preview_violations_def
    by (intro coded_viol boundary_code) (simp add: boundary_codes_def)
qed

lemma argument_code: "argument_violation by_name arg = Some vi \<Longrightarrow> vi_reason_code vi \<in> set boundary_codes"
proof -
  have "vi_reason_code vi \<in> set boundary_codes" if "check_one n c v = Some vi" for n c v
    using that by (cases "ac_mode c") (auto simp: check_one_def violation_of_def boundary_codes_def Let_def split: if_splits)
  then show "argument_violation by_name arg = Some vi \<Longrightarrow> vi_reason_code vi \<in> set boundary_codes"
    by (auto simp: argument_violation_def unknown_violation_def boundary_codes_def Let_def split: if_splits option.splits)
qed

lemma argument_coded: "coded (constraint_violations v cs)"
proof -
  have "coded (List.map_filter f xs)" if "\<And>x vi. f x = Some vi \<Longrightarrow> vi_reason_code vi \<in> set boundary_codes"
    for f :: "'a \<Rightarrow> violation option" and xs
    using that by (induction xs) (auto simp: map_filter_simps coded_def split: option.split)
  note step = this
  have "coded (List.map_filter (argument_violation m) args)" for m args
    by (rule step) (rule argument_code)
  moreover have "coded (List.map_filter (presence_violation args) cs)" for args
    by (rule step) (auto simp: presence_violation_def boundary_codes_def split: if_splits)
  ultimately show ?thesis by (auto simp: constraint_violations_def Let_def)
qed

lemma ordered_Nil:
  assumes "coded gate"
  shows "dedup_key id [] (filter (\<lambda>c. c \<noteq> []) (map strip (map vi_reason_code gate @
      violations_reason_codes (constraint_violations v cs)))) = [] \<longleftrightarrow>
    gate = [] \<and> constraint_violations v cs = []"
proof -
  let ?codes = "map vi_reason_code gate @ violations_reason_codes (constraint_violations v cs)"
  have "set (violations_reason_codes (constraint_violations v cs)) \<subseteq> set boundary_codes"
    using argument_coded [of v cs] by (auto simp: violations_reason_codes_def coded_def)
  then have "set ?codes \<subseteq> set boundary_codes" using assms by (auto simp: coded_def)
  then have "\<forall>c \<in> set ?codes. strip c \<noteq> []" using boundary_codes_strip by auto
  moreover have "filter (\<lambda>c. c \<noteq> []) (map strip xs) = [] \<longleftrightarrow> xs = []" if "\<forall>c \<in> set xs. strip c \<noteq> []" for xs
    using that by (cases xs) auto
  ultimately have "filter (\<lambda>c. c \<noteq> []) (map strip ?codes) = [] \<longleftrightarrow> ?codes = []" by blast
  moreover have "dedup_key id [] xs = [] \<longleftrightarrow> xs = []" for xs :: "string list"
    by (simp add: dedup_key_eq_Nil)
  ultimately show ?thesis by (simp only: append_is_Nil_conv map_is_Nil_conv violations_reason_codes_Nil)
qed

text \<open>The constraint in force for a field of the artifact.\<close>

lemma write_constraint:
  "map_of (constraints_by_name (project_write_execution_constraints ref)) k =
     map_option (\<lambda>e. \<lparr>ac_argument_name = k, ac_mode = EXACT, ac_expected_value = e, ac_allowed_values = [],
       ac_provenance = norm_provenance (reference_provenance ref)\<rparr>) (map_of (bound_fields ref) k)"
proof -
  have strips: "list_all (\<lambda>n. strip n = n \<and> n \<noteq> []) [''case_id'', ''draft_id'', ''body_hash'', ''revision'',
      ''decision_version_id'', ''semantic_hash'', ''recipient'']" by code_simp
  have mode: "find (\<lambda>m. mode_str m = upper (strip ''EXACT'')) ARGUMENT_CONSTRAINT_MODES = Some EXACT" by code_simp
  show ?thesis using strips
    by (simp add: project_write_execution_constraints_def bound_fields_def build_argument_constraint_def mode
        map_filter_simps constraints_by_name_def update_conv')
qed

lemma write_constraint_modes:
  "list_all (\<lambda>con. ac_mode con \<noteq> PRESENT) (project_write_execution_constraints ref)"
proof -
  have mode: "find (\<lambda>m. mode_str m = upper (strip ''EXACT'')) ARGUMENT_CONSTRAINT_MODES = Some EXACT" by code_simp
  show ?thesis
    by (simp add: project_write_execution_constraints_def bound_fields_def build_argument_constraint_def mode map_filter_simps)
qed

definition artifact_conforms :: "w_reference \<Rightarrow> pydict \<Rightarrow> bool" where
  "artifact_conforms ref artifact = list_all (\<lambda>(k, v). strip k = [] \<or>
     (case map_of (bound_fields ref) (strip k) of None \<Rightarrow> False | Some e \<Rightarrow> text_equal v e)) artifact"

lemma artifact_field:
  "artifact_conforms ref artifact \<Longrightarrow> (k, v) \<in> set artifact \<Longrightarrow> strip k = k \<Longrightarrow> k \<noteq> [] \<Longrightarrow>
   map_of (bound_fields ref) k = Some e \<Longrightarrow> text_equal v e"
  by (fastforce simp: artifact_conforms_def list_all_iff)

lemma artifact_violations_Nil:
  "constraint_violations (PDict artifact) (project_write_execution_constraints ref) = [] \<longleftrightarrow> artifact_conforms ref artifact"
proof -
  let ?K = "project_write_execution_constraints ref"
  have "?K \<noteq> []" using write_constraint [of ref "''case_id''"] by (auto simp: constraints_by_name_def bound_fields_def)
  moreover have "(case map_of (constraints_by_name ?K) k of None \<Rightarrow> False | Some con \<Rightarrow> satisfies v con) \<longleftrightarrow>
      (case map_of (bound_fields ref) k of None \<Rightarrow> False | Some e \<Rightarrow> text_equal v e)" for k v
    unfolding write_constraint by (auto simp: satisfies_def split: option.split)
  ultimately show ?thesis
    using write_constraint_modes [of ref] by (subst violations_Nil) (auto simp: artifact_conforms_def list_all_iff)
qed

lemma pass_iff_no_violation:
  assumes "merge_target (case proposed of None \<Rightarrow> [] | Some p \<Rightarrow> p) target = (merged, thread)"
  shows "wv_pass (evaluate_write_execution_binding sn aid proposed target led hash) \<longleftrightarrow>
    (let ref = approved_write_reference sn aid in
     approval_violations sn ref = [] \<and> revision_violations led ref = [] \<and> binding_violations ref = [] \<and>
     thread_violations ref thread (norm_text (dget ''thread_id'' merged)) = [] \<and>
     preview_violations ref (case hash of None \<Rightarrow> [] | Some h \<Rightarrow> strip h) = [] \<and>
     artifact_conforms ref (filter (\<lambda>(k, v). k \<noteq> ''thread_id'') merged))"
  unfolding evaluate_write_execution_binding_def Let_def assms
  by (simp add: ordered_Nil gate_coded coded_append artifact_violations_Nil del: map_append)

text \<open>Lower case and stripping commute, so a normalized address is a fixed point of both.\<close>

lemma is_space_lower [simp]: "is_space (lower_char c) = is_space c"
proof -
  let ?n = "ord_of c"
  consider "65 \<le> ?n \<and> ?n \<le> 90" | "192 \<le> ?n \<and> ?n \<le> 222 \<and> ?n \<noteq> 215"
    | "\<not> ((65 \<le> ?n \<and> ?n \<le> 90) \<or> (192 \<le> ?n \<and> ?n \<le> 222 \<and> ?n \<noteq> 215))" by blast
  then show ?thesis by cases (auto simp: lower_char_def is_space_def Let_def)
qed

lemma strip_lower: "strip (lower s) = lower (strip s)"
proof -
  have "dropWhile is_space (map lower_char t) = map lower_char (dropWhile is_space t)" for t
    by (simp add: dropWhile_map comp_def)
  then show ?thesis unfolding strip_def lower_def by (simp add: rev_map)
qed

lemma norm_email_fixed: "lower (norm_email v) = norm_email v" "strip (norm_email v) = norm_email v"
  by (simp_all add: norm_email_def strip_lower split: option.split)

subsection \<open>Properties\<close>

text \<open>
  Mail goes where it was approved to go: when the runtime has resolved a target, a
  passing verdict means that the resolved address is the address of the approval receipt.
\<close>

theorem recipient_is_approved:
  assumes "wv_pass (evaluate_write_execution_binding sn aid proposed (PDict t) led hash)"
  shows "norm_email (dget ''to'' t) = rf_target_email (approved_write_reference sn aid)"
proof -
  let ?ref = "approved_write_reference sn aid"
  obtain merged thread where m: "merge_target (case proposed of None \<Rightarrow> [] | Some p \<Rightarrow> p) (PDict t) = (merged, thread)"
    by fastforce
  have "map_of merged ''recipient'' = Some (PStr (norm_email (dget ''to'' t)))"
    using m by (auto simp: merge_target_def Let_def setdefault_def update_conv' map_add_def split: if_splits)
  then have "(''recipient'', PStr (norm_email (dget ''to'' t))) \<in> set (filter (\<lambda>(k, v). k \<noteq> ''thread_id'') merged)"
    by (auto dest: map_of_SomeD)
  moreover have "artifact_conforms ?ref (filter (\<lambda>(k, v). k \<noteq> ''thread_id'') merged)"
    using assms unfolding pass_iff_no_violation [OF m] Let_def by blast
  moreover have "strip ''recipient'' = ''recipient''" by code_simp
  moreover have "map_of (bound_fields ?ref) ''recipient'' = Some (PStr (rf_target_email ?ref))"
    by (simp add: bound_fields_def)
  ultimately have "text_equal (PStr (norm_email (dget ''to'' t))) (PStr (rf_target_email ?ref))"
    using artifact_field [of ?ref "filter (\<lambda>(k, v). k \<noteq> ''thread_id'') merged" "''recipient''"] by simp
  moreover have "\<exists>x. rf_target_email ?ref = norm_email x"
    by (auto simp: approved_write_reference_def Let_def split: option.split)
  ultimately show ?thesis by (auto simp: text_equal_def norm_text_def norm_email_fixed)
qed

definition sample_snapshot :: w_snapshot where
  "sample_snapshot = \<lparr>ws_case_id = ''c1'',
     ws_actions = [\<lparr>wa_id = ''a1'', wa_enabled = True, wa_draft_id = ''dr'', wa_body_hash = ''bh'', wa_revision = 2,
       wa_decision_version_id = ''d:r1'', wa_source_semantic_hash = ''sh''\<rparr>],
     ws_hitl_required = False,
     ws_receipt = Some \<lparr>wr_state = ''ready_for_manual_send'', wr_target_email = ''Jan <Jan.K@firma.pl>'',
       wr_thread_id = ''th'', wr_draft_id = ''dr'', wr_body_hash = ''bh''\<rparr>,
     ws_envelope = Some \<lparr>we_canonical_decision_id = ''d'', we_decision_version_id = ''d:r1'',
       we_source_semantic_hash = ''sh''\<rparr>\<rparr>"

definition sample_write_ledger :: ledger where
  "sample_write_ledger = (new_ledger False None)\<lparr>lg_lineages := [(''d'', [[(''decision_id'', PStr ''d''),
     (''decision_version_id'', PStr ''d:r1''), (''revision'', PInt 1), (''revision_status'', PStr ''CURRENT'')]])]\<rparr>"

lemma sample_write_passes:
  "wv_pass (evaluate_write_execution_binding (Some sample_snapshot) ''a1''
     (Some [(''draft_id'', PStr ''DR''), (''revision'', PInt 2)])
     (PDict [(''to'', PStr ''jan.k@firma.pl''), (''thread_id'', PStr ''th'')]) (Some sample_write_ledger) None)"
  by code_simp

theorem recipient_is_approved_witness:
  "norm_email (PStr ''jan.k@firma.pl'') = rf_target_email (approved_write_reference (Some sample_snapshot) ''a1'')"
  using recipient_is_approved [OF sample_write_passes] by simp

lemma pass_gates:
  assumes "wv_pass (evaluate_write_execution_binding sn aid proposed target led hash)"
  defines "V \<equiv> evaluate_write_execution_binding sn aid proposed target led hash"
    and "ref \<equiv> approved_write_reference sn aid"
  shows "approval_violations sn ref = []" "revision_violations led ref = []" "binding_violations ref = []"
    "thread_violations ref (case target of PDict t \<Rightarrow> norm_text (dget ''thread_id'' t) | _ \<Rightarrow> [])
       (norm_text (dget ''thread_id'' (wv_proposed V))) = []"
    "preview_violations ref (case hash of None \<Rightarrow> [] | Some h \<Rightarrow> strip h) = []"
    "artifact_conforms ref (filter (\<lambda>(k, v). k \<noteq> ''thread_id'') (wv_proposed V))"
proof -
  obtain merged thread where m: "merge_target (case proposed of None \<Rightarrow> [] | Some p \<Rightarrow> p) target = (merged, thread)"
    by fastforce
  have th: "thread = (case target of PDict t \<Rightarrow> norm_text (dget ''thread_id'' t) | _ \<Rightarrow> [])"
    using m by (auto simp: merge_target_def Let_def split: pyval.splits)
  have p: "wv_proposed V = merged"
    unfolding V_def evaluate_write_execution_binding_def Let_def m by simp
  show "approval_violations sn ref = []" "revision_violations led ref = []" "binding_violations ref = []"
    "thread_violations ref (case target of PDict t \<Rightarrow> norm_text (dget ''thread_id'' t) | _ \<Rightarrow> [])
       (norm_text (dget ''thread_id'' (wv_proposed V))) = []"
    "preview_violations ref (case hash of None \<Rightarrow> [] | Some h \<Rightarrow> strip h) = []"
    "artifact_conforms ref (filter (\<lambda>(k, v). k \<noteq> ''thread_id'') (wv_proposed V))"
    using assms(1) unfolding pass_iff_no_violation [OF m] Let_def p th [symmetric] ref_def [symmetric] by simp_all
qed

text \<open>
  Property C9.  What a passing verdict of the write boundary guarantees, for every input: present or absent
  snapshot, ledger, target, artifact and preview.  The snapshot is there and no longer waits for the operator;
  its receipt is ready for manual sending; the action is enabled and its body, draft and receipt agree; a
  ledger is there and the bound decision version is the current one of the bound decision; the semantic hash and
  the recipient are bound; the body the operator previewed, when one is given, is the approved one; the
  thread is the one the runtime resolved, and none when it resolved none; the recipient the runtime resolved
  is the approved one; and every named field the artifact carries is one of the approved fields
  with the approved value, up to case and surrounding space.  It is no guarantee that the artifact carries
  these fields (\<open>empty_artifact_passes\<close>).
\<close>

theorem passing_write_is_the_approved_one:
  assumes "wv_pass (evaluate_write_execution_binding snapshot aid proposed target led hash)"
  shows "\<exists>sn L c. snapshot = Some sn \<and> led = Some L \<and>
    (let ref = approved_write_reference (Some sn) aid;
         artifact = wv_proposed (evaluate_write_execution_binding snapshot aid proposed target led hash) in
     \<not> ws_hitl_required sn \<and> rf_receipt_state ref = ''ready_for_manual_send'' \<and> rf_action_present ref \<and>
     rf_body_hash ref \<noteq> [] \<and> rf_receipt_body_hash ref \<in> {[], rf_body_hash ref} \<and>
     (rf_receipt_draft_id ref = [] \<or> rf_draft_id ref = [] \<or> rf_receipt_draft_id ref = rf_draft_id ref) \<and>
     rf_decision_id ref \<noteq> [] \<and> rf_decision_version_id ref \<noteq> [] \<and>
     current_cad (rf_decision_id ref) L = Some c \<and>
     norm_text (dget ''decision_version_id'' c) = rf_decision_version_id ref \<and>
     rf_semantic_hash ref \<noteq> [] \<and> rf_target_email ref \<noteq> [] \<and>
     (\<forall>h. hash = Some h \<and> strip h \<noteq> [] \<longrightarrow> strip h = rf_body_hash ref) \<and>
     norm_text (dget ''thread_id'' artifact) =
       (case target of PDict t \<Rightarrow> norm_text (dget ''thread_id'' t) | _ \<Rightarrow> []) \<and>
     (\<forall>t. target = PDict t \<longrightarrow> norm_email (dget ''to'' t) = rf_target_email ref) \<and>
     (\<forall>(k, v) \<in> set artifact. strip k \<noteq> [] \<and> k \<noteq> ''thread_id'' \<longrightarrow>
        (\<exists>e. map_of (bound_fields ref) (strip k) = Some e \<and> text_equal v e)))"
proof -
  let ?ref = "approved_write_reference snapshot aid"
  let ?art = "wv_proposed (evaluate_write_execution_binding snapshot aid proposed target led hash)"
  note gates = pass_gates [OF assms]
  have receipt: "rf_receipt_state ?ref = ''ready_for_manual_send''"
    and approval: "rf_body_hash ?ref \<noteq> []" "rf_action_present ?ref" "rf_receipt_body_hash ?ref \<in> {[], rf_body_hash ?ref}"
      "rf_receipt_draft_id ?ref = [] \<or> rf_draft_id ?ref = [] \<or> rf_receipt_draft_id ?ref = rf_draft_id ?ref"
    using gates(1) by (auto simp: approval_violations_def)
  obtain sn where sn: "snapshot = Some sn"
    using receipt by (cases snapshot) (auto simp: approved_write_reference_def field_of_def Let_def)
  have hitl: "\<not> ws_hitl_required sn" using gates(1) sn by (simp add: approval_violations_def)
  obtain L c where led: "led = Some L" "current_cad (rf_decision_id ?ref) L = Some c"
    "norm_text (dget ''decision_version_id'' c) = rf_decision_version_id ?ref"
    "rf_decision_id ?ref \<noteq> []" "rf_decision_version_id ?ref \<noteq> []"
    using gates(2) by (auto simp: revision_violations_def Let_def split: option.splits if_splits)
  have bound: "rf_semantic_hash ?ref \<noteq> []" "rf_target_email ?ref \<noteq> []"
    using gates(3) by (simp_all add: binding_violations_def)
  have preview: "\<forall>h. hash = Some h \<and> strip h \<noteq> [] \<longrightarrow> strip h = rf_body_hash ?ref"
    using gates(5) approval(1) by (auto simp: preview_violations_def)
  have thread: "norm_text (dget ''thread_id'' ?art) = (case target of PDict t \<Rightarrow> norm_text (dget ''thread_id'' t) | _ \<Rightarrow> [])"
    using gates(4) by (auto simp: thread_violations_def split: if_splits)
  have to: "\<forall>t. target = PDict t \<longrightarrow> norm_email (dget ''to'' t) = rf_target_email ?ref"
    using recipient_is_approved assms by blast
  have "list_all (\<lambda>(k, v). strip k = [] \<or> (case map_of (bound_fields ?ref) (strip k) of None \<Rightarrow> False
      | Some e \<Rightarrow> text_equal v e)) (filter (\<lambda>(k, v). k \<noteq> ''thread_id'') ?art)"
    using gates(6) unfolding artifact_conforms_def .
  then have fields: "\<forall>(k, v) \<in> set ?art. strip k \<noteq> [] \<and> k \<noteq> ''thread_id'' \<longrightarrow>
      (\<exists>e. map_of (bound_fields ?ref) (strip k) = Some e \<and> text_equal v e)"
    unfolding list_all_iff by (fastforce split: option.splits)
  show ?thesis
    using sn led hitl receipt approval bound preview thread to fields unfolding Let_def sn by blast
qed

theorem passing_write_is_the_approved_one_witness:
  "\<not> ws_hitl_required sample_snapshot \<and>
   rf_receipt_state (approved_write_reference (Some sample_snapshot) ''a1'') = ''ready_for_manual_send'' \<and>
   norm_email (PStr ''jan.k@firma.pl'') = rf_target_email (approved_write_reference (Some sample_snapshot) ''a1'')"
  using passing_write_is_the_approved_one [OF sample_write_passes] unfolding Let_def by auto

text \<open>
  What the boundary does not ask for: the approved values bind only the fields an
  artifact carries.  An artifact with no field at all, for which no target was resolved, passes.
\<close>

theorem empty_artifact_passes:
  "wv_pass (evaluate_write_execution_binding (Some sample_snapshot) ''a1'' None PNone (Some sample_write_ledger) None)"
  by code_simp

end
