(* ===== verification/Policy_Engine.thy ===== *)
theory Policy_Engine
  imports Prelude
begin

text \<open>
  The backend policy engine: \<open>policy_engine.py\<close>, with \<open>is_evidence_backed_fact\<close> of
  \<open>case_snapshot_hot_state_contract.py\<close>.

  A rule is a pure function of the action proposal, the hot snapshot of the case (both untyped
  dictionaries) and the policy context; it fires with an outcome, a risk and a basis, or passes
  (\<open>None\<close>).  A rule can also raise: reading a key of a \<open>snapshot_meta\<close> that is not a dictionary,
  converting a value that is not a number, and comparing a naive with an aware timestamp; these
  are the constructors of \<open>policy_error\<close>, and \<open>evaluate\<close> propagates the first one.

  The parser \<open>datetime.fromisoformat\<close>, whose grammar depends on the interpreter's release, and the
  clock are the arguments \<open>fromiso\<close> and \<open>now\<close>.  The operator-facing sentences of the rules are the
  constructors of \<open>policy_message\<close>.
\<close>

subsection \<open>Results that may raise\<close>

datatype policy_error = AttributeError | ConversionError | CompareError

subsection \<open>Status and risk\<close>

datatype policy_status = APPROVED | REJECTED | NEEDS_HUMAN

datatype policy_risk = Low | Medium | High | Critical

primrec status_value :: "policy_status \<Rightarrow> string" where
  "status_value APPROVED = ''APPROVED''"
| "status_value REJECTED = ''REJECTED''"
| "status_value NEEDS_HUMAN = ''NEEDS_HUMAN''"

primrec risk_value :: "policy_risk \<Rightarrow> string" where
  "risk_value Low = ''low''"
| "risk_value Medium = ''medium''"
| "risk_value High = ''high''"
| "risk_value Critical = ''critical''"

definition SEVERITY_ORDER :: "(string \<times> int) list" where
  "SEVERITY_ORDER = [(''low'', 0), (''medium'', 1), (''high'', 2), (''critical'', 3)]"

text \<open>\<open>_SEVERITY_ORDER.get (s, d)\<close>.\<close>

definition sev_get :: "string \<Rightarrow> int \<Rightarrow> int" where
  "sev_get s d = (case map_of SEVERITY_ORDER s of Some n \<Rightarrow> n | None \<Rightarrow> d)"

definition max_risk :: "policy_risk \<Rightarrow> policy_risk \<Rightarrow> policy_risk" where
  "max_risk a b = (if sev_get (risk_value b) 0 \<le> sev_get (risk_value a) 0 then a else b)"

primrec risk_rank :: "policy_risk \<Rightarrow> nat" where
  "risk_rank Low = 0"
| "risk_rank Medium = 1"
| "risk_rank High = 2"
| "risk_rank Critical = 3"

instantiation policy_risk :: linorder
begin

definition less_eq_policy_risk :: "policy_risk \<Rightarrow> policy_risk \<Rightarrow> bool" where
  "less_eq_policy_risk a b \<longleftrightarrow> risk_rank a \<le> risk_rank b"

definition less_policy_risk :: "policy_risk \<Rightarrow> policy_risk \<Rightarrow> bool" where
  "less_policy_risk a b \<longleftrightarrow> risk_rank a < risk_rank b"

instance
proof
  fix a b c :: policy_risk
  show "a < b \<longleftrightarrow> a \<le> b \<and> \<not> b \<le> a" by (auto simp: less_eq_policy_risk_def less_policy_risk_def)
  show "a \<le> a" by (simp add: less_eq_policy_risk_def)
  show "a \<le> b \<Longrightarrow> b \<le> c \<Longrightarrow> a \<le> c" by (simp add: less_eq_policy_risk_def)
  show "a \<le> b \<Longrightarrow> b \<le> a \<Longrightarrow> a = b"
    by (cases a; cases b) (simp_all add: less_eq_policy_risk_def)
  show "a \<le> b \<or> b \<le> a" by (auto simp: less_eq_policy_risk_def)
qed

end

instantiation policy_risk :: order_bot
begin

definition bot_policy_risk :: policy_risk where
  "bot_policy_risk = Low"

instance
  by standard (simp add: bot_policy_risk_def less_eq_policy_risk_def)

end

lemma max_risk_max: "max_risk a b = max a b"
  by (cases a; cases b)
    (simp_all add: max_risk_def max_def sev_get_def SEVERITY_ORDER_def less_eq_policy_risk_def)

subsection \<open>Context, evaluations, rules and reports\<close>

record policy_context =
  pc_trace_id :: string
  pc_proposal_id :: string
  is_first_contact :: bool
  has_approved_communication_state :: bool
  relationship_debtor :: bool
  relationship_complaint_active :: bool
  relationship_escalation_open :: bool
  entity_link_status :: string
  source_trust_score :: pyfloat
  source_trust_threshold :: rat
  min_confidence_for_autonomous_fact_action :: rat
  snapshot_confidence :: pyfloat
  event_timeline :: "pyval list"
  follow_up_cooldown_hours :: rat
  follow_up_event_types :: "string list"
  conflict_severity_threshold :: string
  authoritative_verdicts :: pydict

definition default_policy_context :: policy_context where
  "default_policy_context = \<lparr>pc_trace_id = [], pc_proposal_id = [], is_first_contact = False,
     has_approved_communication_state = False, relationship_debtor = False,
     relationship_complaint_active = False, relationship_escalation_open = False,
     entity_link_status = [], source_trust_score = Fin 1, source_trust_threshold = 35 / 100,
     min_confidence_for_autonomous_fact_action = 55 / 100, snapshot_confidence = Fin 0,
     event_timeline = [], follow_up_cooldown_hours = 72,
     follow_up_event_types = [''follow_up_sent'', ''operator_follow_up'', ''outbound_follow_up'',
       ''communication_sent'', ''gmail.communication_sent''],
     conflict_severity_threshold = ''high'', authoritative_verdicts = []\<rparr>"

datatype policy_message =
    NoMessage
  | MsgFirstContact
  | MsgMarketingBlocked
  | MsgOutboundHuman
  | MsgCooldown
  | MsgTrustLow
  | MsgEvidenceMissing
  | MsgOfferLiveBlocked
  | MsgOfferReview
  | MsgSizingMissing
  | MsgComplianceMissing
  | MsgConflicts
  | MsgDocumentConflict
  | MsgCalendarBlocker
  | MsgUnsupportedClaims
  | MsgIdentityUnresolved
  | MsgInferenceOnly
  | MsgReviewRequired

record rule_eval =
  ev_outcome :: policy_status
  ev_risk :: policy_risk
  ev_message :: policy_message
  ev_basis :: string
  ev_adjustments :: "string list"

datatype rule_family = Operational | Communication | Trust | Business_invariant

type_synonym rule_result = "policy_error + rule_eval option"
type_synonym rule_fun = "pydict \<Rightarrow> pydict \<Rightarrow> policy_context \<Rightarrow> rule_result"

record policy_rule =
  rule_id :: string
  family :: rule_family
  evaluate_fun :: rule_fun

record policy_report =
  pr_trace_id :: string
  pr_proposal_id :: string
  pr_status :: policy_status
  effective_risk_class :: policy_risk
  failed_rules :: "string list"
  pr_warnings :: "policy_message list"
  required_adjustments :: "string list"
  policy_basis :: "string list"
  pr_requires_review :: bool
  authoritative_inputs_used :: "string list"
  authoritative_inputs_missing :: "string list"

abbreviation fire :: "policy_status \<Rightarrow> policy_risk \<Rightarrow> policy_message \<Rightarrow> string \<Rightarrow> string list \<Rightarrow>
    rule_result" where
  "fire oc r m b adj \<equiv> Inr (Some \<lparr>ev_outcome = oc, ev_risk = r, ev_message = m, ev_basis = b,
     ev_adjustments = adj\<rparr>)"

abbreviation pass :: rule_result where
  "pass \<equiv> Inr None"

text \<open>\<open>PolicyReport.to_dict\<close>; \<open>phrase\<close> gives the sentence of a message.\<close>

definition report_to_dict :: "(policy_message \<Rightarrow> string) \<Rightarrow> policy_report \<Rightarrow> pydict" where
  "report_to_dict phrase r =
     [(''schema_version'', PStr ''policy_report.v1''),
      (''trace_id'', PStr (pr_trace_id r)),
      (''proposal_id'', PStr (pr_proposal_id r)),
      (''status'', PStr (status_value (pr_status r))),
      (''effective_risk_class'', PStr (risk_value (effective_risk_class r))),
      (''failed_rules'', PList (map PStr (failed_rules r))),
      (''warnings'', PList (map (PStr \<circ> phrase) (pr_warnings r))),
      (''required_adjustments'', PList (map PStr (required_adjustments r))),
      (''policy_basis'', PList (map PStr (policy_basis r))),
      (''requires_review'', PBool (pr_requires_review r)),
      (''authoritative_inputs_used'', PList (map PStr (authoritative_inputs_used r))),
      (''authoritative_inputs_missing'', PList (map PStr (authoritative_inputs_missing r)))]"

subsection \<open>Timestamps\<close>

text \<open>
  A timestamp is the number of seconds since the epoch of its UTC instant, or, without a zone, of
  its wall clock read as UTC.
\<close>

datatype timestamp = Naive rat | Aware rat

primrec ts_sec :: "timestamp \<Rightarrow> rat" where
  "ts_sec (Naive s) = s"
| "ts_sec (Aware s) = s"

text \<open>\<open>a > b\<close> on datetimes raises \<open>TypeError\<close> when only one of them has a zone.\<close>

fun ts_gt :: "timestamp \<Rightarrow> timestamp \<Rightarrow> policy_error + bool" where
  "ts_gt (Naive a) (Naive b) = Inr (b < a)"
| "ts_gt (Aware a) (Aware b) = Inr (b < a)"
| "ts_gt _ _ = Inl CompareError"

definition parse_ts :: "(string \<Rightarrow> timestamp option) \<Rightarrow> string \<Rightarrow> timestamp option" where
  "parse_ts fromiso s =
     (let raw = strip s in
      if raw = [] then None
      else if last raw = CHR ''Z'' then fromiso (butlast raw @ ''+00:00'')
      else fromiso raw)"

subsection \<open>Authoritative verdicts\<close>

text \<open>\<open>out.update ({k: v for k, v in d.items () if v is not None})\<close>.\<close>

definition update_present :: "pydict \<Rightarrow> pydict \<Rightarrow> pydict" where
  "update_present out d =
     foldl (\<lambda>acc (k, v). AList.update k v acc) out (filter (\<lambda>(k, v). v \<noteq> PNone) d)"

definition extract_authoritative_business_verdicts :: "pydict \<Rightarrow> policy_context option \<Rightarrow> pydict" where
  "extract_authoritative_business_verdicts hot ctx =
     (let out0 = (case ctx of None \<Rightarrow> [] | Some c \<Rightarrow> update_present [] (authoritative_verdicts c));
          sm = as_dict (dget ''snapshot_meta'' hot);
          out1 = update_present out0 (as_dict (dget ''authoritative_verdicts'' sm));
          md = as_dict (dget ''metadata'' (as_dict (dget ''case'' hot)))
      in update_present out1 (as_dict (dget ''authoritative_verdicts'' md)))"

fun verdict_ok :: "pyval \<Rightarrow> bool" where
  "verdict_ok (PDict blob) =
     (lower (norm_of (py_or (dget ''status'' blob) (dget ''verdict_status'' blob)))
        \<in> set [''pass'', ''approved'', ''ok'', ''authorized'']
      \<or> is_true (dget ''authorized'' blob))"
| "verdict_ok _ = False"

definition key_aliases :: "string \<Rightarrow> string list" where
  "key_aliases kind =
     (if kind = ''commercial_margin''
      then [''commercial_margin'', ''margin'', ''commercial'', ''authorized_margin'']
      else if kind = ''technical_sizing''
      then [''technical_sizing'', ''sizing'', ''hvac_fit'', ''technical_fit'']
      else if kind = ''compliance_checklist''
      then [''compliance_checklist'', ''subsidy_compliance'', ''compliance'']
      else [kind])"

definition has_verdict_kind :: "pydict \<Rightarrow> string \<Rightarrow> bool" where
  "has_verdict_kind verdicts kind \<longleftrightarrow>
     list_ex (\<lambda>k. dhas k verdicts \<and> truthy (dget k verdicts) \<and> verdict_ok (dget k verdicts))
       (key_aliases kind)"

subsection \<open>Conflicts\<close>

definition active_conflict_severities :: "pydict \<Rightarrow> string list" where
  "active_conflict_severities hot =
     map (\<lambda>row. lower (strip (py_str (py_or (dget ''severity'' row)
            (py_or (dget ''level'' row) (PStr ''medium''))))))
       (dict_rows (list_items (dget ''active_conflicts'' hot)))"

definition max_conflict_severity :: "pydict \<Rightarrow> string" where
  "max_conflict_severity hot =
     foldl (\<lambda>best s. if sev_get best 0 < sev_get s 1 then s else best) ''low''
       (active_conflict_severities hot)"

definition is_evidence_backed_fact :: "pydict \<Rightarrow> bool" where
  "is_evidence_backed_fact row \<longleftrightarrow>
     norm_of (dget ''source_ref'' row) \<noteq> [] \<or>
     (case dget ''provenance'' row of
        PDict prov \<Rightarrow> norm_of (dget ''kind'' prov) \<noteq> [] \<and>
          norm_of (py_or (dget ''ref'' prov) (dget ''source_ref'' prov)) \<noteq> []
      | _ \<Rightarrow> False)"

subsection \<open>The rules\<close>

abbreviation action_class :: "pydict \<Rightarrow> string" where
  "action_class act \<equiv> upper (text_of (dget ''action_class'' act))"

definition snapshot_indicates_first_contact :: "pydict \<Rightarrow> policy_error + bool" where
  "snapshot_indicates_first_contact hot =
     (let flagged = is_true (dget ''first_contact'' (as_dict (dget ''snapshot_meta'' hot))) in
      case dget ''latest_activity'' hot of
        PDict la \<Rightarrow>
          bindE (of_opt ConversionError (py_int (py_or (dget ''thread_message_count'' la) (PInt 0))))
            (\<lambda>n. Inr (n \<le> 1 \<or> is_true (dget ''is_first_contact'' la) \<or> flagged))
      | _ \<Rightarrow> Inr flagged)"

definition rule_no_live_send_to_new_clients :: rule_fun where
  "rule_no_live_send_to_new_clients act hot ctx =
     (if action_class act \<noteq> ''LIVE_REPLY'' then pass
      else if has_approved_communication_state ctx then pass
      else bindE (if is_first_contact ctx then Inr True else snapshot_indicates_first_contact hot)
        (\<lambda>first. if first
           then fire NEEDS_HUMAN High MsgFirstContact ''NO_LIVE_SEND_TO_NEW_CLIENTS''
                  [''Obtain approved communication state or operator send.'']
           else pass))"

definition rule_no_outbound_when_relationship_risk :: rule_fun where
  "rule_no_outbound_when_relationship_risk act hot ctx =
     (let md = as_dict (dget ''metadata'' (as_dict (dget ''case'' hot)));
          risk = (relationship_debtor ctx \<or> relationship_complaint_active ctx \<or>
                  relationship_escalation_open ctx \<or> truthy (dget ''debtor'' md) \<or>
                  truthy (dget ''complaint_active'' md) \<or>
                  truthy (dget ''service_escalation_open'' md));
          comm = lower (text_of (dget ''communication_intent'' act));
          ac = action_class act
      in if \<not> risk then pass
         else if comm \<in> set [''marketing'', ''prospecting'', ''satisfaction_survey'', ''upsell''] \<or>
                 ac = ''OUTBOUND_MARKETING''
         then fire REJECTED Critical MsgMarketingBlocked ''NO_OUTBOUND_WHEN_RELATIONSHIP_RISK_ACTIVE''
                [''Use human-handled recovery / complaint workflow.'']
         else if ac \<in> set [''LIVE_REPLY'', ''OUTBOUND_STATUS''] \<and>
                 comm \<notin> set [''service_recovery'', ''complaint_ack'']
         then fire NEEDS_HUMAN High MsgOutboundHuman ''NO_OUTBOUND_WHEN_RELATIONSHIP_RISK_ACTIVE'' []
         else pass)"

text \<open>The loop over the timeline: the latest matching event so far.\<close>

fun last_follow_up :: "(string \<Rightarrow> timestamp option) \<Rightarrow> string list \<Rightarrow> timestamp option \<Rightarrow>
    pydict list \<Rightarrow> policy_error + timestamp option" where
  "last_follow_up fromiso types last_ts [] = Inr last_ts"
| "last_follow_up fromiso types last_ts (ev # evs) =
     (if lower (text_of (dget ''event_type'' ev)) \<notin> set types
      then last_follow_up fromiso types last_ts evs
      else case parse_ts fromiso (text_of (dget ''occurred_at'' ev)) of
        None \<Rightarrow> last_follow_up fromiso types last_ts evs
      | Some ts \<Rightarrow>
          (case last_ts of
             None \<Rightarrow> last_follow_up fromiso types (Some ts) evs
           | Some l \<Rightarrow> bindE (ts_gt ts l)
               (\<lambda>newer. last_follow_up fromiso types (Some (if newer then ts else l)) evs)))"

definition rule_no_repeat_follow_up_too_soon :: "(string \<Rightarrow> timestamp option) \<Rightarrow> rat \<Rightarrow> rule_fun" where
  "rule_no_repeat_follow_up_too_soon fromiso now act hot ctx =
     (if action_class act \<notin> set [''FOLLOW_UP'', ''FOLLOW_UP_MESSAGE''] then pass
      else if event_timeline ctx = [] then pass
      else bindE (last_follow_up fromiso (map lower (follow_up_event_types ctx)) None
                    (dict_rows (event_timeline ctx)))
        (\<lambda>last_ts. case last_ts of
             None \<Rightarrow> pass
           | Some ts \<Rightarrow>
               if now - ts_sec ts < follow_up_cooldown_hours ctx * 3600
               then fire REJECTED Medium MsgCooldown ''NO_REPEAT_FOLLOWUP_TOO_SOON''
                      [''Wait until '' @ float_str (follow_up_cooldown_hours ctx)
                       @ ''h after last follow-up.'']
               else pass))"

text \<open>
  The confidence of the snapshot: the context's when it is not zero, else the one of
  \<open>snapshot_meta\<close>; the latter replaces the former whenever it is present.
\<close>

definition snapshot_conf :: "pydict \<Rightarrow> policy_context \<Rightarrow> policy_error + pyfloat" where
  "snapshot_conf hot ctx =
     bindE
       (if snapshot_confidence ctx \<noteq> Fin 0 then Inr (snapshot_confidence ctx)
        else case map_of hot ''snapshot_meta'' of
          None \<Rightarrow> Inr (Fin 0)
        | Some (PDict sm) \<Rightarrow>
            of_opt ConversionError (py_float (py_or (dget ''confidence'' sm) (PFloat 0)))
        | Some _ \<Rightarrow> Inl AttributeError)
       (\<lambda>conf. case dget ''snapshot_meta'' hot of
          PDict sm \<Rightarrow>
            (if truthy (dget ''confidence'' sm)
             then of_opt ConversionError (py_float (dget ''confidence'' sm)) else Inr conf)
        | _ \<Rightarrow> Inr conf)"

definition rule_no_fact_changing_without_authoritative_evidence :: rule_fun where
  "rule_no_fact_changing_without_authoritative_evidence act hot ctx =
     (if \<not> truthy (dget ''changes_external_state'' act) then pass
      else bindE (snapshot_conf hot ctx) (\<lambda>conf.
        let evidence_ok = list_ex is_evidence_backed_fact
              (dict_rows (list_items (dget ''key_facts'' hot)))
        in if pf_less (source_trust_score ctx) (Fin (source_trust_threshold ctx))
           then fire NEEDS_HUMAN High MsgTrustLow
                  ''NO_FACT_CHANGING_ACTION_WITHOUT_AUTHORITATIVE_EVIDENCE'' []
           else if pf_less conf (Fin (min_confidence_for_autonomous_fact_action ctx)) \<and> \<not> evidence_ok
           then fire NEEDS_HUMAN High MsgEvidenceMissing
                  ''NO_FACT_CHANGING_ACTION_WITHOUT_AUTHORITATIVE_EVIDENCE'' []
           else pass))"

definition OFFER_CLASSES :: "string list" where
  "OFFER_CLASSES = [''OFFER_SEND'', ''OFFER_EXTERNAL'', ''COMMERCIAL_COMMIT'']"

definition rule_no_offer_without_commercial_verdict :: rule_fun where
  "rule_no_offer_without_commercial_verdict act hot ctx =
     (if action_class act \<notin> set OFFER_CLASSES then pass
      else if has_verdict_kind (extract_authoritative_business_verdicts hot (Some ctx))
                ''commercial_margin'' then pass
      else if truthy (dget ''is_live'' act) \<or> truthy (dget ''external_send'' act)
      then fire REJECTED Critical MsgOfferLiveBlocked
             ''NO_OFFER_ACTION_WITHOUT_AUTHORIZED_MARGIN_VERDICT'' []
      else fire NEEDS_HUMAN High MsgOfferReview
             ''NO_OFFER_RELATED_APPROVAL_WITHOUT_AUTHORIZED_BUSINESS_VERDICT'' [])"

definition rule_no_technical_without_sizing_verdict :: rule_fun where
  "rule_no_technical_without_sizing_verdict act hot ctx =
     (if \<not> truthy (dget ''requires_technical_authority'' act) then pass
      else if has_verdict_kind (extract_authoritative_business_verdicts hot (Some ctx))
                ''technical_sizing'' then pass
      else fire NEEDS_HUMAN High MsgSizingMissing
             ''NO_TECHNICAL_APPROVAL_WITHOUT_AUTHORIZED_SIZING_VERDICT'' [])"

definition rule_compliance_for_subsidy_send :: rule_fun where
  "rule_compliance_for_subsidy_send act hot ctx =
     (if \<not> truthy (dget ''requires_compliance_content'' act) then pass
      else if has_verdict_kind (extract_authoritative_business_verdicts hot (Some ctx))
                ''compliance_checklist'' then pass
      else fire NEEDS_HUMAN High MsgComplianceMissing
             ''NO_SUBSIDY_OR_COMPLIANCE_SEND_WITHOUT_REQUIRED_COMPLIANCE_CHECKLIST'' [])"

definition rule_conflict_escalation :: rule_fun where
  "rule_conflict_escalation act hot ctx =
     (if action_class act \<in> set [''OBSERVE'', ''INTERNAL_NOTE''] then pass
      else if sev_get (max_conflict_severity hot) 0
              < sev_get (lower (str_or (conflict_severity_threshold ctx) ''high'')) 2 then pass
      else fire NEEDS_HUMAN High MsgConflicts ''CONFLICT_ESCALATION_RULE'' [])"

text \<open>One conflict row and one blocker row of the document and calendar rule.\<close>

definition document_conflict_row :: "pydict \<Rightarrow> rule_eval option" where
  "document_conflict_row row =
     (if text_of (dget ''source_kind'' row) = ''document_intelligence'' \<and>
         1 \<le> sev_get (lower (py_str (py_or (dget ''severity'' row) (PStr ''medium'')))) 2
      then Some \<lparr>ev_outcome = NEEDS_HUMAN, ev_risk = High, ev_message = MsgDocumentConflict,
                 ev_basis = ''DOCUMENT_OR_CALENDAR_REVIEW_REQUIRED'', ev_adjustments = []\<rparr>
      else None)"

definition blocker_row :: "pydict \<Rightarrow> rule_eval option" where
  "blocker_row row =
     (let source = text_of (dget ''source_kind'' row);
          blocker_id = text_of (dget ''blocker_id'' row)
      in if source = ''calendar'' \<or> starts_with blocker_id ''calendar_''
         then Some \<lparr>ev_outcome = NEEDS_HUMAN, ev_risk = High, ev_message = MsgCalendarBlocker,
                    ev_basis = ''DOCUMENT_OR_CALENDAR_REVIEW_REQUIRED'', ev_adjustments = []\<rparr>
         else if blocker_id = ''unsupported_claims''
         then Some \<lparr>ev_outcome = NEEDS_HUMAN, ev_risk = Medium, ev_message = MsgUnsupportedClaims,
                    ev_basis = ''DOCUMENT_OR_CALENDAR_REVIEW_REQUIRED'', ev_adjustments = []\<rparr>
         else None)"

definition rule_document_calendar_review_required :: rule_fun where
  "rule_document_calendar_review_required act hot ctx =
     (let ac = action_class act;
          action_type = text_of (py_or (dget ''action_type'' act) (dget ''primary_action'' act));
          changes_external = (truthy (dget ''changes_external_state'' act) \<or>
            ac \<in> set [''EXTERNAL_WRITE'', ''LIVE_REPLY'', ''OUTBOUND_STATUS'', ''FOLLOW_UP''] \<or>
            action_type = ''create_calendar_event'')
      in if ac \<in> set [''OBSERVE'', ''INTERNAL_NOTE''] then pass
         else if \<not> changes_external then pass
         else case first_some document_conflict_row
                     (dict_rows (list_items (dget ''active_conflicts'' hot))) of
           Some e \<Rightarrow> Inr (Some e)
         | None \<Rightarrow> Inr (first_some blocker_row (dict_rows (list_items (dget ''blockers'' hot)))))"

definition rule_identity_unresolved :: rule_fun where
  "rule_identity_unresolved act hot ctx =
     (let st0 = upper (entity_link_status ctx);
          st = (if st0 = []
                then upper (text_of (dget ''entity_link_status'' (as_dict (dget ''snapshot_meta'' hot))))
                else st0)
      in if st \<notin> set [''PENDING_ADJUDICATION'', ''LINK_CONFLICT'', ''UNRESOLVED''] then pass
         else if action_class act \<in> set [''OBSERVE'', ''INTERNAL_NOTE''] then pass
         else fire NEEDS_HUMAN Medium MsgIdentityUnresolved ''IDENTITY_LINK_UNRESOLVED'' [])"

definition rule_trust_and_review_defaults :: rule_fun where
  "rule_trust_and_review_defaults act hot ctx =
     (if truthy (dget ''inference_only'' act) \<and> truthy (dget ''changes_external_state'' act)
      then fire NEEDS_HUMAN Medium MsgInferenceOnly ''NON_AUTHORITATIVE_INFERENCE'' []
      else if truthy (dget ''review_required'' (as_dict (dget ''snapshot_meta'' hot)))
      then fire NEEDS_HUMAN Medium MsgReviewRequired ''REVIEW_REQUIRED_META'' []
      else pass)"

definition load_policy_rules :: "(string \<Rightarrow> timestamp option) \<Rightarrow> rat \<Rightarrow> policy_rule list" where
  "load_policy_rules fromiso now =
     [\<lparr>rule_id = ''NO_LIVE_SEND_TO_NEW_CLIENTS'', family = Communication,
       evaluate_fun = rule_no_live_send_to_new_clients\<rparr>,
      \<lparr>rule_id = ''NO_OUTBOUND_WHEN_RELATIONSHIP_RISK_ACTIVE'', family = Communication,
       evaluate_fun = rule_no_outbound_when_relationship_risk\<rparr>,
      \<lparr>rule_id = ''NO_REPEAT_FOLLOWUP_TOO_SOON'', family = Operational,
       evaluate_fun = rule_no_repeat_follow_up_too_soon fromiso now\<rparr>,
      \<lparr>rule_id = ''NO_FACT_CHANGING_ACTION_WITHOUT_AUTHORITATIVE_EVIDENCE'', family = Trust,
       evaluate_fun = rule_no_fact_changing_without_authoritative_evidence\<rparr>,
      \<lparr>rule_id = ''NO_OFFER_RELATED_APPROVAL_WITHOUT_AUTHORIZED_BUSINESS_VERDICT'',
       family = Business_invariant, evaluate_fun = rule_no_offer_without_commercial_verdict\<rparr>,
      \<lparr>rule_id = ''NO_TECHNICAL_APPROVAL_WITHOUT_AUTHORIZED_SIZING_VERDICT'',
       family = Business_invariant, evaluate_fun = rule_no_technical_without_sizing_verdict\<rparr>,
      \<lparr>rule_id = ''NO_SUBSIDY_OR_COMPLIANCE_SEND_WITHOUT_REQUIRED_COMPLIANCE_CHECKLIST'',
       family = Business_invariant, evaluate_fun = rule_compliance_for_subsidy_send\<rparr>,
      \<lparr>rule_id = ''CONFLICT_ESCALATION_RULE'', family = Trust,
       evaluate_fun = rule_conflict_escalation\<rparr>,
      \<lparr>rule_id = ''DOCUMENT_OR_CALENDAR_REVIEW_REQUIRED'', family = Trust,
       evaluate_fun = rule_document_calendar_review_required\<rparr>,
      \<lparr>rule_id = ''IDENTITY_LINK_UNRESOLVED'', family = Operational,
       evaluate_fun = rule_identity_unresolved\<rparr>,
      \<lparr>rule_id = ''TRUST_AND_REVIEW_DEFAULTS'', family = Trust,
       evaluate_fun = rule_trust_and_review_defaults\<rparr>]"

subsection \<open>The engine\<close>

definition evaluate_rule :: "policy_rule \<Rightarrow> rule_fun" where
  "evaluate_rule rule act hot ctx = evaluate_fun rule act hot ctx"

definition apply_eval :: "policy_rule \<Rightarrow> rule_eval \<Rightarrow> policy_report \<Rightarrow> policy_report" where
  "apply_eval rule ev r = r\<lparr>
     failed_rules := failed_rules r @ [rule_id rule],
     policy_basis := policy_basis r @ [rule_id rule @ '': '' @ ev_basis ev],
     pr_warnings := pr_warnings r @ (if ev_message ev \<noteq> NoMessage then [ev_message ev] else []),
     required_adjustments := required_adjustments r @ ev_adjustments ev,
     effective_risk_class := max_risk (effective_risk_class r) (ev_risk ev),
     pr_status := (if ev_outcome ev = REJECTED then REJECTED
                   else if ev_outcome ev = NEEDS_HUMAN \<and> pr_status r = APPROVED then NEEDS_HUMAN
                   else pr_status r)\<rparr>"

fun run_rules :: "pydict \<Rightarrow> pydict \<Rightarrow> policy_context \<Rightarrow> policy_rule list \<Rightarrow> policy_report \<Rightarrow>
    policy_error + policy_report" where
  "run_rules act hot ctx [] r = Inr r"
| "run_rules act hot ctx (rule # rules) r =
     bindE (evaluate_rule rule act hot ctx)
       (\<lambda>ev. run_rules act hot ctx rules
          (case ev of None \<Rightarrow> r | Some e \<Rightarrow> apply_eval rule e r))"

definition append_missing :: "bool \<Rightarrow> string \<Rightarrow> string list \<Rightarrow> string list" where
  "append_missing needed k xs = (if needed \<and> k \<notin> set xs then xs @ [k] else xs)"

definition engine_rules :: "(string \<Rightarrow> timestamp option) \<Rightarrow> rat \<Rightarrow> policy_rule list \<Rightarrow> policy_rule list" where
  "engine_rules fromiso now rules = (if rules = [] then load_policy_rules fromiso now else rules)"

definition initial_report :: "pydict \<Rightarrow> pydict \<Rightarrow> policy_context \<Rightarrow> policy_report" where
  "initial_report act hot ctx =
     (let verdicts = extract_authoritative_business_verdicts hot (Some ctx);
          used = map (\<lambda>(k, b). if verdict_ok b then k @ '':authorized'' else k @ '':present_not_authorized'')
                   (filter (\<lambda>(k, b). truthy b) verdicts);
          missing = map fst (filter (\<lambda>(k, b). \<not> truthy b) verdicts)
      in \<lparr>pr_trace_id = py_str (py_or (PStr (pc_trace_id ctx)) (py_or (dget ''trace_id'' act) (PStr []))),
          pr_proposal_id = py_str (py_or (PStr (pc_proposal_id ctx))
                             (py_or (dget ''proposal_id'' act) (PStr ''proposal''))),
          pr_status = APPROVED, effective_risk_class = Low, failed_rules = [], pr_warnings = [],
          required_adjustments = [], policy_basis = [], pr_requires_review = False,
          authoritative_inputs_used = sort (remdups used),
          authoritative_inputs_missing = sort (remdups missing)\<rparr>)"

definition finish_report :: "pydict \<Rightarrow> pydict \<Rightarrow> policy_context \<Rightarrow> policy_report \<Rightarrow> policy_report" where
  "finish_report act hot ctx r =
     (let verdicts = extract_authoritative_business_verdicts hot (Some ctx);
          m1 = append_missing (action_class act \<in> set OFFER_CLASSES \<and>
                 \<not> has_verdict_kind verdicts ''commercial_margin'') ''commercial_margin_verdict''
                 (authoritative_inputs_missing r);
          m2 = append_missing (truthy (dget ''requires_technical_authority'' act) \<and>
                 \<not> has_verdict_kind verdicts ''technical_sizing'') ''technical_sizing_verdict'' m1;
          m3 = append_missing (truthy (dget ''requires_compliance_content'' act) \<and>
                 \<not> has_verdict_kind verdicts ''compliance_checklist'') ''compliance_checklist_verdict'' m2
      in r\<lparr>pr_requires_review := (pr_status r \<noteq> APPROVED),
           authoritative_inputs_missing := sort (remdups m3)\<rparr>)"

definition policy_engine_evaluate :: "policy_rule list \<Rightarrow> pydict \<Rightarrow> pydict \<Rightarrow> policy_context \<Rightarrow>
    policy_error + policy_report" where
  "policy_engine_evaluate rules act hot ctx =
     bindE (run_rules act hot ctx rules (initial_report act hot ctx))
       (\<lambda>r. Inr (finish_report act hot ctx r))"

definition policy_report_allows_autonomous_action :: "pydict \<Rightarrow> bool" where
  "policy_report_allows_autonomous_action d \<longleftrightarrow>
     py_str (dget ''status'' d) = ''APPROVED'' \<and>
     py_str (dget ''effective_risk_class'' d) \<noteq> ''critical''"

subsection \<open>The loop over the rules\<close>

text \<open>The rules of a list that fire, with their evaluations, in order.\<close>

definition firings :: "pydict \<Rightarrow> pydict \<Rightarrow> policy_context \<Rightarrow> policy_rule list \<Rightarrow>
    (policy_rule \<times> rule_eval) list" where
  "firings act hot ctx rules =
     concat (map (\<lambda>r. case evaluate_rule r act hot ctx of Inr (Some e) \<Rightarrow> [(r, e)] | _ \<Rightarrow> []) rules)"

definition raises :: "pydict \<Rightarrow> pydict \<Rightarrow> policy_context \<Rightarrow> policy_rule \<Rightarrow> bool" where
  "raises act hot ctx r \<longleftrightarrow> (case evaluate_rule r act hot ctx of Inl _ \<Rightarrow> True | Inr _ \<Rightarrow> False)"

definition combined_status :: "policy_status list \<Rightarrow> policy_status" where
  "combined_status os = (if REJECTED \<in> set os then REJECTED
     else if NEEDS_HUMAN \<in> set os then NEEDS_HUMAN else APPROVED)"

lemma firings_Nil [simp]: "firings act hot ctx [] = []"
  by (simp add: firings_def)

lemma in_firings:
  "(r, e) \<in> set (firings act hot ctx rules) \<longleftrightarrow>
   r \<in> set rules \<and> evaluate_rule r act hot ctx = Inr (Some e)"
  by (auto simp: firings_def split: sum.splits option.splits)

lemma firings_eq_Nil:
  "firings act hot ctx rules = [] \<longleftrightarrow> (\<forall>r\<in>set rules. \<forall>e. evaluate_rule r act hot ctx \<noteq> Inr (Some e))"
proof -
  have "firings act hot ctx rules = [] \<longleftrightarrow> (\<forall>r e. (r, e) \<notin> set (firings act hot ctx rules))"
    by (cases "firings act hot ctx rules") auto
  then show ?thesis by (auto simp: in_firings)
qed

lemma pass_iff:
  "evaluate_rule r act hot ctx = Inr None \<longleftrightarrow>
     \<not> raises act hot ctx r \<and> (\<forall>e. evaluate_rule r act hot ctx \<noteq> Inr (Some e))"
proof (cases "evaluate_rule r act hot ctx")
  case (Inr ev)
  then show ?thesis by (cases ev) (simp_all add: raises_def)
qed (simp add: raises_def)

lemma run_rules_eq:
  "run_rules act hot ctx rules r =
     (case find (raises act hot ctx) rules of
        Some bad \<Rightarrow> Inl (projl (evaluate_rule bad act hot ctx))
      | None \<Rightarrow> Inr (foldl (\<lambda>r (rule, e). apply_eval rule e r) r (firings act hot ctx rules)))"
proof (induction rules arbitrary: r)
  case (Cons rule rules)
  show ?case
  proof (cases "evaluate_rule rule act hot ctx")
    case (Inl e)
    then show ?thesis by (simp add: raises_def)
  next
    case (Inr ev)
    then have nr: "\<not> raises act hot ctx rule" by (simp add: raises_def)
    have "firings act hot ctx (rule # rules) =
        (case ev of None \<Rightarrow> [] | Some e \<Rightarrow> [(rule, e)]) @ firings act hot ctx rules"
      using Inr by (simp add: firings_def split: option.split)
    with Inr nr show ?thesis by (cases ev) (simp_all add: Cons.IH split: option.split)
  qed
qed simp

lemma apply_eval_fields [simp]:
  "failed_rules (apply_eval rule e r) = failed_rules r @ [rule_id rule]"
  "authoritative_inputs_missing (apply_eval rule e r) = authoritative_inputs_missing r"
  "effective_risk_class (apply_eval rule e r) = max (effective_risk_class r) (ev_risk e)"
  "pr_status (apply_eval rule e r) =
     (if ev_outcome e = REJECTED then REJECTED
      else if ev_outcome e = NEEDS_HUMAN \<and> pr_status r = APPROVED then NEEDS_HUMAN else pr_status r)"
  by (simp_all add: apply_eval_def max_risk_max)

lemma foldl_apply_status:
  "pr_status (foldl (\<lambda>r (rule, e). apply_eval rule e r) r fs) =
     (if REJECTED \<in> set (map (ev_outcome \<circ> snd) fs) then REJECTED
      else if NEEDS_HUMAN \<in> set (map (ev_outcome \<circ> snd) fs) \<and> pr_status r = APPROVED then NEEDS_HUMAN
      else pr_status r)"
proof (induction fs arbitrary: r)
  case (Cons f fs)
  obtain rule e where f: "f = (rule, e)" by (cases f)
  show ?case unfolding f foldl_Cons prod.case Cons.IH by (cases "ev_outcome e") simp_all
qed simp

lemma foldl_apply_risk:
  "effective_risk_class (foldl (\<lambda>r (rule, e). apply_eval rule e r) r fs) =
     foldl max (effective_risk_class r) (map (ev_risk \<circ> snd) fs)"
  by (induction fs arbitrary: r) auto

lemma foldl_max_Max: "foldl max a xs = Max (insert a (set xs))" for a :: "'a::linorder"
proof (induction xs arbitrary: a)
  case (Cons x xs)
  show ?case
  proof (cases "xs = []")
    case False
    then show ?thesis by (simp add: Cons.IH max.assoc insert_commute)
  qed simp
qed simp

lemma foldl_apply_failed:
  "failed_rules (foldl (\<lambda>r (rule, e). apply_eval rule e r) r fs) =
     failed_rules r @ map (rule_id \<circ> fst) fs"
  by (induction fs arbitrary: r) auto

lemma foldl_apply_missing:
  "authoritative_inputs_missing (foldl (\<lambda>r (rule, e). apply_eval rule e r) r fs) =
     authoritative_inputs_missing r"
  by (induction fs arbitrary: r) auto

lemma find_raises_None: "find (raises act hot ctx) rules = None \<longleftrightarrow> (\<forall>r\<in>set rules. \<not> raises act hot ctx r)"
  by (induction rules) auto

lemma evaluate_Inr_iff:
  "policy_engine_evaluate rules act hot ctx = Inr r \<longleftrightarrow>
     (\<forall>rule\<in>set rules. \<not> raises act hot ctx rule) \<and>
     r = finish_report act hot ctx (foldl (\<lambda>r (rule, e). apply_eval rule e r)
           (initial_report act hot ctx) (firings act hot ctx rules))"
proof (cases "find (raises act hot ctx) rules")
  case None
  then show ?thesis
    unfolding policy_engine_evaluate_def run_rules_eq None
    using None [unfolded find_raises_None] by auto
next
  case (Some b)
  then have "raises act hot ctx b" and "b \<in> set rules" by (auto simp: find_Some_iff)
  then show ?thesis
    unfolding policy_engine_evaluate_def run_rules_eq Some by auto
qed

lemma finish_fields [simp]:
  "pr_status (finish_report act hot ctx r) = pr_status r"
  "effective_risk_class (finish_report act hot ctx r) = effective_risk_class r"
  "failed_rules (finish_report act hot ctx r) = failed_rules r"
  "pr_requires_review (finish_report act hot ctx r) = (pr_status r \<noteq> APPROVED)"
  by (simp_all add: finish_report_def Let_def)

lemma initial_fields [simp]:
  "pr_status (initial_report act hot ctx) = APPROVED"
  "effective_risk_class (initial_report act hot ctx) = Low"
  "failed_rules (initial_report act hot ctx) = []"
  by (simp_all add: initial_report_def Let_def)

lemma evaluate_report:
  assumes "policy_engine_evaluate rules act hot ctx = Inr r"
  defines "F \<equiv> firings act hot ctx rules"
  shows "failed_rules r = map (\<lambda>f. rule_id (fst f)) F"
    and "pr_status r = combined_status (map (\<lambda>f. ev_outcome (snd f)) F)"
    and "effective_risk_class r = Max (insert Low (set (map (\<lambda>f. ev_risk (snd f)) F)))"
    and "pr_requires_review r = (pr_status r \<noteq> APPROVED)"
proof -
  have r: "r = finish_report act hot ctx (foldl (\<lambda>r (rule, e). apply_eval rule e r)
      (initial_report act hot ctx) F)"
    using assms by (simp add: evaluate_Inr_iff)
  show "failed_rules r = map (\<lambda>f. rule_id (fst f)) F"
    by (simp add: r foldl_apply_failed comp_def)
  show "pr_status r = combined_status (map (\<lambda>f. ev_outcome (snd f)) F)"
    by (simp add: r foldl_apply_status combined_status_def comp_def)
  show "effective_risk_class r = Max (insert Low (set (map (\<lambda>f. ev_risk (snd f)) F)))"
    unfolding r by (simp add: foldl_apply_risk foldl_max_Max comp_def)
  show "pr_requires_review r = (pr_status r \<noteq> APPROVED)" by (simp add: r)
qed

lemma raises_isl: "raises act hot ctx q = isl (evaluate_rule q act hot ctx)"
  by (simp add: raises_def split: sum.split)

lemma firings_filter:
  "\<forall>q \<in> set rules. \<not> raises act hot ctx q \<Longrightarrow>
   firings act hot ctx rules = map (\<lambda>q. (q, the (projr (evaluate_rule q act hot ctx))))
      (filter (\<lambda>q. evaluate_rule q act hot ctx \<noteq> Inr None) rules)"
  by (induction rules) (auto simp: firings_def raises_def split: sum.splits option.splits)

lemma foldl_apply_basis:
  "policy_basis (foldl (\<lambda>r (rule, e). apply_eval rule e r) r fs) =
     policy_basis r @ map (\<lambda>(rule, e). rule_id rule @ '': '' @ ev_basis e) fs"
proof (induction fs arbitrary: r)
  case (Cons f fs)
  then show ?case by (cases f) (simp add: apply_eval_def)
qed simp

lemma report_basis:
  assumes "policy_engine_evaluate rules act hot ctx = Inr r"
  shows "policy_basis r = map (\<lambda>(rule, e). rule_id rule @ '': '' @ ev_basis e) (firings act hot ctx rules)"
proof -
  have "policy_basis (finish_report act hot ctx x) = policy_basis x" for x
    by (simp add: finish_report_def Let_def)
  moreover have "policy_basis (initial_report act hot ctx) = []"
    by (simp add: initial_report_def Let_def)
  ultimately show ?thesis using assms by (simp add: evaluate_Inr_iff foldl_apply_basis)
qed

lemma combined_status_approved: "combined_status os = APPROVED \<longleftrightarrow> (\<forall>oc\<in>set os. oc = APPROVED)"
proof -
  have "oc = APPROVED \<longleftrightarrow> oc \<noteq> REJECTED \<and> oc \<noteq> NEEDS_HUMAN" for oc by (cases oc) auto
  then show ?thesis by (auto simp: combined_status_def)
qed

subsection \<open>The default rules\<close>

text \<open>No default rule fires with the outcome APPROVED.\<close>

lemma first_some_Some: "first_some f xs = Some y \<Longrightarrow> \<exists>x\<in>set xs. f x = Some y"
  by (induction xs) (auto split: option.splits)

lemma row_outcomes:
  "document_conflict_row row = Some e \<Longrightarrow> ev_outcome e = NEEDS_HUMAN"
  "blocker_row row = Some e \<Longrightarrow> ev_outcome e = NEEDS_HUMAN"
  by (auto simp: document_conflict_row_def blocker_row_def Let_def split: if_splits)

lemma simple_rule_outcomes:
  "rule_no_live_send_to_new_clients act hot ctx = Inr (Some e) \<Longrightarrow> ev_outcome e \<noteq> APPROVED"
  "rule_no_outbound_when_relationship_risk act hot ctx = Inr (Some e) \<Longrightarrow> ev_outcome e \<noteq> APPROVED"
  "rule_no_fact_changing_without_authoritative_evidence act hot ctx = Inr (Some e) \<Longrightarrow>
     ev_outcome e \<noteq> APPROVED"
  "rule_no_offer_without_commercial_verdict act hot ctx = Inr (Some e) \<Longrightarrow> ev_outcome e \<noteq> APPROVED"
  "rule_no_technical_without_sizing_verdict act hot ctx = Inr (Some e) \<Longrightarrow> ev_outcome e \<noteq> APPROVED"
  "rule_compliance_for_subsidy_send act hot ctx = Inr (Some e) \<Longrightarrow> ev_outcome e \<noteq> APPROVED"
  "rule_conflict_escalation act hot ctx = Inr (Some e) \<Longrightarrow> ev_outcome e \<noteq> APPROVED"
  "rule_identity_unresolved act hot ctx = Inr (Some e) \<Longrightarrow> ev_outcome e \<noteq> APPROVED"
  "rule_trust_and_review_defaults act hot ctx = Inr (Some e) \<Longrightarrow> ev_outcome e \<noteq> APPROVED"
  by (auto simp: rule_no_live_send_to_new_clients_def rule_no_outbound_when_relationship_risk_def
      rule_no_fact_changing_without_authoritative_evidence_def
      rule_no_offer_without_commercial_verdict_def rule_no_technical_without_sizing_verdict_def
      rule_compliance_for_subsidy_send_def rule_conflict_escalation_def rule_identity_unresolved_def
      rule_trust_and_review_defaults_def Let_def bindE_eq_Inr split: if_splits)

lemma follow_up_rule_outcome:
  "rule_no_repeat_follow_up_too_soon fromiso now act hot ctx = Inr (Some e) \<Longrightarrow> ev_outcome e \<noteq> APPROVED"
  by (auto simp: rule_no_repeat_follow_up_too_soon_def bindE_eq_Inr split: if_splits option.splits)

lemma document_rule_outcome:
  "rule_document_calendar_review_required act hot ctx = Inr (Some e) \<Longrightarrow> ev_outcome e \<noteq> APPROVED"
  by (auto simp: rule_document_calendar_review_required_def Let_def row_outcomes
      dest!: first_some_Some split: if_splits option.splits)

lemma default_rule_outcome:
  assumes "rule \<in> set (load_policy_rules fromiso now)"
    and "evaluate_rule rule act hot ctx = Inr (Some e)"
  shows "ev_outcome e \<noteq> APPROVED"
  using assms simple_rule_outcomes [of act hot ctx e] follow_up_rule_outcome document_rule_outcome
  unfolding load_policy_rules_def evaluate_rule_def list.set insert_iff empty_iff
  by (elim disjE) (simp_all)

lemma default_status_approved_iff:
  assumes "policy_engine_evaluate (load_policy_rules fromiso now) act hot ctx = Inr r"
  shows "pr_status r = APPROVED \<longleftrightarrow> firings act hot ctx (load_policy_rules fromiso now) = []"
proof -
  let ?F = "firings act hot ctx (load_policy_rules fromiso now)"
  have "\<forall>f\<in>set ?F. ev_outcome (snd f) \<noteq> APPROVED"
    using default_rule_outcome by (auto simp: in_firings)
  then have "(\<forall>f\<in>set ?F. ev_outcome (snd f) = APPROVED) \<longleftrightarrow> ?F = []"
    by (cases ?F) auto
  then show ?thesis
    unfolding evaluate_report(2) [OF assms] combined_status_approved by simp
qed

lemma allows_to_dict:
  "policy_report_allows_autonomous_action (report_to_dict phrase r) \<longleftrightarrow>
     pr_status r = APPROVED \<and> effective_risk_class r \<noteq> Critical"
  unfolding policy_report_allows_autonomous_action_def report_to_dict_def
  by (cases "pr_status r"; cases "effective_risk_class r") simp_all

text \<open>
  Property C13.  What the engine makes of its rules.  When some rule raises, the engine raises exactly what the
  first such rule raises.  Otherwise it returns a report: it lists the rules that fired and their reasons in
  the order of the rules, its status is REJECTED when some rule rejects, NEEDS\_HUMAN when none rejects and
  some asks for a human, and APPROVED otherwise, its risk is the greatest risk of the rules that fired
  (low when none fired), and review is required unless the status is APPROVED.
\<close>

theorem engine_raises_or_aggregates:
  "case find (\<lambda>q. isl (evaluate_rule q act hot ctx)) rules of
     Some bad \<Rightarrow> policy_engine_evaluate rules act hot ctx = Inl (projl (evaluate_rule bad act hot ctx))
   | None \<Rightarrow> (\<exists>r. policy_engine_evaluate rules act hot ctx = Inr r \<and>
       failed_rules r = map rule_id (filter (\<lambda>q. evaluate_rule q act hot ctx \<noteq> Inr None) rules) \<and>
       policy_basis r = map (\<lambda>q. rule_id q @ '': '' @ ev_basis (the (projr (evaluate_rule q act hot ctx))))
         (filter (\<lambda>q. evaluate_rule q act hot ctx \<noteq> Inr None) rules) \<and>
       pr_status r =
         (if \<exists>q \<in> set rules. \<exists>e. evaluate_rule q act hot ctx = Inr (Some e) \<and> ev_outcome e = REJECTED then REJECTED
          else if \<exists>q \<in> set rules. \<exists>e. evaluate_rule q act hot ctx = Inr (Some e) \<and> ev_outcome e = NEEDS_HUMAN
          then NEEDS_HUMAN else APPROVED) \<and>
       effective_risk_class r =
         Max (insert Low {ev_risk e | q e. q \<in> set rules \<and> evaluate_rule q act hot ctx = Inr (Some e)}) \<and>
       pr_requires_review r = (pr_status r \<noteq> APPROVED))"
proof (cases "find (\<lambda>q. isl (evaluate_rule q act hot ctx)) rules")
  case (Some bad)
  then show ?thesis
    by (simp add: policy_engine_evaluate_def run_rules_eq raises_isl [abs_def])
next
  case None
  let ?F = "firings act hot ctx rules"
  have np: "\<forall>q \<in> set rules. \<not> raises act hot ctx q"
    using None by (simp add: find_None_iff raises_isl)
  then obtain r where r: "policy_engine_evaluate rules act hot ctx = Inr r" by (simp add: evaluate_Inr_iff)
  have fired: "?F = map (\<lambda>q. (q, the (projr (evaluate_rule q act hot ctx))))
      (filter (\<lambda>q. evaluate_rule q act hot ctx \<noteq> Inr None) rules)"
    using np by (rule firings_filter)
  have risks: "set (map (\<lambda>f. ev_risk (snd f)) ?F) =
      {ev_risk e | q e. q \<in> set rules \<and> evaluate_rule q act hot ctx = Inr (Some e)}"
  proof (rule set_eqI)
    fix x
    have "x \<in> set (map (\<lambda>f. ev_risk (snd f)) ?F) \<longleftrightarrow> (\<exists>q e. (q, e) \<in> set ?F \<and> x = ev_risk e)" by force
    then show "x \<in> set (map (\<lambda>f. ev_risk (snd f)) ?F) \<longleftrightarrow>
        x \<in> {ev_risk e | q e. q \<in> set rules \<and> evaluate_rule q act hot ctx = Inr (Some e)}"
      unfolding in_firings by blast
  qed
  have outcome: "oc \<in> set (map (\<lambda>f. ev_outcome (snd f)) ?F) \<longleftrightarrow>
      (\<exists>q \<in> set rules. \<exists>e. evaluate_rule q act hot ctx = Inr (Some e) \<and> ev_outcome e = oc)" for oc
  proof -
    have "oc \<in> set (map (\<lambda>f. ev_outcome (snd f)) ?F) \<longleftrightarrow> (\<exists>q e. (q, e) \<in> set ?F \<and> ev_outcome e = oc)" by force
    then show ?thesis unfolding in_firings by blast
  qed
  note rep = evaluate_report [OF r]
  have "failed_rules r = map rule_id (filter (\<lambda>q. evaluate_rule q act hot ctx \<noteq> Inr None) rules)"
    unfolding rep(1) fired by (simp add: comp_def)
  moreover have "policy_basis r = map (\<lambda>q. rule_id q @ '': '' @ ev_basis (the (projr (evaluate_rule q act hot ctx))))
         (filter (\<lambda>q. evaluate_rule q act hot ctx \<noteq> Inr None) rules)"
    unfolding report_basis [OF r] fired by (simp add: comp_def)
  moreover note rep(2) [unfolded combined_status_def outcome] rep(3) [unfolded risks] rep(4)
  ultimately show ?thesis using None r by auto
qed

lemma default_autonomous_iff:
  "(\<exists>r. policy_engine_evaluate (engine_rules fromiso now []) act hot ctx = Inr r \<and>
        policy_report_allows_autonomous_action (report_to_dict phrase r)) \<longleftrightarrow>
   list_all (\<lambda>rule. evaluate_rule rule act hot ctx = Inr None) (load_policy_rules fromiso now)"
  (is "?L \<longleftrightarrow> ?R")
proof -
  let ?rules = "load_policy_rules fromiso now"
  have passes: "list_all (\<lambda>rule. evaluate_rule rule act hot ctx = Inr None) ?rules \<longleftrightarrow>
      (\<forall>rule\<in>set ?rules. \<not> raises act hot ctx rule) \<and> firings act hot ctx ?rules = []"
    unfolding list_all_iff firings_eq_Nil pass_iff by blast
  show ?thesis
  proof
    assume ?L
    then obtain r where r: "policy_engine_evaluate ?rules act hot ctx = Inr r"
      and "pr_status r = APPROVED"
      by (auto simp: engine_rules_def allows_to_dict)
    then have "firings act hot ctx ?rules = []" by (simp add: default_status_approved_iff)
    with r passes show ?R by (simp add: evaluate_Inr_iff)
  next
    assume ?R
    then have np: "\<forall>rule\<in>set ?rules. \<not> raises act hot ctx rule" and "firings act hot ctx ?rules = []"
      using passes by auto
    then have "policy_engine_evaluate ?rules act hot ctx =
        Inr (finish_report act hot ctx (initial_report act hot ctx))"
      by (simp add: evaluate_Inr_iff)
    then show ?L by (auto simp: engine_rules_def allows_to_dict)
  qed
qed

text \<open>
  Property C12.  The default engine lets an action run without a human exactly when every one of
  its rules passes: a rule that fires, at any risk, and a rule that raises both withhold it.
\<close>

theorem autonomous_iff_every_rule_passes:
  "(\<exists>r. policy_engine_evaluate (engine_rules fromiso now []) act hot ctx = Inr r \<and>
        policy_report_allows_autonomous_action (report_to_dict phrase r)) \<longleftrightarrow>
   list_all (\<lambda>rule. evaluate_rule rule act hot ctx = Inr None) (load_policy_rules fromiso now)"
  by (rule default_autonomous_iff)

lemma combined_status_set: "set os = set os' \<Longrightarrow> combined_status os = combined_status os'"
  by (simp add: combined_status_def)

text \<open>
  Neither the order of the rules nor a repeated rule changes the verdict: two rule
  lists with the same rules raise for the same inputs and otherwise agree on status, risk and the
  need for review.
\<close>

theorem rule_order_irrelevant:
  assumes same: "set rules = set rules'"
  shows "map_sum (\<lambda>_. ()) (\<lambda>r. (pr_status r, effective_risk_class r, pr_requires_review r))
           (policy_engine_evaluate rules act hot ctx) =
         map_sum (\<lambda>_. ()) (\<lambda>r. (pr_status r, effective_risk_class r, pr_requires_review r))
           (policy_engine_evaluate rules' act hot ctx)"
proof -
  let ?E = "\<lambda>rs. policy_engine_evaluate rs act hot ctx"
  have F: "set (firings act hot ctx rules) = set (firings act hot ctx rules')"
    using same by (auto simp: in_firings)
  have ok: "(\<exists>r. ?E rs = Inr r) \<longleftrightarrow> (\<forall>rule\<in>set rs. \<not> raises act hot ctx rule)" for rs
    by (simp add: evaluate_Inr_iff)
  show ?thesis
  proof (cases "?E rules")
    case (Inl e)
    then obtain e' where "?E rules' = Inl e'" using ok [of rules] ok [of rules'] same
      by (cases "?E rules'") auto
    with Inl show ?thesis by simp
  next
    case (Inr r)
    then obtain r' where r': "?E rules' = Inr r'" using ok [of rules] ok [of rules'] same by auto
    have "pr_status r = pr_status r'"
      unfolding evaluate_report(2) [OF Inr] evaluate_report(2) [OF r']
      using F by (intro combined_status_set) simp
    moreover have "effective_risk_class r = effective_risk_class r'"
      unfolding evaluate_report(3) [OF Inr] evaluate_report(3) [OF r'] using F by simp
    ultimately show ?thesis
      by (simp add: Inr r' evaluate_report(4) [OF Inr] evaluate_report(4) [OF r'])
  qed
qed

theorem rule_order_irrelevant_witness:
  "let rules = load_policy_rules (\<lambda>_. None) 0;
       act = [(''action_class'', PStr ''offer_send''), (''is_live'', PBool True)]
   in map_sum (\<lambda>_. ()) (\<lambda>r. (pr_status r, effective_risk_class r, pr_requires_review r))
        (policy_engine_evaluate rules act [] default_policy_context) =
      map_sum (\<lambda>_. ()) (\<lambda>r. (pr_status r, effective_risk_class r, pr_requires_review r))
        (policy_engine_evaluate (rev rules) act [] default_policy_context)"
  unfolding Let_def by (rule rule_order_irrelevant) simp

subsection \<open>Authoritative verdicts\<close>

lemma update_present_origin:
  assumes "map_of (update_present out d) k = Some v"
  shows "(k, v) \<in> set d \<or> map_of out k = Some v"
proof -
  have "(k, v) \<in> set xs \<or> map_of out k = Some v"
    if "map_of (foldl (\<lambda>acc (k, v). AList.update k v acc) out xs) k = Some v" for xs and out :: pydict
    using that
  proof (induction xs arbitrary: out)
    case (Cons x xs)
    obtain k' v' where x: "x = (k', v')" by (cases x)
    have "(k, v) \<in> set xs \<or> map_of (AList.update k' v' out) k = Some v"
      using Cons x by simp
    then show ?case by (auto simp: x update_conv' split: if_splits)
  qed simp
  from this [of out "filter (\<lambda>(k, v). v \<noteq> PNone) d"] assms show ?thesis
    unfolding update_present_def by auto
qed

abbreviation verdict_origins :: "pydict \<Rightarrow> policy_context \<Rightarrow> pydict" where
  "verdict_origins hot ctx \<equiv> authoritative_verdicts ctx
     @ as_dict (dget ''authoritative_verdicts'' (as_dict (dget ''snapshot_meta'' hot)))
     @ as_dict (dget ''authoritative_verdicts'' (as_dict (dget ''metadata'' (as_dict (dget ''case'' hot)))))"

lemma extract_origin:
  "map_of (extract_authoritative_business_verdicts hot (Some ctx)) k = Some v \<Longrightarrow>
   (k, v) \<in> set (verdict_origins hot ctx)"
  unfolding extract_authoritative_business_verdicts_def Let_def option.case
  by (auto dest!: update_present_origin)

lemma has_verdict_kind_origin:
  assumes "has_verdict_kind (extract_authoritative_business_verdicts hot (Some ctx)) kind"
  shows "\<exists>(k, v)\<in>set (verdict_origins hot ctx). k \<in> set (key_aliases kind) \<and> verdict_ok v"
proof -
  let ?V = "extract_authoritative_business_verdicts hot (Some ctx)"
  obtain k where k: "k \<in> set (key_aliases kind)" "dhas k ?V" "verdict_ok (dget k ?V)"
    using assms by (auto simp: has_verdict_kind_def list_ex_iff)
  then obtain v where "map_of ?V k = Some v" "verdict_ok v" by (auto simp: dhas_def dget_def)
  with k(1) extract_origin show ?thesis by fastforce
qed

lemma offer_rule_in: "\<exists>rule\<in>set (load_policy_rules fromiso now). \<forall>act hot ctx.
    evaluate_rule rule act hot ctx = rule_no_offer_without_commercial_verdict act hot ctx"
  unfolding load_policy_rules_def evaluate_rule_def by simp

lemma authority_rules_in:
  "\<exists>rule\<in>set (load_policy_rules fromiso now). \<forall>act hot ctx.
    evaluate_rule rule act hot ctx = rule_no_technical_without_sizing_verdict act hot ctx"
  "\<exists>rule\<in>set (load_policy_rules fromiso now). \<forall>act hot ctx.
    evaluate_rule rule act hot ctx = rule_compliance_for_subsidy_send act hot ctx"
  unfolding load_policy_rules_def evaluate_rule_def by simp_all

lemma fired_at_least:
  assumes r: "policy_engine_evaluate (load_policy_rules fromiso now) act hot ctx = Inr r"
    and rule: "rule \<in> set (load_policy_rules fromiso now)" "evaluate_rule rule act hot ctx = Inr (Some e)"
  shows "pr_status r \<noteq> APPROVED \<and> ev_risk e \<le> effective_risk_class r"
proof
  have f: "(rule, e) \<in> set (firings act hot ctx (load_policy_rules fromiso now))" using rule by (simp add: in_firings)
  then show "pr_status r \<noteq> APPROVED" unfolding default_status_approved_iff [OF r] by auto
  show "ev_risk e \<le> effective_risk_class r"
    unfolding evaluate_report(3) [OF r] using f by (intro Max_ge) force+
qed

lemma fired_rejected_critical:
  assumes r: "policy_engine_evaluate rules act hot ctx = Inr r"
    and rule: "rule \<in> set rules" "evaluate_rule rule act hot ctx = Inr (Some e)"
    and e: "ev_outcome e = REJECTED" "ev_risk e = Critical"
  shows "pr_status r = REJECTED \<and> effective_risk_class r = Critical"
proof -
  let ?F = "firings act hot ctx rules"
  have f: "(rule, e) \<in> set ?F" using rule by (simp add: in_firings)
  then have "REJECTED \<in> set (map (\<lambda>f. ev_outcome (snd f)) ?F)" using e by force
  then have st: "pr_status r = REJECTED"
    unfolding evaluate_report(2) [OF r] combined_status_def by simp
  have "Critical \<in> set (map (\<lambda>f. ev_risk (snd f)) ?F)" using f e by force
  then have "Critical \<le> effective_risk_class r"
    unfolding evaluate_report(3) [OF r] by (intro Max_ge) auto
  then have "effective_risk_class r = Critical"
    by (cases "effective_risk_class r") (simp_all add: less_eq_policy_risk_def)
  with st show ?thesis by simp
qed

text \<open>
  Property C31.  No commercial, technical or compliance action without a verdict that says pass.  Under the default
  rules, an offer or commercial commitment, an action that requires technical authority and one that requires
  compliance content each run without a human only when the context, the snapshot's meta data or the
  case's meta data hold a blob under one of the names of its kind of verdict whose status is pass, approved, ok or
  authorized, or which is marked authorized.  Without such a verdict among the collected ones the report is not
  APPROVED and at least of high risk, and a live or externally sent offer is REJECTED at critical
  risk.  Who wrote the blob is not checked (\<open>inferred_verdict_authorizes\<close>).
\<close>

theorem sensitive_action_needs_passing_verdict:
  assumes "policy_engine_evaluate (engine_rules fromiso now []) act hot ctx = Inr r"
    and "kind = ''commercial_margin'' \<and> action_class act \<in> set OFFER_CLASSES \<or>
      kind = ''technical_sizing'' \<and> truthy (dget ''requires_technical_authority'' act) \<or>
      kind = ''compliance_checklist'' \<and> truthy (dget ''requires_compliance_content'' act)"
  shows "(policy_report_allows_autonomous_action (report_to_dict phrase r) \<longrightarrow>
           (\<exists>(k, v)\<in>set (verdict_origins hot ctx). k \<in> set (key_aliases kind) \<and> verdict_ok v)) \<and>
         (\<not> has_verdict_kind (extract_authoritative_business_verdicts hot (Some ctx)) kind \<longrightarrow>
            pr_status r \<noteq> APPROVED \<and> High \<le> effective_risk_class r \<and>
            (kind = ''commercial_margin'' \<and> (truthy (dget ''is_live'' act) \<or> truthy (dget ''external_send'' act)) \<longrightarrow>
               pr_status r = REJECTED \<and> effective_risk_class r = Critical))"
proof -
  let ?V = "extract_authoritative_business_verdicts hot (Some ctx)"
  let ?rules = "load_policy_rules fromiso now"
  have r: "policy_engine_evaluate ?rules act hot ctx = Inr r" using assms(1) by (simp add: engine_rules_def)
  have missing: "\<exists>rule \<in> set ?rules. \<exists>e. evaluate_rule rule act hot ctx = Inr (Some e) \<and> High \<le> ev_risk e \<and>
      (kind = ''commercial_margin'' \<and> (truthy (dget ''is_live'' act) \<or> truthy (dget ''external_send'' act)) \<longrightarrow>
         ev_outcome e = REJECTED \<and> ev_risk e = Critical)" if v: "\<not> has_verdict_kind ?V kind"
    using assms(2)
  proof (elim disjE conjE)
    assume k: "kind = ''commercial_margin''" "action_class act \<in> set OFFER_CLASSES"
    obtain rule where "rule \<in> set ?rules"
      "evaluate_rule rule act hot ctx = rule_no_offer_without_commercial_verdict act hot ctx"
      using offer_rule_in by blast
    with k v show ?thesis
      by (intro bexI [of _ rule]) (auto simp: rule_no_offer_without_commercial_verdict_def less_eq_policy_risk_def)
  next
    assume k: "kind = ''technical_sizing''" "truthy (dget ''requires_technical_authority'' act)"
    obtain rule where "rule \<in> set ?rules"
      "evaluate_rule rule act hot ctx = rule_no_technical_without_sizing_verdict act hot ctx"
      using authority_rules_in(1) by blast
    with k v show ?thesis
      by (intro bexI [of _ rule]) (auto simp: rule_no_technical_without_sizing_verdict_def)
  next
    assume k: "kind = ''compliance_checklist''" "truthy (dget ''requires_compliance_content'' act)"
    obtain rule where "rule \<in> set ?rules"
      "evaluate_rule rule act hot ctx = rule_compliance_for_subsidy_send act hot ctx"
      using authority_rules_in(2) by blast
    with k v show ?thesis
      by (intro bexI [of _ rule]) (auto simp: rule_compliance_for_subsidy_send_def)
  qed
  have "pr_status r \<noteq> APPROVED \<and> High \<le> effective_risk_class r \<and>
      (kind = ''commercial_margin'' \<and> (truthy (dget ''is_live'' act) \<or> truthy (dget ''external_send'' act)) \<longrightarrow>
         pr_status r = REJECTED \<and> effective_risk_class r = Critical)" if "\<not> has_verdict_kind ?V kind"
    using missing [OF that] fired_at_least [OF r] fired_rejected_critical [OF r] order_trans by meson
  moreover have "has_verdict_kind ?V kind" if "policy_report_allows_autonomous_action (report_to_dict phrase r)"
    using that calculation by (auto simp: allows_to_dict)
  ultimately show ?thesis using has_verdict_kind_origin by blast
qed

theorem sensitive_action_needs_passing_verdict_witness:
  "let act = [(''action_class'', PStr ''offer_send''), (''is_live'', PBool True)] in
   \<exists>r. policy_engine_evaluate (engine_rules (\<lambda>_. None) 0 []) act [] default_policy_context = Inr r \<and>
       pr_status r = REJECTED \<and> effective_risk_class r = Critical"
proof -
  define act where "act = [(''action_class'', PStr ''offer_send''), (''is_live'', PBool True)]"
  have offer: "action_class act \<in> set OFFER_CLASSES" unfolding act_def by code_simp
  have "\<not> has_verdict_kind (extract_authoritative_business_verdicts [] (Some default_policy_context))
      ''commercial_margin''" by code_simp
  moreover have "truthy (dget ''is_live'' act)" by (simp add: act_def)
  moreover obtain r where
    r: "policy_engine_evaluate (engine_rules (\<lambda>_. None) 0 []) act [] default_policy_context = Inr r"
  proof -
    have "\<not> isl (policy_engine_evaluate (engine_rules (\<lambda>_. None) 0 []) act [] default_policy_context)"
      unfolding act_def by code_simp
    then show ?thesis using that by (metis sum.collapse(2))
  qed
  ultimately show ?thesis
    using sensitive_action_needs_passing_verdict [OF r disjI1 [OF conjI [OF refl offer]]] r unfolding act_def by auto
qed

text \<open>The owner of a verdict is not looked at: one that the agent inferred itself lets a live offer run.\<close>

theorem inferred_verdict_authorizes:
  "case policy_engine_evaluate (load_policy_rules (\<lambda>_. None) 0)
      [(''action_class'', PStr ''offer_send''), (''is_live'', PBool True)]
      [(''snapshot_meta'', PDict [(''authoritative_verdicts'', PDict [(''margin'',
          PDict [(''source_system'', PStr ''gmail_agent_inferred''), (''status'', PStr ''ok'')])])])]
      default_policy_context of
     Inr r \<Rightarrow> ''NO_OFFER_RELATED_APPROVAL_WITHOUT_AUTHORIZED_BUSINESS_VERDICT'' \<notin> set (failed_rules r)
   | Inl _ \<Rightarrow> False"
  by code_simp

subsection \<open>The follow-up cool-down\<close>

primrec is_aware :: "timestamp \<Rightarrow> bool" where
  "is_aware (Naive s) = False"
| "is_aware (Aware s) = True"

text \<open>The timestamps of the timeline's follow-ups.\<close>

definition follow_up_times :: "(string \<Rightarrow> timestamp option) \<Rightarrow> string list \<Rightarrow> pydict list \<Rightarrow> timestamp list" where
  "follow_up_times fromiso types evs =
     List.map_filter (\<lambda>ev. if lower (text_of (dget ''event_type'' ev)) \<in> set types
       then parse_ts fromiso (text_of (dget ''occurred_at'' ev)) else None) evs"

definition later :: "timestamp option \<Rightarrow> timestamp \<Rightarrow> timestamp option" where
  "later acc t = (case acc of None \<Rightarrow> Some t | Some l \<Rightarrow> Some (if ts_sec l < ts_sec t then t else l))"

lemma later_simps [simp]:
  "later None t = Some t"
  "later (Some l) t = Some (if ts_sec l < ts_sec t then t else l)"
  by (simp_all add: later_def)

lemma ts_gt_same: "is_aware a = is_aware b \<Longrightarrow> ts_gt a b = Inr (ts_sec b < ts_sec a)"
  by (cases a; cases b) simp_all

lemma last_follow_up_uniform:
  assumes "\<forall>t\<in>set (follow_up_times fromiso types evs). is_aware t = z"
    and "\<forall>l. acc = Some l \<longrightarrow> is_aware l = z"
  shows "last_follow_up fromiso types acc evs = Inr (foldl later acc (follow_up_times fromiso types evs))"
  using assms
proof (induction evs arbitrary: acc)
  case Nil
  then show ?case by (simp add: follow_up_times_def List.map_filter_def)
next
  case (Cons ev evs)
  show ?case
  proof (cases "lower (text_of (dget ''event_type'' ev)) \<in> set types")
    case False
    then have "follow_up_times fromiso types (ev # evs) = follow_up_times fromiso types evs"
      by (simp add: follow_up_times_def List.map_filter_simps)
    with False Cons show ?thesis by simp
  next
    case hit: True
    show ?thesis
    proof (cases "parse_ts fromiso (text_of (dget ''occurred_at'' ev))")
      case None
      with hit have "follow_up_times fromiso types (ev # evs) = follow_up_times fromiso types evs"
        by (simp add: follow_up_times_def List.map_filter_simps)
      with hit None Cons show ?thesis by simp
    next
      case (Some t)
      with hit have ft: "follow_up_times fromiso types (ev # evs) = t # follow_up_times fromiso types evs"
        by (simp add: follow_up_times_def List.map_filter_simps)
      then have t: "is_aware t = z" using Cons.prems(1) by simp
      have rest: "\<forall>t\<in>set (follow_up_times fromiso types evs). is_aware t = z"
        using Cons.prems(1) ft by simp
      show ?thesis
      proof (cases acc)
        case None
        then show ?thesis using hit Some ft t Cons.IH [OF rest, of "Some t"] by simp
      next
        case (Some l)
        then have "ts_gt t l = Inr (ts_sec l < ts_sec t)" using t Cons.prems(2) by (intro ts_gt_same) simp
        moreover have "is_aware (if ts_sec l < ts_sec t then t else l) = z"
          using t Cons.prems(2) Some by simp
        ultimately show ?thesis
          using hit Some ft \<open>parse_ts fromiso (text_of (dget ''occurred_at'' ev)) = Some t\<close>
            Cons.IH [OF rest, of "Some (if ts_sec l < ts_sec t then t else l)"]
          by (simp del: if_split)
      qed
    qed
  qed
qed

lemma foldl_later:
  "foldl later (Some l) ts = Some m \<Longrightarrow> m \<in> set (l # ts) \<and> (\<forall>t\<in>set (l # ts). ts_sec t \<le> ts_sec m)"
proof (induction ts arbitrary: l)
  case (Cons t ts)
  let ?n = "if ts_sec l < ts_sec t then t else l"
  have "foldl later (Some ?n) ts = Some m" using Cons.prems by (simp del: if_split)
  from Cons.IH [OF this] show ?case by (auto split: if_splits)
qed simp

lemma foldl_later_Some: "\<exists>m. foldl later (Some l) ts = Some m"
  by (induction ts arbitrary: l) simp_all

text \<open>
  When the follow-ups of the timeline carry timestamps of one kind, all with a zone
  or all without, the cool-down rule never raises and rejects a follow-up exactly when some earlier
  one lies less than the cool-down back: the loop that keeps the latest timestamp is equivalent to a
  search of the whole timeline.
\<close>

theorem cooldown_is_search:
  assumes cls: "action_class act \<in> set [''FOLLOW_UP'', ''FOLLOW_UP_MESSAGE'']"
    and kind: "\<forall>t\<in>set (follow_up_times fromiso (map lower (follow_up_event_types ctx))
                         (dict_rows (event_timeline ctx))). is_aware t = z"
  shows "rule_no_repeat_follow_up_too_soon fromiso now act hot ctx =
     (if list_ex (\<lambda>t. now - ts_sec t < follow_up_cooldown_hours ctx * 3600)
           (follow_up_times fromiso (map lower (follow_up_event_types ctx))
             (dict_rows (event_timeline ctx)))
      then fire REJECTED Medium MsgCooldown ''NO_REPEAT_FOLLOWUP_TOO_SOON''
             [''Wait until '' @ float_str (follow_up_cooldown_hours ctx) @ ''h after last follow-up.'']
      else pass)"
proof -
  define ts where "ts = follow_up_times fromiso (map lower (follow_up_event_types ctx))
    (dict_rows (event_timeline ctx))"
  have loop: "last_follow_up fromiso (map lower (follow_up_event_types ctx)) None
      (dict_rows (event_timeline ctx)) = Inr (foldl later None ts)"
    unfolding ts_def using kind by (rule last_follow_up_uniform) simp
  have empty: "ts = []" if "event_timeline ctx = []"
    using that by (simp add: ts_def follow_up_times_def List.map_filter_def)
  show ?thesis
  proof (cases ts)
    case Nil
    then show ?thesis
      using cls loop unfolding rule_no_repeat_follow_up_too_soon_def ts_def [symmetric] by simp
  next
    case (Cons t us)
    obtain m where m: "foldl later (Some t) us = Some m" using foldl_later_Some by blast
    then have mx: "m \<in> set ts" "\<forall>u\<in>set ts. ts_sec u \<le> ts_sec m"
      using foldl_later [OF m] Cons by auto
    have "list_ex (\<lambda>t. now - ts_sec t < follow_up_cooldown_hours ctx * 3600) ts \<longleftrightarrow>
        now - ts_sec m < follow_up_cooldown_hours ctx * 3600"
      using mx by (force simp: list_ex_iff)
    moreover have "foldl later None ts = Some m" using m Cons by simp
    moreover have "event_timeline ctx \<noteq> []" using empty Cons by auto
    ultimately show ?thesis
      using cls loop unfolding rule_no_repeat_follow_up_too_soon_def ts_def [symmetric] by simp
  qed
qed

theorem cooldown_is_search_witness:
  "rule_no_repeat_follow_up_too_soon (\<lambda>s. Some (Aware 100)) 200 [(''action_class'', PStr ''follow_up'')] []
     (default_policy_context\<lparr>event_timeline :=
        [PDict [(''event_type'', PStr ''Follow_Up_Sent''), (''occurred_at'', PStr ''t'')]]\<rparr>) =
   fire REJECTED Medium MsgCooldown ''NO_REPEAT_FOLLOWUP_TOO_SOON''
     [''Wait until 72.0h after last follow-up.'']"
proof -
  let ?iso = "\<lambda>s::string. Some (Aware 100)"
  define act where "act = [(''action_class'', PStr ''follow_up'')]"
  define ctx where "ctx = default_policy_context\<lparr>event_timeline :=
    [PDict [(''event_type'', PStr ''Follow_Up_Sent''), (''occurred_at'', PStr ''t'')]]\<rparr>"
  have cls: "action_class act \<in> set [''FOLLOW_UP'', ''FOLLOW_UP_MESSAGE'']"
    unfolding act_def by code_simp
  have ft: "follow_up_times ?iso (map lower (follow_up_event_types ctx)) (dict_rows (event_timeline ctx)) =
      [Aware 100]" unfolding ctx_def by code_simp
  then have kind: "\<forall>t\<in>set (follow_up_times ?iso (map lower (follow_up_event_types ctx))
      (dict_rows (event_timeline ctx))). is_aware t = True" by simp
  have hours: "follow_up_cooldown_hours ctx = 72" by (simp add: ctx_def default_policy_context_def)
  have txt72: "''Wait until '' @ float_str 72 @ ''h after last follow-up.'' =
      ''Wait until 72.0h after last follow-up.''" by code_simp
  show ?thesis
    using cooldown_is_search [OF cls kind, of 200 "[]"] unfolding ft hours txt72
    unfolding act_def ctx_def by simp
qed

text \<open>
  A timeline whose first two follow-ups carry one timestamp with and one without a
  zone makes the whole evaluation raise: the rule compares them before it completes the zone.
\<close>

theorem mixed_timeline_raises:
  assumes "action_class act \<in> set [''FOLLOW_UP'', ''FOLLOW_UP_MESSAGE'']"
    and "event_timeline ctx = PDict e1 # PDict e2 # rest"
    and "lower (text_of (dget ''event_type'' e1)) \<in> set (map lower (follow_up_event_types ctx))"
    and "lower (text_of (dget ''event_type'' e2)) \<in> set (map lower (follow_up_event_types ctx))"
    and "parse_ts fromiso (text_of (dget ''occurred_at'' e1)) = Some (Aware a)"
    and "parse_ts fromiso (text_of (dget ''occurred_at'' e2)) = Some (Naive b)"
  shows "\<exists>err. policy_engine_evaluate (load_policy_rules fromiso now) act hot ctx = Inl err"
proof -
  let ?rule = "\<lparr>rule_id = ''NO_REPEAT_FOLLOWUP_TOO_SOON'', family = Operational,
    evaluate_fun = rule_no_repeat_follow_up_too_soon fromiso now\<rparr>"
  have "rule_no_repeat_follow_up_too_soon fromiso now act hot ctx = Inl CompareError"
    using assms by (simp add: rule_no_repeat_follow_up_too_soon_def)
  then have "raises act hot ctx ?rule" by (simp add: raises_def evaluate_rule_def)
  moreover have "?rule \<in> set (load_policy_rules fromiso now)" by (simp add: load_policy_rules_def)
  ultimately show ?thesis
    using evaluate_Inr_iff [of "load_policy_rules fromiso now" act hot ctx]
    by (cases "policy_engine_evaluate (load_policy_rules fromiso now) act hot ctx") auto
qed

theorem mixed_timeline_raises_witness:
  "let fromiso = (\<lambda>s. if s = ''2026-05-01T10:00:00+00:00'' then Some (Aware 0)
                  else if s = ''2026-05-02T10:00:00'' then Some (Naive 86400) else None);
       tl = [PDict [(''event_type'', PStr ''follow_up_sent''), (''occurred_at'', PStr ''2026-05-01T10:00:00Z'')],
             PDict [(''event_type'', PStr ''follow_up_sent''), (''occurred_at'', PStr ''2026-05-02T10:00:00'')]]
   in \<exists>err. policy_engine_evaluate (load_policy_rules fromiso 0)
        [(''action_class'', PStr ''FOLLOW_UP'')] [] (default_policy_context\<lparr>event_timeline := tl\<rparr>) = Inl err"
  unfolding Let_def
  by (rule mixed_timeline_raises [where a = 0 and b = 86400 and rest = "[]"]) (code_simp+)

end
