(* ===== verification/Policy_Gates.thy ===== *)
theory Policy_Gates
  imports Policy_Engine
begin

text \<open>
  The gates that consume a policy report: the formal policy decision (\<open>policy_decision.py\<close>), the
  automation flags (\<open>automation_gates.py\<close>) and the two push gates of the operator desk
  (\<open>daszek_push_policy.py\<close>).

  The reports and results are untyped dictionaries.  Iterating a value that is not iterable,
  converting a value that is not a number and reading a key of a value that is not a dictionary
  raise; the gates then have the value \<open>None\<close>.  The SHA-256 digest, the time stamp and the order in
  which Python enumerates the set of safe actions are arguments.
\<close>

subsection \<open>Policy decision\<close>

definition SAFE_P0_ACTIONS :: "string list" where
  "SAFE_P0_ACTIONS = [''prepare_reply_draft'', ''request_missing_info'', ''mark_attention_required'',
     ''ask_for_operator_adjudication'', ''no_action'']"

definition FORBIDDEN_EXTERNAL_ACTIONS :: "string list" where
  "FORBIDDEN_EXTERNAL_ACTIONS = [''send_email'', ''auto_send'', ''archive_gmail'', ''apply_gmail_label'',
     ''create_calendar_event'', ''calendar_live_write'', ''handoff_to_kalk_top'', ''create_offerdto'']"

definition policy_status_of :: "pydict \<Rightarrow> pydict \<Rightarrow> pydict \<Rightarrow> bool \<Rightarrow> string" where
  "policy_status_of report candidate link dry_run_only =
     (let rec_mode = norm_of (dget ''recommended_mode'' candidate);
          link_decision = lower (norm_of (dget ''decision'' link));
          link_status = lower (norm_of (dget ''case_link_status'' link));
          raw = upper (norm_of (dget ''status'' report))
      in if rec_mode = ''not_ready'' then ''insufficient_context''
         else if link_decision \<in> set [''pending_adjudication'', ''competing_links'', ''link_conflict''] \<or>
                 link_status = ''pending_or_conflict'' then ''requires_adjudication''
         else if raw = ''REJECTED'' then ''blocked''
         else if raw = ''NEEDS_HUMAN'' then ''needs_human''
         else if raw = ''APPROVED''
         then (if dry_run_only \<or> truthy (dget ''requires_review'' report)
               then ''allowed_with_review'' else ''allowed'')
         else ''needs_human'')"

definition allowed_actions :: "string \<Rightarrow> string list" where
  "allowed_actions status =
     (if status \<in> set [''allowed'', ''allowed_with_review'']
      then [''prepare_reply_draft'', ''request_missing_info'', ''mark_attention_required'']
      else if status = ''insufficient_context''
      then [''request_missing_info'', ''mark_attention_required'']
      else if status \<in> set [''needs_human'', ''requires_adjudication'']
      then [''ask_for_operator_adjudication'', ''mark_attention_required'']
      else if status = ''dry_run_only'' then [''mark_attention_required'', ''no_action'']
      else [''no_action''])"

definition risk_class_of :: "pyval \<Rightarrow> string" where
  "risk_class_of v =
     (let w = lower (strip (py_str (py_or v (PStr ''medium'')))) in
      if w = ''critical'' then ''high''
      else if w \<in> set [''low'', ''medium'', ''high''] then w else ''medium'')"

definition str_rows :: "nat \<Rightarrow> pyval list \<Rightarrow> pyval" where
  "str_rows n xs = PList (map (\<lambda>x. PStr (take n (py_str x))) xs)"

definition build_policy_decision :: "(string \<Rightarrow> string) \<Rightarrow> string \<Rightarrow> string list \<Rightarrow> pydict \<Rightarrow> string \<Rightarrow>
    pyval \<Rightarrow> pyval \<Rightarrow> bool \<Rightarrow> pydict option" where
  "build_policy_decision sha256hex created_at safe_iter report decision_candidate_id
     decision_candidate case_link_result dry_run_only =
     (let candidate = as_dict decision_candidate;
          link = as_dict case_link_result;
          cid = strip (py_str (py_or (PStr decision_candidate_id)
                  (py_or (dget ''decision_candidate_id'' candidate) (PStr []))));
          status = policy_status_of report candidate link dry_run_only;
          allowed = allowed_actions status;
          blocked = FORBIDDEN_EXTERNAL_ACTIONS @ filter (\<lambda>a. a \<notin> set allowed) safe_iter;
          requires_review = (truthy (dget ''requires_review'' report) \<or> status \<noteq> ''allowed'' \<or> dry_run_only);
          requires_human = (status \<in> set [''needs_human'', ''blocked'', ''insufficient_context'',
                              ''requires_adjudication'', ''dry_run_only''] \<or> dry_run_only)
      in Option.bind (iter_or_empty (dget ''failed_rules'' report)) (\<lambda>failed.
         Option.bind (iter_or_empty (dget ''policy_basis'' report)) (\<lambda>basis.
         Option.bind (iter_or_empty (dget ''warnings'' report)) (\<lambda>warns.
           let seed = PDict [(''candidate'', PStr cid), (''status'', PStr status),
                             (''failed_rules'', PList failed), (''basis'', PList basis)]
           in Some
             [(''schema_version'', PStr ''policy_decision.v1''),
              (''policy_decision_id'', PStr (''pdec_'' @ take 22 (sha256hex (py_repr seed)))),
              (''decision_candidate_id'', PStr cid),
              (''status'', PStr status),
              (''risk_class'', PStr (risk_class_of (dget ''effective_risk_class'' report))),
              (''allowed_actions'', PList (map PStr allowed)),
              (''blocked_actions'', PList (map PStr blocked)),
              (''requires_review'', PBool requires_review),
              (''requires_human_approval'', PBool requires_human),
              (''dry_run_only'', PBool dry_run_only),
              (''policy_basis'', str_rows 240 basis),
              (''failed_rules'', str_rows 160 failed),
              (''warnings'', str_rows 240 warns),
              (''policy_engine_version'', PStr ''policy_engine.v2_1''),
              (''created_at'', PStr created_at)]))))"

subsection \<open>Automation flags\<close>

text \<open>\<open>float (domains.get (k) or 0.0) >= float (thresholds.get (k, d))\<close>.\<close>

definition meets_threshold :: "pydict \<Rightarrow> pydict \<Rightarrow> string \<Rightarrow> rat \<Rightarrow> bool option" where
  "meets_threshold domains thresholds k d =
     Option.bind (py_float (py_or (dget k domains) (PFloat 0))) (\<lambda>c.
     Option.bind (py_float (case map_of thresholds k of None \<Rightarrow> PFloat d | Some v \<Rightarrow> v)) (\<lambda>t.
       Some (pf_le t c)))"

definition build_automation_policy :: "pydict \<Rightarrow> pydict \<Rightarrow> pydict \<Rightarrow> pydict \<Rightarrow> pydict option" where
  "build_automation_policy review_routing confidence_domains thresholds action_plan =
     (let mode = py_str (py_or (dget ''review_mode'' review_routing) (PStr ''auto_safe''));
          safe_for_push = truthy (dget ''safe_for_live_push'' action_plan);
          auto_safe = (mode = ''auto_safe'' \<and> \<not> truthy (dget ''review_required'' review_routing))
      in Option.bind (meets_threshold confidence_domains thresholds ''confidence_next_action'' (65 / 100))
           (\<lambda>next_ok.
         Option.bind (meets_threshold confidence_domains thresholds
                        ''confidence_attachment_extraction'' (1 / 2)) (\<lambda>attach_ok.
         Option.bind (meets_threshold confidence_domains thresholds
                        ''confidence_surface_decision'' (1 / 2)) (\<lambda>surface_ok.
           let reasons = (if \<not> auto_safe then [''review_mode:'' @ mode] else []) @
                         (if \<not> attach_ok then [''low_attachment_confidence''] else []) @
                         (if \<not> surface_ok then [''low_surface_confidence''] else []) @
                         (if \<not> next_ok then [''low_next_action_confidence''] else [])
           in Some
             [(''allow_automated_intake_record'', PBool auto_safe),
              (''allow_automated_desk_projection'', PBool (auto_safe \<and> surface_ok \<and> attach_ok)),
              (''allow_automated_v1_task_push'', PBool (auto_safe \<and> safe_for_push)),
              (''allow_automated_client_reply'', PBool False),
              (''allow_automated_supplier_touch'',
                 PBool (auto_safe \<and> next_ok \<and> mode \<in> set [''auto_safe'', ''suggest_only''])),
              (''allow_background_attachment_ocr'', PBool (attach_ok \<or> mode = ''suggest_only'')),
              (''primary_block_reason'', PStr (if reasons = [] then [] else hd reasons)),
              (''blocked_automation_reasons'', PList (map PStr reasons))]))))"

fun withdraw_flag :: "string \<times> pyval \<Rightarrow> string \<times> pyval" where
  "withdraw_flag (k, PBool b) = (k, PBool (if starts_with k ''allow_automated_'' then False else b))"
| "withdraw_flag kv = kv"

definition merge_policy_report_into_automation_policy :: "pydict \<Rightarrow> pydict \<Rightarrow> pydict option" where
  "merge_policy_report_into_automation_policy base_policy policy_report =
     (if policy_report = [] then Some base_policy
      else if norm_of (dget ''status'' policy_report) = ''APPROVED'' then Some base_policy
      else Option.bind (iter_or_empty (dget ''blocked_automation_reasons'' base_policy)) (\<lambda>reasons.
        let out1 = AList.update ''blocked_automation_reasons''
                     (PList (reasons @ [PStr ''policy_engine_not_approved''])) base_policy;
            out2 = AList.update ''primary_block_reason''
                     (py_or (dget ''primary_block_reason'' out1) (PStr ''policy_engine_not_approved'')) out1
        in Some (map withdraw_flag out2)))"

subsection \<open>Push gates of the operator desk\<close>

record push_policy_result =
  push_allowed :: bool
  push_policy_reason :: string
  push_policy_detail :: string

abbreviation push_result :: "bool \<Rightarrow> string \<Rightarrow> string \<Rightarrow> push_policy_result option" where
  "push_result a r d \<equiv> Some \<lparr>push_allowed = a, push_policy_reason = r, push_policy_detail = d\<rparr>"

definition evaluate_live_push_policy :: "string \<Rightarrow> pydict \<Rightarrow> pydict \<Rightarrow> pydict \<Rightarrow> pydict option \<Rightarrow>
    push_policy_result option" where
  "evaluate_live_push_policy surface manifest plan intake policy_report =
     (let st = (case policy_report of None \<Rightarrow> [] | Some p \<Rightarrow> norm_of (dget ''status'' p));
          risk = (case policy_report of None \<Rightarrow> PNone | Some p \<Rightarrow> dget ''effective_risk_class'' p);
          safe = truthy (dget ''safe_for_live_push'' plan);
          primary_action = text_of (dget ''primary_action'' plan);
          review_required = truthy (dget ''review_required'' intake)
      in if policy_report \<noteq> None \<and> st \<noteq> ''APPROVED''
         then push_result False ''blocked_policy_engine''
                (''PolicyEngine status='' @ repr_str st @ '' effective_risk_class='' @ py_repr risk
                 @ ''; live push not allowed.'')
         else if surface = ''v1_preview_tasks''
         then (if \<not> truthy (dget ''daszek_push_requested'' manifest)
               then push_result False ''skipped_v1_not_requested''
                      ''Run manifest has daszek_push_requested=false; no v1 /tasks live push.''
               else if review_required
               then push_result False ''blocked_review_required''
                      ''Intake review_required is set; v1 live mutations are blocked.''
               else if \<not> safe
               then push_result False ''blocked_not_safe_for_live_push''
                      (''safe_for_live_push is false (primary_action='' @ repr_str primary_action @ '').'')
               else push_result True ''allowed_safe_for_live_push''
                      (''primary_action='' @ repr_str primary_action @ '', safe_for_live_push=true.''))
         else None)"

definition POLICY_ENGINE_OPERATOR_PROJECTION_ALLOWED :: "string list" where
  "POLICY_ENGINE_OPERATOR_PROJECTION_ALLOWED = [''APPROVED'', ''NEEDS_HUMAN'']"

text \<open>\<open>(intake.get ("decision") or {}).get ("action")\<close>; a truthy value that is no dictionary raises.\<close>

definition intake_action :: "pydict \<Rightarrow> string option" where
  "intake_action intake =
     (case py_or (dget ''decision'' intake) (PDict []) of
        PDict d \<Rightarrow> Some (lower (norm_of (dget ''action'' d)))
      | _ \<Rightarrow> None)"

definition evaluate_operator_projection_policy :: "pydict \<Rightarrow> pydict \<Rightarrow> pydict \<Rightarrow> pydict option \<Rightarrow>
    push_policy_result option" where
  "evaluate_operator_projection_policy manifest plan intake policy_report =
     (let primary_action = text_of (dget ''primary_action'' plan);
          safe_projection = truthy (dget ''safe_for_operator_projection'' plan);
          st = (case policy_report of None \<Rightarrow> [] | Some p \<Rightarrow> upper (norm_of (dget ''status'' p)));
          risk = (case policy_report of None \<Rightarrow> PNone | Some p \<Rightarrow> dget ''effective_risk_class'' p)
      in if \<not> truthy (dget ''daszek_v2_push_enabled'' manifest)
         then push_result False ''skipped_v2_disabled''
                ''daszek_v2_push_enabled is false in manifest; no v2 ingest push.''
         else if policy_report \<noteq> None \<and> st = ''REJECTED''
         then (if truthy (dget ''daszek_v2_desk_relax_rejected'' manifest)
               then push_result True ''allowed_operator_projection_desk_relax_rejected''
                      (''PolicyEngine REJECTED relaxed for v2 ingest: operator desk is projection-only (not autonomous execution). effective_risk_class=''
                       @ py_repr risk @ ''.'')
               else push_result False ''blocked_policy_engine_rejected''
                      (''PolicyEngine status=REJECTED effective_risk_class='' @ py_repr risk
                       @ ''; operator projection blocked.''))
         else if policy_report \<noteq> None \<and> st \<noteq> [] \<and>
                 st \<notin> set POLICY_ENGINE_OPERATOR_PROJECTION_ALLOWED
         then push_result False ''blocked_policy_engine_status''
                (''PolicyEngine status='' @ repr_str st @ '' effective_risk_class='' @ py_repr risk
                 @ ''; operator projection blocked.'')
         else if \<not> safe_projection
         then (case intake_action intake of
                 None \<Rightarrow> None
               | Some ia \<Rightarrow>
                   (if truthy (dget ''daszek_v2_desk_include_ignore'' manifest) \<and>
                       (lower (strip primary_action) = ''ignore'' \<or> ia = ''ignore'')
                    then push_result True ''allowed_operator_projection_desk_include_ignore''
                           ''safe_for_operator_projection relaxed: desk_include_ignore enabled for ignore-classified mail.''
                    else push_result False ''blocked_not_safe_for_operator_projection''
                           (''safe_for_operator_projection is false (primary_action=''
                            @ repr_str primary_action @ '').'')))
         else push_result True ''allowed_operator_projection''
                (''primary_action='' @ repr_str primary_action @ '', safe_for_operator_projection=true.''))"

subsection \<open>Lemmas\<close>

lemma policy_status_cases:
  "policy_status_of report candidate link dry \<in> set [''insufficient_context'', ''requires_adjudication'',
     ''blocked'', ''needs_human'', ''allowed_with_review'', ''allowed'']"
  by (simp add: policy_status_of_def Let_def)

lemma policy_status_allowed_iff:
  "policy_status_of report candidate link dry = ''allowed'' \<longleftrightarrow>
     upper (norm_of (dget ''status'' report)) = ''APPROVED'' \<and>
     \<not> truthy (dget ''requires_review'' report) \<and> \<not> dry \<and>
     norm_of (dget ''recommended_mode'' candidate) \<noteq> ''not_ready'' \<and>
     lower (norm_of (dget ''decision'' link)) \<notin>
       set [''pending_adjudication'', ''competing_links'', ''link_conflict''] \<and>
     lower (norm_of (dget ''case_link_status'' link)) \<noteq> ''pending_or_conflict''"
  by (simp add: policy_status_of_def Let_def)

lemma human_free_status:
  "policy_status_of report candidate link dry \<notin> set [''needs_human'', ''blocked'',
     ''insufficient_context'', ''requires_adjudication'', ''dry_run_only''] \<Longrightarrow>
   upper (norm_of (dget ''status'' report)) = ''APPROVED''"
  unfolding policy_status_of_def Let_def by (simp split: if_splits)

lemma allowed_actions_safe:
  "set (allowed_actions status) \<subseteq> set SAFE_P0_ACTIONS"
  "set (allowed_actions status) \<inter> set FORBIDDEN_EXTERNAL_ACTIONS = {}"
  by (simp_all add: allowed_actions_def SAFE_P0_ACTIONS_def FORBIDDEN_EXTERNAL_ACTIONS_def)

lemma build_policy_decision_fields:
  assumes "build_policy_decision sha ca safe_iter report cid cand link dry = Some d"
  defines "st \<equiv> policy_status_of report (as_dict cand) (as_dict link) dry"
  shows "dget ''status'' d = PStr st"
    and "dget ''allowed_actions'' d = PList (map PStr (allowed_actions st))"
    and "dget ''blocked_actions'' d = PList (map PStr
           (FORBIDDEN_EXTERNAL_ACTIONS @ filter (\<lambda>a. a \<notin> set (allowed_actions st)) safe_iter))"
    and "dget ''requires_human_approval'' d = PBool (st \<in> set [''needs_human'', ''blocked'',
           ''insufficient_context'', ''requires_adjudication'', ''dry_run_only''] \<or> dry)"
    and "dget ''requires_review'' d = PBool (truthy (dget ''requires_review'' report) \<or> st \<noteq> ''allowed'' \<or> dry)"
  using assms(1) unfolding build_policy_decision_def st_def [symmetric] Let_def bind_eq_Some_conv
  by auto

text \<open>
  A policy decision offers only safe actions and never one with an external effect;
  what it offers and what it blocks together are exactly the safe and the forbidden actions, with
  nothing in both.  It goes without a human only for an approved report, and without review only if,
  besides, the report asks for none; a dry run has both.
\<close>

theorem policy_decision_gate:
  assumes d: "build_policy_decision sha ca safe_iter report cid cand link dry = Some d"
    and iter: "set safe_iter = set SAFE_P0_ACTIONS"
  shows "\<exists>allowed blocked.
     dget ''allowed_actions'' d = PList (map PStr allowed) \<and>
     dget ''blocked_actions'' d = PList (map PStr blocked) \<and>
     set allowed \<inter> set blocked = {} \<and>
     set allowed \<union> set blocked = set SAFE_P0_ACTIONS \<union> set FORBIDDEN_EXTERNAL_ACTIONS \<and>
     set FORBIDDEN_EXTERNAL_ACTIONS \<subseteq> set blocked \<and>
     (dget ''requires_human_approval'' d = PBool False \<longrightarrow>
        upper (norm_of (dget ''status'' report)) = ''APPROVED'' \<and> \<not> dry) \<and>
     (dget ''requires_review'' d = PBool False \<longrightarrow> \<not> truthy (dget ''requires_review'' report) \<and>
        upper (norm_of (dget ''status'' report)) = ''APPROVED'' \<and> \<not> dry)"
proof -
  define st where "st = policy_status_of report (as_dict cand) (as_dict link) dry"
  note f = build_policy_decision_fields [OF d, folded st_def]
  let ?al = "allowed_actions st"
  let ?bl = "FORBIDDEN_EXTERNAL_ACTIONS @ filter (\<lambda>a. a \<notin> set ?al) safe_iter"
  have "set ?al \<inter> set ?bl = {}" using allowed_actions_safe(2) [of st] by auto
  moreover have "set ?al \<union> set ?bl = set SAFE_P0_ACTIONS \<union> set FORBIDDEN_EXTERNAL_ACTIONS"
    using allowed_actions_safe(1) [of st] iter by auto
  moreover have "set FORBIDDEN_EXTERNAL_ACTIONS \<subseteq> set ?bl" by simp
  moreover have human: "upper (norm_of (dget ''status'' report)) = ''APPROVED'' \<and> \<not> dry"
    if "dget ''requires_human_approval'' d = PBool False"
  proof -
    from that have "st \<notin> set [''needs_human'', ''blocked'', ''insufficient_context'',
        ''requires_adjudication'', ''dry_run_only'']" "\<not> dry"
      unfolding f(4) by (simp_all only: pyval.inject simp_thms de_Morgan_disj)
    then show ?thesis unfolding st_def by (intro conjI human_free_status)
  qed
  moreover have "\<not> truthy (dget ''requires_review'' report) \<and>
      upper (norm_of (dget ''status'' report)) = ''APPROVED'' \<and> \<not> dry"
    if "dget ''requires_review'' d = PBool False"
    using that policy_status_allowed_iff [of report "as_dict cand" "as_dict link" dry]
    unfolding f(5) st_def by (simp only: pyval.inject simp_thms de_Morgan_disj)
  ultimately show ?thesis
    using f(2,3) by blast
qed

theorem policy_decision_gate_witness:
  "\<exists>d allowed blocked.
     build_policy_decision (\<lambda>_. []) [] SAFE_P0_ACTIONS [(''status'', PStr ''REJECTED'')] ''c1'' PNone PNone True
       = Some d \<and>
     dget ''allowed_actions'' d = PList (map PStr allowed) \<and>
     dget ''blocked_actions'' d = PList (map PStr blocked) \<and> set allowed \<inter> set blocked = {}"
proof -
  obtain d where d: "build_policy_decision (\<lambda>_. []) [] SAFE_P0_ACTIONS [(''status'', PStr ''REJECTED'')]
      ''c1'' PNone PNone True = Some d"
    by (simp add: build_policy_decision_def Let_def py_or_def)
  from policy_decision_gate [OF d] d show ?thesis by auto
qed

lemma withdraw_flag_fst [simp]: "fst (withdraw_flag kv) = fst kv"
  by (cases kv rule: withdraw_flag.cases) auto

lemma map_of_withdraw:
  "map_of (map withdraw_flag d) k = map_option (\<lambda>v. snd (withdraw_flag (k, v))) (map_of d k)"
proof (induction d)
  case (Cons kv d)
  obtain k' v where "kv = (k', v)" by (cases kv)
  then show ?case using Cons by (cases v) auto
qed simp

lemma withdraw_flag_snd:
  "starts_with k ''allow_automated_'' \<Longrightarrow> \<not> is_true (snd (withdraw_flag (k, v)))"
  "\<not> starts_with k ''allow_automated_'' \<Longrightarrow> snd (withdraw_flag (k, v)) = v"
  by (cases v; simp)+

lemma merge_not_approved:
  assumes "merge_policy_report_into_automation_policy base rep = Some out"
    and "rep \<noteq> []" and "norm_of (dget ''status'' rep) \<noteq> ''APPROVED''"
  obtains reasons out1 out2 where
    "out1 = AList.update ''blocked_automation_reasons'' (PList (reasons @ [PStr ''policy_engine_not_approved''])) base"
    "out2 = AList.update ''primary_block_reason''
       (py_or (dget ''primary_block_reason'' out1) (PStr ''policy_engine_not_approved'')) out1"
    "out = map withdraw_flag out2"
  using assms unfolding merge_policy_report_into_automation_policy_def
  by (auto simp: bind_eq_Some_conv Let_def)

lemma merge_flags_off:
  assumes "merge_policy_report_into_automation_policy base rep = Some out"
    and "rep \<noteq> []" and "norm_of (dget ''status'' rep) \<noteq> ''APPROVED''"
    and k: "starts_with k ''allow_automated_''"
  shows "\<not> is_true (dget k out)"
proof -
  obtain out2 where "out = map withdraw_flag out2" using merge_not_approved [OF assms(1-3)] by metis
  then show ?thesis
    using k by (cases "map_of out2 k") (simp_all add: dget_def map_of_withdraw withdraw_flag_snd)
qed

text \<open>
  Merging a report that does not approve leaves no automation flag on, states a
  reason, and changes no other entry of the automation policy; merging an approving report changes
  nothing.
\<close>

theorem merge_withdraws_automation:
  assumes m: "merge_policy_report_into_automation_policy base rep = Some out"
  shows "(norm_of (dget ''status'' rep) = ''APPROVED'' \<longrightarrow> out = base) \<and>
    (rep \<noteq> [] \<and> norm_of (dget ''status'' rep) \<noteq> ''APPROVED'' \<longrightarrow>
       (\<forall>k. starts_with k ''allow_automated_'' \<longrightarrow> \<not> is_true (dget k out)) \<and>
       truthy (dget ''primary_block_reason'' out) \<and>
       PStr ''policy_engine_not_approved'' \<in> set (list_items (dget ''blocked_automation_reasons'' out)) \<and>
       (\<forall>k. \<not> starts_with k ''allow_automated_'' \<and>
            k \<notin> {''blocked_automation_reasons'', ''primary_block_reason''} \<longrightarrow> dget k out = dget k base))"
proof (intro conjI impI)
  show "out = base" if "norm_of (dget ''status'' rep) = ''APPROVED''"
    using m that by (simp add: merge_policy_report_into_automation_policy_def split: if_splits)
next
  assume "rep \<noteq> [] \<and> norm_of (dget ''status'' rep) \<noteq> ''APPROVED''"
  then have "rep \<noteq> []" "norm_of (dget ''status'' rep) \<noteq> ''APPROVED''" by auto
  from merge_not_approved [OF m this] obtain reasons out1 out2 where
    o1: "out1 = AList.update ''blocked_automation_reasons''
           (PList (reasons @ [PStr ''policy_engine_not_approved''])) base" and
    o2: "out2 = AList.update ''primary_block_reason''
           (py_or (dget ''primary_block_reason'' out1) (PStr ''policy_engine_not_approved'')) out1" and
    out: "out = map withdraw_flag out2" by metis
  have g: "dget k out = (if starts_with k ''allow_automated_'' \<and> map_of out2 k \<noteq> None
      then snd (withdraw_flag (k, dget k out2)) else dget k out2)" for k
    unfolding out dget_def map_of_withdraw by (auto simp: withdraw_flag_snd split: option.split)
  show "truthy (dget ''primary_block_reason'' out)"
    by (simp add: g o2 py_or_def)
  show "PStr ''policy_engine_not_approved'' \<in> set (list_items (dget ''blocked_automation_reasons'' out))"
    by (simp add: g o2 o1)
  show "\<forall>k. \<not> starts_with k ''allow_automated_'' \<and>
      k \<notin> {''blocked_automation_reasons'', ''primary_block_reason''} \<longrightarrow> dget k out = dget k base"
    by (auto simp: g o2 o1)
  show "\<forall>k. starts_with k ''allow_automated_'' \<longrightarrow> \<not> is_true (dget k out)"
    using merge_flags_off [OF m \<open>rep \<noteq> []\<close> \<open>norm_of (dget ''status'' rep) \<noteq> ''APPROVED''\<close>] by blast
qed

theorem merge_withdraws_automation_witness:
  "let base = [(''allow_automated_intake_record'', PBool True), (''allow_background_attachment_ocr'', PBool True)];
       rep = [(''status'', PStr ''NEEDS_HUMAN'')];
       out = the (merge_policy_report_into_automation_policy base rep)
   in merge_policy_report_into_automation_policy base rep = Some out \<and>
      \<not> is_true (dget ''allow_automated_intake_record'' out) \<and>
      dget ''allow_background_attachment_ocr'' out = PBool True"
proof -
  define base where "base = [(''allow_automated_intake_record'', PBool True),
    (''allow_background_attachment_ocr'', PBool True)]"
  define rep where "rep = [(''status'', PStr ''NEEDS_HUMAN'')]"
  have st: "norm_of (dget ''status'' rep) \<noteq> ''APPROVED''" unfolding rep_def by code_simp
  have "merge_policy_report_into_automation_policy base rep \<noteq> None" unfolding base_def rep_def by code_simp
  then have m: "merge_policy_report_into_automation_policy base rep =
      Some (the (merge_policy_report_into_automation_policy base rep))" by auto
  have "dget ''allow_background_attachment_ocr'' base = PBool True" by (simp add: base_def)
  with merge_withdraws_automation [OF m] st m show ?thesis
    unfolding base_def [symmetric] rep_def [symmetric] Let_def by (simp add: rep_def)
qed

text \<open>
  A live push to the operator desk happens exactly when the run asked for it, the
  intake needs no review, the plan is marked safe and, where a policy report exists, it approves.
\<close>

theorem live_push_iff:
  "evaluate_live_push_policy ''v1_preview_tasks'' manifest plan intake rep \<noteq> None \<and>
   (push_allowed (the (evaluate_live_push_policy ''v1_preview_tasks'' manifest plan intake rep)) \<longleftrightarrow>
     truthy (dget ''daszek_push_requested'' manifest) \<and> \<not> truthy (dget ''review_required'' intake) \<and>
     truthy (dget ''safe_for_live_push'' plan) \<and>
     (case rep of None \<Rightarrow> True | Some p \<Rightarrow> norm_of (dget ''status'' p) = ''APPROVED''))"
  by (cases rep) (simp_all add: evaluate_live_push_policy_def Let_def)

text \<open>
  The projection gate is open for a rejected report when the manifest relaxes it,
  whatever the plan says, and a report that has no status is treated like no report at all.
\<close>

theorem projection_gate_gaps:
  "push_allowed (the (evaluate_operator_projection_policy
      [(''daszek_v2_push_enabled'', PBool True), (''daszek_v2_desk_relax_rejected'', PBool True)]
      [(''safe_for_operator_projection'', PBool False)] intake (Some [(''status'', PStr ''REJECTED'')]))) \<and>
   evaluate_operator_projection_policy manifest plan intake (Some []) =
   evaluate_operator_projection_policy manifest plan intake None"
proof -
  have "upper (norm_of (PStr ''REJECTED'')) = ''REJECTED''" by code_simp
  then show ?thesis
    unfolding evaluate_operator_projection_policy_def Let_def by (simp add: upper_def)
qed

subsection \<open>A report of the engine at the gates\<close>

lemma report_status_text:
  "norm_of (dget ''status'' (report_to_dict phrase r)) = status_value (pr_status r)"
  "upper (norm_of (dget ''status'' (report_to_dict phrase r))) = status_value (pr_status r)"
proof -
  have st: "dget ''status'' (report_to_dict phrase r) = PStr (status_value (pr_status r))"
    by (simp add: report_to_dict_def)
  show "norm_of (dget ''status'' (report_to_dict phrase r)) = status_value (pr_status r)"
    unfolding st by (cases "pr_status r"; simp only: status_value.simps) (code_simp+)
  show "upper (norm_of (dget ''status'' (report_to_dict phrase r))) = status_value (pr_status r)"
    unfolding st by (cases "pr_status r"; simp only: status_value.simps) (code_simp+)
qed

lemma status_value_APPROVED: "status_value s = ''APPROVED'' \<longleftrightarrow> s = APPROVED"
  by (cases s) simp_all

lemma fired_not_approved:
  assumes r: "policy_engine_evaluate (engine_rules fromiso now []) act hot ctx = Inr r"
    and fired: "failed_rules r \<noteq> []"
  shows "pr_status r \<noteq> APPROVED"
proof -
  have r': "policy_engine_evaluate (load_policy_rules fromiso now) act hot ctx = Inr r"
    using r by (simp add: engine_rules_def)
  have "firings act hot ctx (load_policy_rules fromiso now) \<noteq> []"
    using fired unfolding evaluate_report(1) [OF r'] by simp
  with default_status_approved_iff [OF r'] show ?thesis by simp
qed

text \<open>
  Property C14.  Once any default rule fires, every gate downstream closes: no live push, no
  automation flag left on after the merge, and a policy decision that requires a human.
\<close>

theorem fired_rule_closes_the_gates:
  assumes r: "policy_engine_evaluate (engine_rules fromiso now []) act hot ctx = Inr r"
    and fired: "failed_rules r \<noteq> []"
  shows "\<not> push_allowed (the (evaluate_live_push_policy ''v1_preview_tasks'' manifest plan intake
             (Some (report_to_dict phrase r)))) \<and>
     (\<forall>out k. merge_policy_report_into_automation_policy base (report_to_dict phrase r) = Some out \<and>
        starts_with k ''allow_automated_'' \<longrightarrow> \<not> is_true (dget k out)) \<and>
     (\<forall>d. build_policy_decision sha ca safe_iter (report_to_dict phrase r) cid cand link dry = Some d \<longrightarrow>
        dget ''requires_human_approval'' d = PBool True)"
proof -
  have na: "norm_of (dget ''status'' (report_to_dict phrase r)) \<noteq> ''APPROVED''"
    "upper (norm_of (dget ''status'' (report_to_dict phrase r))) \<noteq> ''APPROVED''"
    unfolding report_status_text(2) unfolding report_status_text(1) status_value_APPROVED
    using fired_not_approved [OF r fired] by blast+
  have ne: "report_to_dict phrase r \<noteq> []" by (simp add: report_to_dict_def)
  have push: "\<not> push_allowed (the (evaluate_live_push_policy ''v1_preview_tasks'' manifest plan intake
      (Some (report_to_dict phrase r))))"
    using na(1) by (simp add: evaluate_live_push_policy_def Let_def)
  have flag: "\<not> is_true (dget k out)"
    if m: "merge_policy_report_into_automation_policy base (report_to_dict phrase r) = Some out"
      and k: "starts_with k ''allow_automated_''" for out k
    using merge_flags_off [OF m ne na(1) k] .
  have human: "dget ''requires_human_approval'' d = PBool True"
    if d: "build_policy_decision sha ca safe_iter (report_to_dict phrase r) cid cand link dry = Some d" for d
    using human_free_status [of "report_to_dict phrase r" "as_dict cand" "as_dict link" dry] na(2)
    unfolding build_policy_decision_fields(4) [OF d] by blast
  from push flag human show ?thesis by blast
qed

theorem fired_rule_closes_the_gates_witness:
  "let act = [(''action_class'', PStr ''offer_send'')] in
   \<exists>r. policy_engine_evaluate (engine_rules (\<lambda>_. None) 0 []) act [] default_policy_context = Inr r \<and>
     failed_rules r \<noteq> [] \<and>
     \<not> push_allowed (the (evaluate_live_push_policy ''v1_preview_tasks''
         [(''daszek_push_requested'', PBool True)] [(''safe_for_live_push'', PBool True)] []
         (Some (report_to_dict (\<lambda>_. []) r))))"
proof -
  define act where "act = [(''action_class'', PStr ''offer_send'')]"
  let ?E = "policy_engine_evaluate (engine_rules (\<lambda>_. None) 0 []) act [] default_policy_context"
  have "case ?E of Inl _ \<Rightarrow> False | Inr r \<Rightarrow> failed_rules r \<noteq> []" unfolding act_def by code_simp
  then obtain r where r: "?E = Inr r" and f: "failed_rules r \<noteq> []" by (auto split: sum.splits)
  from fired_rule_closes_the_gates [OF r f] r f show ?thesis unfolding act_def Let_def by blast
qed

end
