(* ===== verification/Action_Proposals.thy ===== *)
theory Action_Proposals
  imports Policy_Gates
begin

text \<open>
  The proposals derived from a policy decision and the guard in front of their execution:
  \<open>action_proposal_v2.py\<close>.

  Candidates, decisions and proposals are untyped dictionaries; \<open>list\<close> of a truthy value that cannot
  be iterated raises, and the builders then have the value \<open>None\<close>.  Digest and time stamp are
  arguments.
\<close>

subsection \<open>Definitions\<close>

definition P0_SAFE_ACTION_TYPES :: "string list" where
  "P0_SAFE_ACTION_TYPES = [''prepare_reply_draft'', ''request_missing_info'', ''mark_attention_required'',
     ''ask_for_operator_adjudication'', ''no_action'']"

definition PRIMARY_ACTION_DEPRECATED_ALIASES :: "(string \<times> string) list" where
  "PRIMARY_ACTION_DEPRECATED_ALIASES = [(''reply'', ''prepare_reply''), (''collect_data'', ''prepare_reply'')]"

abbreviation v2_schema :: string where
  "v2_schema \<equiv> ''action_proposal.v2''"

definition normalize_planner_primary_for_v2 :: "string \<Rightarrow> string" where
  "normalize_planner_primary_for_v2 primary_action_type =
     (let p = strip primary_action_type in
      case map_of PRIMARY_ACTION_DEPRECATED_ALIASES p of Some q \<Rightarrow> q | None \<Rightarrow> p)"

definition v2_reply_intent_tokens :: "string \<Rightarrow> pydict \<Rightarrow> string \<times> string" where
  "v2_reply_intent_tokens planner_primary decision_candidate =
     (normalize_planner_primary_for_v2 planner_primary,
      norm_of (case dget ''next_best_action'' decision_candidate of
          PDict d \<Rightarrow> (case dget ''action_type'' d of PStr s \<Rightarrow> PStr s | _ \<Rightarrow> PStr [])
        | v \<Rightarrow> v))"

definition action_proposal_v2_correlation_ids_present :: "pydict \<Rightarrow> bool" where
  "action_proposal_v2_correlation_ids_present raw \<longleftrightarrow>
     text_of (dget ''schema_version'' raw) \<noteq> v2_schema \<or>
     (norm_of (dget ''decision_candidate_id'' raw) \<noteq> [] \<and> norm_of (dget ''policy_decision_id'' raw) \<noteq> [])"

definition action_proposal_v2_policy_cleared_envelope :: "pydict \<Rightarrow> bool" where
  "action_proposal_v2_policy_cleared_envelope raw \<longleftrightarrow>
     text_of (dget ''schema_version'' raw) = v2_schema \<and>
     action_proposal_v2_correlation_ids_present raw \<and> truthy (dget ''allowed_by_policy'' raw)"

text \<open>The choice of the action, from the status and the actions the decision allows.\<close>

definition choose_action_type :: "string \<Rightarrow> pyval list \<Rightarrow> bool \<Rightarrow> bool \<Rightarrow> string" where
  "choose_action_type status allowed wants_prepare wants_request_info =
     (let has = (\<lambda>a. PStr a \<in> set allowed);
          action_type =
            (if status = ''requires_adjudication'' then ''ask_for_operator_adjudication''
             else if status \<in> set [''needs_human'', ''blocked'']
             then (if has ''ask_for_operator_adjudication'' then ''ask_for_operator_adjudication'' else ''no_action'')
             else if status = ''insufficient_context''
             then (if has ''request_missing_info'' then ''request_missing_info'' else ''mark_attention_required'')
             else if has ''prepare_reply_draft'' \<and> wants_prepare then ''prepare_reply_draft''
             else if has ''request_missing_info'' \<and> wants_request_info then ''request_missing_info''
             else if has ''mark_attention_required'' then ''mark_attention_required''
             else ''no_action'')
      in if action_type \<notin> set P0_SAFE_ACTION_TYPES then ''no_action'' else action_type)"

definition build_action_proposals_v2 :: "(string \<Rightarrow> string) \<Rightarrow> string \<Rightarrow> pydict \<Rightarrow> pydict \<Rightarrow> string \<Rightarrow> bool \<Rightarrow>
    pydict list option" where
  "build_action_proposals_v2 sha256hex created_at decision_candidate policy_decision primary_action_type dry_run_only =
     (let cid = norm_of (dget ''decision_candidate_id'' decision_candidate);
          pid = norm_of (dget ''policy_decision_id'' policy_decision);
          status = py_str (py_or (dget ''status'' policy_decision) (PStr ''needs_human''));
          (p_norm, nba_code) = v2_reply_intent_tokens primary_action_type decision_candidate;
          wants_prepare = (p_norm \<in> set [''prepare_reply'', ''answer_customer'', ''wait''] \<or>
            nba_code \<in> set [''answer_customer'', ''wait'', ''prepare_reply'']);
          wants_request_info = (p_norm \<in> set [''request_missing_info'', ''hold''] \<or>
            nba_code = ''ask_for_missing_data'')
      in if cid = [] \<or> pid = [] then Some []
         else Option.bind (iter_or_empty (dget ''allowed_actions'' policy_decision)) (\<lambda>allowed.
              let action_type = choose_action_type status allowed wants_prepare wants_request_info;
                  allowed_by = (status \<in> set [''allowed'', ''allowed_with_review''] \<and> PStr action_type \<in> set allowed)
              in Option.bind (iter_or_empty (dget ''evidence_refs'' decision_candidate)) (\<lambda>refs.
                Some [[(''schema_version'', PStr v2_schema),
                  (''proposal_id'', PStr (''apv2_'' @ take 22 (sha256hex (cid @ ''|'' @ action_type)))),
                  (''decision_candidate_id'', PStr cid),
                  (''policy_decision_id'', PStr pid),
                  (''case_id'', PStr (text_of (dget ''case_id'' decision_candidate))),
                  (''action_type'', PStr action_type),
                  (''action_mode'', PStr (if dry_run_only then ''dry_run'' else ''preview'')),
                  (''summary'', PStr ''Review-first proposal from policy envelope.''),
                  (''recommended_action'',
                     PStr (py_str (py_or (dget ''next_best_action'' decision_candidate) (PStr action_type)))),
                  (''draft_payload'', PDict []),
                  (''risk_class'', PStr (py_str (py_or (dget ''risk_class'' policy_decision) (PStr ''medium'')))),
                  (''requires_operator_approval'', PBool True),
                  (''allowed_by_policy'', PBool allowed_by),
                  (''blocked_reason'', PStr (if allowed_by then [] else ''policy_status_or_action_not_allowed'')),
                  (''evidence_refs'', PList (take 16 refs)),
                  (''expires_at'', PStr []),
                  (''status'', PStr ''proposed''),
                  (''operator_decision'', PStr []),
                  (''execution_result_ref'', PStr []),
                  (''created_at'', PStr created_at)]])))"

definition build_policy_gated_action_proposals_v2_bundle :: "(string \<Rightarrow> string) \<Rightarrow> string \<Rightarrow> pydict \<Rightarrow> pydict \<Rightarrow>
    string \<Rightarrow> bool \<Rightarrow> pydict option" where
  "build_policy_gated_action_proposals_v2_bundle sha256hex created_at cand pd planner_primary_action dry_run_only =
     (let cid = norm_of (dget ''decision_candidate_id'' cand);
          pid = norm_of (dget ''policy_decision_id'' pd);
          policy_spine_ok = (cid \<noteq> [] \<and> pid \<noteq> []);
          primary_norm = normalize_planner_primary_for_v2 planner_primary_action
      in map_option (\<lambda>proposals.
           [(''schema_version'', PStr ''policy_gated_action_proposals_v2.bundle.v1''),
            (''decision_candidate_id'', PStr cid),
            (''policy_decision_id'', PStr pid),
            (''policy_spine_ok'', PBool policy_spine_ok),
            (''v2_proposals_built'', PBool (proposals \<noteq> [])),
            (''planner_primary_normalized'', PStr primary_norm),
            (''action_proposals_v2'', PList (map PDict proposals)),
            (''bundle_diagnostics'',
               PStr (if \<not> policy_spine_ok
                     then ''missing_spine:'' @ join '','' ((if cid = [] then [''decision_candidate_id''] else []) @
                            (if pid = [] then [''policy_decision_id''] else []))
                     else if proposals = [] then ''empty_proposals_after_spine'' else []))])
         (build_action_proposals_v2 sha256hex created_at cand pd primary_norm dry_run_only))"

definition assert_action_proposal_v2_execution_allowed :: "pydict \<Rightarrow> bool \<Rightarrow> bool \<times> string" where
  "assert_action_proposal_v2_execution_allowed raw dry_run_only =
     (if text_of (dget ''schema_version'' raw) \<noteq> v2_schema then (True, [])
      else if norm_of (dget ''policy_decision_id'' raw) = [] then (False, ''policy_decision_id_required'')
      else if norm_of (dget ''decision_candidate_id'' raw) = [] then (False, ''decision_candidate_id_required'')
      else if \<not> truthy (dget ''allowed_by_policy'' raw) then (False, ''not_allowed_by_policy'')
      else if dry_run_only \<and> py_str (py_or (dget ''action_mode'' raw) (PStr ''preview'')) = ''approved_live''
      then (False, ''dry_run_only'')
      else (True, []))"

subsection \<open>Lemmas\<close>

lemma choose_action_safe: "choose_action_type status allowed wp wr \<in> set P0_SAFE_ACTION_TYPES"
proof -
  have "''no_action'' \<in> set P0_SAFE_ACTION_TYPES" by (simp add: P0_SAFE_ACTION_TYPES_def)
  then show ?thesis unfolding choose_action_type_def Let_def by (auto simp del: set_simps)
qed

lemma proposal_fields:
  assumes "build_action_proposals_v2 sha ca cand pd primary dry = Some ps" and "p \<in> set ps"
  defines "st \<equiv> py_str (py_or (dget ''status'' pd) (PStr ''needs_human''))"
  shows "ps = [p]"
    and "dget ''schema_version'' p = PStr v2_schema"
    and "dget ''decision_candidate_id'' p = PStr (norm_of (dget ''decision_candidate_id'' cand))"
    and "dget ''policy_decision_id'' p = PStr (norm_of (dget ''policy_decision_id'' pd))"
    and "norm_of (dget ''decision_candidate_id'' cand) \<noteq> []" and "norm_of (dget ''policy_decision_id'' pd) \<noteq> []"
    and "dget ''requires_operator_approval'' p = PBool True"
    and "dget ''action_mode'' p = PStr (if dry then ''dry_run'' else ''preview'')"
    and "\<exists>allowed a. iter_or_empty (dget ''allowed_actions'' pd) = Some allowed \<and>
           a \<in> set P0_SAFE_ACTION_TYPES \<and> dget ''action_type'' p = PStr a \<and>
           dget ''allowed_by_policy'' p = PBool (st \<in> set [''allowed'', ''allowed_with_review''] \<and> PStr a \<in> set allowed)"
proof -
  obtain pn nba where t: "v2_reply_intent_tokens primary cand = (pn, nba)" by fastforce
  note eq = assms(1) [unfolded build_action_proposals_v2_def Let_def t prod.case st_def [symmetric]]
  have ids: "\<not> (norm_of (dget ''decision_candidate_id'' cand) = [] \<or> norm_of (dget ''policy_decision_id'' pd) = [])"
    using eq assms(2) by (auto split: if_splits)
  then show "norm_of (dget ''decision_candidate_id'' cand) \<noteq> []" "norm_of (dget ''policy_decision_id'' pd) \<noteq> []"
    by auto
  note eq = eq [unfolded if_not_P [OF ids] bind_eq_Some_conv]
  from eq obtain allowed where al: "iter_or_empty (dget ''allowed_actions'' pd) = Some allowed" by blast
  show "ps = [p]" "dget ''schema_version'' p = PStr v2_schema"
    "dget ''decision_candidate_id'' p = PStr (norm_of (dget ''decision_candidate_id'' cand))"
    "dget ''policy_decision_id'' p = PStr (norm_of (dget ''policy_decision_id'' pd))"
    "dget ''requires_operator_approval'' p = PBool True"
    "dget ''action_mode'' p = PStr (if dry then ''dry_run'' else ''preview'')"
    using eq assms(2) by auto
  show "\<exists>allowed a. iter_or_empty (dget ''allowed_actions'' pd) = Some allowed \<and>
      a \<in> set P0_SAFE_ACTION_TYPES \<and> dget ''action_type'' p = PStr a \<and>
      dget ''allowed_by_policy'' p = PBool (st \<in> set [''allowed'', ''allowed_with_review''] \<and> PStr a \<in> set allowed)"
    using eq assms(2) al choose_action_safe by auto
qed

lemma guard_built:
  assumes "build_action_proposals_v2 sha ca cand pd primary dry = Some ps" and "p \<in> set ps"
  shows "fst (assert_action_proposal_v2_execution_allowed p dry') \<longleftrightarrow> truthy (dget ''allowed_by_policy'' p)"
    and "action_proposal_v2_policy_cleared_envelope p \<longleftrightarrow> truthy (dget ''allowed_by_policy'' p)"
proof -
  note f = proposal_fields [OF assms]
  have mode: "py_str (py_or (dget ''action_mode'' p) (PStr ''preview'')) \<noteq> ''approved_live''"
    unfolding f(8) by (simp add: py_or_def)
  show "fst (assert_action_proposal_v2_execution_allowed p dry') \<longleftrightarrow> truthy (dget ''allowed_by_policy'' p)"
    using f(5,6) mode unfolding assert_action_proposal_v2_execution_allowed_def f(2-4)
    by (simp del: dget_Cons)
  show "action_proposal_v2_policy_cleared_envelope p \<longleftrightarrow> truthy (dget ''allowed_by_policy'' p)"
    using f(5,6) unfolding action_proposal_v2_policy_cleared_envelope_def
      action_proposal_v2_correlation_ids_present_def f(2-4) by simp
qed

text \<open>
  A proposal is at most one, always asks for the operator, proposes a safe action and
  never a live mode; the execution guard passes it exactly when the envelope is cleared, and then the
  policy decision's status allows it and its action is one the decision allows.
\<close>

theorem proposal_review_first:
  assumes b: "build_action_proposals_v2 sha ca cand pd primary dry = Some ps" and p: "p \<in> set ps"
  shows "ps = [p] \<and> dget ''requires_operator_approval'' p = PBool True \<and>
     dget ''action_mode'' p \<noteq> PStr ''approved_live'' \<and>
     (\<exists>a\<in>set P0_SAFE_ACTION_TYPES. dget ''action_type'' p = PStr a) \<and>
     (fst (assert_action_proposal_v2_execution_allowed p dry') \<longleftrightarrow> action_proposal_v2_policy_cleared_envelope p) \<and>
     (action_proposal_v2_policy_cleared_envelope p \<longrightarrow>
        py_str (py_or (dget ''status'' pd) (PStr ''needs_human'')) \<in> set [''allowed'', ''allowed_with_review''] \<and>
        (\<exists>allowed. iter_or_empty (dget ''allowed_actions'' pd) = Some allowed \<and>
           dget ''action_type'' p \<in> set allowed))"
proof -
  note f = proposal_fields [OF b p]
  obtain allowed a where a: "iter_or_empty (dget ''allowed_actions'' pd) = Some allowed"
    "a \<in> set P0_SAFE_ACTION_TYPES" "dget ''action_type'' p = PStr a"
    "dget ''allowed_by_policy'' p = PBool (py_str (py_or (dget ''status'' pd) (PStr ''needs_human''))
       \<in> set [''allowed'', ''allowed_with_review''] \<and> PStr a \<in> set allowed)"
    using f(9) by blast
  have mode: "dget ''action_mode'' p \<noteq> PStr ''approved_live''" unfolding f(8) by simp
  have clear: "py_str (py_or (dget ''status'' pd) (PStr ''needs_human'')) \<in> set [''allowed'', ''allowed_with_review''] \<and>
      (\<exists>allowed. iter_or_empty (dget ''allowed_actions'' pd) = Some allowed \<and> dget ''action_type'' p \<in> set allowed)"
    if "action_proposal_v2_policy_cleared_envelope p"
  proof -
    note c = that [unfolded guard_built(2) [OF b p] a(4) truthy.simps]
    show ?thesis using conjunct1 [OF c] conjunct2 [OF c] a(1) unfolding a(3) by (intro conjI exI)
  qed
  have "\<exists>a\<in>set P0_SAFE_ACTION_TYPES. dget ''action_type'' p = PStr a" using a(2,3) by blast
  moreover have "fst (assert_action_proposal_v2_execution_allowed p dry') \<longleftrightarrow>
      action_proposal_v2_policy_cleared_envelope p"
    using guard_built [OF b p] by blast
  ultimately show ?thesis using f(1,7) mode impI [OF clear] by (intro conjI)
qed

definition sample_decision :: pydict where
  "sample_decision = [(''policy_decision_id'', PStr ''pdec_1''), (''status'', PStr ''allowed_with_review''),
     (''allowed_actions'', PList [PStr ''prepare_reply_draft'', PStr ''mark_attention_required''])]"

theorem proposal_review_first_witness:
  "\<exists>p. build_action_proposals_v2 (\<lambda>_. []) [] [(''decision_candidate_id'', PStr ''c'')] sample_decision ''reply'' True
         = Some [p] \<and> dget ''requires_operator_approval'' p = PBool True"
proof -
  let ?b = "build_action_proposals_v2 (\<lambda>_. []) [] [(''decision_candidate_id'', PStr ''c'')] sample_decision ''reply'' True"
  have "case ?b of None \<Rightarrow> False | Some ps \<Rightarrow> ps \<noteq> []" by code_simp
  then obtain ps where b: "?b = Some ps" and "ps \<noteq> []" by (auto split: option.splits)
  then have "hd ps \<in> set ps" by simp
  from proposal_review_first [OF b this] b show ?thesis by metis
qed

subsection \<open>From the engine to the execution guard\<close>

lemma fired_blocks_guard:
  assumes r: "policy_engine_evaluate (engine_rules fromiso now []) act hot ctx = Inr r"
    and fired: "failed_rules r \<noteq> []"
    and d: "build_policy_decision sha ca safe_iter (report_to_dict phrase r) cid cand link dry = Some d"
    and b: "build_action_proposals_v2 sha' ca' cand' d primary dry' = Some ps" and p: "p \<in> set ps"
  shows "\<not> fst (assert_action_proposal_v2_execution_allowed p dry'')"
proof -
  define st where "st = policy_status_of (report_to_dict phrase r) (as_dict cand) (as_dict link) dry"
  have na: "upper (norm_of (dget ''status'' (report_to_dict phrase r))) \<noteq> ''APPROVED''"
    unfolding report_status_text(2) status_value_APPROVED by (rule fired_not_approved [OF r fired])
  have ne: "st \<notin> set [''allowed'', ''allowed_with_review'']"
  proof
    assume "st \<in> set [''allowed'', ''allowed_with_review'']"
    then have "st \<notin> set [''needs_human'', ''blocked'', ''insufficient_context'', ''requires_adjudication'', ''dry_run_only'']"
      by auto
    then show False using na human_free_status unfolding st_def by blast
  qed
  have "st \<noteq> []" using policy_status_cases [of "report_to_dict phrase r" "as_dict cand" "as_dict link" dry]
    unfolding st_def by auto
  then have s: "py_str (py_or (dget ''status'' d) (PStr ''needs_human'')) = st"
    unfolding build_policy_decision_fields(1) [OF d, folded st_def] by (simp add: py_or_def)
  obtain x where "dget ''allowed_by_policy'' p = PBool (st \<in> set [''allowed'', ''allowed_with_review''] \<and> x)"
    using proposal_fields(9) [OF b p] unfolding s by blast
  then have "\<not> truthy (dget ''allowed_by_policy'' p)" using ne by simp
  then show ?thesis unfolding guard_built(1) [OF b p] .
qed

text \<open>
  No proposal outruns the policy: when a rule of the default engine fired, no
  proposal built from the policy decision on its report passes the execution guard, whatever the
  candidate, the case link, the planner's action and the dry-run flags.
\<close>

theorem fired_rule_blocks_execution:
  assumes r: "policy_engine_evaluate (engine_rules fromiso now []) act hot ctx = Inr r"
    and fired: "failed_rules r \<noteq> []"
    and d: "build_policy_decision sha ca safe_iter (report_to_dict phrase r) cid cand link dry = Some d"
    and b: "build_action_proposals_v2 sha' ca' cand' d primary dry' = Some ps" and p: "p \<in> set ps"
  shows "\<not> fst (assert_action_proposal_v2_execution_allowed p dry'')"
  using assms by (rule fired_blocks_guard)

abbreviation sample_engine_run :: "policy_error + policy_report" where
  "sample_engine_run \<equiv> policy_engine_evaluate (engine_rules (\<lambda>_. None) 0 [])
     [(''action_class'', PStr ''offer_send'')] [] default_policy_context"

abbreviation sample_decided :: "pydict option" where
  "sample_decided \<equiv> build_policy_decision (\<lambda>_. []) [] SAFE_P0_ACTIONS
     (report_to_dict (\<lambda>_. []) (projr sample_engine_run)) ''c'' PNone PNone False"

abbreviation sample_proposed :: "pydict list option" where
  "sample_proposed \<equiv> build_action_proposals_v2 (\<lambda>_. []) [] [(''decision_candidate_id'', PStr ''c'')]
     (the sample_decided) ''reply'' False"

theorem fired_rule_blocks_execution_witness:
  "the sample_proposed \<noteq> [] \<and>
   \<not> fst (assert_action_proposal_v2_execution_allowed (hd (the sample_proposed)) False)"
proof -
  have "\<not> isl sample_engine_run" and f: "failed_rules (projr sample_engine_run) \<noteq> []" by code_simp+
  then have r: "sample_engine_run = Inr (projr sample_engine_run)" by (metis sum.collapse(2))
  have "sample_decided \<noteq> None" by code_simp
  then have d: "sample_decided = Some (the sample_decided)" by (rule option.collapse [symmetric])
  have "sample_proposed \<noteq> None" by code_simp
  then have b: "sample_proposed = Some (the sample_proposed)" by (rule option.collapse [symmetric])
  have ne: "the sample_proposed \<noteq> []" by code_simp
  then have "hd (the sample_proposed) \<in> set (the sample_proposed)" by (rule hd_in_set)
  from fired_rule_blocks_execution [OF r f d b this] ne show ?thesis by (intro conjI)
qed

end
