(* ===== verification/Intake_Policy.thy ===== *)
theory Intake_Policy
  imports Action_Proposals
begin

text \<open>
  The policy stage of the intake: \<open>policy_action_proposal.py\<close>.  It maps the results of the earlier
  stages to the proposal, the hot snapshot and the context of the policy engine, runs the engine and
  writes the outcome back into the results.

  A result that may be absent (\<open>dict | None\<close>) is a \<open>pydict option\<close> where the code distinguishes the
  two cases, and a \<open>pydict\<close>, empty for \<open>None\<close>, where it reads \<open>x or {}\<close>.  The in-place updates of
  \<open>attach_policy_evaluation_to_results\<close> are returned.  A float that is not finite is carried through an
  untyped dictionary as its text (\<open>pf_val\<close>), which \<open>float\<close> reads back.  Reading a key of a value that
  is no dictionary, slicing or iterating a value that cannot be, and converting a value that is no
  number are the constructors of \<open>policy_error\<close>.
\<close>

subsection \<open>Values\<close>

fun pf_val :: "pyfloat \<Rightarrow> pyval" where
  "pf_val (Fin r) = PFloat r"
| "pf_val PosInf = PStr ''inf''"
| "pf_val NegInf = PStr ''-inf''"
| "pf_val NaN = PStr ''nan''"

text \<open>\<open>d.get (k, {})\<close> and \<open>v or {}\<close> followed by \<open>.get\<close>: a value that is no dictionary raises.\<close>

definition dict_at :: "string \<Rightarrow> pydict \<Rightarrow> policy_error + pydict" where
  "dict_at k d = (case map_of d k of
       None \<Rightarrow> Inr []
     | Some (PDict e) \<Rightarrow> Inr e
     | Some _ \<Rightarrow> Inl AttributeError)"

definition dict_or_empty :: "pyval \<Rightarrow> policy_error + pydict" where
  "dict_or_empty v = (case py_or v (PDict []) of PDict e \<Rightarrow> Inr e | _ \<Rightarrow> Inl AttributeError)"

text \<open>\<open>v in (0, 1)\<close>.\<close>

fun in_zero_one :: "pyval \<Rightarrow> bool" where
  "in_zero_one (PInt i) = (i = 0 \<or> i = 1)"
| "in_zero_one (PFloat r) = (r = 0 \<or> r = 1)"
| "in_zero_one (PBool b) = True"
| "in_zero_one _ = False"

text \<open>\<open>list (v [:5])\<close>.\<close>

fun first_five :: "pyval \<Rightarrow> policy_error + pyval list" where
  "first_five (PList xs) = Inr (take 5 xs)"
| "first_five (PStr s) = Inr (map (\<lambda>c. PStr [c]) (take 5 s))"
| "first_five _ = Inl ConversionError"

definition opt_dict :: "pydict option \<Rightarrow> pydict" where
  "opt_dict d = (case d of None \<Rightarrow> [] | Some e \<Rightarrow> e)"

subsection \<open>The proposal\<close>

definition PRIMARY_TO_ACTION_CLASS :: "(string \<times> string) list" where
  "PRIMARY_TO_ACTION_CLASS =
     [(''prepare_reply'', ''LIVE_REPLY''), (''create_task'', ''CREATE_TASK''), (''update_case'', ''UPDATE_CASE''),
      (''create_review'', ''REVIEW_ESCALATION''), (''ignore'', ''OBSERVE''), (''hold'', ''HOLD'')]"

definition proposal_id_of :: "(string \<Rightarrow> string) \<Rightarrow> string \<Rightarrow> string \<Rightarrow> string \<Rightarrow> string" where
  "proposal_id_of sha256hex run_id message_id primary_action =
     ''prop_'' @ take 20 (sha256hex (run_id @ ''|'' @ message_id @ ''|'' @ primary_action))"

definition plan_primary :: "pydict \<Rightarrow> string" where
  "plan_primary plan = str_or (norm_of (dget ''primary_action'' plan)) ''hold''"

definition action_class_of :: "string \<Rightarrow> string" where
  "action_class_of primary = (case map_of PRIMARY_TO_ACTION_CLASS primary of Some c \<Rightarrow> c | None \<Rightarrow> ''HOLD'')"

definition first_contact_hint :: "pydict \<Rightarrow> bool" where
  "first_contact_hint src \<longleftrightarrow>
     (let thread = as_dict (dget ''thread'' src) in
      lower (text_of (dget ''thread_position'' thread)) \<in> set [''first'', ''only'', ''latest''] \<or>
      in_zero_one (case map_of thread ''message_count'' of None \<Rightarrow> PInt 0 | Some v \<Rightarrow> v))"

definition build_policy_action_proposal :: "(string \<Rightarrow> string) \<Rightarrow> pydict \<Rightarrow> pydict \<Rightarrow> pydict \<Rightarrow> pydict option \<Rightarrow>
    pydict option \<Rightarrow> pydict \<Rightarrow> string \<Rightarrow> string \<Rightarrow> string \<Rightarrow> policy_error + pydict" where
  "build_policy_action_proposal sha256hex plan intake case_link case_intelligence entity_link src
     run_id message_id trace_id =
     (let cir = opt_dict case_intelligence;
          primary = plan_primary plan;
          safe_live = truthy (dget ''safe_for_live_push'' plan);
          metadata = as_dict (dget ''metadata'' intake)
      in bindE (dict_at ''review_routing'' cir) (\<lambda>routing.
         let review_mode = text_of (dget ''review_mode'' routing) in
         bindE (if review_mode = ''suggest_only'' then Inr True
                else bindE (dict_at ''case_understanding'' cir)
                       (\<lambda>cu. Inr (truthy (dget ''inference_only_proposal'' cu)))) (\<lambda>inference_only.
         bindE (dict_or_empty (dget ''case_understanding'' cir)) (\<lambda>business.
         let requires_technical = (truthy (dget ''requires_technical_authority'' business) \<or>
               truthy (dget ''requires_technical_authority'' metadata));
             requires_compliance = (truthy (dget ''requires_compliance_content'' business) \<or>
               truthy (dget ''requires_compliance_content'' metadata));
             el = opt_dict entity_link;
             comm0 = lower (norm_of (dget ''communication_intent'' business));
             comm_intent = (if comm0 = [] \<and> primary = ''prepare_reply'' then ''client_reply'' else comm0)
         in Inr
           [(''schema_version'', PStr ''policy_action_proposal.v1''),
            (''proposal_id'', PStr (proposal_id_of sha256hex run_id message_id primary)),
            (''trace_id'', PStr (str_or trace_id run_id)),
            (''canonical_decision_id'', PStr (text_of (dget ''canonical_decision_id'' plan))),
            (''primary_action'', PStr primary),
            (''action_class'', PStr (action_class_of primary)),
            (''safe_for_live_push'', PBool safe_live),
            (''is_live'', PBool safe_live),
            (''external_send'', PBool (safe_live \<and> primary = ''prepare_reply'')),
            (''changes_external_state'',
               PBool (primary \<in> set [''prepare_reply'', ''create_task'', ''update_case''])),
            (''requires_technical_authority'', PBool requires_technical),
            (''requires_compliance_content'', PBool requires_compliance),
            (''inference_only'', PBool inference_only),
            (''communication_intent'', PStr comm_intent),
            (''case_link_decision'', PStr (text_of (dget ''decision'' case_link))),
            (''entity_link_status'', PStr (text_of (py_or (dget ''link_status'' el) (dget ''phase'' el)))),
            (''first_contact_hint'', PBool (first_contact_hint src))]))))"

subsection \<open>The fallback snapshot\<close>

definition build_fallback_case_snapshot_hot_state :: "pydict \<Rightarrow> pydict \<Rightarrow> pydict \<Rightarrow> pydict \<Rightarrow>
    policy_error + pydict" where
  "build_fallback_case_snapshot_hot_state mb snap case_link intake =
     (let case_id = str_or (norm_of (dget ''case_id'' mb)) ''unknown_case'';
          ctx0 = as_dict (dget ''snapshot'' (as_dict (dget ''context_pack'' mb)));
          ctx_snap = (if ctx0 = [] then as_dict (dget ''snapshot'' mb) else ctx0)
      in bindE (first_five (py_or (dget ''open_questions'' ctx_snap) (PList []))) (\<lambda>open_q.
         bindE (of_opt ConversionError (py_float (py_or (dget ''confidence'' mb)
                  (py_or (dget ''confidence'' ctx_snap) (PFloat (1 / 2)))))) (\<lambda>conf.
         bindE (case dget ''thread'' snap of
                  PDict thread \<Rightarrow>
                    of_opt ConversionError (py_int (py_or (dget ''message_count'' thread) (PInt 1)))
                | _ \<Rightarrow> Inr 1) (\<lambda>count. Inr
           [(''schema_version'', PStr ''case_snapshot_hot_state.v1''),
            (''snapshot_id'', PStr (''policy_fallback_'' @ case_id)),
            (''case'', PDict
               [(''case_id'', PStr case_id),
                (''operational_status'', PStr ''OK''),
                (''summary_text'', PStr (take 2000 (text_of (dget ''summary'' ctx_snap)))),
                (''metadata'', PDict (as_dict (dget ''metadata'' ctx_snap)))]),
            (''key_facts'', PList []),
            (''active_conflicts'', PList (if open_q = [] then []
               else [PDict [(''severity'', PStr ''medium''), (''summary'', PStr ''open_questions_present'')]])),
            (''snapshot_meta'', PDict
               [(''version'', PInt 1),
                (''confidence'', pf_val conf),
                (''review_required'', PBool (truthy (dget ''review_required'' intake))),
                (''entity_link_status'', PStr (text_of (dget ''decision'' case_link)))]),
            (''latest_activity'', PDict [(''thread_message_count'', PInt count)])]))))"

subsection \<open>The context\<close>

definition build_policy_context_for_intake :: "pydict \<Rightarrow> pydict \<Rightarrow> pydict \<Rightarrow> pydict \<Rightarrow> pydict \<Rightarrow> pydict option \<Rightarrow>
    string \<Rightarrow> string \<Rightarrow> policy_error + policy_context" where
  "build_policy_context_for_intake proposal hot mb src el case_intelligence trace_id proposal_id =
     (let pos = lower (text_of (dget ''thread_position'' (as_dict (dget ''thread'' src))));
          md = as_dict (dget ''metadata'' (as_dict (dget ''case'' hot)))
      in bindE (of_opt ConversionError (py_float (py_or (dget ''source_trust_score'' mb) (PFloat (85 / 100)))))
           (\<lambda>trust.
         bindE (dict_or_empty (dget ''snapshot_meta'' hot)) (\<lambda>meta.
         bindE (of_opt ConversionError (py_float (py_or (dget ''confidence'' meta)
                  (py_or (dget ''confidence'' mb) (PFloat (1 / 2)))))) (\<lambda>conf0.
         bindE (case case_intelligence of
                  None \<Rightarrow> Inr conf0
                | Some cir \<Rightarrow>
                    (let v = dget ''confidence_case_link'' (as_dict (dget ''confidence_domains'' cir)) in
                     if truthy v then of_opt ConversionError (py_float v) else Inr conf0)) (\<lambda>conf.
         let av = as_dict (dget ''authoritative_verdicts'' (as_dict (dget ''snapshot_meta'' hot)))
         in Inr (default_policy_context\<lparr>
           pc_trace_id := str_or trace_id (text_of (dget ''trace_id'' proposal)),
           pc_proposal_id := str_or proposal_id (text_of (dget ''proposal_id'' proposal)),
           is_first_contact := (truthy (dget ''first_contact_hint'' proposal) \<or> pos \<in> set [''first'', ''only'']),
           has_approved_communication_state :=
             (truthy (dget ''approved_outreach'' md) \<or> truthy (dget ''communication_approved'' md)),
           relationship_debtor := truthy (dget ''debtor'' md),
           relationship_complaint_active := truthy (dget ''complaint_active'' md),
           relationship_escalation_open := truthy (dget ''service_escalation_open'' md),
           entity_link_status := text_of (py_or (dget ''link_status'' el)
             (py_or (dget ''phase'' el) (dget ''entity_link_status'' proposal))),
           source_trust_score := trust,
           snapshot_confidence := conf,
           event_timeline := list_items (dget ''events'' mb),
           authoritative_verdicts :=
             foldl (\<lambda>acc (k, v). AList.update k v acc) [] (filter (\<lambda>(k, v). truthy v) av)\<rparr>))))))"

subsection \<open>The stage\<close>

record stage_inputs =
  action_plan_result :: pydict
  intake_result :: pydict
  case_link_result :: pydict
  entity_link_result :: "pydict option"
  case_intelligence_result :: "pydict option"
  mailbox_memory_result :: "pydict option"
  stage_snapshot :: pydict
  case_snapshot_hot_state :: pydict
  run_state :: pydict

definition select_hot_state :: "stage_inputs \<Rightarrow> policy_error + pydict" where
  "select_hot_state inp =
     (let mb = opt_dict (mailbox_memory_result inp);
          nested = as_dict (dget ''case_snapshot_hot_state'' mb)
      in if case_snapshot_hot_state inp \<noteq> [] then Inr (case_snapshot_hot_state inp)
         else if nested \<noteq> [] then Inr nested
         else build_fallback_case_snapshot_hot_state mb (stage_snapshot inp) (case_link_result inp)
                (intake_result inp))"

definition evaluate_policy_for_intake_stage :: "(string \<Rightarrow> string) \<Rightarrow> (string \<Rightarrow> timestamp option) \<Rightarrow> rat \<Rightarrow>
    policy_rule list \<Rightarrow> stage_inputs \<Rightarrow> policy_error + policy_report \<times> pydict" where
  "evaluate_policy_for_intake_stage sha256hex fromiso now rules inp =
     (let run_id = text_of (dget ''run_id'' (run_state inp));
          message_id = text_of (dget ''message_id'' (as_dict (dget ''source_message'' (stage_snapshot inp))))
      in bindE (build_policy_action_proposal sha256hex (action_plan_result inp) (intake_result inp)
                  (case_link_result inp) (case_intelligence_result inp) (entity_link_result inp)
                  (stage_snapshot inp) run_id message_id run_id) (\<lambda>proposal.
         bindE (select_hot_state inp) (\<lambda>hot.
         bindE (build_policy_context_for_intake proposal hot (opt_dict (mailbox_memory_result inp))
                  (stage_snapshot inp) (opt_dict (entity_link_result inp)) (case_intelligence_result inp)
                  run_id (text_of (dget ''proposal_id'' proposal))) (\<lambda>ctx.
         bindE (policy_engine_evaluate (engine_rules fromiso now rules) proposal hot ctx)
           (\<lambda>report. Inr (report, proposal))))))"

definition attach_policy_evaluation_to_results :: "(policy_message \<Rightarrow> string) \<Rightarrow> pydict option \<Rightarrow> pydict option \<Rightarrow>
    policy_report \<Rightarrow> pydict \<Rightarrow> policy_error + pydict option \<times> pydict option" where
  "attach_policy_evaluation_to_results phrase mailbox case_intelligence report proposal =
     (let pr_dict = report_to_dict phrase report;
          stamp = (\<lambda>d. AList.update ''policy_action_proposal'' (PDict proposal)
                        (AList.update ''policy_report'' (PDict pr_dict) d))
      in case case_intelligence of
           None \<Rightarrow> Inr (map_option stamp mailbox, None)
         | Some cir \<Rightarrow>
             (let cir1 = stamp cir in
              case dget ''automation_policy'' cir1 of
                PDict ap \<Rightarrow>
                  bindE (of_opt ConversionError (merge_policy_report_into_automation_policy ap pr_dict))
                    (\<lambda>merged. Inr (map_option stamp mailbox,
                               Some (AList.update ''automation_policy'' (PDict merged) cir1)))
              | _ \<Rightarrow> Inr (map_option stamp mailbox, Some cir1)))"

definition flag_from_settings_or_config :: "pydict option \<Rightarrow> pydict \<Rightarrow> string \<Rightarrow> string \<Rightarrow> bool \<Rightarrow> bool" where
  "flag_from_settings_or_config settings cfg settings_attr config_key dflt =
     (if dhas config_key cfg then truthy (dget config_key cfg)
      else case settings of
        None \<Rightarrow> dflt
      | Some st \<Rightarrow> (case map_of st settings_attr of None \<Rightarrow> dflt | Some v \<Rightarrow> truthy v))"

text \<open>The candidate: on the intelligence result, else in the output of the decision pipeline.\<close>

definition find_candidate :: "pydict \<Rightarrow> pydict" where
  "find_candidate cir =
     (let cand = as_dict (dget ''decision_candidate'' cir) in
      if truthy (dget ''decision_candidate_id'' cand) then cand
      else case dget ''decision_pipeline'' cir of
        PDict dp \<Rightarrow> as_dict (dget ''decision_candidate'' (as_dict (dget ''outputs'' dp)))
      | _ \<Rightarrow> cand)"

text \<open>The three identities of the plan are written on every proposal of the bundle, when present.\<close>

definition stamp_identity :: "pydict \<Rightarrow> string \<Rightarrow> pyval list \<Rightarrow> pyval list" where
  "stamp_identity plan key props =
     (let v = text_of (dget key plan) in
      if v = [] then props
      else map (\<lambda>p. case p of PDict d \<Rightarrow> PDict (AList.update key (PStr v) d) | q \<Rightarrow> q) props)"

abbreviation stamp_identities :: "pydict \<Rightarrow> pyval list \<Rightarrow> pyval list" where
  "stamp_identities plan props \<equiv> stamp_identity plan ''decision_version_id''
     (stamp_identity plan ''semantic_hash'' (stamp_identity plan ''canonical_decision_id'' props))"

definition attach_policy_and_proposals :: "(string \<Rightarrow> string) \<Rightarrow> string \<Rightarrow> string list \<Rightarrow>
    (policy_message \<Rightarrow> string) \<Rightarrow> (string \<Rightarrow> timestamp option) \<Rightarrow> rat \<Rightarrow> policy_rule list \<Rightarrow> pydict option \<Rightarrow> pydict \<Rightarrow>
    stage_inputs \<Rightarrow> policy_error + (policy_report \<times> pydict) \<times> pydict option \<times> pydict option" where
  "attach_policy_and_proposals sha256hex created_at safe_iter phrase fromiso now rules settings stage_config inp =
     bindE (evaluate_policy_for_intake_stage sha256hex fromiso now rules inp) (\<lambda>(report, proposal).
     bindE (attach_policy_evaluation_to_results phrase (mailbox_memory_result inp)
              (case_intelligence_result inp) report proposal) (\<lambda>(mailbox, intelligence).
       let done = Inr ((report, proposal), mailbox, intelligence);
           enabled = flag_from_settings_or_config settings stage_config
             ''action_proposal_v2_enabled'' ''action_proposal_v2_enabled'' False;
           dry = flag_from_settings_or_config settings stage_config
             ''decision_pipeline_dry_run_only'' ''decision_pipeline_dry_run_only'' True;
           plan = action_plan_result inp
       in case intelligence of
            None \<Rightarrow> done
          | Some cir \<Rightarrow>
              if \<not> enabled then done
              else let cand = find_candidate cir in
                if \<not> truthy (dget ''decision_candidate_id'' cand) then done
                else bindE (of_opt ConversionError (build_policy_decision sha256hex created_at safe_iter
                              (report_to_dict phrase report) (text_of (dget ''decision_candidate_id'' cand))
                              (PDict cand) (PDict (case_link_result inp)) dry)) (\<lambda>decision.
                     bindE (of_opt ConversionError (build_policy_gated_action_proposals_v2_bundle sha256hex
                              created_at cand decision
                              (py_str (py_or (dget ''primary_action'' plan) (PStr ''hold''))) dry)) (\<lambda>bundle.
                       let props = stamp_identities plan (list_items (dget ''action_proposals_v2'' bundle))
                       in Inr ((report, proposal), mailbox,
                            Some (AList.update ''action_proposals_v2'' (PList props)
                                   (AList.update ''policy_decision'' (PDict decision) cir)))))))"

subsection \<open>The proposal and the rules\<close>

lemma build_proposal_fields:
  assumes "build_policy_action_proposal sha plan intake link ci el src run msg trace = Inr p"
  shows "dget ''action_class'' p = PStr (action_class_of (plan_primary plan))"
    and "dget ''first_contact_hint'' p = PBool (first_contact_hint src)"
    and "dget ''changes_external_state'' p =
           PBool (plan_primary plan \<in> set [''prepare_reply'', ''create_task'', ''update_case''])"
  using assms unfolding build_policy_action_proposal_def Let_def bindE_eq_Inr by auto

lemma action_class_range: "upper (action_class_of primary) = action_class_of primary \<and>
   action_class_of primary \<in> set (map snd PRIMARY_TO_ACTION_CLASS)"
proof -
  have "list_all (\<lambda>c. upper c = c) (map snd PRIMARY_TO_ACTION_CLASS)" by code_simp
  then have up: "c \<in> set (map snd PRIMARY_TO_ACTION_CLASS) \<Longrightarrow> upper c = c" for c
    unfolding list_all_iff by blast
  have "''HOLD'' \<in> set (map snd PRIMARY_TO_ACTION_CLASS)" by code_simp
  then have "action_class_of primary \<in> set (map snd PRIMARY_TO_ACTION_CLASS)"
    by (cases "map_of PRIMARY_TO_ACTION_CLASS primary")
      (simp_all only: action_class_of_def option.case, force dest: map_of_SomeD)
  with up show ?thesis by blast
qed

lemma proposal_action_class:
  assumes "build_policy_action_proposal sha plan intake link ci el src run msg trace = Inr p"
  shows "action_class p = action_class_of (plan_primary plan)"
  unfolding build_proposal_fields(1) [OF assms] using action_class_range by simp

text \<open>
  The proposals of the intake stage have no offer and no follow-up class, so the rules on commercial
  verdicts and on the follow-up cool-down never fire, and never raise, for them.
\<close>

lemma intake_has_no_offer_or_follow_up:
  assumes "build_policy_action_proposal sha plan intake link ci el src run msg trace = Inr p"
  shows "rule_no_offer_without_commercial_verdict p hot ctx = Inr None"
    and "rule_no_repeat_follow_up_too_soon fromiso now p hot ctx = Inr None"
proof -
  have "list_all (\<lambda>c. c \<notin> set (OFFER_CLASSES @ [''FOLLOW_UP'', ''FOLLOW_UP_MESSAGE'']))
      (map snd PRIMARY_TO_ACTION_CLASS)" by code_simp
  then have "action_class p \<notin> set (OFFER_CLASSES @ [''FOLLOW_UP'', ''FOLLOW_UP_MESSAGE''])"
    using action_class_range unfolding proposal_action_class [OF assms] list_all_iff by blast
  then have "action_class p \<notin> set OFFER_CLASSES" "action_class p \<notin> set [''FOLLOW_UP'', ''FOLLOW_UP_MESSAGE'']"
    unfolding set_append Un_iff by blast+
  then show "rule_no_offer_without_commercial_verdict p hot ctx = Inr None"
    "rule_no_repeat_follow_up_too_soon fromiso now p hot ctx = Inr None"
    unfolding rule_no_offer_without_commercial_verdict_def rule_no_repeat_follow_up_too_soon_def
    by (simp_all only: if_True not_False_eq_True)
qed

text \<open>
  A result whose understanding is present but null raises, although it is first read with
  \<open>or {}\<close>; the same holds of a null routing, before the lines that read it again take effect.
\<close>

lemma null_understanding_raises:
  assumes "map_of cir ''case_understanding'' = Some PNone" and "map_of cir ''review_routing'' = None"
  shows "build_policy_action_proposal sha plan intake link (Some cir) el src run msg trace = Inl AttributeError"
  using assms by (simp add: build_policy_action_proposal_def opt_dict_def dict_at_def Let_def)

lemma null_routing_raises:
  assumes "map_of cir ''review_routing'' = Some PNone"
  shows "build_policy_action_proposal sha plan intake link (Some cir) el src run msg trace = Inl AttributeError"
  using assms by (simp add: build_policy_action_proposal_def opt_dict_def dict_at_def Let_def)

lemma context_fields:
  assumes "build_policy_context_for_intake proposal hot mb src el ci trace pid = Inr ctx"
  defines "md \<equiv> as_dict (dget ''metadata'' (as_dict (dget ''case'' hot)))"
  shows "has_approved_communication_state ctx \<longleftrightarrow>
           truthy (dget ''approved_outreach'' md) \<or> truthy (dget ''communication_approved'' md)"
    and "truthy (dget ''first_contact_hint'' proposal) \<Longrightarrow> is_first_contact ctx"
  using assms(1) unfolding build_policy_context_for_intake_def Let_def bindE_eq_Inr md_def by auto

lemma stage_parts:
  assumes "evaluate_policy_for_intake_stage sha fromiso now rules inp = Inr (r, p)"
  obtains hot ctx run msg where
    "build_policy_action_proposal sha (action_plan_result inp) (intake_result inp) (case_link_result inp)
       (case_intelligence_result inp) (entity_link_result inp) (stage_snapshot inp) run msg run = Inr p"
    "select_hot_state inp = Inr hot"
    "build_policy_context_for_intake p hot (opt_dict (mailbox_memory_result inp)) (stage_snapshot inp)
       (opt_dict (entity_link_result inp)) (case_intelligence_result inp) run
       (text_of (dget ''proposal_id'' p)) = Inr ctx"
    "policy_engine_evaluate (engine_rules fromiso now rules) p hot ctx = Inr r"
  using assms unfolding evaluate_policy_for_intake_stage_def Let_def bindE_eq_Inr by auto

lemma live_send_rule_in:
  "\<lparr>rule_id = ''NO_LIVE_SEND_TO_NEW_CLIENTS'', family = Communication,
    evaluate_fun = rule_no_live_send_to_new_clients\<rparr> \<in> set (load_policy_rules fromiso now)"
  by (simp add: load_policy_rules_def)

lemma fired_in_failed:
  assumes r: "policy_engine_evaluate rules act hot ctx = Inr r"
    and "rule \<in> set rules" "evaluate_rule rule act hot ctx = Inr (Some e)"
  shows "rule_id rule \<in> set (failed_rules r)"
proof -
  have "(rule, e) \<in> set (firings act hot ctx rules)" using assms(2,3) by (simp add: in_firings)
  then show ?thesis unfolding evaluate_report(1) [OF r] by force
qed

text \<open>
  A reply to a first contact waits for a human: when the plan's primary action is a
  reply, the thread looks like a first contact and the case carries no approval of the outreach, the
  stage does not approve and names the rule, whatever else the results say.
\<close>

theorem first_contact_reply_waits:
  assumes st: "evaluate_policy_for_intake_stage sha fromiso now [] inp = Inr (r, p)"
    and reply: "plan_primary (action_plan_result inp) = ''prepare_reply''"
    and first: "first_contact_hint (stage_snapshot inp)"
    and hot: "select_hot_state inp = Inr hot"
    and appr: "\<not> truthy (dget ''approved_outreach'' (as_dict (dget ''metadata'' (as_dict (dget ''case'' hot)))))"
      "\<not> truthy (dget ''communication_approved'' (as_dict (dget ''metadata'' (as_dict (dget ''case'' hot)))))"
  shows "pr_status r \<noteq> APPROVED \<and> ''NO_LIVE_SEND_TO_NEW_CLIENTS'' \<in> set (failed_rules r)"
proof -
  from st obtain hot' ctx run msg where
    pr: "build_policy_action_proposal sha (action_plan_result inp) (intake_result inp) (case_link_result inp)
       (case_intelligence_result inp) (entity_link_result inp) (stage_snapshot inp) run msg run = Inr p"
    and h: "select_hot_state inp = Inr hot'"
    and cx: "build_policy_context_for_intake p hot' (opt_dict (mailbox_memory_result inp)) (stage_snapshot inp)
       (opt_dict (entity_link_result inp)) (case_intelligence_result inp) run
       (text_of (dget ''proposal_id'' p)) = Inr ctx"
    and ev: "policy_engine_evaluate (engine_rules fromiso now []) p hot' ctx = Inr r"
    by (rule stage_parts)
  have [simp]: "hot' = hot" using h hot by simp
  have ev': "policy_engine_evaluate (load_policy_rules fromiso now) p hot ctx = Inr r"
    using ev by (simp add: engine_rules_def)
  have cls: "action_class p = ''LIVE_REPLY''"
    unfolding proposal_action_class [OF pr] reply by code_simp
  have ctx: "\<not> has_approved_communication_state ctx" "is_first_contact ctx"
    using context_fields [OF cx] appr build_proposal_fields(2) [OF pr] first by simp_all
  have "\<not> action_class p \<noteq> ''LIVE_REPLY''" using cls by simp
  then have "rule_no_live_send_to_new_clients p hot ctx =
      fire NEEDS_HUMAN High MsgFirstContact ''NO_LIVE_SEND_TO_NEW_CLIENTS''
        [''Obtain approved communication state or operator send.'']"
    unfolding rule_no_live_send_to_new_clients_def using ctx by (simp only: if_False if_True bindE.simps)
  then have "''NO_LIVE_SEND_TO_NEW_CLIENTS'' \<in> set (failed_rules r)"
    using fired_in_failed [OF ev' live_send_rule_in] unfolding evaluate_rule_def by simp
  moreover from this have "pr_status r \<noteq> APPROVED" by (intro fired_not_approved [OF ev]) auto
  ultimately show ?thesis by blast
qed

definition sample_inputs :: stage_inputs where
  "sample_inputs = \<lparr>action_plan_result = [(''primary_action'', PStr ''prepare_reply'')], intake_result = [],
     case_link_result = [], entity_link_result = None,
     case_intelligence_result = Some [(''automation_policy'',
       PDict [(''allow_automated_intake_record'', PBool True)])],
     mailbox_memory_result = None,
     stage_snapshot = [(''thread'', PDict [(''message_count'', PInt 1)])],
     case_snapshot_hot_state = [], run_state = [(''run_id'', PStr ''r1'')]\<rparr>"

definition sample_proposal :: "policy_error + pydict" where
  "sample_proposal = build_policy_action_proposal (\<lambda>_. []) (action_plan_result sample_inputs)
     (intake_result sample_inputs) (case_link_result sample_inputs) (case_intelligence_result sample_inputs)
     (entity_link_result sample_inputs) (stage_snapshot sample_inputs) ''r1'' [] ''r1''"

definition sample_context :: "policy_error + policy_context" where
  "sample_context = build_policy_context_for_intake (projr sample_proposal) (projr (select_hot_state sample_inputs))
     (opt_dict (mailbox_memory_result sample_inputs)) (stage_snapshot sample_inputs)
     (opt_dict (entity_link_result sample_inputs)) (case_intelligence_result sample_inputs) ''r1'' ''prop_''"

definition sample_intake_run :: "policy_error + policy_report" where
  "sample_intake_run = policy_engine_evaluate (engine_rules (\<lambda>_. None) 0 []) (projr sample_proposal)
     (projr (select_hot_state sample_inputs)) (projr sample_context)"

lemma sample_intake:
  "sample_proposal = Inr (projr sample_proposal)"
  "select_hot_state sample_inputs = Inr (projr (select_hot_state sample_inputs))"
  "sample_context = Inr (projr sample_context)"
  "sample_intake_run = Inr (projr sample_intake_run)"
proof -
  have f: "\<not> isl sample_proposal" "\<not> isl (select_hot_state sample_inputs)" "\<not> isl sample_context"
    "\<not> isl sample_intake_run" by code_simp+
  show "sample_proposal = Inr (projr sample_proposal)" by (rule sum.collapse(2) [OF f(1), symmetric])
  show "select_hot_state sample_inputs = Inr (projr (select_hot_state sample_inputs))"
    by (rule sum.collapse(2) [OF f(2), symmetric])
  show "sample_context = Inr (projr sample_context)" by (rule sum.collapse(2) [OF f(3), symmetric])
  show "sample_intake_run = Inr (projr sample_intake_run)" by (rule sum.collapse(2) [OF f(4), symmetric])
qed

lemma sample_stage:
  "evaluate_policy_for_intake_stage (\<lambda>_. []) (\<lambda>_. None) 0 [] sample_inputs =
     Inr (projr sample_intake_run, projr sample_proposal)"
proof -
  have ids: "text_of (dget ''run_id'' (run_state sample_inputs)) = ''r1''"
    "text_of (dget ''message_id'' (as_dict (dget ''source_message'' (stage_snapshot sample_inputs)))) = []"
    "text_of (dget ''proposal_id'' (projr sample_proposal)) = ''prop_''" by code_simp+
  show ?thesis
    unfolding evaluate_policy_for_intake_stage_def Let_def ids(1,2) sample_proposal_def [symmetric]
    by (subst sample_intake(1), subst sample_intake(2))
      (simp only: bindE.simps ids(3) sample_context_def [symmetric],
       subst sample_intake(3), simp only: bindE.simps sample_intake_run_def [symmetric],
       subst sample_intake(4), simp only: bindE.simps)
qed

theorem first_contact_reply_waits_witness:
  "pr_status (projr sample_intake_run) \<noteq> APPROVED"
proof -
  have reply: "plan_primary (action_plan_result sample_inputs) = ''prepare_reply''" by code_simp
  have first: "first_contact_hint (stage_snapshot sample_inputs)" by code_simp
  have appr: "\<not> truthy (dget ''approved_outreach'' (as_dict (dget ''metadata'' (as_dict (dget ''case''
      (projr (select_hot_state sample_inputs)))))))"
    "\<not> truthy (dget ''communication_approved'' (as_dict (dget ''metadata'' (as_dict (dget ''case''
      (projr (select_hot_state sample_inputs)))))))" by code_simp+
  from first_contact_reply_waits [OF sample_stage reply first sample_intake(2) appr] show ?thesis by blast
qed

subsection \<open>What the stage leaves in the results\<close>

lemma guard_update:
  assumes "key \<notin> {''schema_version'', ''policy_decision_id'', ''decision_candidate_id'', ''allowed_by_policy'', ''action_mode''}"
  shows "assert_action_proposal_v2_execution_allowed (AList.update key v d) dry =
     assert_action_proposal_v2_execution_allowed d dry"
proof -
  have "dget k (AList.update key v d) = dget k d"
    if "k \<in> {''schema_version'', ''policy_decision_id'', ''decision_candidate_id'', ''allowed_by_policy'', ''action_mode''}" for k
    using assms that by auto
  then show ?thesis unfolding assert_action_proposal_v2_execution_allowed_def by simp
qed

lemma stamp_identity_guard:
  assumes "key \<in> {''canonical_decision_id'', ''semantic_hash'', ''decision_version_id''}"
    and "PDict q \<in> set (stamp_identity plan key ps)"
  shows "\<exists>d. PDict d \<in> set ps \<and> (\<forall>dry. assert_action_proposal_v2_execution_allowed q dry =
     assert_action_proposal_v2_execution_allowed d dry)"
proof (cases "text_of (dget key plan) = []")
  case True
  then show ?thesis using assms(2) by (auto simp: stamp_identity_def)
next
  case False
  then obtain x where x: "x \<in> set ps"
    "PDict q = (case x of PDict d \<Rightarrow> PDict (AList.update key (PStr (text_of (dget key plan))) d) | y \<Rightarrow> y)"
    using assms(2) by (auto simp: stamp_identity_def Let_def)
  from x(2) obtain d where d: "x = PDict d" "q = AList.update key (PStr (text_of (dget key plan))) d"
    by (cases x; simp)
  have k: "key \<notin> {''schema_version'', ''policy_decision_id'', ''decision_candidate_id'', ''allowed_by_policy'', ''action_mode''}"
    using assms(1) by auto
  have "PDict d \<in> set ps" using x(1) unfolding d(1) .
  then show ?thesis unfolding d(2) guard_update [OF k] by auto
qed

lemma stamp_identities_guard:
  assumes "PDict q \<in> set (stamp_identities plan ps)"
  shows "\<exists>d. PDict d \<in> set ps \<and> (\<forall>dry. assert_action_proposal_v2_execution_allowed q dry =
     assert_action_proposal_v2_execution_allowed d dry)"
proof -
  have keys: "''decision_version_id'' \<in> {''canonical_decision_id'', ''semantic_hash'', ''decision_version_id''}"
    "''semantic_hash'' \<in> {''canonical_decision_id'', ''semantic_hash'', ''decision_version_id''}"
    "''canonical_decision_id'' \<in> {''canonical_decision_id'', ''semantic_hash'', ''decision_version_id''}" by simp_all
  obtain q1 where q1: "PDict q1 \<in> set (stamp_identity plan ''semantic_hash'' (stamp_identity plan ''canonical_decision_id'' ps))"
    "\<forall>dry. assert_action_proposal_v2_execution_allowed q dry = assert_action_proposal_v2_execution_allowed q1 dry"
    using stamp_identity_guard [OF keys(1) assms] by (elim exE conjE)
  obtain q2 where q2: "PDict q2 \<in> set (stamp_identity plan ''canonical_decision_id'' ps)"
    "\<forall>dry. assert_action_proposal_v2_execution_allowed q1 dry = assert_action_proposal_v2_execution_allowed q2 dry"
    using stamp_identity_guard [OF keys(2) q1(1)] by (elim exE conjE)
  show ?thesis using stamp_identity_guard [OF keys(3) q2(1)] q1(2) q2(2) by (elim exE conjE) (intro exI conjI, assumption, simp)
qed

lemma bundle_proposals:
  assumes "build_policy_gated_action_proposals_v2_bundle sha ca cand pd primary dry = Some b"
    and "PDict q \<in> set (list_items (dget ''action_proposals_v2'' b))"
  obtains ps where "build_action_proposals_v2 sha ca cand pd (normalize_planner_primary_for_v2 primary) dry = Some ps"
    "q \<in> set ps"
  using assms unfolding build_policy_gated_action_proposals_v2_bundle_def Let_def by auto

lemma attach_results:
  assumes "attach_policy_evaluation_to_results phrase mailbox (Some c0) r p = Inr (mb, Some cir)"
  shows "dget ''action_proposals_v2'' cir = dget ''action_proposals_v2'' c0"
    and "dget ''automation_policy'' cir = PDict ap \<Longrightarrow>
           \<exists>base. merge_policy_report_into_automation_policy base (report_to_dict phrase r) = Some ap"
proof -
  let ?stamp = "\<lambda>d. AList.update ''policy_action_proposal'' (PDict p)
      (AList.update ''policy_report'' (PDict (report_to_dict phrase r)) d)"
  note eq = assms [unfolded attach_policy_evaluation_to_results_def Let_def option.case]
  have "dget ''action_proposals_v2'' cir = dget ''action_proposals_v2'' c0 \<and>
    (dget ''automation_policy'' cir = PDict ap \<longrightarrow>
       (\<exists>base. merge_policy_report_into_automation_policy base (report_to_dict phrase r) = Some ap))"
  proof (cases "dget ''automation_policy'' c0")
    case (PDict base)
    then obtain merged where m: "merge_policy_report_into_automation_policy base (report_to_dict phrase r) = Some merged"
      and c: "cir = AList.update ''automation_policy'' (PDict merged) (?stamp c0)"
      using eq by (cases "merge_policy_report_into_automation_policy base (report_to_dict phrase r)") auto
    show ?thesis unfolding c using m by auto
  qed (use eq in auto)
  then show "dget ''action_proposals_v2'' cir = dget ''action_proposals_v2'' c0"
    "dget ''automation_policy'' cir = PDict ap \<Longrightarrow>
       \<exists>base. merge_policy_report_into_automation_policy base (report_to_dict phrase r) = Some ap" by blast+
qed

lemma attach_None: "attach_policy_evaluation_to_results phrase mailbox None r p = Inr (mb, ci) \<Longrightarrow> ci = None"
  by (simp add: attach_policy_evaluation_to_results_def Let_def)

lemma attach_all_cases:
  assumes "attach_policy_and_proposals sha ca safe_iter phrase fromiso now rules settings cfg inp =
      Inr ((r, p), mb, Some cir)" and "case_intelligence_result inp = Some c0"
  obtains mb0 cir0 where "evaluate_policy_for_intake_stage sha fromiso now rules inp = Inr (r, p)"
    "attach_policy_evaluation_to_results phrase (mailbox_memory_result inp) (Some c0) r p = Inr (mb0, Some cir0)"
    "cir = cir0 \<or> (\<exists>cand dry d b. build_policy_decision sha ca safe_iter (report_to_dict phrase r)
         (text_of (dget ''decision_candidate_id'' cand)) (PDict cand) (PDict (case_link_result inp)) dry = Some d \<and>
       build_policy_gated_action_proposals_v2_bundle sha ca cand d
         (py_str (py_or (dget ''primary_action'' (action_plan_result inp)) (PStr ''hold''))) dry = Some b \<and>
       cir = AList.update ''action_proposals_v2'' (PList
           (stamp_identities (action_plan_result inp) (list_items (dget ''action_proposals_v2'' b))))
         (AList.update ''policy_decision'' (PDict d) cir0))"
proof -
  obtain r' p' where ev: "evaluate_policy_for_intake_stage sha fromiso now rules inp = Inr (r', p')"
    using assms(1) unfolding attach_policy_and_proposals_def
    by (cases "evaluate_policy_for_intake_stage sha fromiso now rules inp") auto
  note eq = assms(1) [unfolded attach_policy_and_proposals_def ev bindE.simps prod.case assms(2)]
  obtain mb0 ci0 where at: "attach_policy_evaluation_to_results phrase (mailbox_memory_result inp) (Some c0) r' p' =
      Inr (mb0, ci0)"
    using eq by (cases "attach_policy_evaluation_to_results phrase (mailbox_memory_result inp) (Some c0) r' p'") auto
  note eq = eq [unfolded at bindE.simps prod.case Let_def]
  obtain cir0 where c0: "ci0 = Some cir0" using eq by (cases ci0) auto
  note eq = eq [unfolded c0 option.case]
  have of_opt: "of_opt e x = Inr y \<longleftrightarrow> x = Some y" for e :: policy_error and x and y :: pydict
    by (cases x) auto
  have rp: "r' = r" "p' = p" using eq by (auto simp: bindE_eq_Inr split: if_splits)
  show thesis
  proof (rule that [OF ev [unfolded rp] at [unfolded rp c0]])
    show "cir = cir0 \<or> (\<exists>cand dry d b. build_policy_decision sha ca safe_iter (report_to_dict phrase r)
         (text_of (dget ''decision_candidate_id'' cand)) (PDict cand) (PDict (case_link_result inp)) dry = Some d \<and>
       build_policy_gated_action_proposals_v2_bundle sha ca cand d
         (py_str (py_or (dget ''primary_action'' (action_plan_result inp)) (PStr ''hold''))) dry = Some b \<and>
       cir = AList.update ''action_proposals_v2'' (PList
           (stamp_identities (action_plan_result inp) (list_items (dget ''action_proposals_v2'' b))))
         (AList.update ''policy_decision'' (PDict d) cir0))"
      using eq unfolding rp by (auto simp: bindE_eq_Inr of_opt split: if_splits)
  qed
qed

text \<open>
  Property C15.  What the stage writes back is closed: when a default rule fired, the automation
  policy of the intelligence result has no automation flag on, and no proposal the stage has written
  there passes the execution guard.
\<close>

theorem stage_results_closed:
  assumes at: "attach_policy_and_proposals sha ca safe_iter phrase fromiso now [] settings cfg inp =
      Inr ((r, p), mb, Some cir)"
    and fired: "failed_rules r \<noteq> []"
    and ci: "case_intelligence_result inp = Some c0" and fresh: "dget ''action_proposals_v2'' c0 = PNone"
  shows "(\<forall>ap k. dget ''automation_policy'' cir = PDict ap \<and> starts_with k ''allow_automated_'' \<longrightarrow>
             \<not> is_true (dget k ap)) \<and>
     (\<forall>q dry. PDict q \<in> set (list_items (dget ''action_proposals_v2'' cir)) \<longrightarrow>
             \<not> fst (assert_action_proposal_v2_execution_allowed q dry))"
proof -
  from attach_all_cases [OF at ci] obtain mb0 cir0 where
    st: "evaluate_policy_for_intake_stage sha fromiso now [] inp = Inr (r, p)" and
    res: "attach_policy_evaluation_to_results phrase (mailbox_memory_result inp) (Some c0) r p = Inr (mb0, Some cir0)" and
    cases: "cir = cir0 \<or> (\<exists>cand dry d b. build_policy_decision sha ca safe_iter (report_to_dict phrase r)
         (text_of (dget ''decision_candidate_id'' cand)) (PDict cand) (PDict (case_link_result inp)) dry = Some d \<and>
       build_policy_gated_action_proposals_v2_bundle sha ca cand d
         (py_str (py_or (dget ''primary_action'' (action_plan_result inp)) (PStr ''hold''))) dry = Some b \<and>
       cir = AList.update ''action_proposals_v2'' (PList
           (stamp_identities (action_plan_result inp) (list_items (dget ''action_proposals_v2'' b))))
         (AList.update ''policy_decision'' (PDict d) cir0))" .
  obtain hot ctx where ev: "policy_engine_evaluate (engine_rules fromiso now []) p hot ctx = Inr r"
    using stage_parts [OF st] by metis
  have na: "norm_of (dget ''status'' (report_to_dict phrase r)) \<noteq> ''APPROVED''"
    unfolding report_status_text(1) status_value_APPROVED by (rule fired_not_approved [OF ev fired])
  have ne: "report_to_dict phrase r \<noteq> []" by (simp add: report_to_dict_def)
  have ap: "dget ''automation_policy'' cir = dget ''automation_policy'' cir0" using cases by auto
  have flags: "\<not> is_true (dget k ap)"
    if c: "dget ''automation_policy'' cir = PDict ap" and k: "starts_with k ''allow_automated_''" for ap k
  proof -
    obtain base where "merge_policy_report_into_automation_policy base (report_to_dict phrase r) = Some ap"
      using attach_results(2) [OF res c [unfolded ap]] by blast
    then show ?thesis by (rule merge_flags_off [OF _ ne na k])
  qed
  have props: "\<not> fst (assert_action_proposal_v2_execution_allowed q dry)"
    if q: "PDict q \<in> set (list_items (dget ''action_proposals_v2'' cir))" for q dry
  proof (cases "cir = cir0")
    case True
    then show ?thesis using q attach_results(1) [OF res] fresh by simp
  next
    case False
    then obtain cand dr d b where d: "build_policy_decision sha ca safe_iter (report_to_dict phrase r)
         (text_of (dget ''decision_candidate_id'' cand)) (PDict cand) (PDict (case_link_result inp)) dr = Some d"
      and b: "build_policy_gated_action_proposals_v2_bundle sha ca cand d
         (py_str (py_or (dget ''primary_action'' (action_plan_result inp)) (PStr ''hold''))) dr = Some b"
      and "cir = AList.update ''action_proposals_v2'' (PList
           (stamp_identities (action_plan_result inp) (list_items (dget ''action_proposals_v2'' b))))
         (AList.update ''policy_decision'' (PDict d) cir0)"
      using cases by blast
    with q obtain q3 where q3: "PDict q3 \<in> set (list_items (dget ''action_proposals_v2'' b))"
      "\<forall>dry. assert_action_proposal_v2_execution_allowed q dry = assert_action_proposal_v2_execution_allowed q3 dry"
      using stamp_identities_guard by fastforce
    obtain ps where "build_action_proposals_v2 sha ca cand d (normalize_planner_primary_for_v2
         (py_str (py_or (dget ''primary_action'' (action_plan_result inp)) (PStr ''hold'')))) dr = Some ps" "q3 \<in> set ps"
      using bundle_proposals [OF b q3(1)] by blast
    then have "\<not> fst (assert_action_proposal_v2_execution_allowed q3 dry)"
      by (rule fired_blocks_guard [OF ev fired d])
    then show ?thesis using q3(2) by simp
  qed
  from flags props show ?thesis by blast
qed

definition sample_attached :: "policy_error + pydict option \<times> pydict option" where
  "sample_attached = attach_policy_evaluation_to_results (\<lambda>_. []) (mailbox_memory_result sample_inputs)
     (case_intelligence_result sample_inputs) (projr sample_intake_run) (projr sample_proposal)"

theorem stage_results_closed_witness:
  "\<not> is_true (dget ''allow_automated_intake_record''
       (as_dict (dget ''automation_policy'' (the (snd (projr sample_attached))))))"
proof -
  let ?mb = "fst (projr sample_attached)" and ?ci = "snd (projr sample_attached)"
  have f: "\<not> isl sample_attached" "?ci \<noteq> None" "is_dict (dget ''automation_policy'' (the ?ci))"
    "failed_rules (projr sample_intake_run) \<noteq> []" by code_simp+
  have at: "sample_attached = Inr (?mb, Some (the ?ci))"
    using sum.collapse(2) [OF f(1), symmetric] option.collapse [OF f(2)] by (simp only: prod.collapse)
  have flag: "flag_from_settings_or_config None [] ''action_proposal_v2_enabled'' ''action_proposal_v2_enabled'' False
      \<longleftrightarrow> False" by code_simp
  have all: "attach_policy_and_proposals (\<lambda>_. []) [] [] (\<lambda>_. []) (\<lambda>_. None) 0 [] None [] sample_inputs =
      Inr ((projr sample_intake_run, projr sample_proposal), ?mb, Some (the ?ci))"
    unfolding attach_policy_and_proposals_def sample_stage bindE.simps prod.case sample_attached_def [symmetric]
    by (subst at) (simp only: bindE.simps prod.case Let_def option.case flag not_False_eq_True if_True)
  have c0: "case_intelligence_result sample_inputs = Some (the (case_intelligence_result sample_inputs))"
    "dget ''action_proposals_v2'' (the (case_intelligence_result sample_inputs)) = PNone"
    by (simp_all add: sample_inputs_def)
  obtain ap where ap: "dget ''automation_policy'' (the ?ci) = PDict ap"
    using f(3) by (cases "dget ''automation_policy'' (the ?ci)") simp_all
  have k: "starts_with ''allow_automated_intake_record'' ''allow_automated_''" by code_simp
  have "\<not> is_true (dget ''allow_automated_intake_record'' ap)"
    using stage_results_closed [OF all f(4) c0] ap k by blast
  then show ?thesis unfolding ap by simp
qed

end
