(* ===== verification/Authz.thy ===== *)
theory Authz
  imports Prelude
begin

text \<open>
  The runtime authorization gate: \<open>agent_runtime/authz.py\<close>.

  The process environment is a map from names to values; whether the configured environment file
  exists and what the \<open>dotenv\<close> package reads from it (\<open>None\<close> when reading raises) are the fields of
  the record \<open>auth_env\<close>.  A request is refused with an HTTP 401 (\<open>Unauthorized\<close>);
  \<open>hmac.compare_digest\<close> on text that is not ASCII raises \<open>TypeError\<close> (\<open>NonAsciiToken\<close>).  The Polish
  denial messages of the graph guard are the constructors of \<open>authz_denial\<close>.
\<close>

record auth_env =
  environ :: "string \<Rightarrow> string option"
  isfile :: "string \<Rightarrow> bool"
  dotenv_values :: "string \<Rightarrow> (string \<Rightarrow> string option) option"

datatype auth_error = Unauthorized string | NonAsciiToken

datatype authz_denial = ToolDenied string string | OperationDenied string

subsection \<open>Permission tables\<close>

definition TOOL_PERMISSION_LEVELS :: "(string \<times> string) list" where
  "TOOL_PERMISSION_LEVELS =
     [(''search_gmail_thread'', ''service''), (''list_drive_folder'', ''service''),
      (''call_kalk_top_quote'', ''service''), (''generate_draft_reply'', ''service''),
      (''search_rag_knowledge'', ''service''), (''read_google_drive_file'', ''service''),
      (''extract_facts_from_text'', ''service''), (''check_cp2025_eligibility'', ''service''),
      (''report_gaps_and_stop'', ''service''), (''retry_hard_parse'', ''service''),
      (''propose_mutation'', ''operator''), (''propose_plan'', ''operator''),
      (''request_operator_clarification'', ''operator'')]"

definition WRITE_OPERATION_PERMISSIONS :: "(string \<times> string) list" where
  "WRITE_OPERATION_PERMISSIONS =
     [(''delete_document'', ''operator''), (''move_document'', ''operator''),
      (''merge_cases'', ''operator''), (''create_case'', ''operator''),
      (''update_case_status'', ''operator''), (''add_case_note'', ''operator''),
      (''add_case_label'', ''operator''), (''archive_case'', ''operator''),
      (''restore_case'', ''operator''), (''reassign_case'', ''operator''),
      (''link_case_to_case'', ''operator''), (''update_customer_info'', ''operator''),
      (''generate_draft'', ''operator''), (''add_deadline'', ''operator'')]"

definition level_of :: "(string \<times> string) list \<Rightarrow> string \<Rightarrow> string" where
  "level_of table name = (case map_of table name of Some l \<Rightarrow> l | None \<Rightarrow> ''operator'')"

subsection \<open>Tokens\<close>

definition opt_text :: "string option \<Rightarrow> string" where
  "opt_text v = (case v of None \<Rightarrow> [] | Some s \<Rightarrow> strip s)"

text \<open>The loop that returns the first value that is not blank.\<close>

fun first_set :: "(string \<Rightarrow> string option) \<Rightarrow> string list \<Rightarrow> string" where
  "first_set m [] = []"
| "first_set m (k # ks) = (if opt_text (m k) \<noteq> [] then opt_text (m k) else first_set m ks)"

definition TOKEN_KEYS :: "string list" where
  "TOKEN_KEYS = [''DASZEK_NODE_B_API_TOKEN'', ''GMAIL_AGENT_INTERNAL_API_TOKEN'', ''NODE_B_REGISTRY_TOKEN'']"

definition expected_token :: "auth_env \<Rightarrow> string" where
  "expected_token env =
     (let val = first_set (environ env) TOKEN_KEYS;
          env_file = opt_text (environ env ''GMAIL_AGENT_ENV_FILE'')
      in if val \<noteq> [] then val
         else if env_file \<noteq> [] \<and> isfile env env_file
         then (case dotenv_values env env_file of None \<Rightarrow> [] | Some values \<Rightarrow> first_set values TOKEN_KEYS)
         else [])"

definition expected_read_only_token :: "auth_env \<Rightarrow> string" where
  "expected_read_only_token env =
     first_set (environ env) [''NODE_B_READ_ONLY_TOKEN'', ''GMAIL_AGENT_READ_ONLY_API_TOKEN'']"

definition env_truthy :: "auth_env \<Rightarrow> string \<Rightarrow> bool" where
  "env_truthy env name \<longleftrightarrow> lower (opt_text (environ env name)) \<in> set [''1'', ''true'', ''yes'', ''on'']"

definition write_dev_bypass_enabled :: "auth_env \<Rightarrow> bool" where
  "write_dev_bypass_enabled env \<longleftrightarrow>
     lower (opt_text (environ env ''GMAIL_AGENT_RUNTIME_PROFILE'')) \<noteq> ''canonical_production'' \<and>
     env_truthy env ''NODE_B_TASK_WRITE_DEV_BYPASS''"

definition is_ascii :: "string \<Rightarrow> bool" where
  "is_ascii s \<longleftrightarrow> list_all (\<lambda>c. ord_of c < 128) s"

definition compare_digest :: "string \<Rightarrow> string \<Rightarrow> auth_error + bool" where
  "compare_digest a b = (if is_ascii a \<and> is_ascii b then Inr (a = b) else Inl NonAsciiToken)"

text \<open>The credential of a header that starts with \<open>bearer\<close>, in any case of its letters.\<close>

definition bearer :: "string option \<Rightarrow> string option" where
  "bearer authorization =
     (let header = opt_text authorization in
      if starts_with (lower header) ''bearer '' then Some (strip (drop 7 header)) else None)"

definition verify_operator_token :: "auth_env \<Rightarrow> string option \<Rightarrow> auth_error + bool" where
  "verify_operator_token env authorization =
     (let expected = expected_token env in
      if expected = [] then Inr True
      else case bearer authorization of
        None \<Rightarrow> Inr False
      | Some provided \<Rightarrow> compare_digest provided expected)"

definition verify_read_only_token :: "auth_env \<Rightarrow> string option \<Rightarrow> auth_error + bool" where
  "verify_read_only_token env authorization =
     (let expected = expected_read_only_token env in
      if expected = [] then Inr False
      else case bearer authorization of
        None \<Rightarrow> Inr False
      | Some provided \<Rightarrow> compare_digest provided expected)"

definition token_scope :: "auth_env \<Rightarrow> string option \<Rightarrow> auth_error + string" where
  "token_scope env authorization =
     (case verify_operator_token env authorization of
        Inl e \<Rightarrow> Inl e
      | Inr True \<Rightarrow> Inr ''operator''
      | Inr False \<Rightarrow>
          (case verify_read_only_token env authorization of
             Inl e \<Rightarrow> Inl e
           | Inr True \<Rightarrow> Inr ''read_only''
           | Inr False \<Rightarrow> Inr []))"

subsection \<open>Gates\<close>

definition check_tool_permission :: "string \<Rightarrow> string \<Rightarrow> bool" where
  "check_tool_permission tool_name scope \<longleftrightarrow>
     (let required = level_of TOOL_PERMISSION_LEVELS tool_name in
      (required = ''service'' \<and> scope \<in> set [''operator'', ''service'']) \<or>
      (required = ''operator'' \<and> scope = ''operator''))"

definition check_write_operation_permission :: "string \<Rightarrow> string \<Rightarrow> bool" where
  "check_write_operation_permission operation scope \<longleftrightarrow>
     level_of WRITE_OPERATION_PERMISSIONS operation = ''operator'' \<and> scope = ''operator''"

definition get_current_operator :: "auth_env \<Rightarrow> string option \<Rightarrow> auth_error + string" where
  "get_current_operator env authorization =
     (case token_scope env authorization of
        Inl e \<Rightarrow> Inl e
      | Inr scope \<Rightarrow>
          if scope = []
          then (if expected_token env \<noteq> [] then Inl (Unauthorized ''Invalid or missing operator token.'')
                else Inr ''operator'')
          else Inr scope)"

definition require_mutation_token :: "auth_env \<Rightarrow> string option \<Rightarrow> auth_error + string" where
  "require_mutation_token env authorization =
     (let expected = expected_token env;
          refused = Inl (Unauthorized ''Invalid or missing mutation token.'')
      in if expected \<noteq> []
         then (case bearer authorization of
                 None \<Rightarrow> refused
               | Some provided \<Rightarrow>
                   (case compare_digest provided expected of
                      Inl e \<Rightarrow> Inl e
                    | Inr ok \<Rightarrow> if ok then Inr ''operator'' else refused))
         else if write_dev_bypass_enabled env then Inr ''operator'' else refused)"

record mutation_principal =
  operator_id :: string
  principal_scope :: string

definition require_mutation_principal :: "auth_env \<Rightarrow> string option \<Rightarrow> auth_error + mutation_principal" where
  "require_mutation_principal env authorization =
     map_sum id (\<lambda>scope. \<lparr>operator_id = scope, principal_scope = scope\<rparr>)
       (require_mutation_token env authorization)"

definition guard_tool_authz :: "string \<Rightarrow> string \<Rightarrow> string option \<Rightarrow> authz_denial option" where
  "guard_tool_authz tool_name scope operation =
     (if \<not> check_tool_permission tool_name scope
      then Some (ToolDenied tool_name (level_of TOOL_PERMISSION_LEVELS tool_name))
      else case operation of
        None \<Rightarrow> None
      | Some opn \<Rightarrow>
          if opn \<noteq> [] \<and> \<not> check_write_operation_permission opn scope
          then Some (OperationDenied opn) else None)"

subsection \<open>Levels\<close>

lemma level_of_range:
  assumes "set (map snd table) \<subseteq> {''service'', ''operator''}"
  shows "level_of table n \<in> {''service'', ''operator''}"
proof (cases "map_of table n")
  case (Some l)
  then have "l \<in> set (map snd table)" by (force dest: map_of_SomeD)
  with Some assms show ?thesis by (auto simp: level_of_def)
qed (simp add: level_of_def)

lemma tool_level: "level_of TOOL_PERMISSION_LEVELS t \<in> {''service'', ''operator''}"
  by (rule level_of_range) (simp add: TOOL_PERMISSION_LEVELS_def)

lemma write_level: "level_of WRITE_OPERATION_PERMISSIONS opn = ''operator''"
proof (cases "map_of WRITE_OPERATION_PERMISSIONS opn")
  case (Some l)
  then have "(opn, l) \<in> set WRITE_OPERATION_PERMISSIONS" by (rule map_of_SomeD)
  then have "l = ''operator''"
    unfolding WRITE_OPERATION_PERMISSIONS_def list.set insert_iff empty_iff prod.inject by blast
  with Some show ?thesis by (simp add: level_of_def)
qed (simp add: level_of_def)

lemma check_tool_permission_iff:
  "check_tool_permission t scope \<longleftrightarrow>
     scope = ''operator'' \<or> scope = ''service'' \<and> level_of TOOL_PERMISSION_LEVELS t = ''service''"
  using tool_level [of t] by (auto simp: check_tool_permission_def Let_def)

text \<open>
  What a scope may do: the guard lets the operator do everything; it lets the
  service scope use exactly the tools of level service, and no write operation; it refuses every
  tool to any other scope, the read-only scope and the empty one included.
\<close>

theorem guard_passes_iff:
  "guard_tool_authz t scope operation = None \<longleftrightarrow>
     scope = ''operator'' \<or>
     (scope = ''service'' \<and> level_of TOOL_PERMISSION_LEVELS t = ''service'' \<and>
      (case operation of None \<Rightarrow> True | Some opn \<Rightarrow> opn = []))"
  unfolding guard_tool_authz_def check_tool_permission_iff check_write_operation_permission_def write_level
  by (auto split: option.splits)

subsection \<open>Fail-closed writes\<close>

lemma compare_digest_True: "compare_digest a b = Inr True \<longleftrightarrow> a = b \<and> is_ascii b"
  by (auto simp: compare_digest_def)

text \<open>
  Property C32.  The mutation gate is closed by default: it lets a request through, always as the
  operator, exactly when a token is configured and the request bears it, or when none is configured
  and the development bypass is on outside the canonical production profile.
\<close>

theorem mutation_gate_iff:
  "require_mutation_token env authorization = Inr scope \<longleftrightarrow>
     scope = ''operator'' \<and>
     (if expected_token env = [] then write_dev_bypass_enabled env
      else is_ascii (expected_token env) \<and> bearer authorization = Some (expected_token env))"
proof (cases "bearer authorization")
  case None
  then show ?thesis by (auto simp: require_mutation_token_def Let_def)
next
  case (Some tok)
  then show ?thesis
    by (auto simp: require_mutation_token_def Let_def compare_digest_def)
qed

text \<open>
  Without a configured token the two gates part: reading is open to every request as
  the operator, with any header or none, while a mutation in the canonical production profile is
  refused whatever the request bears.
\<close>

theorem unconfigured_token_gates:
  assumes "expected_token env = []"
  shows "get_current_operator env authorization = Inr ''operator'' \<and>
     (lower (opt_text (environ env ''GMAIL_AGENT_RUNTIME_PROFILE'')) = ''canonical_production'' \<longrightarrow>
        require_mutation_principal env authorization =
          Inl (Unauthorized ''Invalid or missing mutation token.''))"
  using assms
  by (simp add: get_current_operator_def token_scope_def verify_operator_token_def
      require_mutation_principal_def require_mutation_token_def write_dev_bypass_enabled_def)

theorem unconfigured_token_gates_witness:
  "get_current_operator \<lparr>environ = (\<lambda>_. None), isfile = (\<lambda>_. False), dotenv_values = (\<lambda>_. None)\<rparr> None
     = Inr ''operator''"
proof -
  have "expected_token \<lparr>environ = (\<lambda>_. None), isfile = (\<lambda>_. False), dotenv_values = (\<lambda>_. None)\<rparr> = []"
    by code_simp
  from unconfigured_token_gates [OF this] show ?thesis by blast
qed

text \<open>
  With a token configured, a scope other than the operator's needs the read-only
  credential, and no request gets any scope from a header without a bearer credential.
\<close>

theorem scope_needs_credential:
  assumes "expected_token env \<noteq> []" and "token_scope env authorization = Inr scope"
  shows "(scope = ''operator'' \<longleftrightarrow> bearer authorization = Some (expected_token env)) \<and>
     (scope = ''read_only'' \<longrightarrow> expected_read_only_token env \<noteq> [] \<and>
        bearer authorization = Some (expected_read_only_token env)) \<and>
     scope \<in> {''operator'', ''read_only'', []}"
proof (cases "bearer authorization")
  case None
  with assms show ?thesis
    by (auto simp: token_scope_def verify_operator_token_def verify_read_only_token_def Let_def
        split: if_splits)
next
  case (Some tok)
  with assms show ?thesis
    by (auto simp: token_scope_def verify_operator_token_def verify_read_only_token_def Let_def
        compare_digest_def split: if_splits sum.splits bool.splits)
qed

theorem scope_needs_credential_witness:
  "token_scope \<lparr>environ = (\<lambda>k. if k = ''NODE_B_REGISTRY_TOKEN'' then Some ''s3'' else None),
     isfile = (\<lambda>_. False), dotenv_values = (\<lambda>_. None)\<rparr> (Some ''Bearer s3'') = Inr ''operator'' \<and>
   bearer (Some ''Bearer s3'') = Some ''s3''"
proof -
  define env where "env = \<lparr>environ = (\<lambda>k. if k = ''NODE_B_REGISTRY_TOKEN'' then Some ''s3'' else None),
     isfile = (\<lambda>_. False), dotenv_values = (\<lambda>_. None)\<rparr>"
  have tok: "expected_token env = ''s3''" unfolding env_def by code_simp
  have sc: "token_scope env (Some ''Bearer s3'') = Inr ''operator''" unfolding env_def by code_simp
  have ne: "expected_token env \<noteq> []" by (simp add: tok)
  have b: "bearer (Some ''Bearer s3'') = Some ''s3''"
    using scope_needs_credential [OF ne sc] unfolding tok by blast
  show ?thesis using sc b unfolding env_def by blast
qed

text \<open>
  A bearer credential with a letter outside ASCII raises instead of being refused with a 401.
\<close>

lemma non_ascii_credential_raises:
  assumes "expected_token env \<noteq> []" and "bearer authorization = Some tok" and "\<not> is_ascii tok"
  shows "require_mutation_token env authorization = Inl NonAsciiToken"
  using assms by (simp add: require_mutation_token_def compare_digest_def)

end
