(* ===== verification/Evidence_Authority.thy ===== *)
theory Evidence_Authority
  imports Prelude
begin

text \<open>
  The provenance contract that keeps data apart from authority: \<open>evidence_authority.py\<close>.

  A payload or record is an untyped dictionary; its origin, its authority as evidence and its
  authority to instruct the runtime are three text values, as in the code.  A payload that is absent
  or is no mapping is the empty dictionary.
\<close>

subsection \<open>Tables\<close>

definition SOURCE_ORIGINS :: "string list" where
  "SOURCE_ORIGINS = [''SYSTEM'', ''OPERATOR'', ''CUSTOMER_EMAIL'', ''QUOTED_CONTENT'', ''FORWARDED_CONTENT'',
     ''ATTACHMENT'', ''RAG'', ''TOOL_RESULT'', ''INTERNAL_STATE'', ''DERIVED'', ''UNKNOWN'']"

definition EVIDENCE_AUTHORITIES :: "string list" where
  "EVIDENCE_AUTHORITIES = [''INTERNAL_SOT'', ''OPERATOR_STATEMENT'', ''CUSTOMER_STATEMENT'',
     ''AUTHORITATIVE_DOCUMENT'', ''CUSTOMER_DOCUMENT'', ''DERIVED_LLM_CLAIM'', ''UNKNOWN'']"

definition INSTRUCTION_AUTHORITIES :: "string list" where
  "INSTRUCTION_AUTHORITIES = [''NONE'', ''OPERATOR'', ''SYSTEM'']"

definition EXTERNAL_ORIGINS :: "string list" where
  "EXTERNAL_ORIGINS = [''CUSTOMER_EMAIL'', ''QUOTED_CONTENT'', ''FORWARDED_CONTENT'', ''ATTACHMENT'',
     ''RAG'', ''TOOL_RESULT'', ''DERIVED'', ''UNKNOWN'']"

definition EVIDENCE_BY_ORIGIN :: "(string \<times> string) list" where
  "EVIDENCE_BY_ORIGIN =
     [(''SYSTEM'', ''INTERNAL_SOT''), (''OPERATOR'', ''OPERATOR_STATEMENT''),
      (''CUSTOMER_EMAIL'', ''CUSTOMER_STATEMENT''), (''QUOTED_CONTENT'', ''CUSTOMER_STATEMENT''),
      (''FORWARDED_CONTENT'', ''CUSTOMER_STATEMENT''), (''ATTACHMENT'', ''CUSTOMER_DOCUMENT''),
      (''RAG'', ''AUTHORITATIVE_DOCUMENT''), (''TOOL_RESULT'', ''DERIVED_LLM_CLAIM''),
      (''INTERNAL_STATE'', ''INTERNAL_SOT''), (''DERIVED'', ''DERIVED_LLM_CLAIM''),
      (''UNKNOWN'', ''UNKNOWN'')]"

definition INSTRUCTION_BY_ORIGIN :: "(string \<times> string) list" where
  "INSTRUCTION_BY_ORIGIN =
     [(''SYSTEM'', ''SYSTEM''), (''OPERATOR'', ''OPERATOR''), (''INTERNAL_STATE'', ''SYSTEM'')]"

definition OPERATOR_KINDS :: "string list" where
  "OPERATOR_KINDS = [''operator'', ''operator_command'', ''operator_signal'', ''operator_instruction'']"

definition SYSTEM_KINDS :: "string list" where
  "SYSTEM_KINDS = [''system'', ''system_signal'', ''internal'']"

definition RAG_KINDS :: "string list" where
  "RAG_KINDS = [''rag'', ''rag_evidence'']"

definition TOOL_RESULT_KINDS :: "string list" where
  "TOOL_RESULT_KINDS = [''tool_result'', ''tool_result_observed'']"

definition ATTACHMENT_KINDS :: "string list" where
  "ATTACHMENT_KINDS = [''gmail_attachment'', ''gmail_attachment_observed'', ''mail_attachment'',
     ''attachment'', ''drive'', ''drive_document'']"

definition EMAIL_KINDS :: "string list" where
  "EMAIL_KINDS = [''gmail'', ''gmail_inbound'', ''gmail_message'', ''gmail_message_observed'',
     ''gmail_thread_update_observed'', ''mail'']"

subsection \<open>Classification\<close>

definition ev_norm :: "pyval \<Rightarrow> string" where
  "ev_norm v = lower (norm_of v)"

definition payload_kind :: "pydict \<Rightarrow> string" where
  "payload_kind payload = ev_norm (py_or (dget ''source_kind'' payload) (dget ''signal_kind'' payload))"

definition classify_source_origin :: "pydict \<Rightarrow> string" where
  "classify_source_origin payload =
     (let kind = payload_kind payload;
          part = ev_norm (py_or (dget ''content_part'' payload) (dget ''evidence_part'' payload));
          produced_by = ev_norm (dget ''produced_by'' payload)
      in if is_true (dget ''operator_instruction'' payload) \<or> kind \<in> set OPERATOR_KINDS then ''OPERATOR''
         else if is_true (dget ''system_instruction'' payload) \<or> kind \<in> set SYSTEM_KINDS then ''SYSTEM''
         else if part = ''quoted'' \<or> is_true (dget ''quoted_content'' payload) then ''QUOTED_CONTENT''
         else if part = ''forwarded'' \<or> is_true (dget ''forwarded_content'' payload) then ''FORWARDED_CONTENT''
         else if kind \<in> set ATTACHMENT_KINDS \<or> truthy (dget ''attachment_id'' payload) then ''ATTACHMENT''
         else if kind \<in> set RAG_KINDS \<or> produced_by \<in> set [''rag_retriever'', ''search_rag_knowledge'']
         then ''RAG''
         else if kind \<in> set TOOL_RESULT_KINDS \<or> produced_by \<noteq> [] then ''TOOL_RESULT''
         else if kind \<in> set EMAIL_KINDS then ''CUSTOMER_EMAIL''
         else if kind \<noteq> [] \<or> payload \<noteq> [] then ''DERIVED''
         else ''UNKNOWN'')"

definition table_get :: "(string \<times> string) list \<Rightarrow> string \<Rightarrow> string \<Rightarrow> string" where
  "table_get table k d = (case map_of table k of Some v \<Rightarrow> v | None \<Rightarrow> d)"

definition evidence_authority_for_origin :: "string \<Rightarrow> string" where
  "evidence_authority_for_origin origin = table_get EVIDENCE_BY_ORIGIN (upper (strip origin)) ''UNKNOWN''"

definition instruction_authority_for_origin :: "string \<Rightarrow> string" where
  "instruction_authority_for_origin origin = table_get INSTRUCTION_BY_ORIGIN (upper (strip origin)) ''NONE''"

definition is_external_origin :: "string \<Rightarrow> bool" where
  "is_external_origin origin \<longleftrightarrow> upper (strip origin) \<in> set EXTERNAL_ORIGINS"

definition provenance_classification :: "pydict \<Rightarrow> string \<Rightarrow> pydict" where
  "provenance_classification payload produced_by =
     (let produced = strip produced_by;
          origin0 = classify_source_origin payload;
          origin = (if produced \<noteq> [] \<and> origin0 \<in> set [''DERIVED'', ''UNKNOWN''] then ''TOOL_RESULT'' else origin0)
      in [(''source_origin'', PStr origin),
          (''evidence_authority'', PStr (evidence_authority_for_origin origin)),
          (''instruction_authority'', PStr (instruction_authority_for_origin origin)),
          (''produced_by'', PStr produced)])"

subsection \<open>Stamping records\<close>

text \<open>\<open>if not str (out.get (k) or "").strip (): out[k] = v\<close>.\<close>

definition fill :: "string \<Rightarrow> pyval \<Rightarrow> pydict \<Rightarrow> pydict" where
  "fill k v out = (if norm_of (dget k out) = [] then AList.update k v out else out)"

definition fill_authorities :: "string \<Rightarrow> pydict \<Rightarrow> pydict" where
  "fill_authorities origin out =
     fill ''instruction_authority'' (PStr (instruction_authority_for_origin origin))
       (fill ''evidence_authority'' (PStr (evidence_authority_for_origin origin)) out)"

definition attach_evidence_provenance :: "pydict \<Rightarrow> pydict \<Rightarrow> string \<Rightarrow> pydict" where
  "attach_evidence_provenance out payload produced_by =
     (let explicit_origin = upper (norm_of (dget ''source_origin'' out)) in
      if explicit_origin \<noteq> [] then fill_authorities explicit_origin out
      else let current = provenance_classification payload produced_by;
               put = (\<lambda>k. fill k (dget k current))
           in put ''produced_by'' (put ''instruction_authority''
                (put ''evidence_authority'' (put ''source_origin'' out))))"

definition provenance_defaults :: "string \<Rightarrow> pydict" where
  "provenance_defaults origin0 =
     (let origin = str_or (upper (strip origin0)) ''DERIVED''
      in [(''source_origin'', PStr origin),
          (''evidence_authority'', PStr (evidence_authority_for_origin origin)),
          (''instruction_authority'', PStr (instruction_authority_for_origin origin))])"

definition ensure_provenance_defaults :: "pydict \<Rightarrow> string \<Rightarrow> pydict" where
  "ensure_provenance_defaults out default_origin =
     (let explicit_origin = upper (norm_of (dget ''source_origin'' out)) in
      if explicit_origin \<noteq> [] then fill_authorities explicit_origin out
      else fill ''instruction_authority'' (PStr ''NONE'')
             (fill ''evidence_authority'' (PStr ''UNKNOWN'')
               (fill ''source_origin'' (PStr (str_or (upper (strip default_origin)) ''DERIVED'')) out)))"

subsection \<open>The tables are closed\<close>

lemma table_get_range: "table_get table k d \<in> insert d (set (map snd table))"
proof (cases "map_of table k")
  case (Some v)
  then show ?thesis by (force simp: table_get_def dest: map_of_SomeD)
qed (simp add: table_get_def)

lemma evidence_in_range: "evidence_authority_for_origin origin \<in> set EVIDENCE_AUTHORITIES"
proof -
  have "insert ''UNKNOWN'' (set (map snd EVIDENCE_BY_ORIGIN)) \<subseteq> set EVIDENCE_AUTHORITIES"
    by (simp add: EVIDENCE_BY_ORIGIN_def EVIDENCE_AUTHORITIES_def)
  then show ?thesis
    using table_get_range unfolding evidence_authority_for_origin_def by blast
qed

lemma instruction_in_range: "instruction_authority_for_origin origin \<in> set INSTRUCTION_AUTHORITIES"
proof -
  have "insert ''NONE'' (set (map snd INSTRUCTION_BY_ORIGIN)) \<subseteq> set INSTRUCTION_AUTHORITIES"
    by (simp add: INSTRUCTION_BY_ORIGIN_def INSTRUCTION_AUTHORITIES_def)
  then show ?thesis
    using table_get_range unfolding instruction_authority_for_origin_def by blast
qed

lemma instruction_none_iff:
  "instruction_authority_for_origin origin = ''NONE'' \<longleftrightarrow>
     upper (strip origin) \<notin> {''SYSTEM'', ''OPERATOR'', ''INTERNAL_STATE''}"
  by (auto simp: instruction_authority_for_origin_def table_get_def INSTRUCTION_BY_ORIGIN_def)

lemma authority_nonblank:
  "strip (evidence_authority_for_origin origin) \<noteq> []"
  "strip (instruction_authority_for_origin origin) \<noteq> []"
proof -
  have "list_all (\<lambda>a. strip a \<noteq> []) EVIDENCE_AUTHORITIES" by code_simp
  then show "strip (evidence_authority_for_origin origin) \<noteq> []"
    using evidence_in_range unfolding list_all_iff by blast
  have "list_all (\<lambda>a. strip a \<noteq> []) INSTRUCTION_AUTHORITIES" by code_simp
  then show "strip (instruction_authority_for_origin origin) \<noteq> []"
    using instruction_in_range unfolding list_all_iff by blast
qed

subsection \<open>Who may instruct the runtime\<close>

lemma classify_range:
  "classify_source_origin payload \<in> {''OPERATOR'', ''SYSTEM''} \<union> set EXTERNAL_ORIGINS"
  unfolding classify_source_origin_def Let_def EXTERNAL_ORIGINS_def by simp

lemma classify_trusted_iff:
  "classify_source_origin payload \<in> {''OPERATOR'', ''SYSTEM''} \<longleftrightarrow>
     is_true (dget ''operator_instruction'' payload) \<or> is_true (dget ''system_instruction'' payload) \<or>
     payload_kind payload \<in> set (OPERATOR_KINDS @ SYSTEM_KINDS)"
  unfolding classify_source_origin_def Let_def by simp

lemma external_not_instructing:
  assumes "is_external_origin origin"
  shows "instruction_authority_for_origin origin = ''NONE''"
proof -
  have "upper (strip origin) \<notin> {''SYSTEM'', ''OPERATOR'', ''INTERNAL_STATE''}"
    using assms unfolding is_external_origin_def EXTERNAL_ORIGINS_def by auto
  then show ?thesis unfolding instruction_none_iff .
qed

lemma external_origin_literals: "o1 \<in> set EXTERNAL_ORIGINS \<Longrightarrow> is_external_origin o1"
proof -
  have "list_all is_external_origin EXTERNAL_ORIGINS" by code_simp
  then show "o1 \<in> set EXTERNAL_ORIGINS \<Longrightarrow> is_external_origin o1" by (simp add: list_all_iff)
qed

text \<open>
  Content is classified with an authority to instruct exactly when its payload says
  that it is an instruction of the operator or of the system, by a flag or by its kind; mail, quoted
  and forwarded text, attachments, retrieved passages, tool results and anything unknown get none.
\<close>

theorem classified_authority_iff:
  "dget ''instruction_authority'' (provenance_classification payload produced_by) \<noteq> PStr ''NONE'' \<longleftrightarrow>
     is_true (dget ''operator_instruction'' payload) \<or> is_true (dget ''system_instruction'' payload) \<or>
     payload_kind payload \<in> set (OPERATOR_KINDS @ SYSTEM_KINDS)"
proof -
  define o0 where "o0 = classify_source_origin payload"
  define o1 where "o1 = (if strip produced_by \<noteq> [] \<and> o0 \<in> set [''DERIVED'', ''UNKNOWN''] then ''TOOL_RESULT'' else o0)"
  have g: "dget ''instruction_authority'' (provenance_classification payload produced_by) =
      PStr (instruction_authority_for_origin o1)"
    unfolding provenance_classification_def Let_def o0_def [symmetric] o1_def [symmetric] by simp
  have trusted: "o1 \<in> {''OPERATOR'', ''SYSTEM''} \<longleftrightarrow> o0 \<in> {''OPERATOR'', ''SYSTEM''}"
    by (auto simp: o1_def)
  have "o1 \<in> {''OPERATOR'', ''SYSTEM''} \<union> set EXTERNAL_ORIGINS"
  proof (cases "strip produced_by \<noteq> [] \<and> o0 \<in> set [''DERIVED'', ''UNKNOWN'']")
    case True
    then have "o1 = ''TOOL_RESULT''" unfolding o1_def by (rule if_P)
    then show ?thesis by (simp add: EXTERNAL_ORIGINS_def)
  next
    case False
    then have "o1 = o0" unfolding o1_def by (rule if_not_P)
    then show ?thesis using classify_range unfolding o0_def by blast
  qed
  moreover have "instruction_authority_for_origin ''OPERATOR'' \<noteq> ''NONE''"
    "instruction_authority_for_origin ''SYSTEM'' \<noteq> ''NONE''" by code_simp+
  ultimately have "instruction_authority_for_origin o1 \<noteq> ''NONE'' \<longleftrightarrow> o1 \<in> {''OPERATOR'', ''SYSTEM''}"
    using external_origin_literals external_not_instructing by blast
  then show ?thesis
    unfolding g pyval.inject trusted unfolding o0_def classify_trusted_iff .
qed

subsection \<open>Explicit values are kept\<close>

lemma dget_fill:
  "dget k (fill k' v out) = (if k = k' \<and> norm_of (dget k out) = [] then v else dget k out)"
  by (auto simp: fill_def)

text \<open>
  Stamping never overwrites: a provenance value that is present survives both
  functions, and neither touches a key that is not one of the provenance dimensions.
\<close>

theorem explicit_provenance_kept:
  assumes "norm_of (dget k record) \<noteq> [] \<or>
     k \<notin> {''source_origin'', ''evidence_authority'', ''instruction_authority'', ''produced_by''}"
  shows "dget k (attach_evidence_provenance record payload produced_by) = dget k record \<and>
     dget k (ensure_provenance_defaults record default_origin) = dget k record"
proof -
  have kept: "dget k (fill k' v out) = dget k record"
    if "dget k out = dget k record"
      "k' \<in> {''source_origin'', ''evidence_authority'', ''instruction_authority'', ''produced_by''}"
    for k' v out
  proof -
    have "\<not> (k = k' \<and> norm_of (dget k record) = [])" using assms that(2) by blast
    then show ?thesis unfolding dget_fill that(1) by (rule if_not_P)
  qed
  show ?thesis
    unfolding attach_evidence_provenance_def ensure_provenance_defaults_def fill_authorities_def Let_def
    by (simp add: kept)
qed

theorem explicit_provenance_kept_witness:
  "dget ''source_origin'' (attach_evidence_provenance [(''source_origin'', PStr ''customer_email'')]
     [(''operator_instruction'', PBool True)] []) = PStr ''customer_email''"
proof -
  have ne: "norm_of (dget ''source_origin'' [(''source_origin'', PStr ''customer_email'')]) \<noteq> []"
    by code_simp
  have "norm_of (dget ''source_origin'' [(''source_origin'', PStr ''customer_email'')]) \<noteq> [] \<or>
      ''source_origin'' \<notin> {''source_origin'', ''evidence_authority'', ''instruction_authority'', ''produced_by''}"
    using ne by (rule disjI1)
  from explicit_provenance_kept [OF this] show ?thesis by simp
qed

subsection \<open>Read-time defaults\<close>

lemma upper_char_nonspace:
  assumes "\<not> is_space c"
  shows "\<exists>d\<in>set (upper_char c). \<not> is_space d"
proof (cases "ord_of c = 223")
  case True
  then have "upper_char c = ''SS''" by (simp add: upper_char_def)
  moreover have "\<not> is_space CHR ''S''" by code_simp
  ultimately show ?thesis by simp
next
  case False
  have lt: "ord_of c < 256" by simp
  with False assms show ?thesis
    by (auto simp: upper_char_def Let_def is_space_def)
qed

lemma strip_upper_nonblank: "strip s \<noteq> [] \<Longrightarrow> strip (upper s) \<noteq> []"
  unfolding strip_eq_Nil upper_def using upper_char_nonspace by fastforce

lemma fill_noop: "norm_of (dget k out) \<noteq> [] \<Longrightarrow> fill k v out = out"
  by (simp add: fill_def)

lemma fill_present: "strip s \<noteq> [] \<Longrightarrow> norm_of (dget k (fill k (PStr s) out)) \<noteq> []"
  by (simp add: dget_fill)

lemma norm_fill_other: "norm_of (dget k out) \<noteq> [] \<Longrightarrow> norm_of (dget k (fill k' v out)) \<noteq> []"
  by (simp add: dget_fill)

lemma ensure_complete:
  "norm_of (dget ''source_origin'' (ensure_provenance_defaults r d)) \<noteq> []"
  "norm_of (dget ''evidence_authority'' (ensure_provenance_defaults r d)) \<noteq> []"
  "norm_of (dget ''instruction_authority'' (ensure_provenance_defaults r d)) \<noteq> []"
proof -
  have lit: "strip ''UNKNOWN'' \<noteq> []" "strip ''NONE'' \<noteq> []" "strip ''DERIVED'' \<noteq> []" by code_simp+
  have origin: "strip (str_or (upper (strip d)) ''DERIVED'') \<noteq> []"
  proof (cases "strip d = []")
    case True
    then show ?thesis using lit(3) by (simp add: str_or_def upper_def)
  next
    case False
    then have "upper (strip d) \<noteq> []" by (simp add: upper_eq_Nil)
    moreover have "strip (upper (strip d)) \<noteq> []" using False by (intro strip_upper_nonblank) simp
    ultimately show ?thesis by (simp add: str_or_def)
  qed
  note present = fill_present [OF origin] fill_present [OF lit(1)] fill_present [OF lit(2)]
    fill_present [OF authority_nonblank(1)] fill_present [OF authority_nonblank(2)]
  show "norm_of (dget ''source_origin'' (ensure_provenance_defaults r d)) \<noteq> []"
  proof (cases "norm_of (dget ''source_origin'' r) = []")
    case True
    then have "upper (norm_of (dget ''source_origin'' r)) = []" by (simp only: upper_eq_Nil)
    then show ?thesis
      unfolding ensure_provenance_defaults_def Let_def by (simp add: norm_fill_other present)
  next
    case False
    then have "upper (norm_of (dget ''source_origin'' r)) \<noteq> []" by (simp add: upper_eq_Nil)
    with False show ?thesis
      unfolding ensure_provenance_defaults_def fill_authorities_def Let_def by (simp add: norm_fill_other)
  qed
  show "norm_of (dget ''evidence_authority'' (ensure_provenance_defaults r d)) \<noteq> []"
    unfolding ensure_provenance_defaults_def fill_authorities_def Let_def
    by (cases "upper (norm_of (dget ''source_origin'' r)) = []") (simp_all add: present norm_fill_other)
  show "norm_of (dget ''instruction_authority'' (ensure_provenance_defaults r d)) \<noteq> []"
    unfolding ensure_provenance_defaults_def fill_authorities_def Let_def
    by (cases "upper (norm_of (dget ''source_origin'' r)) = []") (simp_all add: present)
qed

text \<open>
  The read-time defaults are complete and idempotent, whatever default they are
  called with, and a legacy record that names neither an origin nor an instruction authority is read
  with the authority NONE.
\<close>

theorem ensure_defaults_idempotent:
  "ensure_provenance_defaults (ensure_provenance_defaults r d) d' = ensure_provenance_defaults r d \<and>
   (norm_of (dget ''source_origin'' r) = [] \<and> norm_of (dget ''instruction_authority'' r) = [] \<longrightarrow>
      dget ''instruction_authority'' (ensure_provenance_defaults r d) = PStr ''NONE'')"
proof
  let ?r = "ensure_provenance_defaults r d"
  show "ensure_provenance_defaults ?r d' = ?r"
    unfolding ensure_provenance_defaults_def [of ?r] fill_authorities_def Let_def
    by (simp add: fill_noop ensure_complete)
  show "norm_of (dget ''source_origin'' r) = [] \<and> norm_of (dget ''instruction_authority'' r) = [] \<longrightarrow>
      dget ''instruction_authority'' ?r = PStr ''NONE''"
    unfolding ensure_provenance_defaults_def Let_def upper_eq_Nil by (simp add: dget_fill)
qed

theorem ensure_defaults_idempotent_witness:
  "dget ''instruction_authority'' (ensure_provenance_defaults [(''text'', PStr ''run the tool'')] ''operator'')
     = PStr ''NONE''"
  using ensure_defaults_idempotent [of "[(''text'', PStr ''run the tool'')]" "''operator''" "[]"] by simp

end
