(* ===== verification/Effective_Tools.thy ===== *)
theory Effective_Tools
  imports Prelude
begin

text \<open>
  Which tools the planner is offered in a turn: the guardrails (\<open>agent_runtime/policy_guardrails.py\<close>),
  the eligibility of the quote calculator (\<open>agent_runtime/kalk_eligibility.py\<close>) and their
  composition with freezes, the action envelope and the configuration
  (\<open>agent_runtime/effective_tools.py\<close>).

  Of the engagement snapshot, a validated model, the record \<open>engagement_view\<close> has the fields these
  modules read.  The decision context is an untyped value.  Of the constitution, the allowlist is an
  argument; of the settings, the attributes as a dictionary.  The Polish summaries of a blocked tool
  are the constructors of \<open>guard_summary\<close>.
\<close>

subsection \<open>Guardrails\<close>

definition FORBIDDEN_TOOL_NAMES :: "string list" where
  "FORBIDDEN_TOOL_NAMES = [''send_email'', ''auto_send'', ''create_offerdto'', ''archive_gmail'', ''calendar_live_write'']"

definition filter_planner_allowlist :: "string list \<Rightarrow> string list \<Rightarrow> string list" where
  "filter_planner_allowlist available_tools tool_allowlist =
     filter (\<lambda>name. name \<in> set tool_allowlist \<and> name \<notin> set FORBIDDEN_TOOL_NAMES) available_tools"

datatype guard_summary = ToolForbidden string | ToolNotAllowlisted string

record guard_result =
  gr_status :: string
  gr_summary :: guard_summary
  gr_snapshot_delta :: pydict

definition guard_tool_plan :: "string \<Rightarrow> string list option \<Rightarrow> guard_result option" where
  "guard_tool_plan tool_name constitution =
     (let name = strip tool_name in
      if name \<in> set FORBIDDEN_TOOL_NAMES
      then Some \<lparr>gr_status = ''error'', gr_summary = ToolForbidden name,
             gr_snapshot_delta = [(''hitl_gate'', PDict [(''required'', PBool True),
               (''reason'', PStr (''forbidden_tool:'' @ name))])]\<rparr>
      else case constitution of
        None \<Rightarrow> None
      | Some allowlist \<Rightarrow>
          if name \<notin> set allowlist
          then Some \<lparr>gr_status = ''error'', gr_summary = ToolNotAllowlisted name, gr_snapshot_delta = []\<rparr>
          else None)"

subsection \<open>Eligibility of the quote calculator\<close>

record kalk_decision =
  kd_offered :: bool
  business_eligible :: bool
  technically_ready :: bool
  kd_reasons :: "string list"

record tool_envelope =
  freshness :: string
  action_intent :: string
  action_target :: string
  action_channel :: string
  allowed_tools :: "string list"
  allowed_action_tools :: "string list"
  forbidden_tools :: "string list"

record engagement_view =
  case_kind :: string
  observed_action :: "string option"
  understanding_risks :: "pyval list option"
  heated_area_m2 :: "int option"
  policy_action_envelope :: "tool_envelope option"

definition SALES_CASE_KINDS :: "string list" where
  "SALES_CASE_KINDS = [''wycena_oferta'', ''zapytanie_klienta'']"

definition QUOTE_CASE_KINDS :: "string list" where
  "QUOTE_CASE_KINDS = [''wycena_oferta'']"

definition NOT_READY_ACTIONS :: "string list" where
  "NOT_READY_ACTIONS = [''collect_data'', ''escalate_review'', ''ignore'', ''wait'']"

definition BLOCKING_RISK_TYPES :: "string list" where
  "BLOCKING_RISK_TYPES = [''contradiction'', ''conflicting_facts'', ''conflict'']"

definition BLOCKING_RISK_SEVERITIES :: "string list" where
  "BLOCKING_RISK_SEVERITIES = [''high'', ''critical'']"

definition bounded :: "pyval \<Rightarrow> string" where
  "bounded v = lower (norm_of v)"

definition first_readiness_action :: "pyval \<Rightarrow> pyval \<Rightarrow> pyval \<Rightarrow> string" where
  "first_readiness_action business_recommended_action next_best_action_type action_planner_primary_action =
     str_or (bounded business_recommended_action)
       (str_or (bounded next_best_action_type) (bounded action_planner_primary_action))"

definition blocking_risk :: "pydict \<Rightarrow> string option" where
  "blocking_risk risk =
     (let risk_type = bounded (dget ''risk_type'' risk); severity = bounded (dget ''severity'' risk)
      in if risk_type \<in> set BLOCKING_RISK_TYPES \<and> severity \<in> set BLOCKING_RISK_SEVERITIES
         then Some (''blocking_contradiction:'' @ risk_type @ '':'' @ severity) else None)"

definition evaluate_business_eligibility :: "pyval \<Rightarrow> pyval \<Rightarrow> pyval \<Rightarrow> pyval \<Rightarrow> pyval list option \<Rightarrow>
    bool \<times> string list" where
  "evaluate_business_eligibility kind0 business_recommended_action next_best_action_type
     action_planner_primary_action risks =
     (let kind = bounded kind0;
          readiness = first_readiness_action business_recommended_action next_best_action_type
                        action_planner_primary_action
      in if kind \<notin> set SALES_CASE_KINDS
         then (False, [''journey_not_quote_permitted:case_kind='' @ str_or kind ''unknown''])
         else if kind \<notin> set QUOTE_CASE_KINDS then (False, [''quote_intent_missing:case_kind='' @ kind])
         else if readiness = [] then (False, [''business_readiness_unknown''])
         else if readiness \<in> set NOT_READY_ACTIONS then (False, [''business_not_quote_ready:'' @ readiness])
         else case first_some blocking_risk (dict_rows (case risks of None \<Rightarrow> [] | Some rs \<Rightarrow> rs)) of
           Some reason \<Rightarrow> (False, [reason])
         | None \<Rightarrow> (True, []))"

definition evaluate_technical_readiness :: "pyval \<Rightarrow> bool \<times> string list" where
  "evaluate_technical_readiness v =
     (let area = (case py_float v of Some a \<Rightarrow> a | None \<Rightarrow> Fin 0) in
      if pf_le area (Fin 0) then (False, [''required_input_missing:heated_area_m2'']) else (True, []))"

text \<open>\<open>None\<close>: \<open>list (...)\<close> of a truthy value that cannot be iterated raises.\<close>

definition decision_fact_block_reasons :: "pyval \<Rightarrow> string \<Rightarrow> string list option" where
  "decision_fact_block_reasons decision_context action_type =
     (let blocks = as_dict (dget ''decision_fact_blocks'' (as_dict decision_context));
          block = as_dict (dget action_type blocks)
      in if \<not> truthy (dget ''blocked'' block) then Some []
         else map_option (\<lambda>items.
           let keys = filter (\<lambda>k. k \<noteq> []) (map (\<lambda>x. strip (py_str x)) items)
           in if keys = [] then [''decision_fact_conflict'']
              else map (\<lambda>k. ''decision_fact_conflict:'' @ k) (sort keys))
           (iter_or_empty (dget ''blocked_fact_keys'' block)))"

definition decision_from_snapshot :: "engagement_view \<Rightarrow> pyval \<Rightarrow> kalk_decision option" where
  "decision_from_snapshot snapshot decision_context =
     (let context = as_dict decision_context;
          observed = (case observed_action snapshot of None \<Rightarrow> [] | Some a \<Rightarrow> a);
          (business_ready, business_reasons) = evaluate_business_eligibility (PStr (case_kind snapshot))
             (py_or (dget ''business_recommended_action'' context) (PStr observed))
             (dget ''next_best_action_type'' context) (dget ''action_planner_primary_action'' context)
             (understanding_risks snapshot);
          (technical_ready, technical_reasons) = evaluate_technical_readiness
             (case heated_area_m2 snapshot of None \<Rightarrow> PNone | Some a \<Rightarrow> PInt a)
      in map_option (\<lambda>fact_block_reasons.
           if \<not> business_ready
           then \<lparr>kd_offered = False, business_eligible = False, technically_ready = technical_ready,
                 kd_reasons = business_reasons @ technical_reasons @ fact_block_reasons\<rparr>
           else if \<not> technical_ready
           then \<lparr>kd_offered = False, business_eligible = True, technically_ready = False,
                 kd_reasons = technical_reasons @ fact_block_reasons\<rparr>
           else if fact_block_reasons \<noteq> []
           then \<lparr>kd_offered = False, business_eligible = True, technically_ready = False,
                 kd_reasons = fact_block_reasons\<rparr>
           else \<lparr>kd_offered = True, business_eligible = True, technically_ready = True, kd_reasons = []\<rparr>)
         (decision_fact_block_reasons decision_context ''call_kalk_top_quote''))"

subsection \<open>Availability\<close>

record tool_decision =
  td_tool_name :: string
  td_offered :: bool
  reason_code :: string
  td_detail :: string

record tool_availability =
  offered :: "string list"
  filtered :: "tool_decision list"
  unavailable_notes :: "string list"

abbreviation withhold :: "string \<Rightarrow> string \<Rightarrow> string \<Rightarrow> tool_decision" where
  "withhold n rc d \<equiv> \<lparr>td_tool_name = n, td_offered = False, reason_code = rc, td_detail = d\<rparr>"

definition CONFIG_GATED_TOOLS :: "(string \<times> string) list" where
  "CONFIG_GATED_TOOLS = [(''call_kalk_top_quote'', ''kalk_top_base_url'')]"

definition ENVELOPE_ACTION_TOOLS :: "string list" where
  "ENVELOPE_ACTION_TOOLS = [''generate_draft_reply'', ''request_operator_clarification'',
     ''call_kalk_top_quote'', ''propose_mutation'', ''propose_plan'']"

definition setting_present :: "pydict option \<Rightarrow> string \<Rightarrow> bool" where
  "setting_present settings attr =
     (case settings of None \<Rightarrow> False | Some d \<Rightarrow> norm_of (dget attr d) \<noteq> [])"

definition config_gate_reason :: "string \<Rightarrow> pydict option \<Rightarrow> tool_decision option" where
  "config_gate_reason tool_name settings =
     (let name = strip tool_name in
      case map_of CONFIG_GATED_TOOLS name of
        None \<Rightarrow> None
      | Some required_attr \<Rightarrow>
          if setting_present settings required_attr then None
          else let env_hint = (if required_attr = ''kalk_top_base_url'' then ''KALK_TOP_BASE_URL''
                               else upper required_attr)
               in Some (withhold name ''TOOL_CONFIGURATION_MISSING'' (env_hint @ '' is not configured'')))"

text \<open>The set \<open>{str (item).strip () for item in items if str (item).strip ()}\<close>.\<close>

definition stripped_names :: "string list \<Rightarrow> string list" where
  "stripped_names items = filter (\<lambda>s. s \<noteq> []) (map strip items)"

definition semantic_envelope_gate_reason :: "string \<Rightarrow> engagement_view option \<Rightarrow> tool_decision option" where
  "semantic_envelope_gate_reason tool_name snapshot =
     (case Option.bind snapshot policy_action_envelope of
        None \<Rightarrow> None
      | Some envelope \<Rightarrow>
          if freshness envelope \<noteq> ''current'' then None
          else let name = strip tool_name;
                   forbidden = stripped_names (forbidden_tools envelope);
                   allowed = stripped_names (allowed_tools envelope);
                   allowed_action = stripped_names (allowed_action_tools envelope);
                   intent = ''action_intent='' @ action_intent envelope @ ''; ''
               in if name \<in> set forbidden
                  then Some (withhold name ''SEMANTIC_TOOL_FORBIDDEN''
                         (intent @ ''target='' @ action_target envelope @ ''; channel='' @ action_channel envelope))
                  else if allowed \<noteq> [] \<and> name \<notin> set allowed
                  then Some (withhold name ''SEMANTIC_TOOL_NOT_ALLOWED''
                         (intent @ ''allowed_tools='' @ join '','' (sort (remdups allowed))))
                  else if allowed_action \<noteq> [] \<and> name \<in> set ENVELOPE_ACTION_TOOLS \<and> name \<notin> set allowed_action
                  then Some (withhold name ''SEMANTIC_ACTION_TOOL_NOT_ALLOWED''
                         (intent @ ''allowed_action_tools='' @ join '','' (sort (remdups allowed_action))))
                  else None)"

text \<open>One turn of the loop: the decision on a tool, with the note it leaves when it is withheld.\<close>

definition decide_tool :: "pydict option \<Rightarrow> bool \<Rightarrow> bool \<Rightarrow> engagement_view option \<Rightarrow> kalk_decision option \<Rightarrow>
    string \<Rightarrow> tool_decision \<times> string option" where
  "decide_tool settings mutation_frozen send_frozen snapshot kalk name =
     (if name \<in> set [''send_email'', ''auto_send''] \<and> send_frozen
      then (withhold name ''SEND_FREEZE'' ''send freeze active'', Some (name @ '': SEND_FREEZE''))
      else if name \<in> set [''propose_mutation'', ''propose_plan''] \<and> mutation_frozen
      then (withhold name ''MUTATION_FREEZE'' ''mutation freeze active'', Some (name @ '': MUTATION_FREEZE''))
      else if name = ''call_kalk_top_quote'' \<and> kalk \<noteq> None \<and> \<not> kd_offered (the kalk)
      then let d = str_or (join '';'' (kd_reasons (the kalk))) ''not eligible''
           in (withhold name ''KALK_TOP_NOT_ELIGIBLE'' d, Some (name @ '': '' @ d))
      else case semantic_envelope_gate_reason name snapshot of
        Some semantic \<Rightarrow> (semantic, Some (name @ '': '' @ reason_code semantic))
      | None \<Rightarrow>
          (case config_gate_reason name settings of
             Some gated \<Rightarrow> (gated, Some (name @ '': '' @ td_detail gated))
           | None \<Rightarrow> (\<lparr>td_tool_name = name, td_offered = True, reason_code = ''AVAILABLE'', td_detail = []\<rparr>, None)))"

definition compute_effective_available_tools :: "string list \<Rightarrow> string list \<Rightarrow> pydict option \<Rightarrow> bool \<Rightarrow> bool \<Rightarrow>
    engagement_view option \<Rightarrow> pyval \<Rightarrow> tool_availability option" where
  "compute_effective_available_tools available_tools tool_allowlist settings mutation_frozen send_frozen
     snapshot decision_context =
     (let base = filter_planner_allowlist available_tools tool_allowlist;
          run = (\<lambda>kalk.
            let ds = map (\<lambda>n. (n, decide_tool settings mutation_frozen send_frozen snapshot kalk n)) base
            in \<lparr>offered = map fst (filter (\<lambda>(n, d, note). note = None) ds),
                filtered = map (\<lambda>(n, d, note). d) ds,
                unavailable_notes = List.map_filter (\<lambda>(n, d, note). note) ds\<rparr>)
      in if snapshot \<noteq> None \<and> ''call_kalk_top_quote'' \<in> set base
         then map_option (\<lambda>k. run (Some k)) (decision_from_snapshot (the snapshot) decision_context)
         else Some (run None))"

subsection \<open>The calculator\<close>

lemma first_some_eq_None: "first_some f xs = None \<longleftrightarrow> (\<forall>x\<in>set xs. f x = None)"
  by (induction xs) (auto split: option.splits)

lemma business_eligible_iff:
  "fst (evaluate_business_eligibility k a b c risks) \<longleftrightarrow>
     bounded k = ''wycena_oferta'' \<and> first_readiness_action a b c \<notin> set ([] # NOT_READY_ACTIONS) \<and>
     list_all (\<lambda>r. blocking_risk r = None) (dict_rows (case risks of None \<Rightarrow> [] | Some rs \<Rightarrow> rs))"
proof (cases "bounded k = ''wycena_oferta''")
  case True
  then show ?thesis
    unfolding evaluate_business_eligibility_def Let_def SALES_CASE_KINDS_def QUOTE_CASE_KINDS_def
    by (simp add: list_all_iff first_some_eq_None [symmetric] split: option.split)
next
  case False
  then show ?thesis
    unfolding evaluate_business_eligibility_def Let_def SALES_CASE_KINDS_def QUOTE_CASE_KINDS_def by simp
qed

lemma business_reasons:
  "snd (evaluate_business_eligibility k a b c risks) = [] \<longleftrightarrow> fst (evaluate_business_eligibility k a b c risks)"
  unfolding evaluate_business_eligibility_def Let_def by (simp split: option.split)

lemma technical_ready_int:
  "fst (evaluate_technical_readiness (case area of None \<Rightarrow> PNone | Some a \<Rightarrow> PInt a)) \<longleftrightarrow>
     (\<exists>a. area = Some a \<and> 0 < a)"
  by (cases area) (auto simp: evaluate_technical_readiness_def Let_def not_le)

lemma technical_reasons:
  "snd (evaluate_technical_readiness v) = [] \<longleftrightarrow> fst (evaluate_technical_readiness v)"
  by (simp add: evaluate_technical_readiness_def Let_def)

lemma sort_eq_Nil: "sort xs = [] \<longleftrightarrow> xs = []" for xs :: "'a::linorder list"
  by (metis length_0_conv length_sort)

lemma fact_blocks_empty:
  "decision_fact_block_reasons ctx t = Some [] \<longleftrightarrow>
     \<not> truthy (dget ''blocked'' (as_dict (dget t (as_dict (dget ''decision_fact_blocks'' (as_dict ctx))))))"
  unfolding decision_fact_block_reasons_def Let_def by (auto simp: sort_eq_Nil split: if_splits)

abbreviation kalk_readiness :: "engagement_view \<Rightarrow> pyval \<Rightarrow> string" where
  "kalk_readiness v ctx \<equiv> first_readiness_action
     (py_or (dget ''business_recommended_action'' (as_dict ctx))
        (PStr (case observed_action v of None \<Rightarrow> [] | Some a \<Rightarrow> a)))
     (dget ''next_best_action_type'' (as_dict ctx)) (dget ''action_planner_primary_action'' (as_dict ctx))"

lemma decision_from_snapshot_offered:
  assumes "decision_from_snapshot v ctx = Some d"
  shows "kd_offered d \<longleftrightarrow>
     bounded (PStr (case_kind v)) = ''wycena_oferta'' \<and>
     kalk_readiness v ctx \<notin> set ([] # NOT_READY_ACTIONS) \<and>
     list_all (\<lambda>r. blocking_risk r = None)
       (dict_rows (case understanding_risks v of None \<Rightarrow> [] | Some rs \<Rightarrow> rs)) \<and>
     (\<exists>a. heated_area_m2 v = Some a \<and> 0 < a) \<and>
     \<not> truthy (dget ''blocked'' (as_dict (dget ''call_kalk_top_quote''
          (as_dict (dget ''decision_fact_blocks'' (as_dict ctx))))))"
    and "kd_offered d \<longleftrightarrow> kd_reasons d = []"
    and "kd_offered d \<longrightarrow> business_eligible d \<and> technically_ready d"
proof -
  define B where "B = evaluate_business_eligibility (PStr (case_kind v))
     (py_or (dget ''business_recommended_action'' (as_dict ctx))
        (PStr (case observed_action v of None \<Rightarrow> [] | Some a \<Rightarrow> a)))
     (dget ''next_best_action_type'' (as_dict ctx)) (dget ''action_planner_primary_action'' (as_dict ctx))
     (understanding_risks v)"
  define T where "T = evaluate_technical_readiness (case heated_area_m2 v of None \<Rightarrow> PNone | Some a \<Rightarrow> PInt a)"
  obtain br bs where B: "B = (br, bs)" by (cases B)
  obtain tr ts where T: "T = (tr, ts)" by (cases T)
  obtain fb where fb: "decision_fact_block_reasons ctx ''call_kalk_top_quote'' = Some fb"
    and d: "d = (if \<not> br then \<lparr>kd_offered = False, business_eligible = False, technically_ready = tr,
                     kd_reasons = bs @ ts @ fb\<rparr>
                 else if \<not> tr then \<lparr>kd_offered = False, business_eligible = True, technically_ready = False,
                     kd_reasons = ts @ fb\<rparr>
                 else if fb \<noteq> [] then \<lparr>kd_offered = False, business_eligible = True,
                     technically_ready = False, kd_reasons = fb\<rparr>
                 else \<lparr>kd_offered = True, business_eligible = True, technically_ready = True, kd_reasons = []\<rparr>)"
    using assms unfolding decision_from_snapshot_def Let_def B_def [symmetric] T_def [symmetric] B T by auto
  have bs: "bs = [] \<longleftrightarrow> br" using business_reasons B unfolding B_def by (metis fst_conv snd_conv)
  have ts: "ts = [] \<longleftrightarrow> tr" using technical_reasons T unfolding T_def by (metis fst_conv snd_conv)
  have off: "kd_offered d \<longleftrightarrow> br \<and> tr \<and> fb = []" by (simp add: d)
  have br: "br = fst B" and tr: "tr = fst T" by (simp_all add: B T)
  have f0: "fb = [] \<longleftrightarrow> \<not> truthy (dget ''blocked'' (as_dict (dget ''call_kalk_top_quote''
      (as_dict (dget ''decision_fact_blocks'' (as_dict ctx))))))"
    using fb fact_blocks_empty by (metis option.inject)
  show "kd_offered d \<longleftrightarrow>
     bounded (PStr (case_kind v)) = ''wycena_oferta'' \<and>
     kalk_readiness v ctx \<notin> set ([] # NOT_READY_ACTIONS) \<and>
     list_all (\<lambda>r. blocking_risk r = None)
       (dict_rows (case understanding_risks v of None \<Rightarrow> [] | Some rs \<Rightarrow> rs)) \<and>
     (\<exists>a. heated_area_m2 v = Some a \<and> 0 < a) \<and>
     \<not> truthy (dget ''blocked'' (as_dict (dget ''call_kalk_top_quote''
          (as_dict (dget ''decision_fact_blocks'' (as_dict ctx))))))"
    unfolding off br tr f0 unfolding B_def T_def business_eligible_iff technical_ready_int by blast
  show "kd_offered d \<longleftrightarrow> kd_reasons d = []" using bs ts by (simp add: d)
  show "kd_offered d \<longrightarrow> business_eligible d \<and> technically_ready d" by (simp add: d)
qed

text \<open>
  The calculator is offered exactly to a quote case whose first known readiness,
  the authoritative recommendation before the fallbacks, is not one of the waiting ones, with no
  blocking contradiction, a positive heated area and no fact conflict on this action; a refusal
  always gives a reason and an offer none.
\<close>

theorem kalk_offered_iff:
  assumes "decision_from_snapshot v ctx = Some d"
  shows "(kd_offered d \<longleftrightarrow>
     bounded (PStr (case_kind v)) = ''wycena_oferta'' \<and>
     kalk_readiness v ctx \<notin> set ([] # NOT_READY_ACTIONS) \<and>
     list_all (\<lambda>r. blocking_risk r = None)
       (dict_rows (case understanding_risks v of None \<Rightarrow> [] | Some rs \<Rightarrow> rs)) \<and>
     (\<exists>a. heated_area_m2 v = Some a \<and> 0 < a) \<and>
     \<not> truthy (dget ''blocked'' (as_dict (dget ''call_kalk_top_quote''
          (as_dict (dget ''decision_fact_blocks'' (as_dict ctx))))))) \<and>
     (kd_offered d \<longleftrightarrow> kd_reasons d = [])"
  using decision_from_snapshot_offered(1,2) [OF assms] by (rule conjI)

theorem kalk_offered_iff_witness:
  "\<exists>d. decision_from_snapshot \<lparr>case_kind = ''wycena_oferta'', observed_action = Some ''prepare_offer'',
          understanding_risks = None, heated_area_m2 = Some 120, policy_action_envelope = None\<rparr> PNone = Some d \<and>
       kd_offered d"
proof -
  define v where "v = \<lparr>case_kind = ''wycena_oferta'', observed_action = Some ''prepare_offer'',
    understanding_risks = None, heated_area_m2 = Some 120, policy_action_envelope = None\<rparr>"
  have "decision_from_snapshot v PNone \<noteq> None" unfolding v_def by code_simp
  then obtain d where d: "decision_from_snapshot v PNone = Some d" by blast
  have "bounded (PStr (case_kind v)) = ''wycena_oferta''"
    "kalk_readiness v PNone \<notin> set ([] # NOT_READY_ACTIONS)"
    "list_all (\<lambda>r. blocking_risk r = None)
       (dict_rows (case understanding_risks v of None \<Rightarrow> [] | Some rs \<Rightarrow> rs))"
    unfolding v_def by code_simp+
  moreover have "heated_area_m2 v = Some 120" by (simp add: v_def)
  ultimately have "kd_offered d" using kalk_offered_iff [OF d] by simp
  with d show ?thesis unfolding v_def by blast
qed

subsection \<open>The offered tools\<close>

lemma decide_tool_note:
  "snd (decide_tool settings mf sf snap kalk n) = None \<longleftrightarrow>
     td_offered (fst (decide_tool settings mf sf snap kalk n))"
proof -
  have s: "\<not> td_offered x" if "semantic_envelope_gate_reason n snap = Some x" for x
    using that unfolding semantic_envelope_gate_reason_def Let_def
    by (auto split: option.splits if_splits)
  have c: "\<not> td_offered x" if "config_gate_reason n settings = Some x" for x
    using that unfolding config_gate_reason_def Let_def by (auto split: option.splits if_splits)
  show ?thesis
    unfolding decide_tool_def Let_def using s c by (auto split: option.splits)
qed

lemma decide_tool_clear_iff:
  "snd (decide_tool settings mf sf snap kalk n) = None \<longleftrightarrow>
     \<not> (n \<in> set [''send_email'', ''auto_send''] \<and> sf) \<and>
     \<not> (n \<in> set [''propose_mutation'', ''propose_plan''] \<and> mf) \<and>
     \<not> (n = ''call_kalk_top_quote'' \<and> kalk \<noteq> None \<and> \<not> kd_offered (the kalk)) \<and>
     semantic_envelope_gate_reason n snap = None \<and> config_gate_reason n settings = None"
proof -
  have if_note: "snd (if b then (x, Some y) else r) = None \<longleftrightarrow> \<not> b \<and> snd r = None"
    for b x and y :: string and r :: "tool_decision \<times> string option" by simp
  show ?thesis
    unfolding decide_tool_def Let_def if_note by (simp split: option.split)
qed

lemma compute_result:
  assumes "compute_effective_available_tools avail allow settings mf sf snap ctx = Some a"
  obtains kalk where
    "offered a = filter (\<lambda>n. snd (decide_tool settings mf sf snap kalk n) = None)
       (filter_planner_allowlist avail allow)"
    "filtered a = map (\<lambda>n. fst (decide_tool settings mf sf snap kalk n)) (filter_planner_allowlist avail allow)"
    "\<And>v. snap = Some v \<Longrightarrow> ''call_kalk_top_quote'' \<in> set (filter_planner_allowlist avail allow) \<Longrightarrow>
       kalk = decision_from_snapshot v ctx \<and> kalk \<noteq> None"
proof -
  let ?base = "filter_planner_allowlist avail allow"
  let ?run = "\<lambda>kalk. let ds = map (\<lambda>n. (n, decide_tool settings mf sf snap kalk n)) ?base
            in \<lparr>offered = map fst (filter (\<lambda>(n, d, note). note = None) ds),
                filtered = map (\<lambda>(n, d, note). d) ds,
                unavailable_notes = List.map_filter (\<lambda>(n, d, note). note) ds\<rparr>"
  have fields: "offered (?run kalk) = filter (\<lambda>n. snd (decide_tool settings mf sf snap kalk n) = None) ?base"
    "filtered (?run kalk) = map (\<lambda>n. fst (decide_tool settings mf sf snap kalk n)) ?base" for kalk
    by (simp_all add: Let_def filter_map comp_def case_prod_beta)
  show thesis
  proof (cases "snap \<noteq> None \<and> ''call_kalk_top_quote'' \<in> set ?base")
    case True
    then obtain v where v: "snap = Some v" by blast
    with True assms obtain k where "decision_from_snapshot v ctx = Some k" "a = ?run (Some k)"
      unfolding compute_effective_available_tools_def Let_def by auto
    with fields v that [of "Some k"] show thesis by simp
  next
    case False
    then have "a = ?run None"
      using assms unfolding compute_effective_available_tools_def Let_def by auto
    with fields False that [of None] show thesis by auto
  qed
qed

lemma config_gate_None:
  "config_gate_reason n settings = None \<longleftrightarrow>
     (strip n = ''call_kalk_top_quote'' \<longrightarrow> setting_present settings ''kalk_top_base_url'')"
  by (simp add: config_gate_reason_def CONFIG_GATED_TOOLS_def Let_def)

lemma semantic_gate_None:
  assumes "semantic_envelope_gate_reason n (Some v) = None"
    and "policy_action_envelope v = Some env" and "freshness env = ''current''"
  shows "strip n \<notin> set (stripped_names (forbidden_tools env)) \<and>
     (stripped_names (allowed_tools env) \<noteq> [] \<longrightarrow> strip n \<in> set (stripped_names (allowed_tools env)))"
proof -
  have "\<not> freshness env \<noteq> ''current''" using assms(3) by simp
  then show ?thesis
    using assms(1,2) unfolding semantic_envelope_gate_reason_def Let_def
    by (simp only: Option.bind.simps option.case if_False) (auto split: if_splits)
qed

text \<open>
  Every tool the planner is offered was available, is on the constitution's
  allowlist, is not globally forbidden and passes the execution guard; under the mutation freeze it
  is no write tool; a current action envelope does not forbid it and, when the envelope lists its
  tools, is among them; and the calculator is offered only with a configured endpoint and, where a
  snapshot is at hand, for a case that is eligible.
\<close>

theorem offered_tools_are_cleared:
  assumes a: "compute_effective_available_tools avail allow settings mf sf snap ctx = Some a"
    and n: "n \<in> set (offered a)"
  shows "n \<in> set avail \<and> n \<in> set allow \<and> n \<notin> set FORBIDDEN_TOOL_NAMES \<and>
     (strip n = n \<longrightarrow> guard_tool_plan n (Some allow) = None) \<and>
     (mf \<longrightarrow> n \<notin> set [''propose_mutation'', ''propose_plan'']) \<and>
     (\<forall>v env. snap = Some v \<and> policy_action_envelope v = Some env \<and> freshness env = ''current'' \<longrightarrow>
        strip n \<notin> set (stripped_names (forbidden_tools env)) \<and>
        (stripped_names (allowed_tools env) \<noteq> [] \<longrightarrow> strip n \<in> set (stripped_names (allowed_tools env)))) \<and>
     (n = ''call_kalk_top_quote'' \<longrightarrow> setting_present settings ''kalk_top_base_url'' \<and>
        (\<forall>v. snap = Some v \<longrightarrow> (\<exists>d. decision_from_snapshot v ctx = Some d \<and> kd_offered d)))"
proof -
  let ?base = "filter_planner_allowlist avail allow"
  obtain kalk where off: "offered a = filter (\<lambda>n. snd (decide_tool settings mf sf snap kalk n) = None) ?base"
    and kalk: "\<And>v. snap = Some v \<Longrightarrow> ''call_kalk_top_quote'' \<in> set ?base \<Longrightarrow>
       kalk = decision_from_snapshot v ctx \<and> kalk \<noteq> None"
    using compute_result [OF a] by metis
  have clear: "snd (decide_tool settings mf sf snap kalk n) = None" and base: "n \<in> set ?base"
    using n unfolding off by auto
  note c = clear [unfolded decide_tool_clear_iff]
  have b: "n \<in> set avail" "n \<in> set allow" "n \<notin> set FORBIDDEN_TOOL_NAMES"
    using base unfolding filter_planner_allowlist_def by auto
  have guard: "guard_tool_plan n (Some allow) = None" if "strip n = n"
    unfolding guard_tool_plan_def Let_def that using b by simp
  have sem: "strip n \<notin> set (stripped_names (forbidden_tools env)) \<and>
        (stripped_names (allowed_tools env) \<noteq> [] \<longrightarrow> strip n \<in> set (stripped_names (allowed_tools env)))"
    if "snap = Some v" "policy_action_envelope v = Some env" "freshness env = ''current''" for v env
    using semantic_gate_None [OF _ that(2,3)] c that(1) by blast
  have conf: "setting_present settings ''kalk_top_base_url''" if "n = ''call_kalk_top_quote''"
  proof -
    have "strip ''call_kalk_top_quote'' = ''call_kalk_top_quote''" by code_simp
    with c that config_gate_None show ?thesis by metis
  qed
  have elig: "\<exists>d. decision_from_snapshot v ctx = Some d \<and> kd_offered d"
    if nk: "n = ''call_kalk_top_quote''" and sv: "snap = Some v" for v
  proof -
    obtain d where "decision_from_snapshot v ctx = Some d" "kalk = Some d"
      using kalk [OF sv] base unfolding nk by auto
    moreover have "\<not> (kalk \<noteq> None \<and> \<not> kd_offered (the kalk))" using c nk by blast
    ultimately show ?thesis by auto
  qed
  from b guard sem conf elig c show ?thesis by blast
qed

theorem offered_tools_are_cleared_witness:
  "let avail = [''search_gmail_thread'', ''propose_plan'', ''send_email''];
       r = compute_effective_available_tools avail avail None True True None PNone
   in r = Some (the r) \<and> offered (the r) = [''search_gmail_thread''] \<and>
      ''search_gmail_thread'' \<notin> set FORBIDDEN_TOOL_NAMES"
proof -
  define avail where "avail = [''search_gmail_thread'', ''propose_plan'', ''send_email'']"
  define r where "r = compute_effective_available_tools avail avail None True True None PNone"
  have "r \<noteq> None" unfolding r_def avail_def by code_simp
  then have a: "compute_effective_available_tools avail avail None True True None PNone = Some (the r)"
    by (auto simp: r_def)
  have off: "offered (the r) = [''search_gmail_thread'']" unfolding r_def avail_def by code_simp
  then have n: "''search_gmail_thread'' \<in> set (offered (the r))" by simp
  from offered_tools_are_cleared [OF a n] have "''search_gmail_thread'' \<notin> set FORBIDDEN_TOOL_NAMES" by blast
  with a off show ?thesis
    unfolding Let_def avail_def [symmetric] r_def [symmetric] by (simp add: r_def)
qed

text \<open>
  Every tool the guardrails leave gets exactly one decision, in the order in which
  the tools came, and the offered list is the sub-list of those decided for.
\<close>

theorem every_tool_decided_once:
  assumes a: "compute_effective_available_tools avail allow settings mf sf snap ctx = Some a"
  shows "length (filtered a) = length (filter_planner_allowlist avail allow) \<and>
     offered a = map fst (filter (\<lambda>(n, d). td_offered d)
       (zip (filter_planner_allowlist avail allow) (filtered a)))"
proof -
  let ?base = "filter_planner_allowlist avail allow"
  obtain kalk where off: "offered a = filter (\<lambda>n. snd (decide_tool settings mf sf snap kalk n) = None) ?base"
    and fil: "filtered a = map (\<lambda>n. fst (decide_tool settings mf sf snap kalk n)) ?base"
    using compute_result [OF a] by metis
  have "filter (\<lambda>n. snd (decide_tool settings mf sf snap kalk n) = None) xs =
      map fst (filter (\<lambda>(n, d). td_offered d)
        (zip xs (map (\<lambda>n. fst (decide_tool settings mf sf snap kalk n)) xs)))" for xs
    by (induction xs) (simp_all add: decide_tool_note)
  then show ?thesis by (simp add: off fil)
qed

theorem every_tool_decided_once_witness:
  "let r = the (compute_effective_available_tools [''propose_plan''] [''propose_plan''] None True True None PNone)
   in length (filtered r) = 1 \<and> offered r = []"
proof -
  define r where "r = compute_effective_available_tools [''propose_plan''] [''propose_plan''] None True True None PNone"
  have "r \<noteq> None" unfolding r_def by code_simp
  then have a: "compute_effective_available_tools [''propose_plan''] [''propose_plan''] None True True None PNone
      = Some (the r)" by (auto simp: r_def)
  have "length (filter_planner_allowlist [''propose_plan''] [''propose_plan'']) = 1" by code_simp
  moreover have "offered (the r) = []" unfolding r_def by code_simp
  ultimately show ?thesis
    using every_tool_decided_once [OF a] unfolding Let_def r_def [symmetric] by simp
qed

end
