(* ===== verification/Mailbox_Store.thy ===== *)
theory Mailbox_Store
  imports Decision_Store "HOL-Library.Product_Lexorder"
begin

text \<open>
  The tables of the in-memory mailbox store (\<open>mailbox_memory/inmemory.py\<close>), the reference
  implementation of the store the runtime reads and writes: cases, messages, documents, events,
  snapshots, thread memories, proposals, policy decisions, execution results, calendar and Drive
  rows, raw observations, signals and cursors.  The decision-revision tables are the record of
  \<open>Decision_Store\<close>; the fact table is here and its operations are in \<open>Fact_Memory\<close>.

  A table is an association list in insertion order.  Rows are stored and returned as copies
  (\<open>dict (row)\<close>), so no row of a table is shared with a caller.  A sort whose key conversion raises
  makes the operation raise (\<open>None\<close>).  The vector search over chunk embeddings is not modelled:
  it scores with a floating-point cosine.

  Two locales state what clients rely on: \<open>row_table\<close> for the tables in which the last write of a
  key wins, and \<open>append_once\<close> for those in which the first one does.
\<close>

subsection \<open>State\<close>

type_synonym table = "(string \<times> pydict) list"

record mailbox_store =
  m_cases :: table
  m_messages :: table
  m_attachments :: table
  m_documents :: table
  m_chunks :: "(string \<times> pydict list) list"
  m_events :: "pydict list"
  m_facts :: "(string \<times> pydict list) list"
  m_snapshots :: table
  m_case_snapshot_versions :: "(string \<times> pydict list) list"
  m_thread_memories :: table
  m_next_actions :: table
  m_drive_documents :: table
  m_drive_chunks :: "(string \<times> pydict list) list"
  m_drive_facts :: "(string \<times> pydict list) list"
  m_drive_runs :: table
  m_raw_observations :: table
  m_raw_observation_fingerprints :: "(string \<times> string) list"
  m_signals :: table
  m_signal_idempotency :: "(string \<times> string) list"
  m_signal_attempts :: "pydict list"
  m_source_cursors :: table
  m_action_proposals :: table
  m_policy_decisions :: table
  m_action_proposals_v2 :: table
  m_execution_results :: table
  m_calendar_events :: table
  m_calendar_case_links :: table
  m_document_intelligence_results :: table
  m_revisions :: decision_store

definition empty_mailbox :: mailbox_store where
  "empty_mailbox = \<lparr>m_cases = [], m_messages = [], m_attachments = [], m_documents = [], m_chunks = [],
     m_events = [], m_facts = [], m_snapshots = [], m_case_snapshot_versions = [], m_thread_memories = [],
     m_next_actions = [], m_drive_documents = [], m_drive_chunks = [], m_drive_facts = [],
     m_drive_runs = [], m_raw_observations = [], m_raw_observation_fingerprints = [], m_signals = [],
     m_signal_idempotency = [], m_signal_attempts = [], m_source_cursors = [], m_action_proposals = [],
     m_policy_decisions = [], m_action_proposals_v2 = [], m_execution_results = [],
     m_calendar_events = [], m_calendar_case_links = [], m_document_intelligence_results = [],
     m_revisions = empty_store\<rparr>"

subsection \<open>Shared shapes\<close>

text \<open>
  \<open>str (row.get (k) or "")\<close> and its stripped form; \<open>dict (item) if item else None\<close>;
  \<open>rows[:limit]\<close>; a stable descending sort (\<open>sort (reverse=True)\<close> keeps equal rows in order).
\<close>

abbreviation col :: "string \<Rightarrow> pydict \<Rightarrow> string" where
  "col k row \<equiv> text_of (dget k row)"

abbreviation keycol :: "string \<Rightarrow> pydict \<Rightarrow> string" where
  "keycol k row \<equiv> norm_of (dget k row)"

definition row_or_none :: "pydict option \<Rightarrow> pydict option" where
  "row_or_none r = (case r of Some row \<Rightarrow> if row = [] then None else Some row | None \<Rightarrow> None)"

definition slice_to :: "int \<Rightarrow> 'a list \<Rightarrow> 'a list" where
  "slice_to limit xs = (if 0 \<le> limit then take (nat limit) xs else take (length xs - nat (- limit)) xs)"

definition sort_desc :: "('a \<Rightarrow> 'k::linorder) \<Rightarrow> 'a list \<Rightarrow> 'a list" where
  "sort_desc f xs = rev (sort_key f (rev xs))"

definition update_if :: "string \<Rightarrow> pydict \<Rightarrow> table \<Rightarrow> table" where
  "update_if k row t = (if k = [] then t else AList.update k row t)"

definition updated_key :: "pydict \<Rightarrow> string" where
  "updated_key item = text_of (py_or (dget ''updated_at'' item) (dget ''created_at'' item))"

definition rows_where :: "string \<Rightarrow> string \<Rightarrow> table \<Rightarrow> pydict list" where
  "rows_where k v t = filter (\<lambda>item. col k item = v) (map snd t)"

definition lookup_rows :: "string \<Rightarrow> (string \<times> pydict list) list \<Rightarrow> pydict list" where
  "lookup_rows k t = (case map_of t k of Some rows \<Rightarrow> rows | None \<Rightarrow> [])"

subsection \<open>Cases, messages, documents, events\<close>

definition CASE_DEFAULTS :: pydict where
  "CASE_DEFAULTS = [(''case_key'', PStr []), (''thread_id'', PStr []), (''case_family'', PStr ''unknown''),
     (''mailbox'', PStr []), (''subject'', PStr []), (''status'', PStr ''open''), (''customer_name'', PStr []),
     (''customer_email'', PStr []), (''latest_signal_id'', PStr []), (''latest_signal_at'', PStr []),
     (''last_rebuild_at'', PStr []), (''last_projection_refresh_at'', PStr []),
     (''last_source_kinds_seen'', PList []), (''metadata'', PDict [])]"

definition case_payload_with_defaults :: "pydict \<Rightarrow> pydict" where
  "case_payload_with_defaults row =
     foldl (\<lambda>payload (f, d). if dget f payload = PNone then AList.update f d payload else setdefault f d payload)
       row CASE_DEFAULTS"

definition upsert_case :: "pydict \<Rightarrow> mailbox_store \<Rightarrow> mailbox_store" where
  "upsert_case row st =
     (let case_id = keycol ''case_id'' row in
      if case_id = [] then st
      else st\<lparr>m_cases := AList.update case_id
                (AList.update ''case_id'' (PStr case_id) (case_payload_with_defaults row)) (m_cases st)\<rparr>)"

datatype mutate_error = CaseIdRequired | CaseNotFound string | MutatorRaised | MutatorReturnedNoDict

definition mutate_case ::
  "string \<Rightarrow> (pydict \<Rightarrow> pyval option) \<Rightarrow> bool \<Rightarrow> mailbox_store \<Rightarrow> (mutate_error + pydict) \<times> mailbox_store" where
  "mutate_case case_id mutator create_if_missing st =
     (let cid = strip case_id in
      if cid = [] then (Inl CaseIdRequired, st)
      else case (map_of (m_cases st) cid, create_if_missing) of
             (None, False) \<Rightarrow> (Inl (CaseNotFound cid), st)
           | (current, _) \<Rightarrow>
               (let base = (case current of Some row \<Rightarrow> row
                              | None \<Rightarrow> [(''case_id'', PStr cid), (''metadata'', PDict [])])
                in case mutator base of
                     None \<Rightarrow> (Inl MutatorRaised, st)
                   | Some (PDict updated) \<Rightarrow>
                       (let payload = AList.update ''case_id'' (PStr cid) (case_payload_with_defaults updated)
                        in (Inr payload, st\<lparr>m_cases := AList.update cid payload (m_cases st)\<rparr>))
                   | Some _ \<Rightarrow> (Inl MutatorReturnedNoDict, st)))"

definition fetch_case :: "string \<Rightarrow> mailbox_store \<Rightarrow> pydict option" where
  "fetch_case case_id st = row_or_none (map_of (m_cases st) case_id)"

definition fetch_cases :: "int \<Rightarrow> mailbox_store \<Rightarrow> pydict list" where
  "fetch_cases limit st = slice_to limit (sort_desc updated_key (map snd (m_cases st)))"

definition upsert_message :: "pydict \<Rightarrow> mailbox_store \<Rightarrow> mailbox_store" where
  "upsert_message row st = st\<lparr>m_messages := update_if (keycol ''message_id'' row) row (m_messages st)\<rparr>"

definition fetch_message :: "string \<Rightarrow> mailbox_store \<Rightarrow> pydict option" where
  "fetch_message message_id st =
     (let mid = strip message_id in
      if mid = [] then None else row_or_none (map_of (m_messages st) mid))"

definition fetch_case_by_message_id :: "string \<Rightarrow> mailbox_store \<Rightarrow> pydict option" where
  "fetch_case_by_message_id message_id st =
     (case row_or_none (map_of (m_messages st) message_id) of
        None \<Rightarrow> None
      | Some message \<Rightarrow> fetch_case (keycol ''case_id'' message) st)"

definition fetch_any_message :: "string \<Rightarrow> mailbox_store \<Rightarrow> pydict option" where
  "fetch_any_message order st =
     (let rows = map snd (m_messages st); direction = lower (strip (str_or order ''oldest''));
          key = (\<lambda>item. (col ''received_at'' item, col ''created_at'' item))
      in case (if direction \<in> set [''newest'', ''latest'', ''desc''] then sort_desc key rows
               else sort_key key rows) of
           [] \<Rightarrow> None
         | row # _ \<Rightarrow> Some row)"

definition fetch_messages_for_case :: "string \<Rightarrow> int \<Rightarrow> mailbox_store \<Rightarrow> pydict list" where
  "fetch_messages_for_case case_id limit st =
     slice_to limit (sort_desc (col ''received_at'') (rows_where ''case_id'' case_id (m_messages st)))"

definition upsert_attachment :: "pydict \<Rightarrow> mailbox_store \<Rightarrow> mailbox_store" where
  "upsert_attachment row st =
     st\<lparr>m_attachments := update_if (keycol ''attachment_id'' row) row (m_attachments st)\<rparr>"

definition upsert_document :: "pydict \<Rightarrow> mailbox_store \<Rightarrow> mailbox_store" where
  "upsert_document row st = st\<lparr>m_documents := update_if (keycol ''document_id'' row) row (m_documents st)\<rparr>"

definition replace_document_chunks :: "string \<Rightarrow> pydict list \<Rightarrow> mailbox_store \<Rightarrow> mailbox_store" where
  "replace_document_chunks document_id rows st =
     st\<lparr>m_chunks := AList.update document_id rows (m_chunks st)\<rparr>"

definition fetch_documents_for_case :: "string \<Rightarrow> int \<Rightarrow> mailbox_store \<Rightarrow> pydict list" where
  "fetch_documents_for_case case_id limit st =
     slice_to limit (sort_desc updated_key (rows_where ''case_id'' case_id (m_documents st)))"

text \<open>
  The chunks of the documents of a case, by document and ordinal; a document that is not in the
  table belongs to the case \<open>""\<close>.
\<close>

definition chunks_of_case :: "string \<Rightarrow> table \<Rightarrow> (string \<times> pydict list) list \<Rightarrow> pydict list" where
  "chunks_of_case case_id docs chunks =
     concat (map snd (filter (\<lambda>(document_id, items).
       col ''case_id'' (case map_of docs document_id of Some d \<Rightarrow> d | None \<Rightarrow> []) = case_id) chunks))"

definition sort_chunks :: "pydict list \<Rightarrow> pydict list option" where
  "sort_chunks rows =
     (if list_all (\<lambda>row. int_field ''ordinal'' row \<noteq> None) rows
      then Some (sort_key (\<lambda>row. (col ''document_id'' row, the (int_field ''ordinal'' row))) rows)
      else None)"

definition fetch_chunks_for_case :: "string \<Rightarrow> int \<Rightarrow> mailbox_store \<Rightarrow> pydict list option" where
  "fetch_chunks_for_case case_id limit st =
     map_option (slice_to limit) (sort_chunks (chunks_of_case case_id (m_documents st) (m_chunks st)))"

definition append_event :: "pydict \<Rightarrow> mailbox_store \<Rightarrow> mailbox_store" where
  "append_event row st =
     (let event_id = keycol ''event_id'' row in
      if event_id \<noteq> [] \<and> \<not> list_ex (\<lambda>item. event_id = col ''event_id'' item) (m_events st)
      then st\<lparr>m_events := m_events st @ [row]\<rparr> else st)"

definition fetch_events_for_case :: "string \<Rightarrow> int \<Rightarrow> mailbox_store \<Rightarrow> pydict list" where
  "fetch_events_for_case case_id limit st =
     slice_to limit (sort_desc (col ''occurred_at'') (filter (\<lambda>item. col ''case_id'' item = case_id) (m_events st)))"

definition fetch_events :: "string list \<Rightarrow> int \<Rightarrow> mailbox_store \<Rightarrow> pydict list" where
  "fetch_events event_types limit st =
     slice_to limit (sort_desc (\<lambda>item. text_of (py_or (dget ''occurred_at'' item) (dget ''created_at'' item)))
       (filter (\<lambda>item. event_types = [] \<or> col ''event_type'' item \<in> set event_types) (m_events st)))"

definition fetch_latest_adjudication_link_override :: "string \<Rightarrow> mailbox_store \<Rightarrow> pydict option" where
  "fetch_latest_adjudication_link_override signal_id st =
     (let sid = strip signal_id in
      if sid = [] then None
      else first_some (\<lambda>ev. if col ''event_type'' ev \<noteq> ''adjudication_link_override'' then None
             else case dget ''payload'' ev of
                    PDict payload \<Rightarrow> if col ''signal_id'' payload = sid then Some payload else None
                  | _ \<Rightarrow> None) (rev (m_events st)))"

subsection \<open>Snapshots, thread memories, next actions\<close>

definition upsert_snapshot :: "string \<Rightarrow> pydict \<Rightarrow> mailbox_store \<Rightarrow> mailbox_store" where
  "upsert_snapshot case_id row st = st\<lparr>m_snapshots := AList.update case_id row (m_snapshots st)\<rparr>"

definition fetch_snapshot :: "string \<Rightarrow> mailbox_store \<Rightarrow> pydict option" where
  "fetch_snapshot case_id st = row_or_none (map_of (m_snapshots st) case_id)"

text \<open>
  The history of a case's snapshots is kept sorted by version.  When a version does not convert,
  the sort raises after the append: the row stays, at the end.
\<close>

definition append_case_snapshot_version :: "pydict \<Rightarrow> mailbox_store \<Rightarrow> unit option \<times> mailbox_store" where
  "append_case_snapshot_version row st =
     (let case_id = keycol ''case_id'' row; snapshot_id = keycol ''snapshot_id'' row in
      if case_id = [] \<or> snapshot_id = [] then (Some (), st)
      else let rows = lookup_rows case_id (m_case_snapshot_versions st);
               put = (\<lambda>rs. st\<lparr>m_case_snapshot_versions := AList.update case_id rs (m_case_snapshot_versions st)\<rparr>)
           in if list_ex (\<lambda>item. col ''snapshot_id'' item = snapshot_id) rows then (Some (), put rows)
              else case sort_by_int ''version'' (rows @ [row]) of
                     Some sorted_rows \<Rightarrow> (Some (), put sorted_rows)
                   | None \<Rightarrow> (None, put (rows @ [row])))"

definition fetch_case_snapshot_versions :: "string \<Rightarrow> int \<Rightarrow> mailbox_store \<Rightarrow> pydict list option" where
  "fetch_case_snapshot_versions case_id limit st =
     map_option (slice_to limit) (sort_by_int ''version'' (lookup_rows case_id (m_case_snapshot_versions st)))"

definition fetch_latest_case_snapshot_version :: "string \<Rightarrow> mailbox_store \<Rightarrow> pydict option option" where
  "fetch_latest_case_snapshot_version case_id st =
     map_option (\<lambda>rows. if rows = [] then None else Some (last rows)) (fetch_case_snapshot_versions case_id 1000 st)"

definition upsert_thread_memory :: "pydict \<Rightarrow> bool \<Rightarrow> mailbox_store \<Rightarrow> unit option \<times> mailbox_store" where
  "upsert_thread_memory row only_if_absent st =
     (let thread_id = keycol ''thread_id'' row in
      if thread_id = [] then (Some (), st)
      else let put = (\<lambda>payload. (Some (), st\<lparr>m_thread_memories := AList.update thread_id payload (m_thread_memories st)\<rparr>));
               payload = AList.update ''thread_id'' (PStr thread_id) row
           in case map_of (m_thread_memories st) thread_id of
                None \<Rightarrow> (let p1 = AList.update ''version'' (PInt 1) payload
                          in put (setdefault ''created_at'' (dget ''updated_at'' p1) p1))
              | Some existing \<Rightarrow>
                  if only_if_absent then (Some (), st)
                  else let same_content = (col ''memory_sha256'' existing = col ''memory_sha256'' payload)
                       in case py_int (py_or (dget ''version'' existing) (PInt 1)) of
                            None \<Rightarrow> (None, st)
                          | Some v \<Rightarrow>
                              (let p1 = AList.update ''version'' (PInt (v + (if same_content then 0 else 1))) payload;
                                   p2 = AList.update ''created_at'' (dget ''created_at'' existing) p1
                               in put (if same_content
                                       then AList.update ''updated_at'' (dget ''updated_at'' existing) p2 else p2)))"

definition fetch_thread_memory :: "string \<Rightarrow> mailbox_store \<Rightarrow> pydict option" where
  "fetch_thread_memory thread_id st = row_or_none (map_of (m_thread_memories st) (strip thread_id))"

definition upsert_next_action :: "string \<Rightarrow> pydict \<Rightarrow> mailbox_store \<Rightarrow> mailbox_store" where
  "upsert_next_action case_id row st = st\<lparr>m_next_actions := AList.update case_id row (m_next_actions st)\<rparr>"

definition fetch_next_action :: "string \<Rightarrow> mailbox_store \<Rightarrow> pydict option" where
  "fetch_next_action case_id st = row_or_none (map_of (m_next_actions st) case_id)"

subsection \<open>Proposals, policy decisions, execution results\<close>

definition upsert_action_proposal :: "pydict \<Rightarrow> mailbox_store \<Rightarrow> mailbox_store" where
  "upsert_action_proposal row st =
     st\<lparr>m_action_proposals := update_if (keycol ''proposal_id'' row) row (m_action_proposals st)\<rparr>"

definition fetch_action_proposal :: "string \<Rightarrow> mailbox_store \<Rightarrow> pydict option" where
  "fetch_action_proposal proposal_id st = row_or_none (map_of (m_action_proposals st) (strip proposal_id))"

text \<open>An empty filter value lets every row through.\<close>

definition passes :: "string \<Rightarrow> string \<Rightarrow> pydict \<Rightarrow> bool" where
  "passes k v item \<longleftrightarrow> v = [] \<or> col k item = v"

definition fetch_action_proposals :: "string \<Rightarrow> string \<Rightarrow> int \<Rightarrow> mailbox_store \<Rightarrow> pydict list" where
  "fetch_action_proposals case_id status limit st =
     slice_to limit (sort_desc (col ''created_at'')
       (filter (\<lambda>item. passes ''case_id'' case_id item \<and> passes ''status'' status item)
         (map snd (m_action_proposals st))))"

definition append_policy_decision :: "pydict \<Rightarrow> mailbox_store \<Rightarrow> bool \<times> mailbox_store" where
  "append_policy_decision row st =
     (let policy_decision_id = keycol ''policy_decision_id'' row in
      if policy_decision_id = [] \<or> map_of (m_policy_decisions st) policy_decision_id \<noteq> None then (False, st)
      else (True, st\<lparr>m_policy_decisions := AList.update policy_decision_id row (m_policy_decisions st)\<rparr>))"

definition fetch_policy_decision :: "string \<Rightarrow> mailbox_store \<Rightarrow> pydict option" where
  "fetch_policy_decision policy_decision_id st =
     row_or_none (map_of (m_policy_decisions st) (strip policy_decision_id))"

definition of_origin :: "string \<Rightarrow> string \<Rightarrow> string \<Rightarrow> pydict \<Rightarrow> bool" where
  "of_origin case_id source_signal_id source_message_id item \<longleftrightarrow>
     passes ''case_id'' case_id item \<and> passes ''source_signal_id'' source_signal_id item \<and>
     passes ''source_message_id'' source_message_id item"

definition fetch_policy_decisions :: "string \<Rightarrow> string \<Rightarrow> string \<Rightarrow> int \<Rightarrow> mailbox_store \<Rightarrow> pydict list" where
  "fetch_policy_decisions case_id source_signal_id source_message_id limit st =
     slice_to limit (sort_desc (col ''generated_at'')
       (filter (of_origin case_id source_signal_id source_message_id) (map snd (m_policy_decisions st))))"

definition append_action_proposal_v2 :: "pydict \<Rightarrow> mailbox_store \<Rightarrow> bool \<times> mailbox_store" where
  "append_action_proposal_v2 row st =
     (let proposal_id = keycol ''proposal_id'' row in
      if proposal_id = [] \<or> map_of (m_action_proposals_v2 st) proposal_id \<noteq> None then (False, st)
      else (True, st\<lparr>m_action_proposals_v2 := AList.update proposal_id row (m_action_proposals_v2 st)\<rparr>))"

definition fetch_action_proposal_v2 :: "string \<Rightarrow> mailbox_store \<Rightarrow> pydict option" where
  "fetch_action_proposal_v2 proposal_id st = row_or_none (map_of (m_action_proposals_v2 st) (strip proposal_id))"

definition fetch_action_proposals_v2 :: "string \<Rightarrow> string \<Rightarrow> string \<Rightarrow> int \<Rightarrow> mailbox_store \<Rightarrow> pydict list" where
  "fetch_action_proposals_v2 case_id source_signal_id source_message_id limit st =
     slice_to limit (sort_desc (col ''generated_at'')
       (filter (of_origin case_id source_signal_id source_message_id) (map snd (m_action_proposals_v2 st))))"

definition upsert_execution_result :: "pydict \<Rightarrow> mailbox_store \<Rightarrow> mailbox_store" where
  "upsert_execution_result row st =
     st\<lparr>m_execution_results := update_if (keycol ''execution_id'' row) row (m_execution_results st)\<rparr>"

definition fetch_execution_results :: "string \<Rightarrow> string \<Rightarrow> int \<Rightarrow> mailbox_store \<Rightarrow> pydict list" where
  "fetch_execution_results case_id proposal_id limit st =
     slice_to limit (sort_desc (col ''executed_at'')
       (filter (\<lambda>item. passes ''case_id'' case_id item \<and> passes ''proposal_id'' proposal_id item)
         (map snd (m_execution_results st))))"

definition upsert_calendar_event :: "pydict \<Rightarrow> mailbox_store \<Rightarrow> mailbox_store" where
  "upsert_calendar_event row st =
     st\<lparr>m_calendar_events := update_if (keycol ''calendar_event_id'' row) row (m_calendar_events st)\<rparr>"

definition upsert_calendar_case_link :: "pydict \<Rightarrow> mailbox_store \<Rightarrow> mailbox_store" where
  "upsert_calendar_case_link row st =
     st\<lparr>m_calendar_case_links := AList.update
          (py_str (dget ''calendar_event_id'' row) @ '':'' @ py_str (dget ''case_id'' row)) row
          (m_calendar_case_links st)\<rparr>"

definition fetch_calendar_events_for_case :: "string \<Rightarrow> int \<Rightarrow> mailbox_store \<Rightarrow> pydict list" where
  "fetch_calendar_events_for_case case_id limit st =
     slice_to limit (sort_key (col ''start_at'') (rows_where ''case_id'' case_id (m_calendar_events st)))"

definition upsert_document_intelligence_result :: "pydict \<Rightarrow> mailbox_store \<Rightarrow> mailbox_store" where
  "upsert_document_intelligence_result row st =
     st\<lparr>m_document_intelligence_results :=
          update_if (keycol ''document_id'' row) row (m_document_intelligence_results st)\<rparr>"

definition fetch_document_intelligence_for_case :: "string \<Rightarrow> int \<Rightarrow> mailbox_store \<Rightarrow> pydict list" where
  "fetch_document_intelligence_for_case case_id limit st =
     slice_to limit (sort_desc (col ''created_at'')
       (rows_where ''case_id'' case_id (m_document_intelligence_results st)))"

subsection \<open>Drive documents\<close>

text \<open>A Drive document that is assigned to a case takes its stored chunks with it.\<close>

definition upsert_drive_document :: "pydict \<Rightarrow> mailbox_store \<Rightarrow> mailbox_store" where
  "upsert_drive_document row st =
     (let document_id = keycol ''document_id'' row; case_id = keycol ''case_id'' row in
      if document_id = [] then st
      else let st1 = st\<lparr>m_drive_documents := AList.update document_id row (m_drive_documents st)\<rparr>
           in if case_id = [] then st1
              else st1\<lparr>m_drive_chunks := map (\<lambda>(k, items). if k = document_id
                          then (k, map (AList.update ''case_id'' (PStr case_id)) items) else (k, items))
                        (m_drive_chunks st1)\<rparr>)"

definition replace_drive_document_chunks :: "string \<Rightarrow> pydict list \<Rightarrow> mailbox_store \<Rightarrow> mailbox_store" where
  "replace_drive_document_chunks document_id rows st =
     st\<lparr>m_drive_chunks := AList.update document_id rows (m_drive_chunks st)\<rparr>"

definition replace_drive_document_facts :: "string \<Rightarrow> pydict list \<Rightarrow> mailbox_store \<Rightarrow> mailbox_store" where
  "replace_drive_document_facts document_id rows st =
     st\<lparr>m_drive_facts := AList.update document_id rows (m_drive_facts st)\<rparr>"

definition upsert_drive_ingest_run :: "pydict \<Rightarrow> mailbox_store \<Rightarrow> mailbox_store" where
  "upsert_drive_ingest_run row st = st\<lparr>m_drive_runs := update_if (keycol ''run_id'' row) row (m_drive_runs st)\<rparr>"

definition fetch_drive_documents_for_case :: "string \<Rightarrow> int \<Rightarrow> mailbox_store \<Rightarrow> pydict list" where
  "fetch_drive_documents_for_case case_id limit st =
     slice_to limit (sort_desc updated_key (rows_where ''case_id'' case_id (m_drive_documents st)))"

definition fetch_drive_chunks_for_case :: "string \<Rightarrow> int \<Rightarrow> mailbox_store \<Rightarrow> pydict list option" where
  "fetch_drive_chunks_for_case case_id limit st =
     map_option (slice_to limit)
       (sort_chunks (chunks_of_case case_id (m_drive_documents st) (m_drive_chunks st)))"

definition fetch_drive_documents :: "int \<Rightarrow> string list \<Rightarrow> string list \<Rightarrow> mailbox_store \<Rightarrow> pydict list" where
  "fetch_drive_documents limit scopes lanes st =
     slice_to limit (sort_desc updated_key
       (filter (\<lambda>row. lanes = [] \<or> col ''lane'' row \<in> set lanes)
         (filter (\<lambda>row. scopes = [] \<or> col ''scope'' row \<in> set scopes) (map snd (m_drive_documents st)))))"

definition fetch_drive_document_by_item_id :: "string \<Rightarrow> mailbox_store \<Rightarrow> pydict option" where
  "fetch_drive_document_by_item_id drive_item_id st =
     first_some (\<lambda>row. if col ''drive_item_id'' row = drive_item_id then Some row else None)
       (map snd (m_drive_documents st))"

subsection \<open>Raw observations, signals, cursors\<close>

definition append_raw_observation :: "pydict \<Rightarrow> mailbox_store \<Rightarrow> bool \<times> mailbox_store" where
  "append_raw_observation row st =
     (let observation_id = keycol ''observation_id'' row; source_fingerprint = keycol ''source_fingerprint'' row in
      if observation_id = [] \<or> source_fingerprint = [] then (False, st)
      else case map_of (m_raw_observation_fingerprints st) source_fingerprint of
             Some (_ # _) \<Rightarrow> (False, st)
           | _ \<Rightarrow> (True, st\<lparr>m_raw_observations := AList.update observation_id row (m_raw_observations st),
                       m_raw_observation_fingerprints :=
                         AList.update source_fingerprint observation_id (m_raw_observation_fingerprints st)\<rparr>))"

definition fetch_raw_observation :: "string \<Rightarrow> mailbox_store \<Rightarrow> pydict option" where
  "fetch_raw_observation observation_id st = row_or_none (map_of (m_raw_observations st) observation_id)"

definition fetch_raw_observation_by_source_fingerprint :: "string \<Rightarrow> mailbox_store \<Rightarrow> pydict option" where
  "fetch_raw_observation_by_source_fingerprint source_fingerprint st =
     (case map_of (m_raw_observation_fingerprints st) source_fingerprint of
        Some (c # cs) \<Rightarrow> fetch_raw_observation (c # cs) st
      | _ \<Rightarrow> None)"

definition observed_key :: "pydict \<Rightarrow> string \<times> string" where
  "observed_key item = (col ''observed_at'' item, col ''created_at'' item)"

definition fetch_raw_observations_for_source :: "string \<Rightarrow> int \<Rightarrow> mailbox_store \<Rightarrow> pydict list" where
  "fetch_raw_observations_for_source source_kind limit st =
     slice_to limit (sort_key observed_key
       (filter (\<lambda>item. keycol ''source_kind'' item = source_kind) (map snd (m_raw_observations st))))"

definition append_signal :: "pydict \<Rightarrow> mailbox_store \<Rightarrow> bool \<times> mailbox_store" where
  "append_signal row st =
     (let signal_id = keycol ''signal_id'' row; idempotency_key = keycol ''idempotency_key'' row in
      if signal_id = [] \<or> idempotency_key = [] then (False, st)
      else case map_of (m_signal_idempotency st) idempotency_key of
             Some (_ # _) \<Rightarrow> (False, st)
           | _ \<Rightarrow> (True, st\<lparr>m_signals := AList.update signal_id row (m_signals st),
                       m_signal_idempotency := AList.update idempotency_key signal_id (m_signal_idempotency st)\<rparr>))"

definition fetch_signal :: "string \<Rightarrow> mailbox_store \<Rightarrow> pydict option" where
  "fetch_signal signal_id st = row_or_none (map_of (m_signals st) signal_id)"

definition patch_signal_engagement_id :: "string \<Rightarrow> string \<Rightarrow> mailbox_store \<Rightarrow> bool \<times> mailbox_store" where
  "patch_signal_engagement_id signal_id engagement_id st =
     (case row_or_none (map_of (m_signals st) (strip signal_id)) of
        None \<Rightarrow> (False, st)
      | Some item \<Rightarrow> (True, st\<lparr>m_signals := AList.update (strip signal_id)
                         (AList.update ''engagement_id'' (PStr (strip engagement_id)) item) (m_signals st)\<rparr>))"

definition fetch_signal_by_idempotency_key :: "string \<Rightarrow> mailbox_store \<Rightarrow> pydict option" where
  "fetch_signal_by_idempotency_key idempotency_key st =
     (case map_of (m_signal_idempotency st) idempotency_key of
        Some (c # cs) \<Rightarrow> fetch_signal (c # cs) st
      | _ \<Rightarrow> None)"

text \<open>
  The case filter reads \<open>(payload.get ("payload_json") or {}).get ("case_id")\<close> of every signal; on a
  body that is a non-empty value other than a dictionary this raises.
\<close>

definition signal_case_id :: "pydict \<Rightarrow> string option" where
  "signal_case_id item =
     (case py_or (dget ''payload_json'' item) (PDict []) of
        PDict d \<Rightarrow> Some (keycol ''case_id'' d)
      | _ \<Rightarrow> None)"

definition fetch_signals_for_case :: "string \<Rightarrow> string \<Rightarrow> int \<Rightarrow> mailbox_store \<Rightarrow> pydict list option" where
  "fetch_signals_for_case case_id case_key_hint limit st =
     (let items = map snd (m_signals st) in
      if list_ex (\<lambda>item. signal_case_id item = None) items then None
      else Some (slice_to limit (sort_key observed_key
        (filter (\<lambda>item. (case_id = [] \<or> signal_case_id item = Some case_id) \<and>
                       (case_key_hint = [] \<or> keycol ''case_key_hint'' item = case_key_hint)) items))))"

definition fetch_signals_for_source :: "string \<Rightarrow> int \<Rightarrow> mailbox_store \<Rightarrow> pydict list" where
  "fetch_signals_for_source source_kind limit st =
     slice_to limit (sort_key observed_key
       (filter (\<lambda>item. keycol ''source_kind'' item = source_kind) (map snd (m_signals st))))"

definition append_signal_processing_attempt :: "pydict \<Rightarrow> mailbox_store \<Rightarrow> mailbox_store" where
  "append_signal_processing_attempt row st = st\<lparr>m_signal_attempts := m_signal_attempts st @ [row]\<rparr>"

definition fetch_signal_processing_attempts :: "string \<Rightarrow> int \<Rightarrow> mailbox_store \<Rightarrow> pydict list" where
  "fetch_signal_processing_attempts signal_id limit st =
     slice_to limit (sort_desc (col ''created_at'')
       (filter (\<lambda>item. keycol ''signal_id'' item = signal_id) (m_signal_attempts st)))"

definition upsert_source_cursor :: "pydict \<Rightarrow> mailbox_store \<Rightarrow> mailbox_store" where
  "upsert_source_cursor row st =
     st\<lparr>m_source_cursors := update_if (keycol ''cursor_key'' row) row (m_source_cursors st)\<rparr>"

definition fetch_source_cursor :: "string \<Rightarrow> string \<Rightarrow> mailbox_store \<Rightarrow> pydict option" where
  "fetch_source_cursor source_kind cursor_scope st =
     row_or_none (map_of (m_source_cursors st) (source_kind @ '':'' @ cursor_scope))"

definition list_source_cursors :: "mailbox_store \<Rightarrow> pydict list" where
  "list_source_cursors st = sort_desc (col ''updated_at'') (map snd (m_source_cursors st))"

subsection \<open>Lemmas on the shared shapes\<close>

lemma row_or_none_simps [simp]:
  "row_or_none None = None" "row_or_none (Some row) = (if row = [] then None else Some row)"
  by (simp_all add: row_or_none_def)

lemma keycol_nonempty: "keycol k row \<noteq> [] \<Longrightarrow> row \<noteq> []"
  by auto

lemma update_ne [simp]: "AList.update k v d \<noteq> []"
  by (induction d) auto

lemma row_or_none_update:
  "keycol c row \<noteq> [] \<Longrightarrow>
   row_or_none (map_of (AList.update k row t) k') = (if k' = k then Some row else row_or_none (map_of t k'))"
  by (auto simp: update_conv' dest: keycol_nonempty)

lemma set_sort_desc [simp]: "set (sort_desc f xs) = set xs"
  by (simp add: sort_desc_def)

lemma length_sort_desc [simp]: "length (sort_desc f xs) = length xs"
  by (simp add: sort_desc_def)

lemma sort_desc_sorted: "sorted (rev (map f (sort_desc f xs)))"
  by (simp add: sort_desc_def rev_map)

lemma set_slice_to: "set (slice_to n xs) \<subseteq> set xs"
  by (simp add: slice_to_def set_take_subset)

lemma slice_to_all: "int (length xs) \<le> n \<Longrightarrow> slice_to n xs = xs"
  by (simp add: slice_to_def)

subsection \<open>Tables in which the last write wins\<close>

locale row_table =
  fixes upsert :: "pydict \<Rightarrow> 's \<Rightarrow> 's" and fetch :: "string \<Rightarrow> 's \<Rightarrow> pydict option"
    and row_key :: "pydict \<Rightarrow> string" and stored :: "pydict \<Rightarrow> pydict"
  assumes upsert_blank: "row_key row = [] \<Longrightarrow> upsert row st = st"
    and fetch_upsert: "row_key row \<noteq> [] \<Longrightarrow> strip k = k \<Longrightarrow> k \<noteq> [] \<Longrightarrow>
      fetch k (upsert row st) = (if k = row_key row then Some (stored row) else fetch k st)"
begin

lemma fetch_upsert_other:
  "row_key row \<noteq> k \<Longrightarrow> strip k = k \<Longrightarrow> k \<noteq> [] \<Longrightarrow> fetch k (upsert row st) = fetch k st"
  by (cases "row_key row = []") (simp_all add: upsert_blank fetch_upsert)

lemma last_write_wins:
  assumes "strip k = k" and "k \<noteq> []"
  shows "fetch k (fold upsert rows st) =
    (case filter (\<lambda>row. row_key row = k) (rev rows) of [] \<Rightarrow> fetch k st | row # _ \<Rightarrow> Some (stored row))"
proof (induction rows rule: rev_induct)
  case (snoc row rows)
  show ?case
  proof (cases "row_key row = k")
    case True
    with assms show ?thesis by (simp add: fetch_upsert)
  next
    case False
    with assms snoc show ?thesis by (simp add: fetch_upsert_other)
  qed
qed simp

lemma upserts_commute:
  assumes "row_key r1 \<noteq> row_key r2" and "strip k = k" and "k \<noteq> []"
  shows "fetch k (upsert r1 (upsert r2 st)) = fetch k (upsert r2 (upsert r1 st))"
  using assms by (cases "k = row_key r1"; cases "k = row_key r2") (simp_all add: fetch_upsert fetch_upsert_other)

end

lemma upsert_fetch_message:
  "keycol ''message_id'' row \<noteq> [] \<Longrightarrow> strip k = k \<Longrightarrow> k \<noteq> [] \<Longrightarrow>
   fetch_message k (upsert_message row st) =
     (if k = keycol ''message_id'' row then Some row else fetch_message k st)"
  by (simp add: fetch_message_def upsert_message_def update_if_def row_or_none_update)

lemma upsert_fetch_proposal:
  "keycol ''proposal_id'' row \<noteq> [] \<Longrightarrow> strip k = k \<Longrightarrow>
   fetch_action_proposal k (upsert_action_proposal row st) =
     (if k = keycol ''proposal_id'' row then Some row else fetch_action_proposal k st)"
  by (simp add: fetch_action_proposal_def upsert_action_proposal_def update_if_def row_or_none_update)

lemma upsert_fetch_case:
  "keycol ''case_id'' row \<noteq> [] \<Longrightarrow>
   fetch_case k (upsert_case row st) =
     (if k = keycol ''case_id'' row
      then Some (AList.update ''case_id'' (PStr (keycol ''case_id'' row)) (case_payload_with_defaults row))
      else fetch_case k st)"
  by (simp add: fetch_case_def upsert_case_def Let_def update_conv')

interpretation message_table: row_table upsert_message fetch_message "keycol ''message_id''" id
  by unfold_locales (simp add: upsert_message_def update_if_def, simp add: upsert_fetch_message)

interpretation proposal_table: row_table upsert_action_proposal fetch_action_proposal "keycol ''proposal_id''" id
  by unfold_locales (simp add: upsert_action_proposal_def update_if_def, simp add: upsert_fetch_proposal)

interpretation case_table: row_table upsert_case fetch_case "keycol ''case_id''"
  "\<lambda>row. AList.update ''case_id'' (PStr (keycol ''case_id'' row)) (case_payload_with_defaults row)"
  by unfold_locales (simp add: upsert_case_def, simp add: upsert_fetch_case)

subsection \<open>Tables in which the first write wins\<close>

locale append_once =
  fixes append :: "pydict \<Rightarrow> 's \<Rightarrow> bool \<times> 's" and fetch :: "string \<Rightarrow> 's \<Rightarrow> pydict option"
    and row_key :: "pydict \<Rightarrow> string"
  assumes refused: "\<not> fst (append row st) \<Longrightarrow> snd (append row st) = st"
    and accepted_key: "fst (append row st) \<Longrightarrow> row_key row \<noteq> [] \<and> fetch (row_key row) st = None"
    and fetch_append: "fst (append row st) \<Longrightarrow> strip k = k \<Longrightarrow>
      fetch k (snd (append row st)) = (if k = row_key row then Some row else fetch k st)"
begin

definition append_all :: "pydict list \<Rightarrow> 's \<Rightarrow> 's" where
  "append_all rows st = fold (\<lambda>row. snd \<circ> append row) rows st"

lemma kept:
  assumes "fetch k st = Some r" and "strip k = k"
  shows "fetch k (snd (append row st)) = Some r"
proof (cases "fst (append row st)")
  case True
  then have "k \<noteq> row_key row" using accepted_key [OF True] assms(1) by auto
  with True assms show ?thesis by (simp add: fetch_append)
next
  case False
  with assms show ?thesis by (simp add: refused)
qed

lemma kept_all: "fetch k st = Some r \<Longrightarrow> strip k = k \<Longrightarrow> fetch k (append_all rows st) = Some r"
  unfolding append_all_def by (induction rows arbitrary: st) (simp_all add: kept)

end

lemma append_policy_decision_eq:
  "append_policy_decision row st =
     (if keycol ''policy_decision_id'' row \<noteq> [] \<and> map_of (m_policy_decisions st) (keycol ''policy_decision_id'' row) = None
      then (True, st\<lparr>m_policy_decisions := AList.update (keycol ''policy_decision_id'' row) row (m_policy_decisions st)\<rparr>)
      else (False, st))"
  by (simp add: append_policy_decision_def Let_def)

lemma append_action_proposal_v2_eq:
  "append_action_proposal_v2 row st =
     (if keycol ''proposal_id'' row \<noteq> [] \<and> map_of (m_action_proposals_v2 st) (keycol ''proposal_id'' row) = None
      then (True, st\<lparr>m_action_proposals_v2 := AList.update (keycol ''proposal_id'' row) row (m_action_proposals_v2 st)\<rparr>)
      else (False, st))"
  by (simp add: append_action_proposal_v2_def Let_def)

interpretation decisions_once: append_once append_policy_decision fetch_policy_decision
  "keycol ''policy_decision_id''"
  by unfold_locales
    (simp_all only: append_policy_decision_eq fetch_policy_decision_def split: if_split_asm,
     simp_all add: row_or_none_update)

interpretation proposals_v2_once: append_once append_action_proposal_v2 fetch_action_proposal_v2
  "keycol ''proposal_id''"
  by unfold_locales
    (simp_all only: append_action_proposal_v2_eq fetch_action_proposal_v2_def split: if_split_asm,
     simp_all add: row_or_none_update)

subsection \<open>Properties\<close>

text \<open>
  A policy decision is written once: whatever is appended after it, under its id or
  another, the row that was accepted first is the one that is read back.
\<close>

theorem policy_decision_written_once:
  assumes "append_policy_decision row st = (True, st')"
  shows "fetch_policy_decision (keycol ''policy_decision_id'' row)
           (fold (\<lambda>r. snd \<circ> append_policy_decision r) later st') = Some row"
proof -
  have "fetch_policy_decision (keycol ''policy_decision_id'' row) (snd (append_policy_decision row st)) = Some row"
    by (subst decisions_once.fetch_append) (simp_all add: assms)
  then have "fetch_policy_decision (keycol ''policy_decision_id'' row) st' = Some row"
    by (simp add: assms)
  then show ?thesis
    unfolding decisions_once.append_all_def [symmetric] by (rule decisions_once.kept_all) simp
qed

definition sample_policy_row :: "string \<Rightarrow> pydict" where
  "sample_policy_row status = [(''policy_decision_id'', PStr '' pd_1''), (''status'', PStr status)]"

theorem policy_decision_written_once_witness:
  "fetch_policy_decision ''pd_1''
     (fold (\<lambda>r. snd \<circ> append_policy_decision r) [sample_policy_row ''allowed'']
       (snd (append_policy_decision (sample_policy_row ''blocked'') empty_mailbox))) =
   Some (sample_policy_row ''blocked'')"
proof -
  have key: "keycol ''policy_decision_id'' (sample_policy_row ''blocked'') = ''pd_1''" by code_simp
  have "append_policy_decision (sample_policy_row ''blocked'') empty_mailbox =
      (True, snd (append_policy_decision (sample_policy_row ''blocked'') empty_mailbox))"
    unfolding append_policy_decision_eq key by (simp add: empty_mailbox_def)
  from policy_decision_written_once [OF this, of "[sample_policy_row ''allowed'']"]
  show ?thesis unfolding key .
qed

lemma append_signal_eq:
  "append_signal row st =
     (if keycol ''signal_id'' row \<noteq> [] \<and> keycol ''idempotency_key'' row \<noteq> [] \<and>
         map_of (m_signal_idempotency st) (keycol ''idempotency_key'' row) \<in> {None, Some []}
      then (True, st\<lparr>m_signals := AList.update (keycol ''signal_id'' row) row (m_signals st),
                    m_signal_idempotency := AList.update (keycol ''idempotency_key'' row)
                      (keycol ''signal_id'' row) (m_signal_idempotency st)\<rparr>)
      else (False, st))"
  by (simp add: append_signal_def Let_def split: option.splits list.splits)

lemma signal_binding_kept:
  assumes "map_of (m_signal_idempotency st) k = Some i" and "i \<noteq> []"
  shows "map_of (m_signal_idempotency (snd (append_signal row st))) k = Some i"
  using assms by (cases "k = keycol ''idempotency_key'' row") (simp_all add: append_signal_eq update_conv')

lemma signal_binding_kept_all:
  "map_of (m_signal_idempotency st) k = Some i \<Longrightarrow> i \<noteq> [] \<Longrightarrow>
   map_of (m_signal_idempotency (fold (\<lambda>r. snd \<circ> append_signal r) rows st)) k = Some i"
  by (induction rows arbitrary: st) (simp_all add: signal_binding_kept)

text \<open>
  A signal enters the journal once: after it was accepted, its idempotency key is
  bound to its id for good, it is found under that key, and no signal with the same key is
  accepted, whatever else was appended in between.
\<close>

theorem signal_accepted_once:
  assumes "append_signal row st = (True, st')"
    and "keycol ''idempotency_key'' dup = keycol ''idempotency_key'' row"
  shows "fetch_signal_by_idempotency_key (keycol ''idempotency_key'' row) st' = Some row \<and>
    map_of (m_signal_idempotency (fold (\<lambda>r. snd \<circ> append_signal r) later st'))
      (keycol ''idempotency_key'' row) = Some (keycol ''signal_id'' row) \<and>
    append_signal dup (fold (\<lambda>r. snd \<circ> append_signal r) later st') =
      (False, fold (\<lambda>r. snd \<circ> append_signal r) later st')"
proof (intro conjI)
  have ids: "keycol ''signal_id'' row \<noteq> []"
    and st': "st' = st\<lparr>m_signals := AList.update (keycol ''signal_id'' row) row (m_signals st),
        m_signal_idempotency := AList.update (keycol ''idempotency_key'' row)
          (keycol ''signal_id'' row) (m_signal_idempotency st)\<rparr>"
    using assms(1) unfolding append_signal_eq by (simp_all split: if_split_asm)
  obtain c cs where c: "keycol ''signal_id'' row = c # cs" using ids by (meson list.exhaust)
  show "fetch_signal_by_idempotency_key (keycol ''idempotency_key'' row) st' = Some row"
    unfolding fetch_signal_by_idempotency_key_def fetch_signal_def st'
    using keycol_nonempty [OF ids] by (simp add: c update_conv')
  show bound: "map_of (m_signal_idempotency (fold (\<lambda>r. snd \<circ> append_signal r) later st'))
      (keycol ''idempotency_key'' row) = Some (keycol ''signal_id'' row)"
    by (rule signal_binding_kept_all [OF _ ids]) (simp add: st' update_conv')
  show "append_signal dup (fold (\<lambda>r. snd \<circ> append_signal r) later st') =
      (False, fold (\<lambda>r. snd \<circ> append_signal r) later st')"
    unfolding append_signal_eq assms(2) bound using ids by simp
qed

definition sample_signal :: "string \<Rightarrow> string \<Rightarrow> pydict" where
  "sample_signal i k = [(''signal_id'', PStr i), (''idempotency_key'', PStr k)]"

theorem signal_accepted_once_witness:
  "let st = snd (append_signal (sample_signal ''s1'' ''k'') empty_mailbox) in
   append_signal (sample_signal ''s1'' ''k'') empty_mailbox = (True, st) \<and>
   append_signal (sample_signal ''s3'' ''k'')
     (fold (\<lambda>r. snd \<circ> append_signal r) [sample_signal ''s2'' ''j''] st) =
   (False, fold (\<lambda>r. snd \<circ> append_signal r) [sample_signal ''s2'' ''j''] st)"
proof -
  have keys: "keycol ''signal_id'' (sample_signal ''s1'' ''k'') = ''s1''"
    "keycol ''idempotency_key'' (sample_signal ''s1'' ''k'') = ''k''"
    "keycol ''idempotency_key'' (sample_signal ''s3'' ''k'') = ''k''" by code_simp+
  have ok: "append_signal (sample_signal ''s1'' ''k'') empty_mailbox =
      (True, snd (append_signal (sample_signal ''s1'' ''k'') empty_mailbox))"
    unfolding append_signal_eq keys by (simp add: empty_mailbox_def)
  have "keycol ''idempotency_key'' (sample_signal ''s3'' ''k'') =
      keycol ''idempotency_key'' (sample_signal ''s1'' ''k'')" unfolding keys ..
  from signal_accepted_once [OF ok this, of "[sample_signal ''s2'' ''j'']"] ok
  show ?thesis unfolding Let_def by blast
qed

text \<open>
  A signal that reuses the id of another one under a new idempotency key replaces its row: the
  first key then leads to the second signal.
\<close>

lemma reused_signal_id_replaces:
  assumes "keycol ''signal_id'' r1 = i" and "keycol ''signal_id'' r2 = i" and "i \<noteq> []"
    and "keycol ''idempotency_key'' r1 = k1" and "keycol ''idempotency_key'' r2 = k2"
    and "k1 \<noteq> []" and "k2 \<noteq> []" and "k1 \<noteq> k2"
    and "map_of (m_signal_idempotency st) k1 = None" and "map_of (m_signal_idempotency st) k2 = None"
  shows "fetch_signal_by_idempotency_key k1 (snd (append_signal r2 (snd (append_signal r1 st)))) = Some r2"
proof -
  obtain c cs where c: "i = c # cs" using assms(3) by (meson list.exhaust)
  have ne: "r2 \<noteq> []" using keycol_nonempty [of "''signal_id''" r2] assms(2,3) by simp
  show ?thesis
    using assms ne by (simp add: append_signal_eq fetch_signal_by_idempotency_key_def fetch_signal_def
        update_conv' c)
qed

text \<open>
  The latest snapshot of a case is the last of the first thousand versions: from the thousand-and-
  first version on, newer ones are not seen.
\<close>

lemma latest_snapshot_is_capped:
  assumes "sort_by_int ''version'' (lookup_rows case_id (m_case_snapshot_versions st)) = Some rows"
    and "1000 \<le> length rows"
  shows "fetch_latest_case_snapshot_version case_id st = Some (Some (rows ! 999))"
proof -
  have len: "length (take 1000 rows) = 1000" using assms(2) by simp
  then have ne: "take 1000 rows \<noteq> []" by auto
  have "last (take 1000 rows) = rows ! 999"
    using ne len by (simp add: last_conv_nth)
  with ne show ?thesis
    by (simp add: fetch_latest_case_snapshot_version_def fetch_case_snapshot_versions_def assms(1) slice_to_def)
qed

lemma thread_memory_eq:
  assumes "keycol ''thread_id'' row = t" and "t \<noteq> []" and "map_of (m_thread_memories st) t = Some old"
    and "dget ''version'' old = PInt n" and "0 < n"
  shows "map_of (m_thread_memories (snd (upsert_thread_memory row False st))) t =
    Some (let same = col ''memory_sha256'' old = col ''memory_sha256'' row;
              p2 = AList.update ''created_at'' (dget ''created_at'' old)
                     (AList.update ''version'' (PInt (n + (if same then 0 else 1)))
                       (AList.update ''thread_id'' (PStr t) row))
          in if same then AList.update ''updated_at'' (dget ''updated_at'' old) p2 else p2)"
  using assms by (simp add: upsert_thread_memory_def Let_def update_conv' py_or_def)

text \<open>
  A thread memory's version counts its changes of content: writing over a stored
  memory keeps its creation time and raises its version by one exactly when the content hash
  differs; a rewrite of the same content keeps the version and the time of the last change.
\<close>

theorem thread_memory_version:
  assumes "keycol ''thread_id'' row = t" and "t \<noteq> []" and "map_of (m_thread_memories st) t = Some old"
    and "dget ''version'' old = PInt n" and "0 < n"
    and "fetch_thread_memory t (snd (upsert_thread_memory row False st)) = Some new"
  shows "dget ''created_at'' new = dget ''created_at'' old \<and>
    (if col ''memory_sha256'' new = col ''memory_sha256'' old
     then dget ''version'' new = PInt n \<and> dget ''updated_at'' new = dget ''updated_at'' old
     else dget ''version'' new = PInt (n + 1) \<and> dget ''updated_at'' new = dget ''updated_at'' row)"
proof -
  let ?same = "col ''memory_sha256'' old = col ''memory_sha256'' row"
  have t: "strip t = t" using assms(1) strip_norm_of by metis
  have new: "new = (let p2 = AList.update ''created_at'' (dget ''created_at'' old)
                     (AList.update ''version'' (PInt (n + (if ?same then 0 else 1)))
                       (AList.update ''thread_id'' (PStr t) row))
          in if ?same then AList.update ''updated_at'' (dget ''updated_at'' old) p2 else p2)"
    using assms(6) unfolding fetch_thread_memory_def t thread_memory_eq [OF assms(1-5)]
    by (simp add: Let_def split: if_split_asm)
  show ?thesis unfolding new by (simp add: Let_def)
qed

definition sample_memory :: "string \<Rightarrow> pydict" where
  "sample_memory h = [(''thread_id'', PStr ''t''), (''memory_sha256'', PStr h), (''updated_at'', PStr h)]"

theorem thread_memory_version_witness:
  "let st = snd (upsert_thread_memory (sample_memory ''a'') False empty_mailbox) in
   \<exists>new. fetch_thread_memory ''t'' (snd (upsert_thread_memory (sample_memory ''b'') False st)) = Some new \<and>
     dget ''version'' new = PInt 2 \<and> dget ''created_at'' new = PStr ''a''"
proof -
  let ?st = "snd (upsert_thread_memory (sample_memory ''a'') False empty_mailbox)"
  have strip_t: "strip ''t'' = ''t''" by code_simp
  have key: "keycol ''thread_id'' (sample_memory h) = ''t''" for h
    by (simp add: sample_memory_def strip_t)
  have old: "map_of (m_thread_memories ?st) ''t'' = Some (sample_memory ''a'' @ [(''version'', PInt 1), (''created_at'', PStr ''a'')])"
    by (simp add: upsert_thread_memory_def key Let_def empty_mailbox_def sample_memory_def setdefault_def dhas_def strip_t)
  obtain new where new: "fetch_thread_memory ''t'' (snd (upsert_thread_memory (sample_memory ''b'') False ?st)) = Some new"
    and sha: "col ''memory_sha256'' new = ''b''"
    unfolding fetch_thread_memory_def
    using thread_memory_eq [OF key _ old] by (simp add: sample_memory_def strip_t)
  have "dget ''version'' new = PInt (1 + 1) \<and> dget ''created_at'' new = PStr ''a''"
    using thread_memory_version [OF key _ old _ _ new] by (simp add: sha sample_memory_def)
  with new show ?thesis by (auto simp: Let_def)
qed

end
