(* ===== verification/Supervised_Execution.thy ===== *)
theory Supervised_Execution
  imports Mailbox_Store Cad
begin

text \<open>
  The supervised execution loop: who may decide (\<open>permissions.py\<close>) and how an action proposal is
  created, approved, rejected and executed (\<open>execution_runtime.py\<close>), over the tables of
  \<open>Mailbox_Store\<close>; and the builder of such proposals (\<open>policy_action_proposal.py\<close>).

  \<open>clk\<close> gives the clock reading of each site that reads the clock during an operation (every site
  is passed at most once, so any sequence of readings is such a function); \<open>digest\<close> is the
  hexadecimal SHA-256 of a text.  An exception is the left value, with the store as it was when it
  was raised: every operation that raises does so before its first write.  The values a basis list
  is made of are compared as Python compares dictionary keys: a list or a dictionary raises, and a
  number equals a truth value of the same number.
\<close>

subsection \<open>Permissions\<close>

definition OWNER_ROLE :: string where "OWNER_ROLE = ''owner''"
definition AGENT_SERVICE_ROLE :: string where "AGENT_SERVICE_ROLE = ''agent_service''"
definition UNKNOWN_ROLE :: string where "UNKNOWN_ROLE = ''unknown''"
definition OWNER_ACTORS :: "string list" where "OWNER_ACTORS = [''konrad'', ''darek'']"
definition AGENT_SERVICE_ACTORS :: "string list" where "AGENT_SERVICE_ACTORS = [''agent_service'', ''daszek'']"

definition actor_role :: "string \<Rightarrow> string" where
  "actor_role actor_id =
     (let actor = lower (strip actor_id) in
      if actor \<in> set OWNER_ACTORS then OWNER_ROLE
      else if actor \<in> set AGENT_SERVICE_ACTORS then AGENT_SERVICE_ROLE
      else UNKNOWN_ROLE)"

datatype exec_error =
    PermissionDenied string
  | CaseIdMissing
  | UnsupportedActionType string
  | NotApprovable string
  | CannotReject string
  | NotRejectable string
  | ProposalNotFound string
  | BadConfidence
  | BadPolicyBasis
  | UnhashableBasis

definition require_owner :: "string \<Rightarrow> bool \<Rightarrow> exec_error + unit" where
  "require_owner actor_id allow_test_bypass =
     (let actor = strip actor_id in
      if allow_test_bypass \<and> actor = ''test_owner'' then Inr ()
      else if actor_role actor \<noteq> OWNER_ROLE then Inl (PermissionDenied (str_or actor ''<missing>''))
      else Inr ())"

definition permission_snapshot :: "string \<Rightarrow> pydict" where
  "permission_snapshot actor_id =
     (let role = actor_role actor_id in
      [(''actor_id'', PStr (strip actor_id)), (''role'', PStr role),
       (''can_view_all_cases'', PBool (role = OWNER_ROLE)), (''can_approve_actions'', PBool (role = OWNER_ROLE)),
       (''can_reject_actions'', PBool (role = OWNER_ROLE)),
       (''can_execute_approved_actions'', PBool (role = OWNER_ROLE)),
       (''can_write_eval_artifacts'', PBool (role \<in> set [OWNER_ROLE, AGENT_SERVICE_ROLE])),
       (''full_rbac'', PBool False)])"

subsection \<open>Proposals and results\<close>

definition ACTION_TYPES :: "string list" where
  "ACTION_TYPES = [''set_case_status'', ''mark_attention_required'', ''prepare_reply_draft'',
     ''apply_gmail_label'', ''archive_gmail'', ''create_calendar_event'']"

definition CASE_STATUSES :: "string list" where
  "CASE_STATUSES = [''new'', ''needs_review'', ''waiting_for_customer'', ''ready_to_reply'', ''blocked'', ''done'']"

definition PROPOSAL_STATUSES :: "string list" where
  "PROPOSAL_STATUSES = [''proposed'', ''approved'', ''rejected'', ''executed'', ''failed'', ''blocked'']"

definition EXECUTION_STATUSES :: "string list" where
  "EXECUTION_STATUSES = [''executed'', ''failed'', ''blocked'', ''skipped'']"

definition EXTERNAL_WRITE_ACTIONS :: "string list" where
  "EXTERNAL_WRITE_ACTIONS = [''apply_gmail_label'', ''archive_gmail'', ''create_calendar_event'']"

definition FORBIDDEN_ACTION_TYPES :: "string list" where
  "FORBIDDEN_ACTION_TYPES = [''send_email'', ''auto_send'', ''delete_email'', ''auto_delete'', ''auto_close_case'']"

record action_proposal =
  ap_proposal_id :: string
  ap_case_id :: string
  ap_action_type :: string
  ap_payload :: pydict
  ap_decision_version_id :: string
  ap_source_signal_id :: string
  ap_proposed_by :: string
  ap_confidence :: rat
  ap_risk_class :: string
  ap_requires_review :: bool
  ap_policy_basis :: "pyval list"
  ap_created_at :: string
  ap_status :: string
  ap_decision_reason :: string
  ap_decided_by :: string
  ap_decided_at :: string

definition ap_to_dict :: "action_proposal \<Rightarrow> pydict" where
  "ap_to_dict p = [(''proposal_id'', PStr (ap_proposal_id p)), (''case_id'', PStr (ap_case_id p)),
     (''action_type'', PStr (ap_action_type p)), (''payload'', PDict (ap_payload p)),
     (''decision_version_id'', PStr (ap_decision_version_id p)),
     (''source_signal_id'', PStr (ap_source_signal_id p)), (''proposed_by'', PStr (ap_proposed_by p)),
     (''confidence'', PFloat (ap_confidence p)), (''risk_class'', PStr (ap_risk_class p)),
     (''requires_review'', PBool (ap_requires_review p)), (''policy_basis'', PList (ap_policy_basis p)),
     (''created_at'', PStr (ap_created_at p)), (''status'', PStr (ap_status p)),
     (''decision_reason'', PStr (ap_decision_reason p)), (''decided_by'', PStr (ap_decided_by p)),
     (''decided_at'', PStr (ap_decided_at p))]"

record execution_result =
  er_execution_id :: string
  er_proposal_id :: string
  er_case_id :: string
  er_action_type :: string
  er_approved_by :: string
  er_approved_at :: string
  er_executed_by :: string
  er_executed_at :: string
  er_execution_status :: string
  er_error_code :: string
  er_error_message :: string
  er_result_payload :: pydict
  er_audit_trace_id :: string
  er_policy_result :: pydict

definition er_to_dict :: "execution_result \<Rightarrow> pydict" where
  "er_to_dict r = [(''execution_id'', PStr (er_execution_id r)), (''proposal_id'', PStr (er_proposal_id r)),
     (''case_id'', PStr (er_case_id r)), (''action_type'', PStr (er_action_type r)),
     (''approved_by'', PStr (er_approved_by r)), (''approved_at'', PStr (er_approved_at r)),
     (''executed_by'', PStr (er_executed_by r)), (''executed_at'', PStr (er_executed_at r)),
     (''execution_status'', PStr (er_execution_status r)), (''error_code'', PStr (er_error_code r)),
     (''error_message'', PStr (er_error_message r)), (''result_payload'', PDict (er_result_payload r)),
     (''audit_trace_id'', PStr (er_audit_trace_id r)), (''policy_result'', PDict (er_policy_result r))]"

definition stable_id :: "(string \<Rightarrow> string) \<Rightarrow> string \<Rightarrow> pyval list \<Rightarrow> string" where
  "stable_id digest prefix parts =
     prefix @ ''_'' @ take 24 (digest (''['' @ join '', '' (map (json_str \<circ> py_str) parts) @ '']''))"

definition action_risk_class :: "string \<Rightarrow> pydict \<Rightarrow> string \<times> string list" where
  "action_risk_class action_type payload =
     (let action = strip action_type in
      if action \<in> set FORBIDDEN_ACTION_TYPES then (''R4'', [''forbidden_in_v1''])
      else if action = ''prepare_reply_draft'' then (''R1'', [''draft_only_no_send''])
      else if action = ''mark_attention_required'' then (''R1'', [''internal_annotation''])
      else if action = ''set_case_status'' then
        (if norm_of (dget ''status'' payload) = ''done'' then (''R2'', [''case_done_requires_owner_review''])
         else (''R1'', [''internal_case_state_update'']))
      else if action \<in> set [''apply_gmail_label'', ''archive_gmail'']
        then (''R2'', [''gmail_external_write_requires_owner_review'', ''live_write_not_proven_in_repo''])
      else if action = ''create_calendar_event'' then (''R4'', [''calendar_write_disabled_read_only''])
      else (''R4'', [''unknown_action_type_forbidden'']))"

text \<open>\<open>max (0.0, min (1.0, x))\<close>, whose result is finite for every float.\<close>

definition clamp01 :: "pyfloat \<Rightarrow> rat" where
  "clamp01 x = (let m = (if pf_less x (Fin 1) then x else Fin 1) in
     case (if pf_less (Fin 0) m then m else Fin 0) of Fin r \<Rightarrow> r | _ \<Rightarrow> 0)"

definition normalize_action_proposal ::
  "(string \<Rightarrow> string) \<Rightarrow> string \<Rightarrow> pydict \<Rightarrow> exec_error + action_proposal" where
  "normalize_action_proposal digest now raw =
     (let payload = as_dict (dget ''payload'' raw);
          action_type = norm_of (py_or (dget ''action_type'' raw) (dget ''type'' raw));
          (risk, basis) = action_risk_class action_type payload;
          created_at = py_str (py_or (dget ''created_at'' raw) (PStr now));
          case_id = norm_of (dget ''case_id'' raw);
          given_id = norm_of (dget ''proposal_id'' raw);
          proposal_id = (if given_id = [] then stable_id digest ''proposal''
                           [PStr case_id, PStr action_type, PDict payload, PStr created_at] else given_id);
          given_status = strip (py_str (py_or (dget ''status'' raw) (PStr ''proposed'')));
          status = (if given_status \<in> set PROPOSAL_STATUSES then given_status else ''proposed'')
      in case py_float (py_or (dget ''confidence'' raw) (PFloat 0)) of
           None \<Rightarrow> Inl BadConfidence
         | Some conf \<Rightarrow>
             (case py_iter (py_or (dget ''policy_basis'' raw) (PList (map PStr basis))) of
                None \<Rightarrow> Inl BadPolicyBasis
              | Some policy_basis \<Rightarrow> Inr \<lparr>
                  ap_proposal_id = proposal_id, ap_case_id = case_id, ap_action_type = action_type,
                  ap_payload = payload, ap_decision_version_id = text_of (dget ''decision_version_id'' raw),
                  ap_source_signal_id = text_of (dget ''source_signal_id'' raw),
                  ap_proposed_by = py_str (py_or (dget ''proposed_by'' raw) (PStr ''ai'')),
                  ap_confidence = clamp01 conf,
                  ap_risk_class = py_str (py_or (dget ''risk_class'' raw) (PStr risk)),
                  ap_requires_review =
                    (case map_of raw ''requires_review'' of None \<Rightarrow> True | Some v \<Rightarrow> truthy v),
                  ap_policy_basis = policy_basis, ap_created_at = created_at, ap_status = status,
                  ap_decision_reason = text_of (dget ''decision_reason'' raw),
                  ap_decided_by = text_of (dget ''decided_by'' raw),
                  ap_decided_at = text_of (dget ''decided_at'' raw)\<rparr>))"

subsection \<open>The policy gate\<close>

fun hashable :: "pyval \<Rightarrow> bool" where
  "hashable (PList xs) = False"
| "hashable (PDict d) = False"
| "hashable _ = True"

fun hash_key :: "pyval \<Rightarrow> pyval" where
  "hash_key (PBool b) = PFloat (if b then 1 else 0)"
| "hash_key (PInt i) = PFloat (of_int i)"
| "hash_key v = v"

definition policy_gate :: "action_proposal \<Rightarrow> string \<Rightarrow> exec_error + pydict" where
  "policy_gate p approved_by =
     (let (risk, basis) = action_risk_class (ap_action_type p) (ap_payload p);
          approved = (approved_by \<noteq> []);
          allowed0 = (risk \<in> set [''R0'', ''R1''] \<or> (risk = ''R2'' \<and> approved));
          allowed = (if risk \<in> set [''R3'', ''R4''] then False else allowed0);
          merged = ap_policy_basis p @ map PStr basis
      in if \<not> list_all hashable merged then Inl UnhashableBasis
         else Inr [(''allowed'', PBool allowed), (''risk_class'', PStr risk),
           (''requires_review'', PBool (risk \<in> set [''R2'', ''R3'', ''R4''] \<or> ap_requires_review p)),
           (''approved_by_required'', PBool (risk = ''R2'')),
           (''policy_basis'', PList (dedup_key hash_key [] merged)),
           (''forbidden'', PBool (risk = ''R4''))])"

subsection \<open>Records of what happened\<close>

definition append_execution_event ::
  "(string \<Rightarrow> string) \<Rightarrow> string \<Rightarrow> string \<Rightarrow> string \<Rightarrow> string \<Rightarrow> pydict \<Rightarrow> string \<Rightarrow> mailbox_store \<Rightarrow> mailbox_store" where
  "append_execution_event digest now case_id event_type summary payload event_id st =
     append_event [(''event_id'', PStr (str_or event_id (stable_id digest ''event''
           [PStr event_type, PStr case_id, dget ''proposal_id'' payload, PStr now]))),
         (''case_id'', PStr case_id), (''message_id'', PStr []), (''thread_id'', PStr []),
         (''event_type'', PStr event_type), (''occurred_at'', PStr now), (''summary_text'', PStr summary),
         (''payload'', PDict payload),
         (''source_refs'', PList [PDict [(''type'', PStr ''case''), (''case_id'', PStr case_id)]])] st"

definition execution_result_of ::
  "(string \<Rightarrow> string) \<Rightarrow> string \<Rightarrow> action_proposal \<Rightarrow> string \<Rightarrow> string \<Rightarrow> string \<Rightarrow> string \<Rightarrow> string \<Rightarrow> pydict \<Rightarrow> pydict \<Rightarrow>
   exec_error + execution_result" where
  "execution_result_of digest executed_at p executed_by execution_status error_code error_message approved_by
     result_payload policy_result =
     bindE (if policy_result \<noteq> [] then Inr policy_result else policy_gate p approved_by) (\<lambda>gate.
       Inr \<lparr>er_execution_id = stable_id digest ''execution''
              [PStr (ap_proposal_id p), PStr execution_status, PStr executed_at],
            er_proposal_id = ap_proposal_id p, er_case_id = ap_case_id p, er_action_type = ap_action_type p,
            er_approved_by = approved_by, er_approved_at = ap_decided_at p, er_executed_by = executed_by,
            er_executed_at = executed_at,
            er_execution_status = (if execution_status \<in> set EXECUTION_STATUSES then execution_status else ''failed''),
            er_error_code = error_code, er_error_message = error_message, er_result_payload = result_payload,
            er_audit_trace_id = stable_id digest ''audit'' [PStr (ap_proposal_id p), PStr executed_at],
            er_policy_result = gate\<rparr>)"

definition persist_execution_result ::
  "(string \<Rightarrow> string) \<Rightarrow> string \<Rightarrow> action_proposal \<Rightarrow> execution_result \<Rightarrow> mailbox_store \<Rightarrow> mailbox_store" where
  "persist_execution_result digest now p r st =
     append_execution_event digest now (ap_case_id p) ''action_execution_result''
       (''Action execution '' @ er_execution_status r @ '': '' @ ap_action_type p) (er_to_dict r) []
       (upsert_execution_result (er_to_dict r) st)"

definition rejected_execution_result ::
  "(string \<Rightarrow> string) \<Rightarrow> string \<Rightarrow> action_proposal \<Rightarrow> string \<Rightarrow> string \<Rightarrow> execution_result" where
  "rejected_execution_result digest now p rejected_by decision_key =
     (let decided_at = str_or (ap_decided_at p) now;
          resolved = str_or decision_key (stable_id digest ''decision'' [PStr (ap_proposal_id p), PStr ''reject''])
      in \<lparr>er_execution_id = stable_id digest ''execution'' [PStr (ap_proposal_id p), PStr ''decision_rejected''],
          er_proposal_id = ap_proposal_id p, er_case_id = ap_case_id p, er_action_type = ap_action_type p,
          er_approved_by = [], er_approved_at = [], er_executed_by = rejected_by, er_executed_at = decided_at,
          er_execution_status = ''skipped'', er_error_code = ''decision_rejected'',
          er_error_message = ''proposal rejected by owner'',
          er_result_payload = [(''decision_status'', PStr ''rejected''), (''decision_key'', PStr resolved),
             (''proposal_status'', PStr ''rejected'')],
          er_audit_trace_id = stable_id digest ''audit'' [PStr (ap_proposal_id p), PStr ''decision_rejected''],
          er_policy_result = []\<rparr>)"

subsection \<open>Operations\<close>

type_synonym clock = "nat \<Rightarrow> string"

type_synonym 'a exec_result = "(exec_error + 'a) \<times> mailbox_store"

definition load_proposal ::
  "(string \<Rightarrow> string) \<Rightarrow> string \<Rightarrow> string \<Rightarrow> mailbox_store \<Rightarrow> exec_error + action_proposal" where
  "load_proposal digest now proposal_id st =
     (case fetch_action_proposal (strip proposal_id) st of
        None \<Rightarrow> Inl (ProposalNotFound proposal_id)
      | Some row \<Rightarrow> normalize_action_proposal digest now row)"

definition create_action_proposal ::
  "(string \<Rightarrow> string) \<Rightarrow> clock \<Rightarrow> pydict \<Rightarrow> mailbox_store \<Rightarrow> action_proposal exec_result" where
  "create_action_proposal digest clk raw st =
     (case normalize_action_proposal digest (clk 0) raw of
        Inl e \<Rightarrow> (Inl e, st)
      | Inr p \<Rightarrow>
          if ap_case_id p = [] then (Inl CaseIdMissing, st)
          else if ap_action_type p \<notin> set ACTION_TYPES \<and> ap_risk_class p \<noteq> ''R4''
          then (Inl (UnsupportedActionType (ap_action_type p)), st)
          else (Inr p, append_execution_event digest (clk 4) (ap_case_id p) ''action_proposal_created''
                  (''Action proposal created: '' @ ap_action_type p) (ap_to_dict p) []
                  (upsert_action_proposal (ap_to_dict p) st)))"

definition approve_action_proposal ::
  "(string \<Rightarrow> string) \<Rightarrow> clock \<Rightarrow> string \<Rightarrow> string \<Rightarrow> string \<Rightarrow> mailbox_store \<Rightarrow> action_proposal exec_result" where
  "approve_action_proposal digest clk proposal_id approved_by reason st =
     (case bindE (require_owner approved_by False) (\<lambda>_. load_proposal digest (clk 0) proposal_id st) of
        Inl e \<Rightarrow> (Inl e, st)
      | Inr p \<Rightarrow>
          if ap_status p \<notin> set [''proposed'', ''blocked'', ''failed''] then (Inl (NotApprovable (ap_status p)), st)
          else let p' = p\<lparr>ap_status := ''approved'', ap_decided_by := approved_by, ap_decided_at := clk 1,
                          ap_decision_reason := reason\<rparr>
               in (Inr p', append_execution_event digest (clk 4) (ap_case_id p') ''action_proposal_approved''
                     (''Owner approved action proposal: '' @ ap_action_type p') (ap_to_dict p') []
                     (upsert_action_proposal (ap_to_dict p') st)))"

definition reject_action_proposal ::
  "(string \<Rightarrow> string) \<Rightarrow> clock \<Rightarrow> string \<Rightarrow> string \<Rightarrow> string \<Rightarrow> string \<Rightarrow> mailbox_store \<Rightarrow> action_proposal exec_result" where
  "reject_action_proposal digest clk proposal_id rejected_by reason decision_key st =
     (case bindE (require_owner rejected_by False) (\<lambda>_. load_proposal digest (clk 0) proposal_id st) of
        Inl e \<Rightarrow> (Inl e, st)
      | Inr p \<Rightarrow>
          if ap_status p = ''rejected''
          then (Inr p, upsert_execution_result
                  (er_to_dict (rejected_execution_result digest (clk 5) p rejected_by decision_key)) st)
          else if ap_status p \<in> set [''approved'', ''executed''] then (Inl (CannotReject (ap_status p)), st)
          else if ap_status p \<notin> set [''proposed'', ''blocked'', ''failed''] then (Inl (NotRejectable (ap_status p)), st)
          else let p' = p\<lparr>ap_status := ''rejected'', ap_decided_by := rejected_by, ap_decided_at := clk 1,
                          ap_decision_reason := reason\<rparr>
               in (Inr p', append_execution_event digest (clk 4) (ap_case_id p') ''action_proposal_rejected''
                     (''Owner rejected action proposal: '' @ ap_action_type p') (ap_to_dict p')
                     (stable_id digest ''event'' [PStr ''action_proposal_rejected'', PStr (ap_case_id p'),
                        PStr (ap_proposal_id p'), PStr ''rejected''])
                     (upsert_execution_result
                       (er_to_dict (rejected_execution_result digest (clk 5) p' rejected_by decision_key))
                       (upsert_action_proposal (ap_to_dict p') st))))"

definition execute_set_case_status ::
  "string \<Rightarrow> action_proposal \<Rightarrow> mailbox_store \<Rightarrow> (string + pydict) \<times> mailbox_store" where
  "execute_set_case_status now p st =
     (let target = norm_of (dget ''status'' (ap_payload p)) in
      if target \<notin> set CASE_STATUSES then (Inl (''unsupported case status: '' @ target), st)
      else let case_row = (case fetch_case (ap_case_id p) st of Some row \<Rightarrow> row
                             | None \<Rightarrow> [(''case_id'', PStr (ap_case_id p))]);
               previous = text_of (dget ''status'' case_row);
               case1 = AList.update ''updated_at'' (PStr now) (AList.update ''status'' (PStr target) case_row);
               metadata = AList.update ''last_status_proposal_id'' (PStr (ap_proposal_id p))
                 (AList.update ''status_updated_by_execution'' (PBool True) (as_dict (dget ''metadata'' case1)))
           in (Inr [(''previous_status'', PStr previous), (''new_status'', PStr target)],
               upsert_case (AList.update ''metadata'' (PDict metadata) case1) st))"

text \<open>What the dispatch on the action type does: status, error code, message and payload of the result.\<close>

definition run_action ::
  "string \<Rightarrow> bool \<Rightarrow> action_proposal \<Rightarrow> mailbox_store \<Rightarrow> (string \<times> string \<times> string \<times> pydict) \<times> mailbox_store" where
  "run_action now dry_run p st =
     (if ap_action_type p = ''set_case_status'' then
        (case execute_set_case_status now p st of
           (Inr payload, st') \<Rightarrow> ((''executed'', [], [], payload), st')
         | (Inl message, st') \<Rightarrow> ((''failed'', ''execution_error'', message, []), st'))
      else if ap_action_type p = ''mark_attention_required'' then
        ((''executed'', [], [], [(''attention_required'', PBool True), (''case_id'', PStr (ap_case_id p))]), st)
      else if ap_action_type p = ''prepare_reply_draft'' then
        ((''executed'', [], [], [(''draft'', PDict (ap_payload p)), (''no_send'', PBool True)]), st)
      else if ap_action_type p \<in> set [''apply_gmail_label'', ''archive_gmail''] then
        ((if dry_run then ''skipped'' else ''blocked'',
          if dry_run then ''not_proven_live'' else ''missing_safe_gmail_write_wrapper'',
          ''repo-local Gmail helper is read-only; no live Gmail write was executed'',
          [(''dry_run'', PBool dry_run), (''not_proven_live'', PBool True)]), st)
      else if ap_action_type p = ''create_calendar_event'' then
        ((''blocked'', ''calendar_write_disabled_read_only'',
          ''Node B never creates, updates or deletes Google Calendar events'',
          [(''manual_operator_delivery'', PBool True), (''calendar_write_attempted'', PBool False)]), st)
      else ((''blocked'', ''unsupported_action'', ''unsupported action_type='' @ ap_action_type p, []), st))"

definition execute_action_proposal ::
  "(string \<Rightarrow> string) \<Rightarrow> clock \<Rightarrow> string \<Rightarrow> string \<Rightarrow> bool \<Rightarrow> mailbox_store \<Rightarrow> execution_result exec_result" where
  "execute_action_proposal digest clk proposal_id executed_by dry_run st =
     (case bindE (require_owner executed_by False) (\<lambda>_. load_proposal digest (clk 0) proposal_id st) of
        Inl e \<Rightarrow> (Inl e, st)
      | Inr p \<Rightarrow>
          if ap_status p \<noteq> ''approved'' then
            (case execution_result_of digest (clk 3) p executed_by ''blocked'' ''not_approved''
                    ''proposal must be approved before execution'' (ap_decided_by p) [] [] of
               Inl e \<Rightarrow> (Inl e, st)
             | Inr r \<Rightarrow> (Inr r, persist_execution_result digest (clk 4) p r st))
          else
            (case policy_gate p (ap_decided_by p) of
               Inl e \<Rightarrow> (Inl e, st)
             | Inr gate \<Rightarrow>
                 if \<not> truthy (dget ''allowed'' gate) then
                   (let p' = p\<lparr>ap_status := ''blocked''\<rparr>; st1 = upsert_action_proposal (ap_to_dict p') st
                    in case execution_result_of digest (clk 3) p' executed_by ''blocked'' ''policy_blocked''
                              ''policy gate blocked this action'' (ap_decided_by p') [] gate of
                         Inl e \<Rightarrow> (Inl e, st1)
                       | Inr r \<Rightarrow> (Inr r, persist_execution_result digest (clk 4) p' r st1))
                 else
                   (case run_action (clk 2) dry_run p st of
                      ((status, code, message, payload), st1) \<Rightarrow>
                        (let p' = p\<lparr>ap_status := (if status = ''executed'' then ''executed''
                                     else if status = ''blocked'' then ''blocked'' else ap_status p)\<rparr>;
                             st2 = upsert_action_proposal (ap_to_dict p') st1
                         in case execution_result_of digest (clk 3) p' executed_by status code message
                                   (ap_decided_by p') payload gate of
                              Inl e \<Rightarrow> (Inl e, st2)
                            | Inr r \<Rightarrow> (Inr r, persist_execution_result digest (clk 4) p' r st2)))))"

definition build_execution_action_proposal_v1 ::
  "(string \<Rightarrow> string) \<Rightarrow> string \<Rightarrow> string \<Rightarrow> string \<Rightarrow> pydict option \<Rightarrow> string \<Rightarrow> string \<Rightarrow> pyfloat \<Rightarrow> string \<Rightarrow> pydict" where
  "build_execution_action_proposal_v1 digest now case_id action_type payload source_signal_id proposed_by
     confidence created_at =
     (let action = strip action_type;
          body = (case payload of None \<Rightarrow> [] | Some d \<Rightarrow> d);
          (risk, basis) = action_risk_class action body;
          ts = str_or created_at now;
          proposal_id = ''ap_'' @ take 24 (digest (case_id @ ''|'' @ source_signal_id @ ''|'' @ action @ ''|'' @
             py_str (case payload of None \<Rightarrow> PNone | Some d \<Rightarrow> PDict d) @ ''|'' @ ts))
      in [(''schema_version'', PStr ''action_proposal.v1''), (''proposal_id'', PStr proposal_id),
          (''case_id'', PStr case_id), (''source_signal_id'', PStr source_signal_id), (''action_type'', PStr action),
          (''payload'', PDict body), (''proposed_by'', PStr (str_or proposed_by ''ai'')),
          (''confidence'', PFloat (clamp01 confidence)), (''risk_class'', PStr risk),
          (''requires_review'', PBool True), (''policy_basis'', PList (map PStr basis)), (''created_at'', PStr ts),
          (''status'', PStr ''proposed'')])"

subsection \<open>Normal proposals\<close>

definition plain_digest :: "(string \<Rightarrow> string) \<Rightarrow> bool" where
  "plain_digest digest \<longleftrightarrow> (\<forall>t. list_all (\<lambda>c. \<not> is_space c) (digest t))"

definition normal_proposal :: "action_proposal \<Rightarrow> bool" where
  "normal_proposal p \<longleftrightarrow> strip (ap_proposal_id p) = ap_proposal_id p \<and> ap_proposal_id p \<noteq> [] \<and>
     strip (ap_case_id p) = ap_case_id p \<and> strip (ap_action_type p) = ap_action_type p \<and>
     ap_proposed_by p \<noteq> [] \<and> ap_risk_class p \<noteq> [] \<and> ap_created_at p \<noteq> [] \<and>
     0 \<le> ap_confidence p \<and> ap_confidence p \<le> 1 \<and> ap_policy_basis p \<noteq> [] \<and>
     ap_status p \<in> set PROPOSAL_STATUSES"

lemma nat_str_ne: "nat_str n \<noteq> []"
  by (subst nat_str.simps) simp

lemma py_str_truthy: "truthy v \<Longrightarrow> py_str v \<noteq> []"
  by (cases v) (auto simp: int_str_def float_str_def Let_def nat_str_ne)

lemma py_str_or_ne: "s \<noteq> [] \<Longrightarrow> py_str (py_or v (PStr s)) \<noteq> []"
  by (simp add: py_or_def py_str_truthy)

lemma py_iter_or_ne: "py_iter (py_or v (PList xs)) = Some ys \<Longrightarrow> xs \<noteq> [] \<Longrightarrow> ys \<noteq> []"
  by (cases v) (auto simp: py_or_def split: if_splits)

lemma clamp01_range: "0 \<le> clamp01 x \<and> clamp01 x \<le> 1"
  by (cases x) (auto simp: clamp01_def Let_def)

lemma clamp01_Fin: "0 \<le> r \<Longrightarrow> r \<le> 1 \<Longrightarrow> clamp01 (Fin r) = r"
  by (auto simp: clamp01_def Let_def)

lemma strip_no_space: "list_all (\<lambda>c. \<not> is_space c) s \<Longrightarrow> strip s = s"
proof -
  have d: "dropWhile is_space t = t" if "list_all (\<lambda>c. \<not> is_space c) t" for t
    using that by (cases t) auto
  assume "list_all (\<lambda>c. \<not> is_space c) s"
  then show ?thesis by (simp add: strip_def d list_all_iff)
qed

lemma strip_stable_id:
  assumes "plain_digest digest" and "list_all (\<lambda>c. \<not> is_space c) prefix"
  shows "strip (stable_id digest prefix parts) = stable_id digest prefix parts"
proof -
  have "\<not> is_space (CHR ''_'')" by code_simp
  moreover have "list_all (\<lambda>c. \<not> is_space c) (take 24 (digest t))" for t
    using assms(1) by (auto simp: plain_digest_def list_all_iff dest: in_set_takeD)
  ultimately show ?thesis
    unfolding stable_id_def by (intro strip_no_space) (use assms(2) in simp)
qed

lemma risk_class_ne: "fst (action_risk_class a d) \<noteq> []" "snd (action_risk_class a d) \<noteq> []"
  by (simp_all add: action_risk_class_def Let_def)

lemma proposed_in: "''proposed'' \<in> set PROPOSAL_STATUSES"
  by (simp add: PROPOSAL_STATUSES_def)

definition normalized ::
  "(string \<Rightarrow> string) \<Rightarrow> string \<Rightarrow> pydict \<Rightarrow> pyfloat \<Rightarrow> pyval list \<Rightarrow> action_proposal" where
  "normalized digest now raw conf policy_basis =
     (let payload = as_dict (dget ''payload'' raw);
          action_type = norm_of (py_or (dget ''action_type'' raw) (dget ''type'' raw));
          created_at = py_str (py_or (dget ''created_at'' raw) (PStr now));
          given_status = strip (py_str (py_or (dget ''status'' raw) (PStr ''proposed'')))
      in \<lparr>ap_proposal_id = (if norm_of (dget ''proposal_id'' raw) = [] then stable_id digest ''proposal''
             [PStr (norm_of (dget ''case_id'' raw)), PStr action_type, PDict payload, PStr created_at]
             else norm_of (dget ''proposal_id'' raw)),
          ap_case_id = norm_of (dget ''case_id'' raw), ap_action_type = action_type,
          ap_payload = payload, ap_decision_version_id = text_of (dget ''decision_version_id'' raw),
          ap_source_signal_id = text_of (dget ''source_signal_id'' raw),
          ap_proposed_by = py_str (py_or (dget ''proposed_by'' raw) (PStr ''ai'')),
          ap_confidence = clamp01 conf,
          ap_risk_class = py_str (py_or (dget ''risk_class'' raw) (PStr (fst (action_risk_class action_type payload)))),
          ap_requires_review = (case map_of raw ''requires_review'' of None \<Rightarrow> True | Some v \<Rightarrow> truthy v),
          ap_policy_basis = policy_basis, ap_created_at = created_at,
          ap_status = (if given_status \<in> set PROPOSAL_STATUSES then given_status else ''proposed''),
          ap_decision_reason = text_of (dget ''decision_reason'' raw),
          ap_decided_by = text_of (dget ''decided_by'' raw), ap_decided_at = text_of (dget ''decided_at'' raw)\<rparr>)"

abbreviation raw_basis :: "pydict \<Rightarrow> pyval list option" where
  "raw_basis raw \<equiv> py_iter (py_or (dget ''policy_basis'' raw) (PList (map PStr (snd (action_risk_class
     (norm_of (py_or (dget ''action_type'' raw) (dget ''type'' raw))) (as_dict (dget ''payload'' raw)))))))"

lemma normalize_Inr_iff:
  "normalize_action_proposal digest now raw = Inr p \<longleftrightarrow>
   (\<exists>conf basis. py_float (py_or (dget ''confidence'' raw) (PFloat 0)) = Some conf \<and>
      raw_basis raw = Some basis \<and> p = normalized digest now raw conf basis)"
  by (auto simp: normalize_action_proposal_def normalized_def Let_def case_prod_beta split: option.splits)

lemma normalize_normal:
  assumes "normalize_action_proposal digest now raw = Inr p" and "plain_digest digest" and "now \<noteq> []"
  shows "normal_proposal p"
proof -
  obtain conf basis where basis: "raw_basis raw = Some basis" and p: "p = normalized digest now raw conf basis"
    using assms(1) unfolding normalize_Inr_iff by blast
  have sid: "strip (stable_id digest ''proposal'' parts) = stable_id digest ''proposal'' parts" for parts
    by (rule strip_stable_id [OF assms(2)]) code_simp
  have sid_ne: "stable_id digest ''proposal'' parts \<noteq> []" for parts by (simp add: stable_id_def)
  have "strip (ap_proposal_id p) = ap_proposal_id p \<and> ap_proposal_id p \<noteq> []"
    by (simp add: p normalized_def Let_def sid sid_ne)
  moreover have "ap_policy_basis p \<noteq> []"
    using py_iter_or_ne [OF basis] risk_class_ne(2) by (simp add: p normalized_def Let_def)
  moreover have "ap_created_at p \<noteq> []" by (simp add: p normalized_def Let_def py_str_or_ne assms(3))
  moreover have "ap_proposed_by p \<noteq> []" by (simp add: p normalized_def Let_def py_str_or_ne)
  moreover have "ap_risk_class p \<noteq> []"
    by (simp add: p normalized_def Let_def py_str_or_ne risk_class_ne(1))
  moreover have "ap_status p \<in> set PROPOSAL_STATUSES"
    by (simp add: p normalized_def Let_def proposed_in)
  ultimately show ?thesis
    unfolding normal_proposal_def by (simp add: p normalized_def Let_def clamp01_range)
qed

lemma dget_to_dict [simp]:
  "dget ''proposal_id'' (ap_to_dict p) = PStr (ap_proposal_id p)"
  "dget ''case_id'' (ap_to_dict p) = PStr (ap_case_id p)"
  "dget ''status'' (ap_to_dict p) = PStr (ap_status p)"
  "dget ''execution_id'' (er_to_dict r) = PStr (er_execution_id r)"
  by (simp_all add: ap_to_dict_def er_to_dict_def)

lemma py_or_PStr: "s \<noteq> [] \<Longrightarrow> py_or (PStr s) v = PStr s"
  by (simp add: py_or_def)

lemma status_strip: "s \<in> set PROPOSAL_STATUSES \<Longrightarrow> strip s = s \<and> s \<noteq> []"
proof -
  have "list_all (\<lambda>s. strip s = s \<and> s \<noteq> []) PROPOSAL_STATUSES" by code_simp
  then show "s \<in> set PROPOSAL_STATUSES \<Longrightarrow> strip s = s \<and> s \<noteq> []" by (simp only: list_all_iff) blast
qed

lemma load_to_dict:
  assumes "normal_proposal p"
  shows "normalize_action_proposal digest now (ap_to_dict p) = Inr p"
proof -
  have n: "strip (ap_proposal_id p) = ap_proposal_id p" "ap_proposal_id p \<noteq> []"
    "strip (ap_case_id p) = ap_case_id p" "strip (ap_action_type p) = ap_action_type p"
    "ap_proposed_by p \<noteq> []" "ap_risk_class p \<noteq> []" "ap_created_at p \<noteq> []"
    "0 \<le> ap_confidence p" "ap_confidence p \<le> 1" "ap_policy_basis p \<noteq> []"
    "ap_status p \<in> set PROPOSAL_STATUSES"
    using assms by (simp_all add: normal_proposal_def)
  have st: "strip (ap_status p) = ap_status p" "ap_status p \<noteq> []" using status_strip [OF n(11)] by simp_all
  have "py_float (py_or (PFloat (ap_confidence p)) (PFloat 0)) = Some (Fin (ap_confidence p))"
    by (simp add: py_or_def)
  moreover have "raw_basis (ap_to_dict p) = Some (ap_policy_basis p)"
    by (simp add: ap_to_dict_def py_or_def n(10))
  moreover have "normalized digest now (ap_to_dict p) (Fin (ap_confidence p)) (ap_policy_basis p) = p"
    by (simp add: normalized_def Let_def ap_to_dict_def py_or_def n st clamp01_Fin)
  ultimately show ?thesis
    unfolding normalize_Inr_iff by (auto simp: ap_to_dict_def)
qed

subsection \<open>What the operations write\<close>

text \<open>
  The part of the store the loop owns: proposals and results.  Events and cases do not matter here.
\<close>

lemma upsert_tables [simp]:
  "m_action_proposals (append_execution_event digest now c e s d i st) = m_action_proposals st"
  "m_execution_results (append_execution_event digest now c e s d i st) = m_execution_results st"
  "m_cases (append_execution_event digest now c e s d i st) = m_cases st"
  "m_action_proposals (upsert_execution_result row st) = m_action_proposals st"
  "m_cases (upsert_execution_result row st) = m_cases st"
  "m_execution_results (upsert_action_proposal row st) = m_execution_results st"
  "m_cases (upsert_action_proposal row st) = m_cases st"
  "m_action_proposals (upsert_case row st) = m_action_proposals st"
  "m_execution_results (upsert_case row st) = m_execution_results st"
  by (simp_all add: append_execution_event_def append_event_def upsert_execution_result_def
      upsert_action_proposal_def upsert_case_def Let_def)

lemma persist_tables [simp]:
  "m_action_proposals (persist_execution_result digest now p r st) = m_action_proposals st"
  "m_execution_results (persist_execution_result digest now p r st) =
     m_execution_results (upsert_execution_result (er_to_dict r) st)"
  "m_cases (persist_execution_result digest now p r st) = m_cases st"
  by (simp_all add: persist_execution_result_def)

lemma run_action_tables [simp]:
  "m_action_proposals (snd (run_action now dry p st)) = m_action_proposals st"
  "m_execution_results (snd (run_action now dry p st)) = m_execution_results st"
  by (simp_all add: run_action_def execute_set_case_status_def Let_def)

definition is_owner :: "string \<Rightarrow> bool" where
  "is_owner actor \<longleftrightarrow> actor_role actor = OWNER_ROLE"

definition INTERNAL_ACTIONS :: "string list" where
  "INTERNAL_ACTIONS = [''set_case_status'', ''mark_attention_required'', ''prepare_reply_draft'']"

lemma require_owner_Inr: "require_owner a False = Inr u \<longleftrightarrow> is_owner a"
proof -
  have "actor_role (strip a) = actor_role a" by (simp add: actor_role_def)
  then show ?thesis by (simp add: require_owner_def is_owner_def Let_def)
qed

lemma owner_ne: "is_owner a \<Longrightarrow> a \<noteq> []"
proof -
  have "\<not> is_owner []" by code_simp
  then show "is_owner a \<Longrightarrow> a \<noteq> []" by auto
qed

lemma run_action_executed:
  "fst (fst (run_action now dry p st)) = ''executed'' \<Longrightarrow> ap_action_type p \<in> set INTERNAL_ACTIONS"
  by (simp add: run_action_def INTERNAL_ACTIONS_def split: if_split_asm)

lemma run_action_status: "fst (fst (run_action now dry p st)) \<in> set EXECUTION_STATUSES"
  by (simp add: run_action_def EXECUTION_STATUSES_def execute_set_case_status_def Let_def)

lemma execution_result_fields:
  assumes "execution_result_of digest now p executor status code msg approver payload gate = Inr r"
  shows "er_action_type r = ap_action_type p" "er_executed_by r = executor" "er_approved_by r = approver"
    "er_proposal_id r = ap_proposal_id p" "er_error_code r = code"
    "status \<in> set EXECUTION_STATUSES \<Longrightarrow> er_execution_status r = status"
  using assms by (auto simp: execution_result_of_def bindE_eq_Inr)

lemma policy_gate_allowed:
  "policy_gate p a = Inr gate \<Longrightarrow> gate \<noteq> [] \<and> (truthy (dget ''allowed'' gate) \<longleftrightarrow>
     (fst (action_risk_class (ap_action_type p) (ap_payload p)) \<in> set [''R0'', ''R1''] \<or>
      fst (action_risk_class (ap_action_type p) (ap_payload p)) = ''R2'' \<and> a \<noteq> []))"
  by (simp add: policy_gate_def Let_def case_prod_beta split: if_split_asm) auto

lemma result_with_gate:
  "gate \<noteq> [] \<Longrightarrow> \<exists>r. execution_result_of digest now p executor status code msg approver payload gate = Inr r"
  by (simp add: execution_result_of_def)

abbreviation settled :: "action_proposal \<Rightarrow> string \<Rightarrow> action_proposal" where
  "settled p status \<equiv> p\<lparr>ap_status := (if status = ''executed'' then ''executed''
     else if status = ''blocked'' then ''blocked'' else ap_status p)\<rparr>"

definition clear_to_run :: "(string \<Rightarrow> string) \<Rightarrow> clock \<Rightarrow> string \<Rightarrow> string \<Rightarrow> mailbox_store \<Rightarrow> action_proposal \<Rightarrow> pydict \<Rightarrow> bool" where
  "clear_to_run digest clk pid executor st p gate \<longleftrightarrow> is_owner executor \<and>
     load_proposal digest (clk 0) pid st = Inr p \<and> ap_status p = ''approved'' \<and>
     policy_gate p (ap_decided_by p) = Inr gate \<and> truthy (dget ''allowed'' gate)"

lemma execute_runs:
  assumes "clear_to_run digest clk pid executor st p gate"
    and "run_action (clk 2) dry p st = ((status, code, msg, payload), st1)"
  obtains r where "execute_action_proposal digest clk pid executor dry st =
      (Inr r, persist_execution_result digest (clk 4) (settled p status) r
         (upsert_action_proposal (ap_to_dict (settled p status)) st1))"
    and "execution_result_of digest (clk 3) (settled p status) executor status code msg
      (ap_decided_by p) payload gate = Inr r"
proof -
  have gate: "gate \<noteq> []" using policy_gate_allowed assms(1) unfolding clear_to_run_def by blast
  obtain r where r: "execution_result_of digest (clk 3) (settled p status) executor status code msg
      (ap_decided_by p) payload gate = Inr r" using result_with_gate [OF gate] by blast
  have owner: "require_owner executor False = Inr ()"
    using assms(1) by (simp add: clear_to_run_def require_owner_Inr)
  have "execute_action_proposal digest clk pid executor dry st =
      (Inr r, persist_execution_result digest (clk 4) (settled p status) r
         (upsert_action_proposal (ap_to_dict (settled p status)) st1))"
    using assms r unfolding clear_to_run_def execute_action_proposal_def owner by (simp add: Let_def)
  with r that show ?thesis by blast
qed

lemma persist_status [simp]:
  "persist_execution_result digest now (p\<lparr>ap_status := x\<rparr>) r st = persist_execution_result digest now p r st"
  by (simp add: persist_execution_result_def)

text \<open>Every other call ends in an exception that changes nothing, or in a blocked result.\<close>

lemma execute_stops:
  assumes "\<nexists>p gate. clear_to_run digest clk pid executor st p gate"
  shows "(\<exists>e. execute_action_proposal digest clk pid executor dry st = (Inl e, st)) \<or>
    (\<exists>p r st1. is_owner executor \<and> load_proposal digest (clk 0) pid st = Inr p \<and>
       er_execution_status r = ''blocked'' \<and>
       (st1 = st \<or> st1 = upsert_action_proposal (ap_to_dict (p\<lparr>ap_status := ''blocked''\<rparr>)) st) \<and>
       execute_action_proposal digest clk pid executor dry st =
         (Inr r, persist_execution_result digest (clk 4) p r st1))"
    (is "?raise \<or> ?blocked")
proof (cases "bindE (require_owner executor False) (\<lambda>_. load_proposal digest (clk 0) pid st)")
  case (Inl e)
  then show ?thesis unfolding execute_action_proposal_def by simp
next
  case (Inr p)
  then have owner: "is_owner executor" and load: "load_proposal digest (clk 0) pid st = Inr p"
    by (auto simp: bindE_eq_Inr require_owner_Inr)
  have blocked: "''blocked'' \<in> set EXECUTION_STATUSES" by (simp add: EXECUTION_STATUSES_def)
  show ?thesis
  proof (cases "ap_status p = ''approved''")
    case False
    show ?thesis
    proof (cases "execution_result_of digest (clk 3) p executor ''blocked'' ''not_approved''
        ''proposal must be approved before execution'' (ap_decided_by p) [] []")
      case (Inl e)
      with False Inr have ?raise unfolding execute_action_proposal_def by simp
      then show ?thesis ..
    next
      case r: (Inr r)
      from execution_result_fields(6) [OF r blocked] have "er_execution_status r = ''blocked''" .
      moreover have "execute_action_proposal digest clk pid executor dry st =
          (Inr r, persist_execution_result digest (clk 4) p r st)"
        using False Inr r unfolding execute_action_proposal_def by simp
      ultimately have ?blocked using owner load by blast
      then show ?thesis ..
    qed
  next
    case True
    show ?thesis
    proof (cases "policy_gate p (ap_decided_by p)")
      case (Inl e)
      with True Inr have ?raise unfolding execute_action_proposal_def by simp
      then show ?thesis ..
    next
      case gate: (Inr gate)
      have denied: "\<not> truthy (dget ''allowed'' gate)"
        using assms owner load True gate unfolding clear_to_run_def by blast
      let ?p = "p\<lparr>ap_status := ''blocked''\<rparr>"
      let ?st1 = "upsert_action_proposal (ap_to_dict ?p) st"
      obtain r where r: "execution_result_of digest (clk 3) ?p executor ''blocked'' ''policy_blocked''
          ''policy gate blocked this action'' (ap_decided_by p) [] gate = Inr r"
        using result_with_gate policy_gate_allowed [OF gate] by blast
      from execution_result_fields(6) [OF r blocked] have st: "er_execution_status r = ''blocked''" .
      have "execute_action_proposal digest clk pid executor dry st =
          (Inr r, persist_execution_result digest (clk 4) p r ?st1)"
        using True Inr gate denied r unfolding execute_action_proposal_def by (simp add: Let_def)
      then have ?blocked using owner load st by (intro exI conjI disjI2) (assumption | rule refl)+
      then show ?thesis ..
    qed
  qed
qed

subsection \<open>Histories and the invariant\<close>

text \<open>
  The calls the loop is driven by, with their arguments: any raw proposal may be created, whatever status it brings,
  and approval, rejection and execution may come from anyone and in any order.
\<close>

datatype loop_call =
    Create_Call pydict
  | Approve_Call string string string
  | Reject_Call string string string string
  | Execute_Call string string bool

definition perform :: "(string \<Rightarrow> string) \<Rightarrow> clock \<Rightarrow> loop_call \<Rightarrow> mailbox_store \<Rightarrow> mailbox_store" where
  "perform digest clk c st = (case c of
       Create_Call raw \<Rightarrow> snd (create_action_proposal digest clk raw st)
     | Approve_Call pid actor reason \<Rightarrow> snd (approve_action_proposal digest clk pid actor reason st)
     | Reject_Call pid actor reason key \<Rightarrow> snd (reject_action_proposal digest clk pid actor reason key st)
     | Execute_Call pid actor dry \<Rightarrow> snd (execute_action_proposal digest clk pid actor dry st))"

text \<open>
  Where the approval of a proposal comes from in a history of calls: an owner approved this proposal, or a creation
  brought the approved status and the decider along.
\<close>

definition claims_approval :: "pydict \<Rightarrow> bool" where
  "claims_approval raw \<longleftrightarrow> strip (py_str (py_or (dget ''status'' raw) (PStr ''proposed''))) = ''approved''"

definition approval_source :: "loop_call list \<Rightarrow> string \<Rightarrow> string \<Rightarrow> string \<Rightarrow> bool" where
  "approval_source h pid cid decider \<longleftrightarrow>
     (\<exists>i reason. Approve_Call i decider reason \<in> set h \<and> is_owner decider \<and> strip i = pid) \<or>
     (\<exists>raw. Create_Call raw \<in> set h \<and> claims_approval raw \<and> text_of (dget ''decided_by'' raw) = decider \<and>
        norm_of (dget ''case_id'' raw) = cid \<and> norm_of (dget ''proposal_id'' raw) \<in> {[], pid})"

lemma approval_source_mono: "approval_source h pid cid a \<Longrightarrow> set h \<subseteq> set h' \<Longrightarrow> approval_source h' pid cid a"
  unfolding approval_source_def by blast

definition proposal_ok :: "loop_call list \<Rightarrow> action_proposal \<Rightarrow> bool" where
  "proposal_ok h p \<longleftrightarrow> normal_proposal p \<and>
     (ap_status p = ''approved'' \<longrightarrow> approval_source h (ap_proposal_id p) (ap_case_id p) (ap_decided_by p))"

definition result_ok :: "loop_call list \<Rightarrow> execution_result \<Rightarrow> bool" where
  "result_ok h r \<longleftrightarrow> er_execution_status r \<in> set EXECUTION_STATUSES \<and>
     (er_execution_status r = ''executed'' \<longrightarrow> er_action_type r \<in> set INTERNAL_ACTIONS \<and>
        (\<exists>i dry. Execute_Call i (er_executed_by r) dry \<in> set h \<and> is_owner (er_executed_by r) \<and>
           strip i = er_proposal_id r) \<and>
        approval_source h (er_proposal_id r) (er_case_id r) (er_approved_by r))"

definition loop_ok :: "loop_call list \<Rightarrow> mailbox_store \<Rightarrow> bool" where
  "loop_ok h st \<longleftrightarrow>
     (\<forall>(k, row) \<in> set (m_action_proposals st). \<exists>p. row = ap_to_dict p \<and> k = ap_proposal_id p \<and> proposal_ok h p) \<and>
     (\<forall>(k, row) \<in> set (m_execution_results st). \<exists>r. row = er_to_dict r \<and> result_ok h r)"

lemma ok_mono:
  "proposal_ok h p \<Longrightarrow> set h \<subseteq> set h' \<Longrightarrow> proposal_ok h' p"
  "result_ok h r \<Longrightarrow> set h \<subseteq> set h' \<Longrightarrow> result_ok h' r"
  unfolding proposal_ok_def result_ok_def by (blast intro: approval_source_mono)+

lemma loop_ok_mono:
  assumes "loop_ok h st" and "set h \<subseteq> set h'"
  shows "loop_ok h' st"
  using assms ok_mono [OF _ assms(2)] unfolding loop_ok_def by fastforce

lemma set_update_subset: "set (AList.update k v t) \<subseteq> insert (k, v) (set t)"
  by (induction t) auto

lemma loop_ok_proposal:
  assumes "loop_ok h st" and "proposal_ok h p"
  shows "loop_ok h (upsert_action_proposal (ap_to_dict p) st)"
proof -
  have "strip (ap_proposal_id p) = ap_proposal_id p" "ap_proposal_id p \<noteq> []"
    using assms(2) by (simp_all add: proposal_ok_def normal_proposal_def)
  then have "m_action_proposals (upsert_action_proposal (ap_to_dict p) st) =
      AList.update (ap_proposal_id p) (ap_to_dict p) (m_action_proposals st)"
    by (simp add: upsert_action_proposal_def update_if_def)
  then show ?thesis
    using assms set_update_subset [of "ap_proposal_id p" "ap_to_dict p" "m_action_proposals st"]
    unfolding loop_ok_def by (simp, blast)
qed

lemma loop_ok_result:
  assumes "loop_ok h st" and "result_ok h r"
  shows "loop_ok h (upsert_execution_result (er_to_dict r) st)"
  using assms set_update_subset [of "strip (er_execution_id r)" "er_to_dict r" "m_execution_results st"]
  unfolding loop_ok_def upsert_execution_result_def update_if_def by (simp, blast)

lemma loop_ok_cong:
  assumes "loop_ok h st" and "m_action_proposals st' = m_action_proposals st"
    and "m_execution_results st' = m_execution_results st"
  shows "loop_ok h st'"
  using assms by (simp add: loop_ok_def)

lemma loop_ok_event: "loop_ok h st \<Longrightarrow> loop_ok h (append_execution_event digest now c e s d i st)"
  by (erule loop_ok_cong) simp_all

lemma loop_ok_persist:
  "loop_ok h st \<Longrightarrow> result_ok h r \<Longrightarrow> loop_ok h (persist_execution_result digest now p r st)"
  unfolding persist_execution_result_def by (intro loop_ok_event loop_ok_result)

lemma load_ok:
  assumes "loop_ok h st" and "load_proposal digest now pid st = Inr p"
  shows "proposal_ok h p \<and> ap_proposal_id p = strip pid \<and> fetch_action_proposal pid st = Some (ap_to_dict p)"
proof -
  obtain row where row: "fetch_action_proposal pid st = Some row"
    and n: "normalize_action_proposal digest now row = Inr p"
    using assms(2) by (auto simp: load_proposal_def fetch_action_proposal_def split: option.split_asm)
  then have "map_of (m_action_proposals st) (strip pid) = Some row"
    by (auto simp: fetch_action_proposal_def row_or_none_def split: option.split_asm if_split_asm)
  from map_of_SomeD [OF this] assms(1) obtain q where q: "row = ap_to_dict q" "strip pid = ap_proposal_id q" "proposal_ok h q"
    unfolding loop_ok_def by blast
  have "q = p" using n load_to_dict [of q digest now] q(1,3) by (simp add: proposal_ok_def)
  with q row show ?thesis by simp
qed

lemma status_update_ok:
  assumes "proposal_ok h p" and "s \<in> set [''blocked'', ''rejected'']"
  shows "proposal_ok h (p\<lparr>ap_status := s\<rparr>)" "proposal_ok h (p\<lparr>ap_status := s, ap_decided_by := a, ap_decided_at := t, ap_decision_reason := w\<rparr>)"
  using assms unfolding proposal_ok_def normal_proposal_def
  by (auto simp: PROPOSAL_STATUSES_def)

lemma approved_update_ok:
  assumes "proposal_ok h p" and "is_owner a" and "Approve_Call i a reason \<in> set h" and "strip i = ap_proposal_id p"
  shows "proposal_ok h (p\<lparr>ap_status := ''approved'', ap_decided_by := a, ap_decided_at := t, ap_decision_reason := w\<rparr>)"
proof -
  have "approval_source h (ap_proposal_id p) c a" for c
    using assms(2-4) unfolding approval_source_def by blast
  then show ?thesis using assms(1) unfolding proposal_ok_def normal_proposal_def by (simp add: PROPOSAL_STATUSES_def)
qed

lemma create_ok [inv_intros]:
  assumes "loop_ok h st" and "plain_digest digest" and "clk 0 \<noteq> []" and "Create_Call raw \<in> set h"
  shows "loop_ok h (snd (create_action_proposal digest clk raw st))"
proof (cases "normalize_action_proposal digest (clk 0) raw")
  case (Inr p)
  have normal: "normal_proposal p" by (rule normalize_normal [OF Inr assms(2,3)])
  obtain conf basis where p: "p = normalized digest (clk 0) raw conf basis"
    using Inr unfolding normalize_Inr_iff by blast
  have "approval_source h (ap_proposal_id p) (ap_case_id p) (ap_decided_by p)" if "ap_status p = ''approved''"
  proof -
    have "claims_approval raw" using that by (simp add: p normalized_def claims_approval_def Let_def split: if_splits)
    moreover have "norm_of (dget ''proposal_id'' raw) \<in> {[], ap_proposal_id p}"
      "ap_case_id p = norm_of (dget ''case_id'' raw)" "ap_decided_by p = text_of (dget ''decided_by'' raw)"
      by (simp_all add: p normalized_def Let_def)
    ultimately show ?thesis
      using assms(4) unfolding approval_source_def by (intro disjI2 exI [of _ raw] conjI) simp_all
  qed
  with normal have "proposal_ok h p" by (simp add: proposal_ok_def)
  with assms(1) Inr show ?thesis
    by (simp add: create_action_proposal_def loop_ok_event loop_ok_proposal)
qed (simp add: create_action_proposal_def assms(1))

lemma approve_ok [inv_intros]:
  assumes "loop_ok h st" and "Approve_Call pid approver reason \<in> set h"
  shows "loop_ok h (snd (approve_action_proposal digest clk pid approver reason st))"
proof (cases "bindE (require_owner approver False) (\<lambda>_. load_proposal digest (clk 0) pid st)")
  case (Inr p)
  then have owner: "is_owner approver" and load: "load_proposal digest (clk 0) pid st = Inr p"
    by (auto simp: bindE_eq_Inr require_owner_Inr)
  have p: "proposal_ok h p" "strip pid = ap_proposal_id p" using load_ok [OF assms(1) load] by simp_all
  from approved_update_ok [OF p(1) owner assms(2) p(2)] assms(1) Inr
  show ?thesis by (simp add: approve_action_proposal_def Let_def loop_ok_event loop_ok_proposal)
qed (simp add: approve_action_proposal_def assms(1))

lemma rejected_result_ok: "result_ok h (rejected_execution_result digest now p a k)"
  by (simp add: result_ok_def rejected_execution_result_def Let_def EXECUTION_STATUSES_def)

lemma reject_ok [inv_intros]:
  assumes "loop_ok h st"
  shows "loop_ok h (snd (reject_action_proposal digest clk pid rejecter reason key st))"
proof (cases "bindE (require_owner rejecter False) (\<lambda>_. load_proposal digest (clk 0) pid st)")
  case (Inr p)
  then have load: "load_proposal digest (clk 0) pid st = Inr p" by (auto simp: bindE_eq_Inr)
  have "''rejected'' \<in> set [''blocked'', ''rejected'']" by simp
  from status_update_ok(2) [OF conjunct1 [OF load_ok [OF assms load]] this] assms Inr
  show ?thesis
    by (simp add: reject_action_proposal_def Let_def loop_ok_event loop_ok_proposal loop_ok_result rejected_result_ok)
qed (simp add: reject_action_proposal_def assms)

lemma settled_ok:
  assumes "proposal_ok h p" and "ap_status p = ''approved''"
  shows "proposal_ok h (settled p status)"
  using assms unfolding proposal_ok_def normal_proposal_def by (simp add: PROPOSAL_STATUSES_def)

lemma execute_ok [inv_intros]:
  assumes "loop_ok h st" and "Execute_Call pid executor dry \<in> set h"
  shows "loop_ok h (snd (execute_action_proposal digest clk pid executor dry st))"
proof (cases "\<exists>p gate. clear_to_run digest clk pid executor st p gate")
  case True
  then obtain p gate where clear: "clear_to_run digest clk pid executor st p gate" by blast
  obtain status code msg payload st1 where run: "run_action (clk 2) dry p st = ((status, code, msg, payload), st1)"
    by (metis prod.exhaust)
  obtain r where ex: "execute_action_proposal digest clk pid executor dry st =
      (Inr r, persist_execution_result digest (clk 4) (settled p status) r
         (upsert_action_proposal (ap_to_dict (settled p status)) st1))"
    and r: "execution_result_of digest (clk 3) (settled p status) executor status code msg
      (ap_decided_by p) payload gate = Inr r"
    by (rule execute_runs [OF clear run])
  have approved: "is_owner executor" "ap_status p = ''approved''" and load: "load_proposal digest (clk 0) pid st = Inr p"
    using clear by (simp_all add: clear_to_run_def)
  have p: "proposal_ok h p" using load_ok [OF assms(1) load] ..
  have pid: "strip pid = ap_proposal_id p" using load_ok [OF assms(1) load] by simp
  have status: "status \<in> set EXECUTION_STATUSES" using run_action_status [of "clk 2" dry p st] run by simp
  have internal: "status = ''executed'' \<Longrightarrow> ap_action_type p \<in> set INTERNAL_ACTIONS"
    using run_action_executed [of "clk 2" dry p st] run by simp
  have source: "approval_source h (ap_proposal_id p) (ap_case_id p) (ap_decided_by p)"
    using p approved(2) by (simp add: proposal_ok_def)
  have case_id: "er_case_id r = ap_case_id p" using r by (auto simp: execution_result_of_def bindE_eq_Inr)
  have call: "\<exists>i dry. Execute_Call i executor dry \<in> set h \<and> is_owner executor \<and> strip i = ap_proposal_id p"
    using assms(2) approved(1) pid by blast
  have "result_ok h r"
    using execution_result_fields [OF r] status internal source call case_id by (simp add: result_ok_def)
  moreover have "loop_ok h st1"
    using assms(1) run run_action_tables [of "clk 2" dry p st] by (auto intro: loop_ok_cong)
  ultimately show ?thesis
    unfolding ex using settled_ok [OF p approved(2)]
    by (simp only: snd_conv) (intro loop_ok_persist loop_ok_proposal)
next
  case False
  from execute_stops [OF False, of dry] consider
      (raised) e where "execute_action_proposal digest clk pid executor dry st = (Inl e, st)"
    | (stopped) p r st1 where "load_proposal digest (clk 0) pid st = Inr p" "er_execution_status r = ''blocked''"
        "st1 = st \<or> st1 = upsert_action_proposal (ap_to_dict (p\<lparr>ap_status := ''blocked''\<rparr>)) st"
        "execute_action_proposal digest clk pid executor dry st =
           (Inr r, persist_execution_result digest (clk 4) p r st1)"
    by blast
  then show ?thesis
  proof cases
    case stopped
    have "''blocked'' \<in> set [''blocked'', ''rejected'']" by simp
    from status_update_ok(1) [OF conjunct1 [OF load_ok [OF assms(1) stopped(1)]] this] stopped(3) assms(1)
    have "loop_ok h st1" by (auto intro: loop_ok_proposal)
    moreover have "result_ok h r" using stopped(2) by (simp add: result_ok_def EXECUTION_STATUSES_def)
    ultimately show ?thesis unfolding stopped(4) by (simp add: loop_ok_persist)
  qed (simp add: assms(1))
qed

subsection \<open>Reachable stores\<close>

text \<open>The clock never gives an empty text.\<close>

inductive loop_step :: "(string \<Rightarrow> string) \<Rightarrow> mailbox_store \<Rightarrow> mailbox_store \<Rightarrow> bool" for digest where
  create: "clk 0 \<noteq> [] \<Longrightarrow> loop_step digest st (snd (create_action_proposal digest clk raw st))"
| approve: "loop_step digest st (snd (approve_action_proposal digest clk pid actor reason st))"
| reject: "loop_step digest st (snd (reject_action_proposal digest clk pid actor reason key st))"
| execute: "loop_step digest st (snd (execute_action_proposal digest clk pid actor dry st))"

inductive_cases loop_stepE: "loop_step digest st st'"

inductive loop_reachable :: "(string \<Rightarrow> string) \<Rightarrow> mailbox_store \<Rightarrow> bool" for digest where
  start: "m_action_proposals st = [] \<Longrightarrow> m_execution_results st = [] \<Longrightarrow> loop_reachable digest st"
| step: "loop_reachable digest st \<Longrightarrow> loop_step digest st st' \<Longrightarrow> loop_reachable digest st'"

text \<open>The stores the loop reaches, with the history of calls that led there.\<close>

inductive loop_run :: "(string \<Rightarrow> string) \<Rightarrow> loop_call list \<Rightarrow> mailbox_store \<Rightarrow> bool" for digest where
  empty: "m_action_proposals st = [] \<Longrightarrow> m_execution_results st = [] \<Longrightarrow> loop_run digest [] st"
| call: "loop_run digest h st \<Longrightarrow> clk 0 \<noteq> [] \<Longrightarrow> loop_run digest (h @ [c]) (perform digest clk c st)"

lemma perform_ok:
  assumes "loop_ok h st" and "plain_digest digest" and "\<And>raw. c = Create_Call raw \<Longrightarrow> clk 0 \<noteq> []"
  shows "loop_ok (h @ [c]) (perform digest clk c st)"
proof -
  have ok: "loop_ok (h @ [c]) st" by (rule loop_ok_mono [OF assms(1)]) auto
  have c: "c \<in> set (h @ [c])" by simp
  show ?thesis
    using ok c assms(2,3) unfolding perform_def by (cases c) (simp_all add: inv_intros del: set_append)
qed

lemma loop_step_perform:
  "loop_step digest st st' \<Longrightarrow> \<exists>clk c. st' = perform digest clk c st \<and> (\<forall>raw. c = Create_Call raw \<longrightarrow> clk 0 \<noteq> [])"
proof (erule loop_stepE)
  fix clk :: clock and raw
  assume "st' = snd (create_action_proposal digest clk raw st)" "clk 0 \<noteq> []"
  then show ?thesis by (intro exI [of _ clk] exI [of _ "Create_Call raw"]) (simp add: perform_def)
next
  fix clk pid actor reason
  assume "st' = snd (approve_action_proposal digest clk pid actor reason st)"
  then show ?thesis by (intro exI [of _ clk] exI [of _ "Approve_Call pid actor reason"]) (simp add: perform_def)
next
  fix clk pid actor reason key
  assume "st' = snd (reject_action_proposal digest clk pid actor reason key st)"
  then show ?thesis by (intro exI [of _ clk] exI [of _ "Reject_Call pid actor reason key"]) (simp add: perform_def)
next
  fix clk pid actor dry
  assume "st' = snd (execute_action_proposal digest clk pid actor dry st)"
  then show ?thesis by (intro exI [of _ clk] exI [of _ "Execute_Call pid actor dry"]) (simp add: perform_def)
qed

lemma loop_run_ok: "loop_run digest h st \<Longrightarrow> plain_digest digest \<Longrightarrow> loop_ok h st"
  by (induction rule: loop_run.induct) (simp add: loop_ok_def, rule perform_ok, blast+)

lemma loop_step_ok:
  assumes "loop_step digest st st'" and "plain_digest digest" and "loop_ok h st"
  shows "\<exists>h'. loop_ok h' st'"
  using loop_step_perform [OF assms(1)] perform_ok [OF assms(3,2)] by blast

lemma loop_reachable_ok: "loop_reachable digest st \<Longrightarrow> plain_digest digest \<Longrightarrow> \<exists>h. loop_ok h st"
proof (induction rule: loop_reachable.induct)
  case (start st)
  then have "loop_ok [] st" by (simp add: loop_ok_def)
  then show ?case ..
next
  case (step st st')
  then show ?case using loop_step_ok by blast
qed

text \<open>
  Property C16.  Where a recorded execution comes from: in every store that a history of creations, approvals,
  rejections and executions reaches, by whatever actors and with whatever raw proposals, a recorded execution
  is of one of the three internal actions, an owner called for the execution of this proposal, and its
  approval comes either from an owner's call to approve this proposal or from a creation whose raw
  proposal already had the status approved and named the decider.  The second source is what the code accepts
  beside the first (\<open>forged_approval_is_created\<close>); without such a creation in the history every
  execution rests on an owner's approval.
\<close>

theorem execution_traces_to_owner:
  assumes "loop_run digest h st" and "plain_digest digest"
    and "(k, row) \<in> set (m_execution_results st)" and "dget ''execution_status'' row = PStr ''executed''"
  shows "col ''action_type'' row \<in> set [''set_case_status'', ''mark_attention_required'', ''prepare_reply_draft''] \<and>
    (\<exists>i dry. Execute_Call i (col ''executed_by'' row) dry \<in> set h \<and> is_owner (col ''executed_by'' row) \<and>
       strip i = col ''proposal_id'' row) \<and>
    ((\<exists>i reason. Approve_Call i (col ''approved_by'' row) reason \<in> set h \<and> is_owner (col ''approved_by'' row) \<and>
        strip i = col ''proposal_id'' row) \<or>
     (\<exists>raw. Create_Call raw \<in> set h \<and>
        strip (py_str (py_or (dget ''status'' raw) (PStr ''proposed''))) = ''approved'' \<and>
        text_of (dget ''decided_by'' raw) = col ''approved_by'' row \<and>
        norm_of (dget ''case_id'' raw) = col ''case_id'' row \<and>
        norm_of (dget ''proposal_id'' raw) \<in> {[], col ''proposal_id'' row}))"
proof -
  obtain r where row: "row = er_to_dict r" and ok: "result_ok h r"
    using loop_run_ok [OF assms(1,2)] assms(3) unfolding loop_ok_def by blast
  have ex: "er_execution_status r = ''executed''" using assms(4) by (simp add: row er_to_dict_def)
  have cols: "col ''action_type'' row = er_action_type r" "col ''executed_by'' row = er_executed_by r"
    "col ''approved_by'' row = er_approved_by r" "col ''proposal_id'' row = er_proposal_id r"
    "col ''case_id'' row = er_case_id r"
    by (simp_all add: row er_to_dict_def)
  from ok ex have r: "er_action_type r \<in> set INTERNAL_ACTIONS"
    "\<exists>i dry. Execute_Call i (er_executed_by r) dry \<in> set h \<and> is_owner (er_executed_by r) \<and> strip i = er_proposal_id r"
    "approval_source h (er_proposal_id r) (er_case_id r) (er_approved_by r)"
    unfolding result_ok_def by simp_all
  show ?thesis
    unfolding cols using r unfolding INTERNAL_ACTIONS_def approval_source_def claims_approval_def by (intro conjI)
qed

definition sample_raw :: pydict where
  "sample_raw = [(''proposal_id'', PStr ''p1''), (''case_id'', PStr ''c1''),
     (''action_type'', PStr ''set_case_status''), (''payload'', PDict [(''status'', PStr ''done'')])]"

definition sample_clock :: clock where
  "sample_clock n = ''t''"

definition sample_proposal_p1 :: action_proposal where
  "sample_proposal_p1 = \<lparr>ap_proposal_id = ''p1'', ap_case_id = ''c1'', ap_action_type = ''set_case_status'',
     ap_payload = [(''status'', PStr ''done'')], ap_decision_version_id = [], ap_source_signal_id = [],
     ap_proposed_by = ''ai'', ap_confidence = 0, ap_risk_class = ''R2'', ap_requires_review = True,
     ap_policy_basis = [PStr ''case_done_requires_owner_review''], ap_created_at = ''t'', ap_status = ''proposed'',
     ap_decision_reason = [], ap_decided_by = [], ap_decided_at = []\<rparr>"

definition sample_approved :: action_proposal where
  "sample_approved = sample_proposal_p1\<lparr>ap_status := ''approved'', ap_decided_by := ''konrad'',
     ap_decided_at := ''t'', ap_decision_reason := ''ok''\<rparr>"

lemma load_stripped: "load_proposal digest now pid st = Inr p \<Longrightarrow> strip (ap_action_type p) = ap_action_type p"
  by (auto simp: load_proposal_def normalize_Inr_iff normalized_def Let_def split: option.split_asm)

lemma risk_of_internal:
  assumes "strip a = a"
  shows "fst (action_risk_class a d) \<in> set [''R0'', ''R1''] \<longleftrightarrow>
      a \<in> set INTERNAL_ACTIONS \<and> \<not> (a = ''set_case_status'' \<and> norm_of (dget ''status'' d) = ''done'')"
    and "fst (action_risk_class a d) = ''R2'' \<longleftrightarrow>
      a = ''set_case_status'' \<and> norm_of (dget ''status'' d) = ''done'' \<or> a \<in> set [''apply_gmail_label'', ''archive_gmail'']"
  unfolding action_risk_class_def Let_def assms FORBIDDEN_ACTION_TYPES_def INTERNAL_ACTIONS_def
  by (simp_all split: if_split)

lemma basis_hashable: "policy_gate p a = Inr gate \<Longrightarrow> list_all hashable (ap_policy_basis p)"
  by (simp add: policy_gate_def Let_def case_prod_beta split: if_split_asm)

lemma gate_defined: "list_all hashable (ap_policy_basis p) \<Longrightarrow> \<exists>gate. policy_gate p a = Inr gate"
  by (auto simp: policy_gate_def Let_def case_prod_beta list_all_iff)

definition action_runs :: "action_proposal \<Rightarrow> bool" where
  "action_runs p \<longleftrightarrow> ap_action_type p \<in> set [''mark_attention_required'', ''prepare_reply_draft''] \<or>
     ap_action_type p = ''set_case_status'' \<and> norm_of (dget ''status'' (ap_payload p)) \<in> set CASE_STATUSES"

lemma run_action_executed_iff: "fst (fst (run_action now dry p st)) = ''executed'' \<longleftrightarrow> action_runs p"
proof (cases "ap_action_type p = ''set_case_status''")
  case True
  then have "action_runs p \<longleftrightarrow> norm_of (dget ''status'' (ap_payload p)) \<in> set CASE_STATUSES"
    by (simp add: action_runs_def)
  moreover have "fst (fst (run_action now dry p st)) =
      (if norm_of (dget ''status'' (ap_payload p)) \<in> set CASE_STATUSES then ''executed'' else ''failed'')"
    by (simp add: run_action_def True execute_set_case_status_def Let_def)
  ultimately show ?thesis by simp
next
  case False
  then show ?thesis by (simp add: action_runs_def run_action_def)
qed

lemma gate_cases: "((True \<and> \<not> (s \<and> d)) \<or> ((s \<and> d) \<or> False) \<and> a \<noteq> ([]::string)) = (\<not> (s \<and> d \<and> a = []))"
  by blast

lemma runs_internal:
  assumes "action_runs p"
  shows "ap_action_type p \<in> set INTERNAL_ACTIONS"
    and "ap_action_type p \<notin> set [''apply_gmail_label'', ''archive_gmail'']"
  using assms unfolding action_runs_def INTERNAL_ACTIONS_def by (elim disjE conjE, auto)+

lemma allowed_iff_runs:
  assumes "policy_gate p a = Inr gate" and "strip (ap_action_type p) = ap_action_type p" and "action_runs p"
  shows "truthy (dget ''allowed'' gate) \<longleftrightarrow>
    \<not> (ap_action_type p = ''set_case_status'' \<and> norm_of (dget ''status'' (ap_payload p)) = ''done'' \<and> a = [])"
  unfolding conjunct2 [OF policy_gate_allowed [OF assms(1)]] risk_of_internal [OF assms(2)]
    eqTrueI [OF runs_internal(1) [OF assms(3)]] Eq_FalseI [OF runs_internal(2) [OF assms(3)]]
  by (rule gate_cases)

text \<open>
  Property C17.  The exact conditions under which executing a proposal carries it out: the caller is
  an owner, the stored proposal is approved, its policy basis can be listed, and the action is an
  internal one: an annotation, a draft, or a change to a known case status, where closing the case
  needs a recorded decision maker.  No Gmail or calendar action is ever among them.
\<close>

theorem executed_iff:
  "(\<exists>r st'. execute_action_proposal digest clk pid executor dry st = (Inr r, st') \<and>
      er_execution_status r = ''executed'') \<longleftrightarrow>
   is_owner executor \<and>
   (\<exists>p. load_proposal digest (clk 0) pid st = Inr p \<and> ap_status p = ''approved'' \<and>
      list_all hashable (ap_policy_basis p) \<and> action_runs p \<and>
      \<not> (ap_action_type p = ''set_case_status'' \<and> norm_of (dget ''status'' (ap_payload p)) = ''done'' \<and>
         ap_decided_by p = []))" (is "?lhs \<longleftrightarrow> ?rhs")
proof (cases "\<exists>p gate. clear_to_run digest clk pid executor st p gate")
  case True
  then obtain p gate where clear: "clear_to_run digest clk pid executor st p gate" by blast
  obtain status code msg payload st1 where run: "run_action (clk 2) dry p st = ((status, code, msg, payload), st1)"
    by (metis prod.exhaust)
  obtain r where ex: "execute_action_proposal digest clk pid executor dry st =
      (Inr r, persist_execution_result digest (clk 4) (settled p status) r
         (upsert_action_proposal (ap_to_dict (settled p status)) st1))"
    and r: "execution_result_of digest (clk 3) (settled p status) executor status code msg
      (ap_decided_by p) payload gate = Inr r"
    by (rule execute_runs [OF clear run])
  have status: "status \<in> set EXECUTION_STATUSES" using run_action_status [of "clk 2" dry p st] run by simp
  have "?lhs \<longleftrightarrow> status = ''executed''"
    using execution_result_fields(6) [OF r status] unfolding ex by simp
  also have "\<dots> \<longleftrightarrow> action_runs p" using run_action_executed_iff [of "clk 2" dry p st] run by simp
  also have "\<dots> \<longleftrightarrow> ?rhs"
  proof -
    have c: "is_owner executor" "load_proposal digest (clk 0) pid st = Inr p" "ap_status p = ''approved''"
      and g: "policy_gate p (ap_decided_by p) = Inr gate" "truthy (dget ''allowed'' gate)"
      using clear by (simp_all add: clear_to_run_def)
    have only: "q = p" if "load_proposal digest (clk 0) pid st = Inr q" for q using c(2) that by simp
    show ?thesis
    proof
      assume runs: "action_runs p"
      from allowed_iff_runs [OF g(1) load_stripped [OF c(2)] this] g(2)
      have "\<not> (ap_action_type p = ''set_case_status'' \<and> norm_of (dget ''status'' (ap_payload p)) = ''done'' \<and>
          ap_decided_by p = [])" by (simp only:)
      with c runs basis_hashable [OF g(1)] show ?rhs by (intro conjI exI [of _ p])
    next
      assume ?rhs
      then obtain q where "load_proposal digest (clk 0) pid st = Inr q" "action_runs q" by (elim conjE exE)
      then show "action_runs p" using only by simp
    qed
  qed
  finally show ?thesis .
next
  case False
  have "\<not> ?lhs" using execute_stops [OF False, of dry] by auto
  moreover have "\<not> ?rhs"
  proof
    assume ?rhs
    then obtain p where owner: "is_owner executor" and load: "load_proposal digest (clk 0) pid st = Inr p"
      and approved: "ap_status p = ''approved''" and basis: "list_all hashable (ap_policy_basis p)"
      and runs: "action_runs p" and closing: "\<not> (ap_action_type p = ''set_case_status'' \<and>
        norm_of (dget ''status'' (ap_payload p)) = ''done'' \<and> ap_decided_by p = [])"
      by (elim conjE exE)
    obtain gate where gate: "policy_gate p (ap_decided_by p) = Inr gate" using gate_defined [OF basis, of "ap_decided_by p"] by (elim exE)
    have "truthy (dget ''allowed'' gate)"
      by (rule iffD2 [OF allowed_iff_runs [OF gate load_stripped [OF load] runs] closing])
    then have "clear_to_run digest clk pid executor st p gate"
      unfolding clear_to_run_def using owner load approved gate by (intro conjI)
    then have "\<exists>p gate. clear_to_run digest clk pid executor st p gate" by (intro exI)
    with False show False by (rule notE)
  qed
  ultimately show ?thesis by (simp only:)
qed

lemma load_cong:
  "m_action_proposals st' = m_action_proposals st \<Longrightarrow> load_proposal digest now pid st' = load_proposal digest now pid st"
  by (simp add: load_proposal_def fetch_action_proposal_def)

lemma load_upsert:
  assumes "normal_proposal p"
  shows "load_proposal digest now (ap_proposal_id p) (upsert_action_proposal (ap_to_dict p) st) = Inr p"
proof -
  have id: "strip (ap_proposal_id p) = ap_proposal_id p" "ap_proposal_id p \<noteq> []"
    using assms by (simp_all add: normal_proposal_def)
  then have "fetch_action_proposal (ap_proposal_id p) (upsert_action_proposal (ap_to_dict p) st) = Some (ap_to_dict p)"
    using proposal_table.fetch_upsert [of "ap_to_dict p" "ap_proposal_id p" st] by simp
  then show ?thesis by (simp add: load_proposal_def id load_to_dict [OF assms])
qed

text \<open>
  Property C34.  A proposal survives storage: the proposal that its creation returns is the one a
  later load gives back, field by field, at any time.
\<close>

theorem created_proposal_loads_back:
  assumes "create_action_proposal digest clk raw st = (Inr p, st')" and "plain_digest digest" and "clk 0 \<noteq> []"
  shows "load_proposal digest now (ap_proposal_id p) st' = Inr p"
proof -
  have n: "normalize_action_proposal digest (clk 0) raw = Inr p"
    and st': "m_action_proposals st' = m_action_proposals (upsert_action_proposal (ap_to_dict p) st)"
    using assms(1) unfolding create_action_proposal_def by (auto split: sum.split_asm if_split_asm)
  show ?thesis
    unfolding load_cong [OF st'] by (rule load_upsert [OF normalize_normal [OF n assms(2,3)]])
qed

definition no_digest :: "string \<Rightarrow> string" where
  "no_digest t = []"

lemma no_digest_plain: "plain_digest no_digest"
  by (simp add: plain_digest_def no_digest_def)

lemma sample_normalized: "normalize_action_proposal no_digest ''t'' sample_raw = Inr sample_proposal_p1"
  by code_simp

lemma sample_created:
  "create_action_proposal no_digest sample_clock sample_raw st =
     (Inr sample_proposal_p1, snd (create_action_proposal no_digest sample_clock sample_raw st))"
  "m_action_proposals (snd (create_action_proposal no_digest sample_clock sample_raw st)) =
     m_action_proposals (upsert_action_proposal (ap_to_dict sample_proposal_p1) st)"
proof -
  have c: "sample_clock 0 = ''t''" by (simp add: sample_clock_def)
  have k: "ap_case_id sample_proposal_p1 \<noteq> []" "ap_action_type sample_proposal_p1 \<in> set ACTION_TYPES" by code_simp+
  show "create_action_proposal no_digest sample_clock sample_raw st =
     (Inr sample_proposal_p1, snd (create_action_proposal no_digest sample_clock sample_raw st))"
    "m_action_proposals (snd (create_action_proposal no_digest sample_clock sample_raw st)) =
     m_action_proposals (upsert_action_proposal (ap_to_dict sample_proposal_p1) st)"
    unfolding create_action_proposal_def c sample_normalized using k by simp_all
qed

theorem created_proposal_loads_back_witness:
  "load_proposal no_digest ''u'' ''p1'' (snd (create_action_proposal no_digest sample_clock sample_raw empty_mailbox)) =
     Inr sample_proposal_p1"
proof -
  have "sample_clock 0 \<noteq> []" by (simp add: sample_clock_def)
  from created_proposal_loads_back [OF sample_created(1) no_digest_plain this, of "''u''" empty_mailbox]
  show ?thesis by (simp add: sample_proposal_p1_def)
qed

lemma sample_normal: "normal_proposal sample_proposal_p1" "normal_proposal sample_approved"
  by code_simp+

lemma sample_clear:
  assumes "\<And>now. load_proposal no_digest now ''p1'' st = Inr sample_approved"
  shows "\<exists>gate. clear_to_run no_digest sample_clock ''p1'' ''Darek '' st sample_approved gate"
proof -
  have owner: "is_owner ''Darek ''" by code_simp
  have "\<exists>gate. policy_gate sample_approved (ap_decided_by sample_approved) = Inr gate"
    by (rule gate_defined) code_simp
  then obtain gate where gate: "policy_gate sample_approved (ap_decided_by sample_approved) = Inr gate" ..
  have runs: "action_runs sample_approved" by code_simp
  have "truthy (dget ''allowed'' gate)"
    unfolding allowed_iff_runs [OF gate load_stripped [OF assms] runs] by code_simp
  then have "clear_to_run no_digest sample_clock ''p1'' ''Darek '' st sample_approved gate"
    unfolding clear_to_run_def using owner assms gate by (simp add: sample_approved_def)
  then show ?thesis ..
qed

lemma sample_execution:
  fixes st0 :: mailbox_store
  defines "st1 \<equiv> snd (create_action_proposal no_digest sample_clock sample_raw st0)"
  defines "st2 \<equiv> snd (approve_action_proposal no_digest sample_clock ''p1'' ''konrad'' ''ok'' st1)"
  obtains k row where
    "(k, row) \<in> set (m_execution_results (snd (execute_action_proposal no_digest sample_clock ''p1'' ''Darek '' False st2)))"
    "dget ''execution_status'' row = PStr ''executed''"
proof -
  have ids: "ap_proposal_id sample_proposal_p1 = ''p1''" "ap_proposal_id sample_approved = ''p1''" by code_simp+
  have owner: "is_owner ''konrad''" by code_simp
  have load1: "load_proposal no_digest now ''p1'' st1 = Inr sample_proposal_p1" for now
    unfolding st1_def load_cong [OF sample_created(2)] ids(1) [symmetric] by (rule load_upsert [OF sample_normal(1)])
  have "ap_status sample_proposal_p1 \<in> set [''proposed'', ''blocked'', ''failed'']" by code_simp
  then have tables: "m_action_proposals st2 = m_action_proposals (upsert_action_proposal (ap_to_dict sample_approved) st1)"
    unfolding st2_def approve_action_proposal_def require_owner_Inr [THEN iffD2, OF owner, of "()"] bindE.simps load1
    by (simp add: Let_def sample_approved_def sample_clock_def)
  have load2: "load_proposal no_digest now ''p1'' st2 = Inr sample_approved" for now
    unfolding load_cong [OF tables] ids(2) [symmetric] by (rule load_upsert [OF sample_normal(2)])
  obtain gate where clear: "clear_to_run no_digest sample_clock ''p1'' ''Darek '' st2 sample_approved gate"
    using sample_clear [OF load2] by (elim exE)
  have runs: "action_runs sample_approved" by code_simp
  obtain status code msg payload st3 where
    run: "run_action (sample_clock 2) False sample_approved st2 = ((status, code, msg, payload), st3)"
    by (metis prod.exhaust)
  have status: "status = ''executed''"
    using run_action_executed_iff [of "sample_clock 2" False sample_approved st2] runs run by simp
  obtain r where ex: "execute_action_proposal no_digest sample_clock ''p1'' ''Darek '' False st2 =
      (Inr r, persist_execution_result no_digest (sample_clock 4) (settled sample_approved status) r
         (upsert_action_proposal (ap_to_dict (settled sample_approved status)) st3))"
    and r: "execution_result_of no_digest (sample_clock 3) (settled sample_approved status) ''Darek '' status code msg
      (ap_decided_by sample_approved) payload gate = Inr r"
    by (rule execute_runs [OF clear run])
  have "er_execution_id r \<noteq> [] \<and> strip (er_execution_id r) = er_execution_id r"
    using r by (auto simp: execution_result_of_def bindE_eq_Inr stable_id_def no_digest_def) code_simp+
  then have "(er_execution_id r, er_to_dict r) \<in> set (m_execution_results (snd
      (execute_action_proposal no_digest sample_clock ''p1'' ''Darek '' False st2)))"
    unfolding ex by (simp add: upsert_execution_result_def update_if_def) (metis map_of_SomeD update_conv' fun_upd_same)
  moreover have "dget ''execution_status'' (er_to_dict r) = PStr ''executed''"
    using execution_result_fields(6) [OF r] status by (simp add: er_to_dict_def EXECUTION_STATUSES_def)
  ultimately show ?thesis by (rule that)
qed

lemma sample_no_claim: "\<not> (strip (py_str (py_or (dget ''status'' sample_raw) (PStr ''proposed''))) = ''approved'')"
  by code_simp

theorem execution_traces_to_owner_witness:
  "\<exists>h st k row. loop_run no_digest h st \<and> (k, row) \<in> set (m_execution_results st) \<and>
     dget ''execution_status'' row = PStr ''executed'' \<and> is_owner (col ''approved_by'' row)"
proof -
  let ?h = "[Create_Call sample_raw, Approve_Call ''p1'' ''konrad'' ''ok'', Execute_Call ''p1'' ''Darek '' False]"
  let ?st1 = "snd (create_action_proposal no_digest sample_clock sample_raw empty_mailbox)"
  let ?st2 = "snd (approve_action_proposal no_digest sample_clock ''p1'' ''konrad'' ''ok'' ?st1)"
  let ?st3 = "snd (execute_action_proposal no_digest sample_clock ''p1'' ''Darek '' False ?st2)"
  have clk: "sample_clock 0 \<noteq> []" by (simp add: sample_clock_def)
  have "loop_run no_digest [] empty_mailbox" by (rule loop_run.empty) (simp_all add: empty_mailbox_def)
  from loop_run.call [where clk = sample_clock, OF this clk, of "Create_Call sample_raw"]
  have "loop_run no_digest [Create_Call sample_raw] ?st1" by (simp add: perform_def)
  from loop_run.call [where clk = sample_clock, OF this clk, of "Approve_Call ''p1'' ''konrad'' ''ok''"]
  have "loop_run no_digest [Create_Call sample_raw, Approve_Call ''p1'' ''konrad'' ''ok''] ?st2"
    by (simp add: perform_def)
  from loop_run.call [where clk = sample_clock, OF this clk, of "Execute_Call ''p1'' ''Darek '' False"]
  have run: "loop_run no_digest ?h ?st3" by (simp add: perform_def)
  obtain k row where row: "(k, row) \<in> set (m_execution_results ?st3)"
    and executed: "dget ''execution_status'' row = PStr ''executed''" by (rule sample_execution)
  from execution_traces_to_owner [OF run no_digest_plain row executed]
  have "is_owner (col ''approved_by'' row)"
    using sample_no_claim by (elim conjE disjE exE) auto
  with run row executed show ?thesis by (intro exI conjI)
qed

text \<open>
  Property C33.  Stored proposals keep their type: in every store the loop can reach, the row found
  under an id is the dictionary of one proposal with that id, in one of the six statuses, with a
  confidence between 0 and 1; loading it raises nothing.
\<close>

theorem stored_proposals_well_typed:
  assumes "loop_reachable digest st" and "plain_digest digest" and "fetch_action_proposal pid st = Some row"
  shows "\<exists>p. row = ap_to_dict p \<and> ap_proposal_id p = strip pid \<and> ap_status p \<in> set PROPOSAL_STATUSES \<and>
    0 \<le> ap_confidence p \<and> ap_confidence p \<le> 1 \<and> load_proposal digest now pid st = Inr p"
proof -
  have "(strip pid, row) \<in> set (m_action_proposals st)"
    using assms(3) by (auto simp: fetch_action_proposal_def row_or_none_def split: option.split_asm if_split_asm
        dest: map_of_SomeD)
  then obtain p where row: "row = ap_to_dict p" "strip pid = ap_proposal_id p" and ok: "normal_proposal p"
    using loop_reachable_ok [OF assms(1,2)] unfolding loop_ok_def proposal_ok_def by blast
  have normal: "normal_proposal p" by (rule ok)
  have "fetch_action_proposal (strip pid) st = Some row" using assms(3) by (simp add: fetch_action_proposal_def)
  then have "load_proposal digest now pid st = Inr p"
    using load_to_dict [OF normal] row(1) by (simp add: load_proposal_def)
  with row normal show ?thesis unfolding normal_proposal_def by (intro exI [of _ p]) simp
qed

theorem stored_proposals_well_typed_witness:
  "\<exists>p. load_proposal no_digest ''u'' '' p1''
     (snd (create_action_proposal no_digest sample_clock sample_raw empty_mailbox)) = Inr p \<and>
     ap_confidence p \<le> 1"
proof -
  let ?st1 = "snd (create_action_proposal no_digest sample_clock sample_raw empty_mailbox)"
  have "loop_reachable no_digest empty_mailbox" by (rule loop_reachable.start) (simp_all add: empty_mailbox_def)
  then have reach: "loop_reachable no_digest ?st1"
    by (rule loop_reachable.step [OF _ loop_step.create]) (simp add: sample_clock_def)
  have p1: "strip '' p1'' = ''p1''" by code_simp
  have "m_action_proposals ?st1 = [(''p1'', ap_to_dict sample_proposal_p1)]"
    unfolding sample_created(2) by code_simp
  then have "fetch_action_proposal '' p1'' ?st1 = Some (ap_to_dict sample_proposal_p1)"
    unfolding fetch_action_proposal_def p1 by (simp add: ap_to_dict_def)
  from stored_proposals_well_typed [OF reach no_digest_plain this, of "''u''"]
  show ?thesis by blast
qed

subsection \<open>Cases\<close>









subsection \<open>Decisions\<close>

text \<open>
  An approval cannot be withdrawn: rejecting an approved or executed proposal raises and changes
  nothing, whoever asks.
\<close>

lemma approved_is_final:
  assumes "load_proposal digest (clk 0) pid st = Inr p" and "ap_status p \<in> set [''approved'', ''executed'']"
  shows "\<exists>e. reject_action_proposal digest clk pid actor reason key st = (Inl e, st)"
proof (cases "is_owner actor")
  case True
  have "ap_status p = ''approved'' \<or> ap_status p = ''executed''" using assms(2) by simp
  then show ?thesis
    unfolding reject_action_proposal_def require_owner_Inr [THEN iffD2, OF True, of "()"] bindE.simps assms(1)
    by (elim disjE) simp_all
next
  case False
  then obtain e where "require_owner actor False = Inl e"
    using require_owner_Inr [of actor] by (cases "require_owner actor False") auto
  then show ?thesis by (simp add: reject_action_proposal_def)
qed

text \<open>
  Creation takes status and decision maker from its caller: a proposal that is created as approved,
  in whoever's name, is carried out by the next execution without any approval.
\<close>

lemma created_as_approved_runs:
  assumes "create_action_proposal digest clk raw st = (Inr p, st')" and "plain_digest digest" and "clk 0 \<noteq> []"
    and "ap_status p = ''approved''" and "ap_action_type p = ''prepare_reply_draft''"
    and "list_all hashable (ap_policy_basis p)" and "is_owner executor"
  shows "\<exists>r st''. execute_action_proposal digest clk' (ap_proposal_id p) executor dry st' = (Inr r, st'') \<and>
    er_execution_status r = ''executed''"
  unfolding executed_iff
  using assms(4-7) created_proposal_loads_back [OF assms(1-3)] by (simp add: action_runs_def)

lemma forged_approval_is_created:
  "case fst (create_action_proposal no_digest sample_clock
     [(''case_id'', PStr ''c1''), (''action_type'', PStr ''prepare_reply_draft''), (''status'', PStr ''approved''),
      (''decided_by'', PStr ''nobody'')] empty_mailbox) of
     Inr p \<Rightarrow> ap_status p = ''approved'' \<and> \<not> is_owner (ap_decided_by p)
   | Inl _ \<Rightarrow> False"
  by code_simp

end
