(* ===== verification/Event_Spine.thy ===== *)
theory Event_Spine
  imports Prelude "HOL-Library.Multiset"
begin

text \<open>
  The event spine: the in-memory event table (\<open>event_spine/store.py\<close>), the handlers with their
  registry (\<open>event_spine/handlers\<close>, \<open>event_spine/handler_effects.py\<close>) and the processor that
  claims events, runs their handlers and settles them (\<open>event_spine/processor.py\<close>).

  A row of the event table is a record with the keys \<open>insert_pending\<close> writes; the table keeps
  insertion order.  Timestamps are of an abstract type: \<open>isofmt\<close> is \<open>datetime.isoformat\<close>, \<open>fromiso\<close>
  is \<open>datetime.fromisoformat\<close> (the left value is the text of its \<open>ValueError\<close>) and \<open>utc\<close> attaches
  UTC to a timestamp without a zone.  A handler is a function of mode, processor, clock reading,
  event and store; an exception it raises is the left value, and what it did to the store before
  stays done.  Logging is left out.

  The locale \<open>event_handler\<close> is what the processor relies on in a handler: it may record effects but
  leaves the event table alone, and it ends in one of the three terminal outcomes.  It is
  interpreted on the registry the program builds.
\<close>

subsection \<open>Events and rows\<close>

record 't os_event =
  ev_event_id :: string
  ev_event_type :: string
  ev_engagement_id :: "string option"
  ev_source_repo :: string
  ev_occurred_at :: 't
  ev_payload :: pydict
  ev_correlation :: pydict
  ev_processing_status :: string
  ev_attempt_count :: int
  ev_processor_id :: "string option"
  ev_last_error :: "string option"
  ev_failure_detail :: pydict
  ev_trace_id :: "string option"
  ev_span_id :: "string option"
  ev_parent_event_id :: "string option"
  ev_case_id :: "string option"
  ev_user_id :: "string option"
  ev_session_id :: "string option"
  ev_severity :: string
  ev_duration_ms :: "int option"
  ev_token_usage :: "pydict option"
  ev_cost :: "rat option"
  ev_success :: "bool option"
  ev_error_message :: "string option"

record spine_row =
  rw_event_type :: string
  rw_engagement_id :: "string option"
  rw_source_repo :: string
  rw_occurred_at :: string
  rw_payload :: pydict
  rw_correlation :: pydict
  rw_processing_status :: string
  rw_attempt_count :: int
  rw_processor_id :: "string option"
  rw_last_error :: "string option"
  rw_failure_detail :: pydict
  rw_trace_id :: "string option"
  rw_span_id :: "string option"
  rw_parent_event_id :: "string option"
  rw_case_id :: "string option"
  rw_user_id :: "string option"
  rw_session_id :: "string option"
  rw_severity :: string
  rw_duration_ms :: "int option"
  rw_token_usage :: "pydict option"
  rw_cost :: "rat option"
  rw_success :: "bool option"
  rw_error_message :: "string option"
  rw_processed_at :: "string option"

record handler_result =
  hr_outcome :: string
  hr_message :: string
  hr_detail :: "pydict option"

record batch_result =
  br_claimed :: nat
  br_processed :: nat
  br_failed :: nat
  br_skipped :: nat
  br_errors :: "string list"

definition empty_batch :: batch_result where
  "empty_batch = \<lparr>br_claimed = 0, br_processed = 0, br_failed = 0, br_skipped = 0, br_errors = []\<rparr>"

record spine_store =
  sp_events :: "(string \<times> spine_row) list"
  sp_effects :: "((string \<times> string) \<times> pydict) list"

definition empty_spine :: spine_store where
  "empty_spine = \<lparr>sp_events = [], sp_effects = []\<rparr>"

text \<open>\<open>str (v or "")\<close> of an optional text, \<open>s or None\<close>, and \<open>text.replace ("Z", "+00:00")\<close>.\<close>

definition opt_text :: "string option \<Rightarrow> string" where
  "opt_text v = (case v of None \<Rightarrow> [] | Some s \<Rightarrow> s)"

definition text_or_none :: "string \<Rightarrow> string option" where
  "text_or_none s = (if s = [] then None else Some s)"

definition replace_z :: "string \<Rightarrow> string" where
  "replace_z s = concat (map (\<lambda>c. if c = CHR ''Z'' then ''+00:00'' else [c]) s)"

definition row_to_event ::
  "(string \<Rightarrow> string + 't) \<Rightarrow> ('t \<Rightarrow> 't) \<Rightarrow> string \<Rightarrow> spine_row \<Rightarrow> string + 't os_event" where
  "row_to_event fromiso utc event_id row =
     bindE (fromiso (replace_z (rw_occurred_at row))) (\<lambda>occurred.
       Inr \<lparr>ev_event_id = event_id, ev_event_type = rw_event_type row,
            ev_engagement_id = text_or_none (opt_text (rw_engagement_id row)),
            ev_source_repo = str_or (rw_source_repo row) ''gmail-agent'', ev_occurred_at = utc occurred,
            ev_payload = rw_payload row, ev_correlation = rw_correlation row,
            ev_processing_status = str_or (rw_processing_status row) ''pending'',
            ev_attempt_count = rw_attempt_count row,
            ev_processor_id = text_or_none (opt_text (rw_processor_id row)),
            ev_last_error = text_or_none (opt_text (rw_last_error row)),
            ev_failure_detail = rw_failure_detail row,
            ev_trace_id = text_or_none (strip (opt_text (rw_trace_id row))),
            ev_span_id = text_or_none (strip (opt_text (rw_span_id row))),
            ev_parent_event_id = text_or_none (strip (opt_text (rw_parent_event_id row))),
            ev_case_id = text_or_none (strip (opt_text (rw_case_id row))),
            ev_user_id = text_or_none (strip (opt_text (rw_user_id row))),
            ev_session_id = text_or_none (strip (opt_text (rw_session_id row))),
            ev_severity = str_or (rw_severity row) ''info'',
            ev_duration_ms = (case rw_duration_ms row of Some d \<Rightarrow> if d = 0 then None else Some d | None \<Rightarrow> None),
            ev_token_usage = (case rw_token_usage row of Some d \<Rightarrow> if d = [] then None else Some d | None \<Rightarrow> None),
            ev_cost = (case rw_cost row of Some c \<Rightarrow> if c = 0 then None else Some c | None \<Rightarrow> None),
            ev_success = rw_success row,
            ev_error_message = text_or_none (opt_text (rw_error_message row))\<rparr>)"

subsection \<open>The event table\<close>

definition insert_pending :: "('t \<Rightarrow> string) \<Rightarrow> 't os_event \<Rightarrow> spine_store \<Rightarrow> spine_store" where
  "insert_pending isofmt e st = st\<lparr>sp_events := AList.update (ev_event_id e)
     \<lparr>rw_event_type = ev_event_type e, rw_engagement_id = ev_engagement_id e, rw_source_repo = ev_source_repo e,
      rw_occurred_at = isofmt (ev_occurred_at e), rw_payload = ev_payload e, rw_correlation = ev_correlation e,
      rw_processing_status = ''pending'', rw_attempt_count = 0, rw_processor_id = None, rw_last_error = None,
      rw_failure_detail = [], rw_trace_id = ev_trace_id e, rw_span_id = ev_span_id e,
      rw_parent_event_id = ev_parent_event_id e, rw_case_id = ev_case_id e, rw_user_id = ev_user_id e,
      rw_session_id = ev_session_id e, rw_severity = ev_severity e, rw_duration_ms = ev_duration_ms e,
      rw_token_usage = ev_token_usage e, rw_cost = ev_cost e, rw_success = ev_success e,
      rw_error_message = ev_error_message e, rw_processed_at = None\<rparr> (sp_events st)\<rparr>"

definition claimable :: "spine_row \<Rightarrow> bool" where
  "claimable row \<longleftrightarrow> rw_processing_status row \<in> set [''pending'', ''failed'']"

definition claimed :: "string \<Rightarrow> spine_row \<Rightarrow> spine_row" where
  "claimed processor_id row = row\<lparr>rw_processing_status := ''processing'', rw_processor_id := Some processor_id,
     rw_attempt_count := rw_attempt_count row + 1\<rparr>"

fun claim_loop ::
  "(string \<Rightarrow> string + 't) \<Rightarrow> ('t \<Rightarrow> 't) \<Rightarrow> int \<Rightarrow> string \<Rightarrow> (string \<times> spine_row) list \<Rightarrow> 't os_event list \<Rightarrow>
   spine_store \<Rightarrow> (string + 't os_event list) \<times> spine_store" where
  "claim_loop fromiso utc limit processor_id [] out st = (Inr out, st)"
| "claim_loop fromiso utc limit processor_id ((event_id, row) # items) out st =
     (if limit \<le> int (length out) then (Inr out, st)
      else if \<not> claimable row then claim_loop fromiso utc limit processor_id items out st
      else let row' = claimed processor_id row;
               st' = st\<lparr>sp_events := AList.update event_id row' (sp_events st)\<rparr>
           in case row_to_event fromiso utc event_id row' of
                Inl err \<Rightarrow> (Inl err, st')
              | Inr e \<Rightarrow> claim_loop fromiso utc limit processor_id items (out @ [e]) st')"

definition claim_batch ::
  "(string \<Rightarrow> string + 't) \<Rightarrow> ('t \<Rightarrow> 't) \<Rightarrow> int \<Rightarrow> string \<Rightarrow> spine_store \<Rightarrow> (string + 't os_event list) \<times> spine_store" where
  "claim_batch fromiso utc limit processor_id st =
     claim_loop fromiso utc limit processor_id (sort_key (rw_occurred_at \<circ> snd) (sp_events st)) [] st"

definition mark_terminal ::
  "string \<Rightarrow> string \<Rightarrow> string \<Rightarrow> string \<Rightarrow> string \<Rightarrow> pydict option \<Rightarrow> string \<Rightarrow> spine_store \<Rightarrow> bool \<times> spine_store" where
  "mark_terminal now event_id status processor_id message detail expected_status st =
     (case map_of (sp_events st) event_id of
        None \<Rightarrow> (False, st)
      | Some row \<Rightarrow>
          (let current = rw_processing_status row in
           if current = status then (True, st)
           else if current \<noteq> expected_status \<and> current \<notin> set [expected_status, ''processing'']
           then (current \<in> set [''processed'', ''skipped''], st)
           else let r1 = row\<lparr>rw_processing_status := status, rw_processor_id := Some processor_id,
                             rw_processed_at := Some now\<rparr>;
                    r2 = (if message = [] then r1 else r1\<lparr>rw_last_error := Some message\<rparr>);
                    r3 = (case detail of Some d \<Rightarrow> if d = [] then r2 else r2\<lparr>rw_failure_detail := d\<rparr> | None \<Rightarrow> r2)
                in (True, st\<lparr>sp_events := AList.update event_id r3 (sp_events st)\<rparr>)))"

definition get_by_id ::
  "(string \<Rightarrow> string + 't) \<Rightarrow> ('t \<Rightarrow> 't) \<Rightarrow> string \<Rightarrow> spine_store \<Rightarrow> string + 't os_event option" where
  "get_by_id fromiso utc event_id st =
     (case map_of (sp_events st) event_id of
        None \<Rightarrow> Inr None
      | Some row \<Rightarrow> bindE (row_to_event fromiso utc event_id row) (Inr \<circ> Some))"

definition record_handler_effect ::
  "string \<Rightarrow> 't os_event \<Rightarrow> string \<Rightarrow> string \<Rightarrow> pydict option \<Rightarrow> spine_store \<Rightarrow> pydict \<times> spine_store" where
  "record_handler_effect now e handler_key processor_id detail st =
     (let key = (ev_event_id e, handler_key) in
      if map_of (sp_effects st) key \<noteq> None
      then ([(''recorded'', PBool False), (''idempotent'', PBool True), (''handler_key'', PStr handler_key)], st)
      else ([(''recorded'', PBool True), (''idempotent'', PBool False), (''handler_key'', PStr handler_key)],
            st\<lparr>sp_effects := AList.update key
              [(''event_id'', PStr (ev_event_id e)), (''handler_key'', PStr handler_key),
               (''event_type'', PStr (ev_event_type e)),
               (''engagement_id'', (case ev_engagement_id e of None \<Rightarrow> PNone | Some s \<Rightarrow> PStr s)),
               (''processor_id'', PStr processor_id),
               (''detail'', PDict (case detail of None \<Rightarrow> [] | Some d \<Rightarrow> d)), (''created_at'', PStr now)]
              (sp_effects st)\<rparr>))"

subsection \<open>Handlers\<close>

record handler_exn =
  hx_type :: string
  hx_text :: string
  hx_traceback :: string

type_synonym 't handler =
  "string \<Rightarrow> string \<Rightarrow> string \<Rightarrow> 't os_event \<Rightarrow> spine_store \<Rightarrow> (handler_exn + handler_result) \<times> spine_store"

definition merge_active_handler_result :: "string \<Rightarrow> pydict \<Rightarrow> string \<times> pydict" where
  "merge_active_handler_result shadow_message effect =
     (if truthy (dget ''recorded'' effect) then (''active_effect_recorded'', effect)
      else if truthy (dget ''idempotent'' effect) then (''active_effect_idempotent'', effect)
      else (shadow_message, effect))"

definition handle_with_effect :: "string \<Rightarrow> ('t os_event \<Rightarrow> pydict) \<Rightarrow> 't handler" where
  "handle_with_effect handler_key detail mode processor_id now e st =
     (if mode \<noteq> ''active''
      then (Inr \<lparr>hr_outcome = ''processed'', hr_message = ''shadow_log_only'', hr_detail = None\<rparr>, st)
      else case record_handler_effect now e handler_key processor_id (Some (detail e)) st of
             (effect, st') \<Rightarrow>
               (case merge_active_handler_result ''shadow_log_only'' effect of
                  (message, d) \<Rightarrow>
                    (Inr \<lparr>hr_outcome = ''processed'', hr_message = message, hr_detail = Some d\<rparr>, st')))"

definition shadow_correlation_links :: "'t handler" where
  "shadow_correlation_links = handle_with_effect ''correlation_links_registered''
     (\<lambda>e. [(''links_count'', dget ''links_count'' (ev_payload e))])"

definition shadow_cieplo_workflow_persisted :: "'t handler" where
  "shadow_cieplo_workflow_persisted = handle_with_effect ''cieplo_workflow_persisted''
     (\<lambda>e. [(''workflow_id'', dget ''workflow_id'' (ev_payload e)), (''message_id'', dget ''message_id'' (ev_payload e)),
          (''trace_id'', dget ''trace_id'' (ev_correlation e))])"

definition unknown_event :: "'t handler" where
  "unknown_event mode processor_id now e st =
     (if mode = ''shadow''
      then (Inr \<lparr>hr_outcome = ''skipped'', hr_message = ''unknown_type:'' @ ev_event_type e, hr_detail = None\<rparr>, st)
      else (Inr \<lparr>hr_outcome = ''failed'', hr_message = ''unknown_event_type:'' @ ev_event_type e,
                 hr_detail = Some [(''event_type'', PStr (ev_event_type e))]\<rparr>, st))"

definition build_registry :: "(string list \<times> 't handler) list \<Rightarrow> (string \<times> 't handler) list" where
  "build_registry handlers =
     foldl (\<lambda>by_type (event_types, h). foldl (\<lambda>d t. AList.update t h d) by_type event_types) [] handlers"

definition resolve_handler :: "(string \<times> 't handler) list \<Rightarrow> string \<Rightarrow> 't handler" where
  "resolve_handler by_type event_type =
     (case map_of by_type (strip event_type) of None \<Rightarrow> unknown_event | Some h \<Rightarrow> h)"

definition build_default_registry :: "(string \<times> 't handler) list" where
  "build_default_registry = build_registry
     [([''correlation_links_registered''], shadow_correlation_links),
      ([''cieplo_workflow_persisted''], shadow_cieplo_workflow_persisted), ([], unknown_event)]"

subsection \<open>The processor\<close>

record processor =
  pr_mode :: string
  pr_batch_size :: int
  pr_processor_id :: string

definition new_processor :: "string \<Rightarrow> int \<Rightarrow> string \<Rightarrow> string \<Rightarrow> processor" where
  "new_processor mode batch_size processor_id fresh_id =
     \<lparr>pr_mode = lower (strip (str_or mode ''shadow'')), pr_batch_size = max 1 batch_size,
      pr_processor_id = str_or (strip processor_id) fresh_id\<rparr>"

definition count_outcome :: "string \<Rightarrow> batch_result \<Rightarrow> batch_result" where
  "count_outcome outcome b =
     (if outcome = ''processed'' then b\<lparr>br_processed := br_processed b + 1\<rparr>
      else if outcome = ''skipped'' then b\<lparr>br_skipped := br_skipped b + 1\<rparr>
      else b\<lparr>br_failed := br_failed b + 1\<rparr>)"

text \<open>\<open>clk\<close> gives the clock readings during an event: for the handler (0) and for its settling (1).\<close>

definition process_event ::
  "(string \<Rightarrow> 't handler) \<Rightarrow> processor \<Rightarrow> (string \<Rightarrow> nat \<Rightarrow> string) \<Rightarrow> 't os_event \<Rightarrow> batch_result \<times> spine_store \<Rightarrow>
   batch_result \<times> spine_store" where
  "process_event resolve pr clk e bs =
     (case bs of (b, st) \<Rightarrow>
        (case resolve (ev_event_type e) (pr_mode pr) (pr_processor_id pr) (clk (ev_event_id e) 0) e st of
           (Inr h, st1) \<Rightarrow>
             (count_outcome (hr_outcome h) b,
              snd (mark_terminal (clk (ev_event_id e) 1) (ev_event_id e) (hr_outcome h) (pr_processor_id pr)
                (hr_message h) (hr_detail h) ''processing'' st1))
         | (Inl x, st1) \<Rightarrow>
             (b\<lparr>br_failed := br_failed b + 1,
               br_errors := br_errors b @ [ev_event_id e @ '':'' @ hx_text x]\<rparr>,
              snd (mark_terminal (clk (ev_event_id e) 1) (ev_event_id e) ''failed'' (pr_processor_id pr) (hx_text x)
                (Some [(''error_type'', PStr (hx_type x)), (''traceback'', PStr (hx_traceback x))]) ''processing'' st1))))"

definition process_once ::
  "(string \<Rightarrow> string + 't) \<Rightarrow> ('t \<Rightarrow> 't) \<Rightarrow> (string \<Rightarrow> 't handler) \<Rightarrow> processor \<Rightarrow> (string \<Rightarrow> nat \<Rightarrow> string) \<Rightarrow> spine_store \<Rightarrow>
   batch_result \<times> spine_store" where
  "process_once fromiso utc resolve pr clk st =
     (case claim_batch fromiso utc (pr_batch_size pr) (pr_processor_id pr) st of
        (Inl err, st1) \<Rightarrow> (empty_batch\<lparr>br_errors := [err]\<rparr>, st1)
      | (Inr es, st1) \<Rightarrow> fold (process_event resolve pr clk) es (empty_batch\<lparr>br_claimed := length es\<rparr>, st1))"

definition add_batch :: "batch_result \<Rightarrow> batch_result \<Rightarrow> batch_result" where
  "add_batch a b = \<lparr>br_claimed = br_claimed a + br_claimed b, br_processed = br_processed a + br_processed b,
     br_failed = br_failed a + br_failed b, br_skipped = br_skipped a + br_skipped b,
     br_errors = br_errors a @ br_errors b\<rparr>"

text \<open>
  The polling loop.  \<open>once i\<close> is the i-th call of \<open>process_once\<close>, with whatever other processes did to
  the table while the loop slept before it.  The loop has no other exit than its bound.
\<close>

partial_function (option) spine_run_loop ::
  "(nat \<Rightarrow> 's \<Rightarrow> batch_result \<times> 's) \<Rightarrow> int \<Rightarrow> nat \<Rightarrow> batch_result \<Rightarrow> 's \<Rightarrow> (batch_result \<times> 's) option" where
  "spine_run_loop once max_iterations iterations aggregate st =
     (case once (iterations + 1) st of
        (batch, st') \<Rightarrow>
          if 0 < max_iterations \<and> max_iterations \<le> int (iterations + 1) then Some (add_batch aggregate batch, st')
          else spine_run_loop once max_iterations (iterations + 1) (add_batch aggregate batch) st')"

definition configured_mode :: "string \<Rightarrow> bool \<Rightarrow> string" where
  "configured_mode mode_setting enabled =
     (let mode = lower (strip (str_or mode_setting ''off'')) in if mode = ''off'' \<and> enabled then ''shadow'' else mode)"

definition build_event_processor :: "string \<Rightarrow> bool \<Rightarrow> int \<Rightarrow> string \<Rightarrow> processor" where
  "build_event_processor mode_setting enabled batch_setting fresh_id =
     new_processor (configured_mode mode_setting enabled) (if batch_setting = 0 then 25 else batch_setting) [] fresh_id"

subsection \<open>Claiming\<close>

definition readable :: "(string \<Rightarrow> string + 't) \<Rightarrow> spine_store \<Rightarrow> bool" where
  "readable fromiso st \<longleftrightarrow> (\<forall>(k, row) \<in> set (sp_events st). \<exists>t. fromiso (replace_z (rw_occurred_at row)) = Inr t)"

text \<open>The events a claim takes: the oldest that are pending or failed, up to the limit.\<close>

definition selection :: "int \<Rightarrow> spine_store \<Rightarrow> (string \<times> spine_row) list" where
  "selection limit st = take (nat limit) (filter (claimable \<circ> snd) (sort_key (rw_occurred_at \<circ> snd) (sp_events st)))"

lemma row_to_event_Inr:
  "fromiso (replace_z (rw_occurred_at row)) = Inr t \<Longrightarrow>
   \<exists>e. row_to_event fromiso utc k row = Inr e \<and> ev_event_id e = k \<and> ev_event_type e = rw_event_type row"
  by (simp add: row_to_event_def)

lemma claimed_fields [simp]:
  "rw_occurred_at (claimed pid row) = rw_occurred_at row" "rw_processing_status (claimed pid row) = ''processing''"
  "rw_event_type (claimed pid row) = rw_event_type row" "rw_attempt_count (claimed pid row) = rw_attempt_count row + 1"
  by (simp_all add: claimed_def)

lemma claim_loop_spec:
  assumes "\<forall>(k, row) \<in> set items. \<exists>t. fromiso (replace_z (rw_occurred_at row)) = Inr t"
  shows "\<exists>es. claim_loop fromiso utc limit pid items out st =
      (Inr (out @ es), st\<lparr>sp_events := fold (\<lambda>(k, row). AList.update k (claimed pid row))
         (take (nat (limit - int (length out))) (filter (claimable \<circ> snd) items)) (sp_events st)\<rparr>) \<and>
    map (\<lambda>e. (ev_event_id e, ev_event_type e)) es =
      map (\<lambda>(k, row). (k, rw_event_type row)) (take (nat (limit - int (length out))) (filter (claimable \<circ> snd) items))"
  using assms
proof (induction items arbitrary: out st)
  case (Cons item items)
  obtain k row where item: "item = (k, row)" by fastforce
  show ?case
  proof (cases "limit \<le> int (length out)")
    case False
    then have n: "nat (limit - int (length out)) = Suc (nat (limit - int (length (out @ [e]))))" for e :: "'a os_event"
      by simp
    show ?thesis
    proof (cases "claimable row")
      case True
      from Cons.prems obtain t where "fromiso (replace_z (rw_occurred_at (claimed pid row))) = Inr t"
        unfolding item by auto
      with row_to_event_Inr [of fromiso "claimed pid row" t utc k] obtain e where
        e: "row_to_event fromiso utc k (claimed pid row) = Inr e" "ev_event_id e = k" "ev_event_type e = rw_event_type row"
        by auto
      let ?st = "st\<lparr>sp_events := AList.update k (claimed pid row) (sp_events st)\<rparr>"
      obtain es where es: "claim_loop fromiso utc limit pid items (out @ [e]) ?st =
          (Inr ((out @ [e]) @ es), ?st\<lparr>sp_events := fold (\<lambda>(k, row). AList.update k (claimed pid row))
            (take (nat (limit - int (length (out @ [e])))) (filter (claimable \<circ> snd) items)) (sp_events ?st)\<rparr>)"
        "map (\<lambda>e. (ev_event_id e, ev_event_type e)) es = map (\<lambda>(k, row). (k, rw_event_type row))
            (take (nat (limit - int (length (out @ [e])))) (filter (claimable \<circ> snd) items))"
        using Cons.IH [of "out @ [e]" ?st] Cons.prems by fastforce
      show ?thesis
        unfolding item n [of e] using True False e es by (intro exI [of _ "e # es"]) (simp add: Let_def comp_def)
    next
      case no: False
      with Cons False show ?thesis unfolding item by simp
    qed
  qed (simp add: item)
qed simp

lemma map_of_fold_claimed:
  assumes "distinct (map fst sel)"
  shows "map_of (fold (\<lambda>(k, row). AList.update k (claimed pid row)) sel t) k =
    (case map_of sel k of Some row \<Rightarrow> Some (claimed pid row) | None \<Rightarrow> map_of t k)"
  using assms
proof (induction sel arbitrary: t)
  case (Cons x sel)
  obtain i row where x: "x = (i, row)" by fastforce
  have "map_of sel i = None" using Cons.prems unfolding x by (simp add: map_of_eq_None_iff)
  with Cons show ?case unfolding x by (simp add: update_conv' split: option.split)
qed simp

lemma keys_fold_claimed:
  assumes "fst ` set sel \<subseteq> fst ` set t"
  shows "map fst (fold (\<lambda>(k, row). AList.update k (claimed pid row)) sel t) = map fst t"
  using assms
proof (induction sel arbitrary: t)
  case (Cons x sel)
  obtain i row where x: "x = (i, row)" by fastforce
  have k: "map fst (AList.update i (claimed pid row) t) = map fst t"
    using Cons.prems unfolding x by (intro map_fst_update) simp
  have "fst ` set (AList.update i (claimed pid row) t) = fst ` set t" using k by (metis list.set_map)
  with Cons.IH [of "AList.update i (claimed pid row) t"] Cons.prems k show ?case unfolding x by simp
qed simp

lemma selection_subset: "set (selection limit st) \<subseteq> set (sp_events st)"
  unfolding selection_def using set_take_subset by fastforce

lemma selection_distinct:
  assumes "distinct (map fst (sp_events st))"
  shows "distinct (map fst (selection limit st))"
proof -
  have "mset (map fst (sort_key (rw_occurred_at \<circ> snd) (sp_events st))) = mset (map fst (sp_events st))" by simp
  then have "distinct (map fst (sort_key (rw_occurred_at \<circ> snd) (sp_events st)))"
    using assms by (metis mset_eq_imp_distinct_iff)
  then show ?thesis
    unfolding selection_def by (simp add: distinct_map_filter take_map [symmetric] distinct_take)
qed

lemma selection_row:
  assumes "distinct (map fst (sp_events st))"
  shows "map_of (selection limit st) k = Some row \<Longrightarrow> map_of (sp_events st) k = Some row \<and> claimable row"
proof -
  assume "map_of (selection limit st) k = Some row"
  then have in_sel: "(k, row) \<in> set (selection limit st)" by (rule map_of_SomeD)
  then have "(k, row) \<in> set (filter (claimable \<circ> snd) (sort_key (rw_occurred_at \<circ> snd) (sp_events st)))"
    unfolding selection_def by (rule in_set_takeD)
  then show ?thesis using assms by simp
qed

lemma claim_batch_spec:
  assumes "distinct (map fst (sp_events st))" and "readable fromiso st"
  shows "\<exists>es st'. claim_batch fromiso utc limit pid st = (Inr es, st') \<and>
    map (\<lambda>e. (ev_event_id e, ev_event_type e)) es = map (\<lambda>(k, row). (k, rw_event_type row)) (selection limit st) \<and>
    map fst (sp_events st') = map fst (sp_events st) \<and> sp_effects st' = sp_effects st \<and>
    (\<forall>k. map_of (sp_events st') k = (case map_of (selection limit st) k of
       Some row \<Rightarrow> Some (claimed pid row) | None \<Rightarrow> map_of (sp_events st) k))"
proof -
  let ?items = "sort_key (rw_occurred_at \<circ> snd) (sp_events st)"
  have "\<forall>(k, row) \<in> set ?items. \<exists>t. fromiso (replace_z (rw_occurred_at row)) = Inr t"
    using assms(2) by (simp add: readable_def)
  from claim_loop_spec [OF this, of utc limit pid "[]" st] obtain es where
    es: "claim_batch fromiso utc limit pid st = (Inr es, st\<lparr>sp_events :=
        fold (\<lambda>(k, row). AList.update k (claimed pid row)) (selection limit st) (sp_events st)\<rparr>)"
      "map (\<lambda>e. (ev_event_id e, ev_event_type e)) es = map (\<lambda>(k, row). (k, rw_event_type row)) (selection limit st)"
    by (auto simp: claim_batch_def selection_def)
  have "fst ` set (selection limit st) \<subseteq> fst ` set (sp_events st)" using selection_subset by fastforce
  with es(2) keys_fold_claimed [OF this] map_of_fold_claimed [OF selection_distinct [OF assms(1)]]
  show ?thesis unfolding es(1) by simp
qed

subsection \<open>Settling\<close>

definition TERMINAL :: "string list" where
  "TERMINAL = [''processed'', ''failed'', ''skipped'']"

lemma processing_not_terminal: "''processing'' \<notin> set TERMINAL"
  by (simp add: TERMINAL_def)

lemma mark_terminal_processing:
  assumes "map_of (sp_events st) k = Some row" and "rw_processing_status row = ''processing''"
    and "status \<in> set TERMINAL"
  shows "\<exists>row'. snd (mark_terminal now k status pid msg detail ''processing'' st) =
      st\<lparr>sp_events := AList.update k row' (sp_events st)\<rparr> \<and> rw_processing_status row' = status \<and>
      rw_attempt_count row' = rw_attempt_count row \<and> rw_event_type row' = rw_event_type row"
proof -
  have "''processing'' \<noteq> status" using assms(3) processing_not_terminal by metis
  with assms(1,2) show ?thesis
    by (cases detail) (auto simp: mark_terminal_def Let_def)
qed

lemma count_outcome_sum:
  "br_processed (count_outcome s b) + br_failed (count_outcome s b) + br_skipped (count_outcome s b) =
   Suc (br_processed b + br_failed b + br_skipped b)"
  "br_claimed (count_outcome s b) = br_claimed b"
  by (simp_all add: count_outcome_def)

locale event_handler =
  fixes resolve :: "string \<Rightarrow> 't handler"
  assumes keeps_events: "sp_events (snd (resolve type mode pid now e st)) = sp_events st"
    and outcome_terminal: "fst (resolve type mode pid now e st) = Inr h \<Longrightarrow> hr_outcome h \<in> set TERMINAL"
begin

lemma process_event_step:
  assumes "map_of (sp_events st) (ev_event_id e) = Some row" and "rw_processing_status row = ''processing''"
  obtains b' st' row' where "process_event resolve pr clk e (b, st) = (b', st')"
    and "sp_events st' = AList.update (ev_event_id e) row' (sp_events st)"
    and "rw_processing_status row' \<in> set TERMINAL" and "rw_attempt_count row' = rw_attempt_count row"
    and "br_processed b' + br_failed b' + br_skipped b' = Suc (br_processed b + br_failed b + br_skipped b)"
    and "br_claimed b' = br_claimed b"
proof -
  let ?r = "resolve (ev_event_type e) (pr_mode pr) (pr_processor_id pr) (clk (ev_event_id e) 0) e st"
  obtain res st1 where r: "?r = (res, st1)" by fastforce
  have ev: "sp_events st1 = sp_events st"
    using keeps_events [of "ev_event_type e" "pr_mode pr" "pr_processor_id pr" "clk (ev_event_id e) 0" e st] r by simp
  with assms have row: "map_of (sp_events st1) (ev_event_id e) = Some row" by simp
  show ?thesis
  proof (cases res)
    case (Inr h)
    have t: "hr_outcome h \<in> set TERMINAL"
      using outcome_terminal [of "ev_event_type e" "pr_mode pr" "pr_processor_id pr" "clk (ev_event_id e) 0" e st h] r Inr
      by simp
    from mark_terminal_processing [OF row assms(2) t] obtain row' where
      m: "snd (mark_terminal (clk (ev_event_id e) 1) (ev_event_id e) (hr_outcome h) (pr_processor_id pr)
            (hr_message h) (hr_detail h) ''processing'' st1) = st1\<lparr>sp_events := AList.update (ev_event_id e) row' (sp_events st1)\<rparr>"
      and row': "rw_processing_status row' = hr_outcome h" "rw_attempt_count row' = rw_attempt_count row"
      by blast
    have "process_event resolve pr clk e (b, st) =
        (count_outcome (hr_outcome h) b, st1\<lparr>sp_events := AList.update (ev_event_id e) row' (sp_events st1)\<rparr>)"
      unfolding process_event_def prod.case r Inr sum.case m ..
    from that [OF this] show ?thesis using row' t by (simp add: ev count_outcome_sum)
  next
    case (Inl x)
    have t: "''failed'' \<in> set TERMINAL" by (simp add: TERMINAL_def)
    from mark_terminal_processing [OF row assms(2) t] obtain row' where
      m: "snd (mark_terminal (clk (ev_event_id e) 1) (ev_event_id e) ''failed'' (pr_processor_id pr) (hx_text x)
            (Some [(''error_type'', PStr (hx_type x)), (''traceback'', PStr (hx_traceback x))]) ''processing'' st1) =
          st1\<lparr>sp_events := AList.update (ev_event_id e) row' (sp_events st1)\<rparr>"
      and row': "rw_processing_status row' = ''failed''" "rw_attempt_count row' = rw_attempt_count row"
      by blast
    have "process_event resolve pr clk e (b, st) =
        (b\<lparr>br_failed := br_failed b + 1, br_errors := br_errors b @ [ev_event_id e @ '':'' @ hx_text x]\<rparr>,
         st1\<lparr>sp_events := AList.update (ev_event_id e) row' (sp_events st1)\<rparr>)"
      unfolding process_event_def prod.case r Inl sum.case m ..
    from that [OF this] show ?thesis using row' t by (simp add: ev)
  qed
qed

lemma process_events_settle:
  assumes "distinct (map ev_event_id es)"
    and "\<forall>e \<in> set es. \<exists>row. map_of (sp_events st) (ev_event_id e) = Some row \<and> rw_processing_status row = ''processing''"
    and "fold (process_event resolve pr clk) es (b, st) = (b', st')"
  shows "br_claimed b' = br_claimed b \<and>
    br_processed b' + br_failed b' + br_skipped b' = br_processed b + br_failed b + br_skipped b + length es \<and>
    (\<forall>k. k \<notin> ev_event_id ` set es \<longrightarrow> map_of (sp_events st') k = map_of (sp_events st) k) \<and>
    (\<forall>k \<in> ev_event_id ` set es. \<exists>row row'. map_of (sp_events st) k = Some row \<and> map_of (sp_events st') k = Some row' \<and>
       rw_processing_status row' \<in> set TERMINAL \<and> rw_attempt_count row' = rw_attempt_count row)"
  using assms
proof (induction es arbitrary: b st)
  case (Cons e es)
  from Cons.prems(2) obtain row where row: "map_of (sp_events st) (ev_event_id e) = Some row"
    "rw_processing_status row = ''processing''" by auto
  obtain b1 st1 row' where step: "process_event resolve pr clk e (b, st) = (b1, st1)"
    and ev: "sp_events st1 = AList.update (ev_event_id e) row' (sp_events st)"
    and row': "rw_processing_status row' \<in> set TERMINAL" "rw_attempt_count row' = rw_attempt_count row"
    and b1: "br_processed b1 + br_failed b1 + br_skipped b1 = Suc (br_processed b + br_failed b + br_skipped b)"
      "br_claimed b1 = br_claimed b"
    by (rule process_event_step [OF row])
  have lookup: "map_of (sp_events st1) k = (if k = ev_event_id e then Some row' else map_of (sp_events st) k)" for k
    by (simp add: ev update_conv')
  have fresh: "ev_event_id e \<notin> ev_event_id ` set es" using Cons.prems(1) by simp
  have run: "fold (process_event resolve pr clk) es (b1, st1) = (b', st')" using Cons.prems(3) step by simp
  have dist: "distinct (map ev_event_id es)" using Cons.prems(1) by simp
  have "\<forall>e' \<in> set es. \<exists>row. map_of (sp_events st1) (ev_event_id e') = Some row \<and>
      rw_processing_status row = ''processing''"
    using Cons.prems(2) fresh unfolding lookup by (auto simp: rev_image_eqI)
  from Cons.IH [OF dist this run] have IH: "br_claimed b' = br_claimed b1"
    "br_processed b' + br_failed b' + br_skipped b' = br_processed b1 + br_failed b1 + br_skipped b1 + length es"
    "\<And>k. k \<notin> ev_event_id ` set es \<Longrightarrow> map_of (sp_events st') k = map_of (sp_events st1) k"
    "\<And>k. k \<in> ev_event_id ` set es \<Longrightarrow> \<exists>row row'. map_of (sp_events st1) k = Some row \<and>
       map_of (sp_events st') k = Some row' \<and> rw_processing_status row' \<in> set TERMINAL \<and>
       rw_attempt_count row' = rw_attempt_count row"
    by blast+
  have settled: "\<exists>row row'. map_of (sp_events st) k = Some row \<and> map_of (sp_events st') k = Some row' \<and>
       rw_processing_status row' \<in> set TERMINAL \<and> rw_attempt_count row' = rw_attempt_count row"
    if "k \<in> ev_event_id ` set (e # es)" for k
  proof (cases "k = ev_event_id e")
    case True
    then show ?thesis using IH(3) [of k] fresh row(1) row' by (simp add: lookup)
  next
    case False
    then show ?thesis using IH(4) [of k] that by (simp add: lookup)
  qed
  show ?case using IH(1,2,3) b1 settled by (simp add: lookup)
qed simp

text \<open>What one pass of the processor does: every claimed event is settled, the rest is untouched.\<close>

lemma pass_settles:
  assumes "distinct (map fst (sp_events st))" and "readable fromiso st"
    and "process_once fromiso utc resolve pr clk st = (b, st')"
  shows "br_claimed b = length (selection (pr_batch_size pr) st) \<and>
    br_processed b + br_failed b + br_skipped b = br_claimed b \<and>
    (\<forall>k. k \<notin> fst ` set (selection (pr_batch_size pr) st) \<longrightarrow> map_of (sp_events st') k = map_of (sp_events st) k) \<and>
    (\<forall>(k, row) \<in> set (selection (pr_batch_size pr) st). \<exists>row'. map_of (sp_events st') k = Some row' \<and>
       rw_processing_status row' \<in> set TERMINAL \<and> rw_attempt_count row' = rw_attempt_count row + 1)"
proof -
  let ?sel = "selection (pr_batch_size pr) st"
  obtain es st1 where cl: "claim_batch fromiso utc (pr_batch_size pr) (pr_processor_id pr) st = (Inr es, st1)"
    and ids: "map (\<lambda>e. (ev_event_id e, ev_event_type e)) es = map (\<lambda>(k, row). (k, rw_event_type row)) ?sel"
    and look: "\<And>k. map_of (sp_events st1) k = (case map_of ?sel k of
       Some row \<Rightarrow> Some (claimed (pr_processor_id pr) row) | None \<Rightarrow> map_of (sp_events st) k)"
    using claim_batch_spec [OF assms(1,2), of utc "pr_batch_size pr" "pr_processor_id pr"] by blast
  have keys: "map ev_event_id es = map fst ?sel"
    using arg_cong [OF ids, of "map fst"] by (simp add: comp_def case_prod_beta)
  have dist: "distinct (map fst ?sel)" by (rule selection_distinct [OF assms(1)])
  have all: "\<forall>e \<in> set es. \<exists>row. map_of (sp_events st1) (ev_event_id e) = Some row \<and>
      rw_processing_status row = ''processing''"
  proof
    fix e
    assume "e \<in> set es"
    then have "ev_event_id e \<in> set (map fst ?sel)" unfolding keys [symmetric] by simp
    then obtain row where "map_of ?sel (ev_event_id e) = Some row" using dist by (auto simp: weak_map_of_SomeI)
    then show "\<exists>row. map_of (sp_events st1) (ev_event_id e) = Some row \<and> rw_processing_status row = ''processing''"
      by (simp add: look)
  qed
  have dist_es: "distinct (map ev_event_id es)" using dist keys by simp
  have run: "fold (process_event resolve pr clk) es (empty_batch\<lparr>br_claimed := length es\<rparr>, st1) = (b, st')"
    using assms(3) cl by (simp add: process_once_def)
  note settled = process_events_settle [OF dist_es all run]
  have res: "br_claimed b = length es" "br_processed b + br_failed b + br_skipped b = length es"
    using settled by (simp_all add: empty_batch_def)
  have res_events: "\<And>k. k \<notin> ev_event_id ` set es \<Longrightarrow> map_of (sp_events st') k = map_of (sp_events st1) k"
    "\<And>k. k \<in> ev_event_id ` set es \<Longrightarrow> \<exists>row row'. map_of (sp_events st1) k = Some row \<and>
       map_of (sp_events st') k = Some row' \<and> rw_processing_status row' \<in> set TERMINAL \<and>
       rw_attempt_count row' = rw_attempt_count row"
    using settled by blast+
  have len: "length es = length ?sel" using arg_cong [OF keys, of length] by simp
  have ids_set: "ev_event_id ` set es = fst ` set ?sel" using keys by (metis list.set_map)
  have outside: "map_of (sp_events st') k = map_of (sp_events st) k" if "k \<notin> fst ` set ?sel" for k
    using res_events(1) [of k] that look [of k] by (simp add: ids_set map_of_eq_None_iff [THEN iffD2])
  have inside: "\<exists>row'. map_of (sp_events st') k = Some row' \<and>
       rw_processing_status row' \<in> set TERMINAL \<and> rw_attempt_count row' = rw_attempt_count row + 1"
    if "(k, row) \<in> set ?sel" for k row
  proof -
    have sel: "map_of ?sel k = Some row" using that dist by simp
    from that have "k \<in> ev_event_id ` set es" unfolding ids_set by force
    from res_events(2) [OF this] look [of k] sel show ?thesis by auto
  qed
  show ?thesis using res(1,2) len outside inside by auto
qed

end

subsection \<open>The handlers of the program\<close>

lemma default_registry_eq:
  "build_default_registry = [(''correlation_links_registered'', shadow_correlation_links),
     (''cieplo_workflow_persisted'', shadow_cieplo_workflow_persisted)]"
  by (simp add: build_default_registry_def build_registry_def)

lemma resolve_default:
  assumes "P shadow_correlation_links" and "P shadow_cieplo_workflow_persisted" and "P unknown_event"
  shows "P (resolve_handler build_default_registry type)"
  using assms by (simp add: resolve_handler_def default_registry_eq)

lemmas default_handler_defs = shadow_correlation_links_def shadow_cieplo_workflow_persisted_def handle_with_effect_def
  unknown_event_def record_handler_effect_def

interpretation default_handlers: event_handler "resolve_handler build_default_registry"
proof unfold_locales
  fix type mode pid now and e :: "'t os_event" and st h
  show "sp_events (snd (resolve_handler build_default_registry type mode pid now e st)) = sp_events st"
    by (rule resolve_default) (simp_all add: default_handler_defs Let_def split: prod.split)
  have "fst (resolve_handler build_default_registry type mode pid now e st) = Inr h \<longrightarrow> hr_outcome h \<in> set TERMINAL"
    by (rule resolve_default) (auto simp: default_handler_defs TERMINAL_def Let_def split: prod.split if_split)
  then show "fst (resolve_handler build_default_registry type mode pid now e st) = Inr h \<Longrightarrow>
      hr_outcome h \<in> set TERMINAL" ..
qed

text \<open>
  Property C27.  One pass of the processor settles what it claims: with the program's handlers, a
  pass over a table with readable timestamps claims the oldest pending or failed events up to its
  batch size, ends each of them as processed, failed or skipped with one more attempt counted,
  leaves every other event as it was, and its counters add up to the number claimed.
\<close>

theorem process_once_settles_claims:
  assumes "distinct (map fst (sp_events st))" and "readable fromiso st"
    and "process_once fromiso utc (resolve_handler build_default_registry) pr clk st = (b, st')"
  shows "br_claimed b = length (selection (pr_batch_size pr) st) \<and>
    br_processed b + br_failed b + br_skipped b = br_claimed b \<and>
    (\<forall>k. k \<notin> fst ` set (selection (pr_batch_size pr) st) \<longrightarrow> map_of (sp_events st') k = map_of (sp_events st) k) \<and>
    (\<forall>(k, row) \<in> set (selection (pr_batch_size pr) st). \<exists>row'. map_of (sp_events st') k = Some row' \<and>
       rw_processing_status row' \<in> set TERMINAL \<and> rw_attempt_count row' = rw_attempt_count row + 1)"
  by (rule default_handlers.pass_settles [OF assms])

subsection \<open>Handler effects\<close>

definition KNOWN_TYPES :: "string list" where
  "KNOWN_TYPES = [''correlation_links_registered'', ''cieplo_workflow_persisted'']"

lemma mark_terminal_effects [simp]: "sp_effects (snd (mark_terminal now k s pid m d x st)) = sp_effects st"
  by (simp add: mark_terminal_def Let_def split: option.split)

lemma record_effect_kept:
  "map_of (sp_effects st) x = Some d \<Longrightarrow> map_of (sp_effects (snd (record_handler_effect now e key pid detail st))) x = Some d"
  by (auto simp: record_handler_effect_def Let_def update_conv')

lemma record_effect_present:
  "map_of (sp_effects (snd (record_handler_effect now e key pid detail st))) (ev_event_id e, key) \<noteq> None"
  by (simp add: record_handler_effect_def Let_def update_conv')

lemma handle_with_effect_store:
  "snd (handle_with_effect key detail mode pid now e st) =
     (if mode = ''active'' then snd (record_handler_effect now e key pid (Some (detail e)) st) else st)"
  by (simp add: handle_with_effect_def split: prod.split)

lemma resolve_effects_kept:
  "map_of (sp_effects st) x = Some d \<Longrightarrow>
   map_of (sp_effects (snd (resolve_handler build_default_registry type mode pid now e st))) x = Some d"
  by (rule resolve_default)
    (simp_all add: shadow_correlation_links_def shadow_cieplo_workflow_persisted_def handle_with_effect_store
      record_effect_kept unknown_event_def)

lemma process_event_effects:
  "sp_effects (snd (process_event resolve pr clk e (b, st))) =
   sp_effects (snd (resolve (ev_event_type e) (pr_mode pr) (pr_processor_id pr) (clk (ev_event_id e) 0) e st))"
  by (simp add: process_event_def split: prod.split sum.split)

lemma process_event_effects_kept:
  "map_of (sp_effects (snd bs)) x = Some d \<Longrightarrow>
   map_of (sp_effects (snd (process_event (resolve_handler build_default_registry) pr clk e bs))) x = Some d"
  by (cases bs) (simp add: process_event_effects resolve_effects_kept)

lemma process_events_effects_kept:
  "map_of (sp_effects (snd bs)) x = Some d \<Longrightarrow>
   map_of (sp_effects (snd (fold (process_event (resolve_handler build_default_registry) pr clk) es bs))) x = Some d"
  by (induction es arbitrary: bs) (simp_all add: process_event_effects_kept)

lemma known_type_effect:
  assumes "strip type = key" and "key \<in> set KNOWN_TYPES"
  shows "map_of (sp_effects (snd (resolve_handler build_default_registry type ''active'' pid now e st)))
    (ev_event_id e, key) \<noteq> None"
proof -
  have "key = ''correlation_links_registered'' \<or> key = ''cieplo_workflow_persisted''"
    using assms(2) by (simp add: KNOWN_TYPES_def)
  then show ?thesis
    unfolding resolve_handler_def default_registry_eq assms(1)
    by (elim disjE) (simp_all add: shadow_correlation_links_def shadow_cieplo_workflow_persisted_def
        handle_with_effect_store record_effect_present del: not_None_eq)
qed

lemma process_events_effect:
  assumes "e \<in> set es" and "pr_mode pr = ''active''" and "strip (ev_event_type e) = key" and "key \<in> set KNOWN_TYPES"
  shows "map_of (sp_effects (snd (fold (process_event (resolve_handler build_default_registry) pr clk) es bs)))
    (ev_event_id e, key) \<noteq> None"
  using assms(1)
proof (induction es arbitrary: bs)
  case (Cons x es)
  show ?case
  proof (cases "x = e")
    case True
    obtain b st where bs: "bs = (b, st)" by fastforce
    from known_type_effect [OF assms(3,4)] obtain d where
      "map_of (sp_effects (snd (process_event (resolve_handler build_default_registry) pr clk e bs))) (ev_event_id e, key) = Some d"
      unfolding bs process_event_effects assms(2) by blast
    from process_events_effects_kept [OF this, of pr clk es] True show ?thesis by simp
  next
    case False
    with Cons show ?thesis by simp
  qed
qed simp

text \<open>
  Property C28.  Effects of handlers are recorded, and recorded once: a pass in active mode leaves an
  effect for every event it claims whose type has a handler, and whatever effect was recorded
  before, by an earlier attempt at the same event or otherwise, is kept unchanged.
\<close>

theorem active_pass_records_effects:
  assumes "distinct (map fst (sp_events st))" and "readable fromiso st" and "pr_mode pr = ''active''"
    and "process_once fromiso utc (resolve_handler build_default_registry) pr clk st = (b, st')"
  shows "(\<forall>(k, row) \<in> set (selection (pr_batch_size pr) st). strip (rw_event_type row) \<in> set KNOWN_TYPES \<longrightarrow>
      map_of (sp_effects st') (k, strip (rw_event_type row)) \<noteq> None) \<and>
    (\<forall>x d. map_of (sp_effects st) x = Some d \<longrightarrow> map_of (sp_effects st') x = Some d)"
proof -
  obtain es st1 where cl: "claim_batch fromiso utc (pr_batch_size pr) (pr_processor_id pr) st = (Inr es, st1)"
    and ids: "map (\<lambda>e. (ev_event_id e, ev_event_type e)) es =
      map (\<lambda>(k, row). (k, rw_event_type row)) (selection (pr_batch_size pr) st)"
    and eff: "sp_effects st1 = sp_effects st"
    using claim_batch_spec [OF assms(1,2), of utc "pr_batch_size pr" "pr_processor_id pr"] by blast
  have st': "st' = snd (fold (process_event (resolve_handler build_default_registry) pr clk) es
      (empty_batch\<lparr>br_claimed := length es\<rparr>, st1))"
    using assms(4) cl by (simp add: process_once_def)
  have kept: "map_of (sp_effects st') x = Some d" if "map_of (sp_effects st) x = Some d" for x d
    unfolding st' by (rule process_events_effects_kept) (simp add: eff that)
  have "map_of (sp_effects st') (k, strip (rw_event_type row)) \<noteq> None"
    if sel: "(k, row) \<in> set (selection (pr_batch_size pr) st)" and known: "strip (rw_event_type row) \<in> set KNOWN_TYPES"
    for k row
  proof -
    have "(k, rw_event_type row) \<in> set (map (\<lambda>e. (ev_event_id e, ev_event_type e)) es)"
      unfolding ids using sel by force
    then obtain e where e: "e \<in> set es" "ev_event_id e = k" "ev_event_type e = rw_event_type row" by auto
    then have "strip (ev_event_type e) = strip (rw_event_type row)" by simp
    from process_events_effect [OF e(1) assms(3) this known] show ?thesis unfolding st' e(2) .
  qed
  with kept show ?thesis by blast
qed

subsection \<open>The life of an event\<close>

text \<open>
  The operations the processors of the spine, any number of them, perform on the table: claims of
  any size, settlements from \<open>processing\<close>, recorded effects, and insertions under a new id.
\<close>

inductive spine_step ::
  "(string \<Rightarrow> string + 't) \<Rightarrow> ('t \<Rightarrow> 't) \<Rightarrow> ('t \<Rightarrow> string) \<Rightarrow> spine_store \<Rightarrow> spine_store \<Rightarrow> bool"
  for fromiso utc isofmt where
  claim: "spine_step fromiso utc isofmt st (snd (claim_batch fromiso utc limit pid st))"
| settle: "status \<in> set TERMINAL \<Longrightarrow>
    spine_step fromiso utc isofmt st (snd (mark_terminal now k status pid msg detail ''processing'' st))"
| effect: "spine_step fromiso utc isofmt st (snd (record_handler_effect now (e :: 't os_event) key pid detail st))"
| insert: "ev_event_id e \<notin> set (map fst (sp_events st)) \<Longrightarrow>
    spine_step fromiso utc isofmt st (insert_pending isofmt e st)"

inductive_cases spine_stepE: "spine_step fromiso utc isofmt st st'"

definition finished :: "spine_row \<Rightarrow> bool" where
  "finished row \<longleftrightarrow> rw_processing_status row \<in> set [''processed'', ''skipped'']"

lemma finished_not_claimable: "finished row \<Longrightarrow> \<not> claimable row"
  by (auto simp: finished_def claimable_def)

lemma claim_loop_keys:
  "distinct (map fst (sp_events st)) \<Longrightarrow>
   distinct (map fst (sp_events (snd (claim_loop fromiso utc limit pid items out st))))"
  by (induction fromiso utc limit pid items out st rule: claim_loop.induct)
    (simp_all add: Let_def distinct_update split: sum.split)

lemma claim_loop_other:
  "\<forall>(k', row) \<in> set items. k' = k \<longrightarrow> \<not> claimable row \<Longrightarrow>
   map_of (sp_events (snd (claim_loop fromiso utc limit pid items out st))) k = map_of (sp_events st) k"
  by (induction fromiso utc limit pid items out st rule: claim_loop.induct)
    (auto simp: Let_def update_conv' split: sum.split)

lemma claim_batch_other:
  assumes "distinct (map fst (sp_events st))" and "map_of (sp_events st) k = Some row" and "\<not> claimable row"
  shows "map_of (sp_events (snd (claim_batch fromiso utc limit pid st))) k = Some row"
proof -
  have "\<forall>(k', r) \<in> set (sort_key (rw_occurred_at \<circ> snd) (sp_events st)). k' = k \<longrightarrow> \<not> claimable r"
    using assms by (auto dest: eq_key_imp_eq_value)
  from claim_loop_other [OF this, of fromiso utc limit pid "[]" st] assms(2)
  show ?thesis by (simp add: claim_batch_def)
qed

lemma mark_terminal_finished:
  assumes "map_of (sp_events st) i = Some row" and "finished row"
  shows "map_of (sp_events (snd (mark_terminal now k status pid msg detail ''processing'' st))) i = Some row"
proof (cases "k = i")
  case True
  have "rw_processing_status row = ''processed'' \<or> rw_processing_status row = ''skipped''"
    using assms(2) by (simp add: finished_def)
  then have "rw_processing_status row \<noteq> ''processing''" by (elim disjE) simp_all
  with True assms(1) show ?thesis by (simp add: mark_terminal_def Let_def)
next
  case False
  with assms(1) show ?thesis by (simp add: mark_terminal_def Let_def update_conv' split: option.split)
qed

lemma mark_terminal_keys:
  "distinct (map fst (sp_events st)) \<Longrightarrow>
   distinct (map fst (sp_events (snd (mark_terminal now k status pid msg detail x st))))"
  by (simp add: mark_terminal_def Let_def distinct_update split: option.split)

lemma record_effect_events [simp]: "sp_events (snd (record_handler_effect now e key pid detail st)) = sp_events st"
  by (simp add: record_handler_effect_def Let_def)

lemma spine_step_keys:
  "spine_step fromiso utc isofmt st st' \<Longrightarrow> distinct (map fst (sp_events st)) \<Longrightarrow> distinct (map fst (sp_events st'))"
  by (erule spine_stepE)
    (simp_all add: claim_batch_def claim_loop_keys mark_terminal_keys insert_pending_def distinct_update)

lemma spine_step_finished:
  assumes "spine_step fromiso utc isofmt st st'" and "distinct (map fst (sp_events st))"
    and "map_of (sp_events st) k = Some row" and "finished row"
  shows "map_of (sp_events st') k = Some row"
  using assms(1)
proof cases
  case (claim limit pid)
  show ?thesis unfolding claim by (rule claim_batch_other [OF assms(2,3) finished_not_claimable [OF assms(4)]])
next
  case (insert e)
  from map_of_SomeD [OF assms(3)] have "k \<in> set (map fst (sp_events st))" by force
  with insert(2) have "k \<noteq> ev_event_id e" by metis
  with assms(3) show ?thesis unfolding insert by (simp add: insert_pending_def update_conv')
qed (simp_all add: assms(3) mark_terminal_finished [OF assms(3,4)])

text \<open>
  Property C29.  Processed and skipped are final: however many processors work on the table, an event
  that is processed or skipped keeps its row, status, attempts and error included; it is never
  claimed, handled or settled again.
\<close>

theorem finished_events_stay:
  assumes "(spine_step fromiso utc isofmt)\<^sup>*\<^sup>* st st'" and "distinct (map fst (sp_events st))"
    and "map_of (sp_events st) k = Some row" and "rw_processing_status row \<in> set [''processed'', ''skipped'']"
  shows "map_of (sp_events st') k = Some row"
proof -
  have "finished row" using assms(4) by (simp only: finished_def)
  with assms(1) have "map_of (sp_events st') k = Some row \<and> distinct (map fst (sp_events st'))"
    by (induction rule: rtranclp_induct) (simp_all add: assms(2,3) spine_step_finished spine_step_keys)
  then show ?thesis ..
qed

subsection \<open>The polling loop\<close>

definition loop_result :: "(nat \<Rightarrow> 's \<Rightarrow> batch_result \<times> 's) \<Rightarrow> nat \<Rightarrow> nat \<Rightarrow> batch_result \<Rightarrow> 's \<Rightarrow> batch_result \<times> 's" where
  "loop_result once m i agg st = fold (\<lambda>j (a, s). case once j s of (b, s') \<Rightarrow> (add_batch a b, s')) [i + 1..<i + m + 1] (agg, st)"

lemma spine_run_loop_bounded:
  "max_iterations = int (i + Suc n) \<Longrightarrow>
   spine_run_loop once max_iterations i agg st = Some (loop_result once (Suc n) i agg st)"
proof (induction n arbitrary: i agg st)
  case 0
  then show ?case by (subst spine_run_loop.simps) (simp add: loop_result_def split: prod.split)
next
  case (Suc n)
  obtain b st' where o: "once (i + 1) st = (b, st')" by fastforce
  have "spine_run_loop once max_iterations i agg st = spine_run_loop once max_iterations (i + 1) (add_batch agg b) st'"
    using Suc.prems by (subst spine_run_loop.simps) (simp add: o [simplified])
  also have "\<dots> = Some (loop_result once (Suc n) (i + 1) (add_batch agg b) st')"
    by (rule Suc.IH) (use Suc.prems in simp)
  also have "loop_result once (Suc n) (i + 1) (add_batch agg b) st' = loop_result once (Suc (Suc n)) i agg st"
  proof -
    have "[i + 1..<i + Suc (Suc n) + 1] = (i + 1) # [(i + 1) + 1..<(i + 1) + Suc n + 1]"
      by (subst upt_conv_Cons) simp_all
    then show ?thesis by (simp add: loop_result_def o [simplified])
  qed
  finally show ?case .
qed

lemma run_loop_needs_bound:
  assumes "spine_run_loop once max_iterations i agg st = Some r"
  shows "0 < max_iterations"
proof (rule spine_run_loop.raw_induct [where P = "\<lambda>once m i agg st r. 0 < m", OF _ assms])
  fix loop :: "(nat \<Rightarrow> 'a \<Rightarrow> batch_result \<times> 'a) \<Rightarrow> int \<Rightarrow> nat \<Rightarrow> batch_result \<Rightarrow> 'a \<Rightarrow> (batch_result \<times> 'a) option"
    and once m i agg st r
  assume IH: "\<And>once m i agg st r. loop once m i agg st = Some r \<Longrightarrow> 0 < m"
    and body: "(case once (i + 1) st of (batch, st') \<Rightarrow>
      if 0 < m \<and> m \<le> int (i + 1) then Some (add_batch agg batch, st')
      else loop once m (i + 1) (add_batch agg batch) st') = Some r"
  from body show "0 < m" by (auto split: prod.split_asm if_split_asm dest: IH)
qed

text \<open>
  Property C30.  When the polling loop ends: started with a bound it returns after exactly that many
  passes, with the sum of their results; without a positive bound it never returns.
\<close>

theorem run_loop_terminates_iff:
  "spine_run_loop once max_iterations 0 empty_batch st =
     (if 0 < max_iterations then Some (loop_result once (nat max_iterations) 0 empty_batch st) else None)"
proof (cases "0 < max_iterations")
  case True
  then obtain n where n: "nat max_iterations = Suc n" by (metis gr0_conv_Suc zero_less_nat_eq)
  with True have "max_iterations = int (0 + Suc n)" by simp
  from spine_run_loop_bounded [OF this, of once empty_batch st] True n show ?thesis by simp
next
  case False
  then show ?thesis using run_loop_needs_bound by (metis option.exhaust)
qed

subsection \<open>Reading back\<close>

definition clean :: "string option \<Rightarrow> bool" where
  "clean v \<longleftrightarrow> v = None \<or> (\<exists>s. v = Some s \<and> s \<noteq> [] \<and> strip s = s)"

definition storable :: "'t os_event \<Rightarrow> bool" where
  "storable e \<longleftrightarrow> ev_engagement_id e \<noteq> Some [] \<and> ev_source_repo e \<noteq> [] \<and> ev_severity e \<noteq> [] \<and>
     clean (ev_trace_id e) \<and> clean (ev_span_id e) \<and> clean (ev_parent_event_id e) \<and> clean (ev_case_id e) \<and>
     clean (ev_user_id e) \<and> clean (ev_session_id e) \<and> ev_duration_ms e \<noteq> Some 0 \<and>
     ev_token_usage e \<noteq> Some [] \<and> ev_cost e \<noteq> Some 0 \<and> ev_error_message e \<noteq> Some []"

lemma text_or_none_opt: "v \<noteq> Some [] \<Longrightarrow> text_or_none (opt_text v) = v"
  by (cases v) (simp_all add: text_or_none_def opt_text_def)

lemma text_or_none_clean: "clean v \<Longrightarrow> text_or_none (strip (opt_text v)) = v"
  by (auto simp: clean_def text_or_none_def opt_text_def)

lemma nonzero_opt: "v \<noteq> Some z \<Longrightarrow> (case v of Some d \<Rightarrow> if d = z then None else Some d | None \<Rightarrow> None) = v"
  by (cases v) auto

text \<open>
  An event that is inserted reads back as it was: for a timestamp that survives its ISO
  text and fields that are not blank or zero where the reader takes those for absent, the event
  under its id is the inserted one, pending and unattempted.
\<close>

theorem inserted_event_reads_back:
  assumes "storable e" and "fromiso (replace_z (isofmt (ev_occurred_at e))) = Inr (ev_occurred_at e)"
    and "utc (ev_occurred_at e) = ev_occurred_at e"
  shows "get_by_id fromiso utc (ev_event_id e) (insert_pending isofmt e st) =
    Inr (Some (e\<lparr>ev_processing_status := ''pending'', ev_attempt_count := 0, ev_processor_id := None,
      ev_last_error := None, ev_failure_detail := []\<rparr>))"
proof -
  have fields: "text_or_none (opt_text (ev_engagement_id e)) = ev_engagement_id e"
    "text_or_none (opt_text (ev_error_message e)) = ev_error_message e"
    "text_or_none (strip (opt_text (ev_trace_id e))) = ev_trace_id e"
    "text_or_none (strip (opt_text (ev_span_id e))) = ev_span_id e"
    "text_or_none (strip (opt_text (ev_parent_event_id e))) = ev_parent_event_id e"
    "text_or_none (strip (opt_text (ev_case_id e))) = ev_case_id e"
    "text_or_none (strip (opt_text (ev_user_id e))) = ev_user_id e"
    "text_or_none (strip (opt_text (ev_session_id e))) = ev_session_id e"
    "str_or (ev_source_repo e) ''gmail-agent'' = ev_source_repo e" "str_or (ev_severity e) ''info'' = ev_severity e"
    using assms(1) by (simp_all add: storable_def text_or_none_opt text_or_none_clean str_or_def)
  have none: "text_or_none (opt_text None) = None" by (simp add: text_or_none_def opt_text_def)
  have numbers: "(case ev_duration_ms e of Some d \<Rightarrow> if d = 0 then None else Some d | None \<Rightarrow> None) = ev_duration_ms e"
    "(case ev_token_usage e of Some d \<Rightarrow> if d = [] then None else Some d | None \<Rightarrow> None) = ev_token_usage e"
    "(case ev_cost e of Some d \<Rightarrow> if d = 0 then None else Some d | None \<Rightarrow> None) = ev_cost e"
    using assms(1) by (simp_all add: storable_def nonzero_opt)
  show ?thesis
    by (simp add: get_by_id_def insert_pending_def update_conv' row_to_event_def assms(2,3) fields none numbers)
      (simp add: str_or_def)
qed

text \<open>A measured duration of zero milliseconds reads back as no duration.\<close>

lemma zero_duration_is_lost:
  assumes "row_to_event fromiso utc k row = Inr e" and "rw_duration_ms row = Some 0"
  shows "ev_duration_ms e = None"
  using assms by (auto simp: row_to_event_def bindE_eq_Inr)

subsection \<open>Witnesses\<close>

definition sample_event :: "string \<Rightarrow> string \<Rightarrow> string \<Rightarrow> string os_event" where
  "sample_event i type time = \<lparr>ev_event_id = i, ev_event_type = type, ev_engagement_id = None,
     ev_source_repo = ''daszek'', ev_occurred_at = time, ev_payload = [], ev_correlation = [],
     ev_processing_status = ''pending'', ev_attempt_count = 0, ev_processor_id = None, ev_last_error = None,
     ev_failure_detail = [], ev_trace_id = None, ev_span_id = None, ev_parent_event_id = None, ev_case_id = None,
     ev_user_id = None, ev_session_id = None, ev_severity = ''info'', ev_duration_ms = None, ev_token_usage = None,
     ev_cost = None, ev_success = None, ev_error_message = None\<rparr>"

definition sample_spine :: spine_store where
  "sample_spine = insert_pending id (sample_event ''e2'' ''other'' ''2'')
     (insert_pending id (sample_event ''e1'' ''correlation_links_registered '' ''1'') empty_spine)"

definition sample_iso :: "string \<Rightarrow> string + string" where
  "sample_iso s = Inr s"

definition sample_processor :: processor where
  "sample_processor = new_processor '' Active'' 1 [] ''evtproc''"

lemma sample_spine_ok: "distinct (map fst (sp_events sample_spine))" "readable sample_iso sample_spine"
  by code_simp (simp add: readable_def sample_iso_def)

lemma sample_selection: "map fst (selection (pr_batch_size sample_processor) sample_spine) = [''e1'']"
  by code_simp

theorem process_once_settles_claims_witness:
  "br_claimed (fst (process_once sample_iso id (resolve_handler build_default_registry) sample_processor
     (\<lambda>_ _. ''t'') sample_spine)) = 1"
proof -
  obtain b st' where run: "process_once sample_iso id (resolve_handler build_default_registry) sample_processor
     (\<lambda>_ _. ''t'') sample_spine = (b, st')" by fastforce
  have "length (selection (pr_batch_size sample_processor) sample_spine) = 1"
    using arg_cong [OF sample_selection, of length] by simp
  with process_once_settles_claims [OF sample_spine_ok run] show ?thesis unfolding run by simp
qed

lemma row_of_key: "k \<in> set (map fst t) \<Longrightarrow> \<exists>row. (k, row) \<in> set t"
  by auto

theorem active_pass_records_effects_witness:
  "map_of (sp_effects (snd (process_once sample_iso id (resolve_handler build_default_registry) sample_processor
     (\<lambda>_ _. ''t'') sample_spine))) (''e1'', ''correlation_links_registered'') \<noteq> None"
proof -
  obtain b st' where run: "process_once sample_iso id (resolve_handler build_default_registry) sample_processor
     (\<lambda>_ _. ''t'') sample_spine = (b, st')" by fastforce
  have "\<exists>row. (''e1'', row) \<in> set (selection (pr_batch_size sample_processor) sample_spine)"
    by (rule row_of_key) (unfold sample_selection, simp)
  then obtain row where row: "(''e1'', row) \<in> set (selection (pr_batch_size sample_processor) sample_spine)" ..
  have "list_all (\<lambda>(k, row). strip (rw_event_type row) = ''correlation_links_registered'')
      (selection (pr_batch_size sample_processor) sample_spine)" by code_simp
  with row have type: "strip (rw_event_type row) = ''correlation_links_registered''"
    unfolding list_all_iff by blast
  have "pr_mode sample_processor = ''active''" by code_simp
  from active_pass_records_effects [OF sample_spine_ok this run] row
  have "strip (rw_event_type row) \<in> set KNOWN_TYPES \<longrightarrow> map_of (sp_effects st') (''e1'', strip (rw_event_type row)) \<noteq> None"
    by blast
  then show ?thesis unfolding run type by (simp add: KNOWN_TYPES_def)
qed

theorem finished_events_stay_witness:
  "let st1 = snd (mark_terminal ''t'' ''e1'' ''processed'' ''p'' [] None ''processing''
       (snd (claim_batch sample_iso id 1 ''p'' sample_spine)));
       st2 = snd (claim_batch sample_iso id 5 ''q'' st1)
   in map_of (sp_events st2) ''e1'' = map_of (sp_events st1) ''e1''"
proof -
  let ?st0 = "snd (claim_batch sample_iso id 1 ''p'' sample_spine)"
  let ?st1 = "snd (mark_terminal ''t'' ''e1'' ''processed'' ''p'' [] None ''processing'' ?st0)"
  let ?st2 = "snd (claim_batch sample_iso id 5 ''q'' ?st1)"
  have steps: "(spine_step sample_iso id id)\<^sup>*\<^sup>* ?st1 ?st2" by (rule r_into_rtranclp) (rule spine_step.claim)
  have dist: "distinct (map fst (sp_events ?st1))" by code_simp
  have "map_option rw_processing_status (map_of (sp_events ?st1) ''e1'') = Some ''processed''" by code_simp
  then obtain row where row: "map_of (sp_events ?st1) ''e1'' = Some row" "rw_processing_status row = ''processed''"
    by auto
  then have "rw_processing_status row \<in> set [''processed'', ''skipped'']" by simp
  from finished_events_stay [OF steps dist row(1) this] row(1) show ?thesis unfolding Let_def by simp
qed

theorem inserted_event_reads_back_witness:
  "get_by_id sample_iso id ''e1'' (insert_pending id (sample_event ''e1'' ''x'' ''1'') empty_spine) =
     Inr (Some (sample_event ''e1'' ''x'' ''1''))"
proof -
  have "storable (sample_event ''e1'' ''x'' ''1'')" by (simp add: storable_def clean_def sample_event_def)
  moreover have "sample_iso (replace_z (id (ev_occurred_at (sample_event ''e1'' ''x'' ''1'')))) =
      Inr (ev_occurred_at (sample_event ''e1'' ''x'' ''1''))" by code_simp
  ultimately show ?thesis
    using inserted_event_reads_back [of "sample_event ''e1'' ''x'' ''1''" sample_iso id id empty_spine]
    by (simp add: sample_event_def)
qed

end
