(* ===== verification/Fact_Rows.thy ===== *)
theory Fact_Rows
  imports Mailbox_Store Cad
begin

text \<open>
  What a fact row is about (\<open>mailbox_memory/facts.py\<close>): the subject it belongs to, the identity of
  the proposition it states, whether it may supersede another, and the evidence it carries.

  A row is a dictionary.  \<open>digest\<close> is the hexadecimal SHA-1 of a text.  Iterating an
  \<open>evidence_refs\<close> that is not iterable raises \<open>TypeError\<close>: the result is then \<open>None\<close>.  The
  extraction of facts from text (regular expressions) is not modelled.
\<close>

subsection \<open>Text helpers\<close>

text \<open>\<open>s.split (sep, 1)\<close> and \<open>s.rsplit (sep, 1)\<close> on a one-character separator that occurs.\<close>

definition before_first :: "char \<Rightarrow> string \<Rightarrow> string" where
  "before_first c s = takeWhile (\<lambda>x. x \<noteq> c) s"

definition after_first :: "char \<Rightarrow> string \<Rightarrow> string" where
  "after_first c s = tl (dropWhile (\<lambda>x. x \<noteq> c) s)"

definition after_last :: "char \<Rightarrow> string \<Rightarrow> string" where
  "after_last c s = rev (takeWhile (\<lambda>x. x \<noteq> c) (rev s))"

definition infer_document_kind :: "string \<Rightarrow> string \<Rightarrow> string" where
  "infer_document_kind file_name mime_type =
     (let ext = (if CHR ''.'' \<in> set file_name then lower (after_last (CHR ''.'') file_name) else []);
          mime = lower mime_type
      in if ext = ''pdf'' \<or> contains mime ''pdf'' then ''pdf''
         else if ext \<in> set [''doc'', ''docx''] \<or> contains mime ''word'' then ''docx''
         else if ext \<in> set [''xls'', ''xlsx''] \<or> contains mime ''spreadsheet'' \<or> contains mime ''excel''
           then ''spreadsheet''
         else if ext \<in> set [''zip'', ''rar'', ''7z'', ''tar'', ''gz''] then ''archive''
         else if ext \<in> set [''jpg'', ''jpeg'', ''png'', ''gif'', ''bmp'', ''tiff''] \<or> starts_with mime ''image/''
           then ''image''
         else if ext \<in> set [''dwg'', ''dxf'', ''ifc''] \<or> contains mime ''drawing'' then ''cad_drawing''
         else if ext \<in> set [''eml'', ''msg''] \<or> contains mime ''email'' then ''email_file''
         else ''other'')"

definition is_real_email :: "string \<Rightarrow> bool" where
  "is_real_email email =
     (let e = lower (strip email) in
      if e = [] \<or> CHR ''@'' \<notin> set e then False
      else let local_part = before_first (CHR ''@'') e; domain = after_first (CHR ''@'') e
           in if length local_part < 2 \<or> CHR ''.'' \<notin> set domain then False
              else domain \<notin> set [''example.com'', ''test.com'', ''localhost''])"

definition build_fact ::
  "string \<Rightarrow> string \<Rightarrow> string \<Rightarrow> string \<Rightarrow> string \<Rightarrow> string \<Rightarrow> rat \<Rightarrow> string \<Rightarrow> pydict" where
  "build_fact scope fact_key value source_type source_ref message_id confidence observed_at =
     [(''scope'', PStr scope), (''fact_key'', PStr fact_key), (''normalized_value'', PStr (strip value)),
      (''source_type'', PStr source_type), (''source_ref'', PStr (strip source_ref)),
      (''message_id'', PStr (strip message_id)), (''confidence'', PFloat (max 0 (min 1 confidence))),
      (''observed_at'', PStr (strip observed_at))]"

definition guess_customer_name :: "string \<Rightarrow> string" where
  "guess_customer_name sender =
     (let name = strip sender in
      if name = [] \<or> CHR ''@'' \<notin> set name then []
      else strip (map (\<lambda>c. if c = CHR ''.'' \<or> c = CHR ''_'' then CHR '' '' else c)
             (before_first (CHR ''@'') name)))"

definition stable_fact_id :: "(string \<Rightarrow> string) \<Rightarrow> string \<Rightarrow> string list \<Rightarrow> string" where
  "stable_fact_id digest prefix parts =
     (let seed = join ''::'' (filter (\<lambda>s. s \<noteq> []) (map strip parts));
          seed = (if seed = [] then prefix else seed)
      in prefix @ ''_'' @ take 12 (digest seed))"

text \<open>\<open>json.dumps (v, sort_keys=True, ensure_ascii=False)\<close>.\<close>

fun json_dump :: "pyval \<Rightarrow> string" and json_items :: "pyval list \<Rightarrow> string list"
  and json_pairs :: "(string \<times> pyval) list \<Rightarrow> (string \<times> string) list" where
  "json_dump PNone = ''null''"
| "json_dump (PBool b) = (if b then ''true'' else ''false'')"
| "json_dump (PInt i) = int_str i"
| "json_dump (PFloat r) = float_str r"
| "json_dump (PStr s) = json_str s"
| "json_dump (PList xs) = ''['' @ join '', '' (json_items xs) @ '']''"
| "json_dump (PDict d) =
     ''{'' @ join '', '' (map (\<lambda>(k, t). json_str k @ '': '' @ t) (sort_key fst (json_pairs d))) @ ''}''"
| "json_items [] = []"
| "json_items (x # xs) = json_dump x # json_items xs"
| "json_pairs [] = []"
| "json_pairs ((k, v) # d) = (k, json_dump v) # json_pairs d"

definition evidence_key :: "pydict \<Rightarrow> string" where
  "evidence_key ref = json_dump (PDict ref)"

subsection \<open>Subjects\<close>

definition CASE_FACT_KEYS :: "string list" where
  "CASE_FACT_KEYS = [''agent_draft'', ''amount_total'', ''case_deadline'', ''case_label'', ''case_note'',
     ''deposit_invoice_number'', ''document_date'', ''due_date'', ''invoice_number'', ''issue_date'', ''nip'',
     ''offer_family'', ''order_number'', ''price'', ''probable_case_key'', ''reference_token'',
     ''service_frequency'', ''validity_date'', ''vendor'', ''warranty_term'']"

definition CUSTOMER_FACT_KEYS :: "string list" where
  "CUSTOMER_FACT_KEYS = [''customer_email'', ''customer_name'', ''customer_phone'']"

definition PROPERTY_FACT_KEYS :: "string list" where
  "PROPERTY_FACT_KEYS = [''address'', ''building_type'', ''city'', ''current_heating_source'',
     ''floor_heating_existing'', ''floor_heating_scope'', ''heated_area_m2'', ''installation_address'',
     ''postal_code'']"

definition DEVICE_FACT_KEYS :: "string list" where
  "DEVICE_FACT_KEYS = [''device_brand'', ''device_model'', ''error_code'', ''fault_code'', ''manufacturer'',
     ''power_kw'', ''product_model'', ''serial_number'']"

definition SERVICE_EVENT_FACT_KEYS :: "string list" where
  "SERVICE_EVENT_FACT_KEYS = [''preferred_service_date'', ''service_date'']"

definition SUBJECT_AWARE_FACT_KEYS :: "string list" where
  "SUBJECT_AWARE_FACT_KEYS = CASE_FACT_KEYS @ CUSTOMER_FACT_KEYS @ PROPERTY_FACT_KEYS @ DEVICE_FACT_KEYS
     @ SERVICE_EVENT_FACT_KEYS"

definition SUBJECT_PREFIX_TO_KIND :: "(string \<times> string) list" where
  "SUBJECT_PREFIX_TO_KIND = [(''case'', ''CASE''), (''customer'', ''CUSTOMER''), (''property'', ''PROPERTY''),
     (''device'', ''DEVICE''), (''service'', ''SERVICE_EVENT''), (''service_event'', ''SERVICE_EVENT'')]"

record subject_ref =
  sr_kind :: string
  sr_id :: string
  sr_resolution :: string
  sr_evidence_basis :: string

definition to_metadata :: "subject_ref \<Rightarrow> pydict" where
  "to_metadata ref =
     [(''kind'', PStr (strip (sr_kind ref))), (''id'', PStr (strip (sr_id ref))),
      (''resolution'', PStr (strip (sr_resolution ref)))] @
     (if strip (sr_evidence_basis ref) \<noteq> []
      then [(''evidence_basis'', PStr (strip (sr_evidence_basis ref)))] else [])"

definition is_subject_aware_fact_key :: "string \<Rightarrow> bool" where
  "is_subject_aware_fact_key fact_key \<longleftrightarrow> strip fact_key \<in> set SUBJECT_AWARE_FACT_KEYS"

definition fact_subject_kind :: "string \<Rightarrow> string" where
  "fact_subject_kind fact_key =
     (let key = strip fact_key in
      if key \<in> set CASE_FACT_KEYS then ''CASE''
      else if key \<in> set CUSTOMER_FACT_KEYS then ''CUSTOMER''
      else if key \<in> set PROPERTY_FACT_KEYS then ''PROPERTY''
      else if key \<in> set DEVICE_FACT_KEYS then ''DEVICE''
      else if key \<in> set SERVICE_EVENT_FACT_KEYS then ''SERVICE_EVENT''
      else [])"

definition subject_meta :: "pydict \<Rightarrow> pydict" where
  "subject_meta payload = as_dict (dget ''metadata'' payload)"

definition normalize_subject_kind :: "pyval \<Rightarrow> string" where
  "normalize_subject_kind value =
     (let key = upper (norm_of value) in
      if key \<in> set [''CASE'', ''CUSTOMER'', ''PROPERTY'', ''DEVICE'', ''SERVICE_EVENT''] then key else [])"

definition subject_kind_from_identity :: "string \<Rightarrow> string" where
  "subject_kind_from_identity subject_identity =
     (case map_of SUBJECT_PREFIX_TO_KIND (lower (before_first (CHR '':'') (strip subject_identity))) of
        Some kind \<Rightarrow> kind | None \<Rightarrow> [])"

text \<open>\<open>a or b or ... or ""\<close>.\<close>

definition or_chain :: "pyval list \<Rightarrow> pyval" where
  "or_chain vs = foldr py_or vs (PStr [])"

definition stored_subject_ref :: "pydict \<Rightarrow> subject_ref option" where
  "stored_subject_ref payload =
     (let meta = subject_meta payload;
          meta_ref = as_dict (dget ''subject_ref'' meta);
          subject_identity = norm_of (or_chain
            [dget ''id'' meta_ref, dget ''subject_id'' meta_ref, dget ''subject_identity'' payload,
             dget ''proposition_subject_id'' payload, dget ''subject_identity'' meta,
             dget ''proposition_subject_id'' meta])
      in if subject_identity = [] then None
         else let subject_kind = normalize_subject_kind (or_chain
                    [dget ''kind'' meta_ref, dget ''subject_kind'' payload, dget ''subject_kind'' meta,
                     PStr (subject_kind_from_identity subject_identity),
                     PStr (fact_subject_kind (text_of (dget ''fact_key'' payload)))])
              in if subject_kind = [] then None
                 else let res = upper (norm_of (or_chain
                            [dget ''resolution'' meta_ref, dget ''subject_resolution'' payload,
                             dget ''subject_resolution'' meta, PStr ''EXPLICIT'']));
                          resolution = (if res \<in> set [''EXPLICIT'', ''SINGLE_SUBJECT_DEFAULT'', ''AMBIGUOUS'']
                                        then res else ''EXPLICIT'');
                          evidence_basis = norm_of (or_chain
                            [dget ''evidence_basis'' meta_ref, dget ''subject_evidence_basis'' payload,
                             dget ''subject_evidence_basis'' meta])
                      in Some \<lparr>sr_kind = subject_kind, sr_id = subject_identity,
                               sr_resolution = resolution, sr_evidence_basis = evidence_basis\<rparr>)"

definition ambiguous_subject_ref :: "(string \<Rightarrow> string) \<Rightarrow> string \<Rightarrow> pydict \<Rightarrow> subject_ref option" where
  "ambiguous_subject_ref digest subject_kind payload =
     (let case_id = keycol ''case_id'' payload; fact_key = keycol ''fact_key'' payload in
      if case_id = [] \<or> fact_key = [] then None
      else let document_id = keycol ''document_id'' payload; message_id = keycol ''message_id'' payload;
               source_ref = keycol ''source_ref'' payload; fact_id = keycol ''fact_id'' payload;
               evidence_basis =
                 (if document_id \<noteq> [] then ''document:'' @ document_id
                  else if message_id \<noteq> [] then ''message:'' @ message_id
                  else if source_ref \<noteq> [] then ''source:'' @ source_ref
                  else if fact_id \<noteq> [] then ''fact:'' @ fact_id
                  else stable_fact_id digest ''ambiguous'' [case_id, fact_key, keycol ''normalized_value'' payload]);
               bucket = stable_fact_id digest ''subject'' [case_id, lower subject_kind, evidence_basis]
           in Some \<lparr>sr_kind = subject_kind,
                    sr_id = ''case:'' @ case_id @ '':ambiguous_'' @ lower subject_kind @ '':'' @ bucket,
                    sr_resolution = ''AMBIGUOUS'', sr_evidence_basis = evidence_basis\<rparr>)"

definition single_subject_candidate :: "pydict list \<Rightarrow> string \<Rightarrow> string" where
  "single_subject_candidate case_facts subject_kind =
     (case remdups (concat (map (\<lambda>item. case stored_subject_ref item of
              None \<Rightarrow> []
            | Some ref \<Rightarrow> if sr_kind ref \<noteq> subject_kind \<or> sr_resolution ref = ''AMBIGUOUS'' then []
                          else if strip (sr_id ref) \<noteq> [] then [strip (sr_id ref)] else []) case_facts)) of
        [candidate] \<Rightarrow> candidate
      | _ \<Rightarrow> [])"

definition fact_subject_ref :: "(string \<Rightarrow> string) \<Rightarrow> pydict list \<Rightarrow> pydict \<Rightarrow> subject_ref option" where
  "fact_subject_ref digest case_facts payload =
     (let stored = stored_subject_ref payload in
      if (case stored of Some ref \<Rightarrow> sr_resolution ref = ''EXPLICIT'' | None \<Rightarrow> False) then stored
      else let fact_key = keycol ''fact_key'' payload;
               subject_kind = (case stored of Some ref \<Rightarrow> sr_kind ref | None \<Rightarrow> fact_subject_kind fact_key);
               case_id = keycol ''case_id'' payload
           in if subject_kind = [] then None
              else if subject_kind = ''CASE'' \<and> case_id \<noteq> []
              then Some \<lparr>sr_kind = ''CASE'', sr_id = ''case:'' @ case_id, sr_resolution = ''EXPLICIT'',
                         sr_evidence_basis = ''case_id''\<rparr>
              else if subject_kind = ''CUSTOMER'' \<and> case_id \<noteq> []
              then Some \<lparr>sr_kind = ''CUSTOMER'', sr_id = ''case:'' @ case_id @ '':primary_customer'',
                         sr_resolution = ''SINGLE_SUBJECT_DEFAULT'', sr_evidence_basis = ''case_primary_customer''\<rparr>
              else if subject_kind = ''PROPERTY'' \<and> case_id \<noteq> []
              then Some \<lparr>sr_kind = ''PROPERTY'', sr_id = ''case:'' @ case_id @ '':primary_property'',
                         sr_resolution = ''SINGLE_SUBJECT_DEFAULT'', sr_evidence_basis = ''case_primary_property''\<rparr>
              else if subject_kind \<in> set [''DEVICE'', ''SERVICE_EVENT'']
              then let candidate = single_subject_candidate case_facts subject_kind
                   in if candidate \<noteq> []
                      then Some \<lparr>sr_kind = subject_kind, sr_id = candidate,
                                 sr_resolution = ''SINGLE_SUBJECT_DEFAULT'',
                                 sr_evidence_basis = ''single_'' @ lower subject_kind @ ''_candidate''\<rparr>
                      else ambiguous_subject_ref digest subject_kind payload
              else None)"

definition subject_supersession_allowed :: "pydict \<Rightarrow> bool" where
  "subject_supersession_allowed payload =
     (let meta = subject_meta payload in
      if dget ''allow_subject_supersession'' meta = PBool True then True
      else if lower (norm_of (dget ''supersession_mode'' meta))
                \<in> set [''subject_local_explicit'', ''explicit_correction''] then True
      else upper (norm_of (dget ''source_origin'' meta)) \<in> set [''OPERATOR'', ''INTERNAL_STATE'', ''SYSTEM'']
           \<or> lower (keycol ''source_type'' payload) = ''agent_write'')"

definition attach_subject_metadata :: "(string \<Rightarrow> string) \<Rightarrow> pydict list \<Rightarrow> pydict \<Rightarrow> pydict" where
  "attach_subject_metadata digest case_facts payload =
     (let meta = subject_meta payload in
      case fact_subject_ref digest case_facts (AList.update ''metadata'' (PDict meta) payload) of
        None \<Rightarrow> AList.update ''metadata'' (PDict meta) payload
      | Some ref \<Rightarrow>
          (let m1 = AList.update ''subject_ref'' (PDict (to_metadata ref)) meta;
               m2 = AList.update ''subject_kind'' (PStr (sr_kind ref)) m1;
               m3 = AList.update ''subject_identity'' (PStr (sr_id ref)) m2;
               m4 = AList.update ''subject_resolution'' (PStr (sr_resolution ref)) m3;
               m5 = (if sr_evidence_basis ref \<noteq> []
                     then AList.update ''subject_evidence_basis'' (PStr (sr_evidence_basis ref)) m4
                     else AList.delete ''subject_evidence_basis'' m4)
           in AList.update ''metadata'' (PDict m5) payload))"

definition fact_subject_identity :: "(string \<Rightarrow> string) \<Rightarrow> pydict list \<Rightarrow> pydict \<Rightarrow> string" where
  "fact_subject_identity digest case_facts payload =
     (case fact_subject_ref digest case_facts payload of Some ref \<Rightarrow> strip (sr_id ref) | None \<Rightarrow> [])"

text \<open>The identity of the proposition a row states: \<open>(kind, id, fact_key)\<close> or \<open>(scope, fact_key)\<close>.\<close>

definition proposition_identity :: "(string \<Rightarrow> string) \<Rightarrow> pydict list \<Rightarrow> pydict \<Rightarrow> string list" where
  "proposition_identity digest case_facts payload =
     (let scope = str_or (strip (py_str (py_or (dget ''entity_scope'' payload) (PStr ''case'')))) ''case'';
          fact_key = keycol ''fact_key'' payload;
          plain = [scope, fact_key]
      in if is_subject_aware_fact_key fact_key
         then case fact_subject_ref digest case_facts payload of
                Some ref \<Rightarrow> if strip (sr_id ref) \<noteq> [] then [sr_kind ref, sr_id ref, fact_key] else plain
              | None \<Rightarrow> plain
         else plain)"

subsection \<open>Evidence\<close>

definition nonblank_col :: "string \<Rightarrow> pydict \<Rightarrow> pydict" where
  "nonblank_col k row = (if keycol k row \<noteq> [] then [(k, PStr (keycol k row))] else [])"

definition own_evidence :: "pydict \<Rightarrow> pydict list" where
  "own_evidence meta = (case dget ''evidence_ref'' meta of PDict ref \<Rightarrow> [ref] | _ \<Rightarrow> [])"

definition row_evidence_refs :: "pydict \<Rightarrow> pydict list option" where
  "row_evidence_refs payload =
     (let meta = subject_meta payload in
      case iter_dicts (dget ''evidence_refs'' meta) of
        None \<Rightarrow> None
      | Some items \<Rightarrow>
          (let implied = concat (map (\<lambda>k. nonblank_col k payload)
                   [''source_type'', ''source_ref'', ''message_id'', ''document_id'']) @
                 concat (map (\<lambda>k. nonblank_col k meta)
                   [''source_origin'', ''evidence_authority'', ''instruction_authority''])
           in Some (own_evidence meta @ items @ (if implied \<noteq> [] then [implied] else []))))"

definition merge_fact_evidence :: "pyval \<Rightarrow> pydict \<Rightarrow> nat \<Rightarrow> pydict option" where
  "merge_fact_evidence metadata payload cap =
     (let meta = as_dict metadata in
      case iter_dicts (dget ''evidence_refs'' meta) of
        None \<Rightarrow> None
      | Some items \<Rightarrow>
          (let existing = dedup_key evidence_key [] (own_evidence meta @ items) in
           case row_evidence_refs payload of
             None \<Rightarrow> None
           | Some incoming \<Rightarrow>
               (let merged = existing @ dedup_key evidence_key (map evidence_key existing) incoming;
                    merged = (if cap < length merged then take cap merged else merged)
                in Some (case merged of
                     [] \<Rightarrow> AList.delete ''evidence_ref'' (AList.delete ''evidence_refs'' meta)
                   | first # _ \<Rightarrow> AList.update ''evidence_ref'' (PDict first)
                       (AList.update ''evidence_refs'' (PList (map PDict merged)) meta)))))"

subsection \<open>Lemmas on rows\<close>

text \<open>All a row's identity depends on.\<close>

definition id_view :: "pydict \<Rightarrow> pyval list" where
  "id_view p =
     map (\<lambda>k. dget k p) [''entity_scope'', ''fact_key'', ''case_id'', ''document_id'', ''message_id'',
       ''source_ref'', ''fact_id'', ''normalized_value'', ''subject_identity'', ''proposition_subject_id'',
       ''subject_kind'', ''subject_resolution'', ''subject_evidence_basis''] @
     map (\<lambda>k. dget k (subject_meta p)) [''subject_ref'', ''subject_identity'', ''proposition_subject_id'',
       ''subject_kind'', ''subject_resolution'', ''subject_evidence_basis'']"

lemma id_view_stored: "id_view p = id_view q \<Longrightarrow> stored_subject_ref p = stored_subject_ref q"
  unfolding id_view_def stored_subject_ref_def Let_def by simp

lemma id_view_ambiguous:
  "id_view p = id_view q \<Longrightarrow> ambiguous_subject_ref digest kind p = ambiguous_subject_ref digest kind q"
  unfolding id_view_def ambiguous_subject_ref_def Let_def by simp

lemma id_view_key: "id_view p = id_view q \<Longrightarrow> k \<in> {''entity_scope'', ''fact_key'', ''case_id'', ''normalized_value'', ''message_id'', ''fact_id''} \<Longrightarrow> dget k p = dget k q"
  unfolding id_view_def by (elim insertE emptyE) simp_all

lemma id_view_ref:
  assumes "id_view p = id_view q"
  shows "fact_subject_ref digest cf p = fact_subject_ref digest cf q"
proof -
  have k: "dget ''fact_key'' p = dget ''fact_key'' q" "dget ''case_id'' p = dget ''case_id'' q"
    using assms by (auto simp: id_view_def)
  show ?thesis
    unfolding fact_subject_ref_def id_view_stored [OF assms] id_view_ambiguous [OF assms] k ..
qed

lemma id_view_identity:
  assumes "id_view p = id_view q"
  shows "proposition_identity digest cf p = proposition_identity digest cf q"
proof -
  have k: "dget ''fact_key'' p = dget ''fact_key'' q" "dget ''entity_scope'' p = dget ''entity_scope'' q"
    using assms by (auto simp: id_view_def)
  show ?thesis unfolding proposition_identity_def id_view_ref [OF assms] k ..
qed

lemma subject_meta_update [simp]:
  "subject_meta (AList.update ''metadata'' (PDict m) p) = m"
  "k \<noteq> ''metadata'' \<Longrightarrow> subject_meta (AList.update k v p) = subject_meta p"
  by (simp_all add: subject_meta_def)

lemma dget_delete [simp]: "dget k (AList.delete k' d) = (if k = k' then PNone else dget k d)"
  by (simp add: dget_def delete_conv')

lemma merge_fact_evidence_other:
  assumes "merge_fact_evidence v p cap = Some m" and "k \<noteq> ''evidence_ref''" and "k \<noteq> ''evidence_refs''"
  shows "dget k m = dget k (as_dict v)"
  using assms by (auto simp: merge_fact_evidence_def Let_def split: option.splits list.splits if_splits)

lemma id_view_merged:
  assumes "merge_fact_evidence (dget ''metadata'' q) p cap = Some m"
  shows "id_view (AList.update ''metadata'' (PDict m) q) = id_view q"
  using merge_fact_evidence_other [OF assms] by (simp add: id_view_def subject_meta_def [of q])

lemma attach_meta [simp]: "is_dict (dget ''metadata'' (attach_subject_metadata digest cf p))"
  by (simp add: attach_subject_metadata_def Let_def split: option.split)

lemma attach_other: "k \<noteq> ''metadata'' \<Longrightarrow> dget k (attach_subject_metadata digest cf p) = dget k p"
  by (simp add: attach_subject_metadata_def Let_def split: option.split)

lemma update_same: "map_of d k = Some v \<Longrightarrow> AList.update k v d = d"
  by (induction d) auto

lemma dget_Some: "dget k d = v \<Longrightarrow> v \<noteq> PNone \<Longrightarrow> map_of d k = Some v"
  by (auto simp: dget_def split: option.splits)

lemma dict_rows_map [simp]: "dict_rows (map PDict ds) = ds"
  by (induction ds) auto

lemma dedup_key_distinct: "distinct (map f xs) \<Longrightarrow> f ` set xs \<inter> set seen = {} \<Longrightarrow> dedup_key f seen xs = xs"
  by (induction f seen xs rule: dedup_key.induct) auto

definition merged_refs :: "pydict list \<Rightarrow> pydict list \<Rightarrow> nat \<Rightarrow> pydict list" where
  "merged_refs refs incoming cap =
     take cap (dedup_key evidence_key [] refs @
       dedup_key evidence_key (map evidence_key (dedup_key evidence_key [] refs)) incoming)"

definition put_refs :: "pydict list \<Rightarrow> pydict \<Rightarrow> pydict" where
  "put_refs refs meta = (case refs of
     [] \<Rightarrow> AList.delete ''evidence_ref'' (AList.delete ''evidence_refs'' meta)
   | first # _ \<Rightarrow> AList.update ''evidence_ref'' (PDict first) (AList.update ''evidence_refs'' (PList (map PDict refs)) meta))"

lemma merge_fact_evidence_alt:
  "merge_fact_evidence v p cap =
     (case (iter_dicts (dget ''evidence_refs'' (as_dict v)), row_evidence_refs p) of
        (Some items, Some incoming) \<Rightarrow>
          Some (put_refs (merged_refs (own_evidence (as_dict v) @ items) incoming cap) (as_dict v))
      | _ \<Rightarrow> None)"
proof -
  have tk: "(if cap < length xs then take cap xs else xs) = take cap xs" for xs :: "pydict list" by simp
  show ?thesis
    unfolding merge_fact_evidence_def merged_refs_def put_refs_def Let_def tk
    by (simp split: option.splits)
qed

lemma merged_refs_distinct: "distinct (map evidence_key (merged_refs refs incoming cap))"
proof -
  have "distinct (map evidence_key (dedup_key evidence_key [] refs @
     dedup_key evidence_key (map evidence_key (dedup_key evidence_key [] refs)) incoming))"
    by (simp add: distinct_dedup_key dedup_key_keys)
  then show ?thesis unfolding merged_refs_def by (simp only: take_map [symmetric] distinct_take)
qed

lemma merged_refs_again:
  assumes "m = merged_refs refs incoming cap"
  shows "merged_refs (take (Suc 0) m @ m) incoming cap = m"
proof -
  have d: "distinct (map evidence_key m)" unfolding assms by (rule merged_refs_distinct)
  have ex: "dedup_key evidence_key [] (take (Suc 0) m @ m) = m"
    using d by (cases m) (auto simp: dedup_key_distinct)
  let ?a = "dedup_key evidence_key [] refs"
  let ?n = "dedup_key evidence_key (map evidence_key ?a) incoming"
  show ?thesis
  proof (cases "length (?a @ ?n) \<le> cap")
    case True
    then have m: "m = ?a @ ?n" by (simp add: assms merged_refs_def)
    have "dedup_key evidence_key (map evidence_key m) incoming = []"
      unfolding dedup_key_eq_Nil m by (auto simp: dedup_key_keys)
    with True m show ?thesis unfolding merged_refs_def ex by simp
  next
    case False
    then have "length m = cap" by (simp add: assms merged_refs_def)
    then show ?thesis unfolding merged_refs_def ex by simp
  qed
qed

lemma put_refs_reads:
  "iter_dicts (dget ''evidence_refs'' (put_refs m meta)) = Some m"
  "own_evidence (put_refs m meta) = take (Suc 0) m"
  by (cases m; simp add: put_refs_def own_evidence_def)+

lemma put_refs_again: "put_refs m (put_refs m meta) = put_refs m meta"
proof (cases m)
  case Nil
  then show ?thesis by (simp add: put_refs_def delete_twist [of "''evidence_ref''"] delete_idem)
next
  case (Cons first rest)
  have "map_of (put_refs m meta) ''evidence_refs'' = Some (PList (map PDict m))"
    "map_of (put_refs m meta) ''evidence_ref'' = Some (PDict first)"
    by (simp_all add: put_refs_def Cons update_conv')
  then show ?thesis unfolding put_refs_def [of m "put_refs m meta"] by (simp add: Cons update_same)
qed

lemma merge_fact_evidence_idem:
  assumes "merge_fact_evidence v p cap = Some m"
  shows "merge_fact_evidence (PDict m) p cap = Some m"
proof -
  obtain items incoming where i: "iter_dicts (dget ''evidence_refs'' (as_dict v)) = Some items"
      "row_evidence_refs p = Some incoming"
    and m: "m = put_refs (merged_refs (own_evidence (as_dict v) @ items) incoming cap) (as_dict v)"
    using assms by (auto simp: merge_fact_evidence_alt split: option.splits)
  show ?thesis
    unfolding merge_fact_evidence_alt by (simp add: i(2) m put_refs_reads merged_refs_again [OF refl] put_refs_again)
qed

end
