(* ===== verification/Fact_Memory.thy ===== *)
theory Fact_Memory
  imports Fact_Rows
begin

text \<open>
  The fact table of the mailbox store (\<open>mailbox_memory/inmemory.py\<close>): appending rows with
  supersession, replacing the snapshot of a message, moving the facts of a case, reconciling the
  live rows of a case, and the reads.  The theorems on replacing and reconciling are in
  \<open>Fact_Upkeep\<close>.

  The table is a dictionary of buckets, each a list of rows.  Every row the operations store went
  through \<open>attach_subject_metadata\<close>, so its metadata is a dictionary (an invariant of every
  reachable table, \<open>Fact_Upkeep.fact_table_ok\<close>); \<open>dict (item.get ("metadata") or {})\<close> is modelled
  on such rows.  An exception is \<open>None\<close>, with the table as the operation left it.
\<close>

subsection \<open>The fact table\<close>

type_synonym facts = "(string \<times> pydict list) list"

text \<open>\<open>str (item.get ("status") or "active")\<close>.\<close>

definition status_of :: "pydict \<Rightarrow> string" where
  "status_of item = py_str (py_or (dget ''status'' item) (PStr ''active''))"

text \<open>\<open>{**item, "status": "superseded", "metadata": meta}\<close> with the marks of the supersession.\<close>

definition superseded_row :: "pyval \<Rightarrow> string \<Rightarrow> (string \<times> pyval) list \<Rightarrow> pydict \<Rightarrow> pydict" where
  "superseded_row superseded_at by_fact_id reason item =
     (let m1 = AList.update ''superseded_at'' superseded_at (subject_meta item);
          m2 = AList.update ''superseded_by_fact_id'' (PStr by_fact_id) m1;
          m3 = foldl (\<lambda>m (k, v). AList.update k v m) m2 reason
      in AList.update ''metadata'' (PDict m3) (AList.update ''status'' (PStr ''superseded'') item))"

text \<open>\<open>groups.setdefault (key (x), []).append (x)\<close> over a list: groups in order of first occurrence.\<close>

definition groups_of :: "('a \<Rightarrow> 'k) \<Rightarrow> 'a list \<Rightarrow> ('k \<times> 'a list) list" where
  "groups_of f xs = foldl (\<lambda>g x. AList.update (f x) ((case map_of g (f x) of Some ys \<Rightarrow> ys | None \<Rightarrow> []) @ [x]) g) [] xs"

definition append_to_bucket :: "string \<Rightarrow> pydict \<Rightarrow> facts \<Rightarrow> facts" where
  "append_to_bucket bucket_key row fs = AList.update bucket_key (lookup_rows bucket_key fs @ [row]) fs"

subsubsection \<open>Appending\<close>

record append_stats =
  st_inserted :: nat
  st_superseded :: nat
  st_unchanged :: nat

definition add_stats :: "append_stats \<Rightarrow> append_stats \<Rightarrow> append_stats" where
  "add_stats a b = \<lparr>st_inserted = st_inserted a + st_inserted b, st_superseded = st_superseded a + st_superseded b,
     st_unchanged = st_unchanged a + st_unchanged b\<rparr>"

definition no_stats :: append_stats where
  "no_stats = \<lparr>st_inserted = 0, st_superseded = 0, st_unchanged = 0\<rparr>"

text \<open>The active rows of the same proposition in the same case.\<close>

definition same_active :: "(string \<Rightarrow> string) \<Rightarrow> string \<Rightarrow> string list \<Rightarrow> pydict \<Rightarrow> bool" where
  "same_active digest case_id identity item \<longleftrightarrow>
     col ''case_id'' item = case_id \<and> proposition_identity digest [] item = identity \<and>
     status_of item = ''active''"

definition keeps_conflict :: "(string \<Rightarrow> string) \<Rightarrow> pydict \<Rightarrow> bool" where
  "keeps_conflict digest payload \<longleftrightarrow>
     (case fact_subject_ref digest [] payload of
        None \<Rightarrow> False
      | Some ref \<Rightarrow> sr_kind ref \<noteq> ''CASE'' \<and> \<not> subject_supersession_allowed payload)"

text \<open>What one stored row becomes when a payload is appended, and what it adds to the statistics.\<close>

definition append_item :: "(string \<Rightarrow> string) \<Rightarrow> pydict \<Rightarrow> pydict \<Rightarrow> (pydict \<times> append_stats) option" where
  "append_item digest payload item =
     (if same_active digest (keycol ''case_id'' payload) (proposition_identity digest [] payload) item
      then if keycol ''normalized_value'' item = keycol ''normalized_value'' payload
           then case merge_fact_evidence (dget ''metadata'' item) payload 16 of
                  None \<Rightarrow> None
                | Some merged_meta \<Rightarrow>
                    Some (if merged_meta \<noteq> subject_meta item then AList.update ''metadata'' (PDict merged_meta) item
                          else item, no_stats\<lparr>st_unchanged := 1\<rparr>)
           else if keeps_conflict digest payload then Some (item, no_stats)
           else Some (superseded_row (dget ''observed_at'' payload) (col ''fact_id'' payload) [] item,
                      no_stats\<lparr>st_superseded := 1\<rparr>)
      else Some (item, no_stats))"

fun append_items :: "(string \<Rightarrow> string) \<Rightarrow> pydict \<Rightarrow> pydict list \<Rightarrow> (pydict list \<times> append_stats) option" where
  "append_items digest payload [] = Some ([], no_stats)"
| "append_items digest payload (item # items) =
     (case append_item digest payload item of
        None \<Rightarrow> None
      | Some (item', s) \<Rightarrow>
          (case append_items digest payload items of
             None \<Rightarrow> None
           | Some (items', s') \<Rightarrow> Some (item' # items', add_stats s s')))"

text \<open>A bucket is written when all of its rows are processed; an exception leaves the rest as it was.\<close>

fun append_buckets :: "(string \<Rightarrow> string) \<Rightarrow> pydict \<Rightarrow> facts \<Rightarrow> append_stats option \<times> facts" where
  "append_buckets digest payload [] = (Some no_stats, [])"
| "append_buckets digest payload ((k, items) # fs) =
     (case append_items digest payload items of
        None \<Rightarrow> (None, (k, items) # fs)
      | Some (items', s) \<Rightarrow>
          (case append_buckets digest payload fs of
             (r, fs') \<Rightarrow> (map_option (add_stats s) r, (k, items') # fs')))"

definition append_bucket_key :: "string \<Rightarrow> pydict \<Rightarrow> string" where
  "append_bucket_key case_id payload = ''append::'' @ case_id @ '':'' @ col ''source_ref'' payload"

definition append_payload :: "(string \<Rightarrow> string) \<Rightarrow> pydict \<Rightarrow> facts \<Rightarrow> append_stats option \<times> facts" where
  "append_payload digest row fs =
     (let payload = attach_subject_metadata digest [] row; case_id = keycol ''case_id'' payload in
      if case_id = [] \<or> keycol ''fact_key'' payload = [] then (Some no_stats, fs)
      else case append_buckets digest payload fs of
             (None, fs') \<Rightarrow> (None, fs')
           | (Some s, fs') \<Rightarrow>
               if st_unchanged s > 0 then (Some s, fs')
               else (Some (s\<lparr>st_inserted := 1\<rparr>), append_to_bucket (append_bucket_key case_id payload) payload fs'))"

fun append_facts_with_supersession ::
  "(string \<Rightarrow> string) \<Rightarrow> pydict list \<Rightarrow> facts \<Rightarrow> append_stats option \<times> facts" where
  "append_facts_with_supersession digest [] fs = (Some no_stats, fs)"
| "append_facts_with_supersession digest (row # rows) fs =
     (case append_payload digest row fs of
        (None, fs') \<Rightarrow> (None, fs')
      | (Some s, fs') \<Rightarrow>
          (case append_facts_with_supersession digest rows fs' of
             (r, fs'') \<Rightarrow> (map_option (add_stats s) r, fs'')))"

definition append_fact_rows ::
  "(string \<Rightarrow> string) \<Rightarrow> pydict list \<Rightarrow> mailbox_store \<Rightarrow> append_stats option \<times> mailbox_store" where
  "append_fact_rows digest rows st =
     (case append_facts_with_supersession digest rows (m_facts st) of
        (r, fs) \<Rightarrow> (r, st\<lparr>m_facts := fs\<rparr>))"

subsubsection \<open>Replacing the snapshot of a message\<close>

definition is_structured :: "pydict \<Rightarrow> bool" where
  "is_structured item \<longleftrightarrow> col ''source_type'' item = ''structured_document_parse''"

text \<open>\<open>self.facts[k] = kept\<close> if anything is kept, else \<open>self.facts.pop (k)\<close>.\<close>

fun retire_message :: "string \<Rightarrow> facts \<Rightarrow> facts" where
  "retire_message mid [] = []"
| "retire_message mid ((k, items) # fs) =
     (let kept = filter (\<lambda>item. \<not> (col ''message_id'' item = mid \<and> \<not> is_structured item)) items
      in if kept \<noteq> [] then (k, kept) # retire_message mid fs else retire_message mid fs)"

definition retire_bucket :: "string \<Rightarrow> facts \<Rightarrow> facts" where
  "retire_bucket mid fs =
     (case map_of fs mid of
        None \<Rightarrow> fs
      | Some items \<Rightarrow>
          (let kept_mid = filter is_structured items
           in if kept_mid \<noteq> [] then AList.update mid kept_mid fs else AList.delete mid fs))"

definition replaced_payloads :: "(string \<Rightarrow> string) \<Rightarrow> pydict list \<Rightarrow> pydict list" where
  "replaced_payloads digest rows =
     filter (\<lambda>p. keycol ''case_id'' p \<noteq> [] \<and> keycol ''fact_key'' p \<noteq> [])
       (map (\<lambda>row. setdefault ''status'' (PStr ''active'') (attach_subject_metadata digest [] row)) rows)"

definition supersede_other_messages ::
  "(string \<Rightarrow> string) \<Rightarrow> string \<Rightarrow> string list \<Rightarrow> pydict list \<Rightarrow> pydict \<Rightarrow> pydict" where
  "supersede_other_messages digest mid identity group_rows item =
     (let first = hd group_rows; values = remdups (map (keycol ''normalized_value'') group_rows) in
      if same_active digest (keycol ''case_id'' first) identity item \<and> col ''message_id'' item \<noteq> mid \<and>
         (length values \<noteq> 1 \<or> keycol ''normalized_value'' item \<notin> set values)
      then superseded_row (dget ''observed_at'' first) (col ''fact_id'' first)
             [(''supersede_reason'', PStr ''replace_message_facts'')] item
      else item)"

definition already_stored :: "(string \<Rightarrow> string) \<Rightarrow> string \<Rightarrow> string \<Rightarrow> string list \<Rightarrow> pydict \<Rightarrow> facts \<Rightarrow> bool" where
  "already_stored digest mid case_id identity payload fs \<longleftrightarrow>
     list_ex (\<lambda>(k, items). list_ex (\<lambda>item. same_active digest case_id identity item \<and>
       keycol ''normalized_value'' item = keycol ''normalized_value'' payload \<and>
       col ''message_id'' item = mid \<and> col ''fact_id'' item = col ''fact_id'' payload) items) fs"

definition insert_replaced :: "(string \<Rightarrow> string) \<Rightarrow> string \<Rightarrow> string \<Rightarrow> string list \<Rightarrow> facts \<Rightarrow> pydict \<Rightarrow> facts" where
  "insert_replaced digest mid case_id identity fs payload =
     (if already_stored digest mid case_id identity payload fs then fs
      else append_to_bucket (if mid \<noteq> [] then mid else append_bucket_key case_id payload) payload fs)"

definition apply_group :: "(string \<Rightarrow> string) \<Rightarrow> string \<Rightarrow> facts \<Rightarrow> string list \<times> pydict list \<Rightarrow> facts" where
  "apply_group digest mid fs grp =
     (case grp of (identity, group_rows) \<Rightarrow>
       foldl (insert_replaced digest mid (keycol ''case_id'' (hd group_rows)) identity)
         (map (\<lambda>(k, items). (k, map (supersede_other_messages digest mid identity group_rows) items)) fs)
         group_rows)"

definition apply_replaced_message_fact_rows ::
  "(string \<Rightarrow> string) \<Rightarrow> string \<Rightarrow> pydict list \<Rightarrow> facts \<Rightarrow> facts" where
  "apply_replaced_message_fact_rows digest message_id rows fs =
     foldl (apply_group digest (strip message_id)) fs
       (groups_of (proposition_identity digest []) (replaced_payloads digest rows))"

text \<open>No step raises on rows with dictionary metadata, so the snapshot is never restored.\<close>

definition replace_message_facts ::
  "(string \<Rightarrow> string) \<Rightarrow> string \<Rightarrow> pydict list \<Rightarrow> mailbox_store \<Rightarrow> mailbox_store" where
  "replace_message_facts digest message_id rows st =
     (let mid = strip message_id; fs = retire_bucket mid (retire_message mid (m_facts st))
      in st\<lparr>m_facts := if rows \<noteq> [] then apply_replaced_message_fact_rows digest mid rows fs else fs\<rparr>)"

subsubsection \<open>Reconciling and moving\<close>

text \<open>The rows with their positions, in the order of the table.\<close>

definition fact_positions :: "facts \<Rightarrow> (string \<times> nat \<times> pydict) list" where
  "fact_positions fs = concat (map (\<lambda>(k, items). map (\<lambda>(i, item). (k, i, item)) (enumerate 0 items)) fs)"

definition live_row :: "string \<Rightarrow> pydict \<Rightarrow> bool" where
  "live_row cid item \<longleftrightarrow>
     col ''case_id'' item = cid \<and> status_of item \<noteq> ''superseded'' \<and> keycol ''fact_key'' item \<noteq> []"

definition live_entries :: "string \<Rightarrow> facts \<Rightarrow> (string \<times> nat \<times> pydict) list" where
  "live_entries cid fs = filter (\<lambda>(k, i, item). live_row cid item) (fact_positions fs)"

definition entry_row :: "string \<times> nat \<times> pydict \<Rightarrow> pydict" where
  "entry_row e = snd (snd e)"

definition newest_first :: "(string \<times> nat \<times> pydict) list \<Rightarrow> (string \<times> nat \<times> pydict) list" where
  "newest_first entries = sort_desc (\<lambda>e. col ''observed_at'' (entry_row e)) entries"

definition set_row :: "string \<Rightarrow> nat \<Rightarrow> pydict \<Rightarrow> facts \<Rightarrow> facts" where
  "set_row k i row fs = AList.update k ((lookup_rows k fs)[i := row]) fs"

definition reconcile_group :: "nat \<times> facts \<Rightarrow> (string \<times> nat \<times> pydict) list \<Rightarrow> nat \<times> facts" where
  "reconcile_group nfs entries =
     (if length entries < 2 then nfs
      else let ranked = newest_first entries; winner = entry_row (hd ranked)
           in foldl (\<lambda>(n, fs) (k, i, item).
                (n + 1, set_row k i (superseded_row (dget ''observed_at'' winner) (col ''fact_id'' winner)
                   [(''supersede_reason'', PStr ''reconcile_active_fact_identities'')] item) fs))
              nfs (tl ranked))"

definition reconcile_facts :: "(string \<Rightarrow> string) \<Rightarrow> string \<Rightarrow> facts \<Rightarrow> nat \<times> facts" where
  "reconcile_facts digest case_id fs =
     (let cid = strip case_id in
      if cid = [] then (0, fs)
      else foldl reconcile_group (0, fs)
             (map snd (groups_of (\<lambda>e. proposition_identity digest [] (entry_row e)) (live_entries cid fs))))"

definition reconcile_active_fact_identities ::
  "(string \<Rightarrow> string) \<Rightarrow> string \<Rightarrow> mailbox_store \<Rightarrow> nat \<times> mailbox_store" where
  "reconcile_active_fact_identities digest case_id st =
     (case reconcile_facts digest case_id (m_facts st) of (n, fs) \<Rightarrow> (n, st\<lparr>m_facts := fs\<rparr>))"

definition reassign_case_facts ::
  "(string \<Rightarrow> string) \<Rightarrow> string \<Rightarrow> string \<Rightarrow> mailbox_store \<Rightarrow> (nat \<times> nat) \<times> mailbox_store" where
  "reassign_case_facts digest source_case_id target_case_id st =
     (let source = strip source_case_id; target = strip target_case_id in
      if source = [] \<or> target = [] \<or> source = target then ((0, 0), st)
      else let moved = length (filter (\<lambda>row. col ''case_id'' row = source) (concat (map snd (m_facts st))));
               fs = map (\<lambda>(k, items). (k, map (\<lambda>row. if col ''case_id'' row = source
                        then AList.update ''case_id'' (PStr target) row else row) items)) (m_facts st)
           in case reconcile_active_fact_identities digest target (st\<lparr>m_facts := fs\<rparr>) of
                (reconciled, st') \<Rightarrow> ((moved, reconciled), st'))"

subsubsection \<open>Reading\<close>

text \<open>
  \<open>float (item.get ("confidence") or 0.0)\<close> as a sort key.  A NaN, which compares with nothing, is
  placed last.
\<close>

definition confidence_of :: "pydict \<Rightarrow> pyfloat option" where
  "confidence_of item = py_float (py_or (dget ''confidence'' item) (PFloat 0))"

fun desc_key :: "pyfloat \<Rightarrow> nat \<times> rat" where
  "desc_key PosInf = (0, 0)"
| "desc_key (Fin r) = (1, - r)"
| "desc_key NegInf = (2, 0)"
| "desc_key NaN = (3, 0)"

definition sort_by_confidence :: "(pydict \<Rightarrow> string list) \<Rightarrow> pydict list \<Rightarrow> pydict list option" where
  "sort_by_confidence f rows =
     (if list_all (\<lambda>row. confidence_of row \<noteq> None) rows
      then Some (sort_key (\<lambda>row. (f row, desc_key (the (confidence_of row)))) rows) else None)"

definition fetch_facts_for_case :: "string \<Rightarrow> mailbox_store \<Rightarrow> pydict list option" where
  "fetch_facts_for_case case_id st =
     sort_by_confidence (\<lambda>row. [col ''fact_key'' row])
       (filter (\<lambda>row. col ''case_id'' row = case_id) (concat (map snd (m_facts st))))"

definition fetch_active_facts_for_case :: "string \<Rightarrow> mailbox_store \<Rightarrow> pydict list option" where
  "fetch_active_facts_for_case case_id st =
     map_option (filter (\<lambda>row. status_of row \<noteq> ''superseded'')) (fetch_facts_for_case case_id st)"

definition fetch_drive_facts_for_case :: "string \<Rightarrow> mailbox_store \<Rightarrow> pydict list option" where
  "fetch_drive_facts_for_case case_id st =
     sort_by_confidence (\<lambda>row. [col ''fact_family'' row, col ''fact_key'' row])
       (filter (\<lambda>row. col ''case_id'' row = case_id) (concat (map snd (m_drive_facts st))))"

definition fetch_drive_facts_for_document :: "string \<Rightarrow> mailbox_store \<Rightarrow> pydict list option" where
  "fetch_drive_facts_for_document document_id st =
     sort_by_confidence (\<lambda>row. [col ''fact_family'' row, col ''fact_key'' row])
       (lookup_rows document_id (m_drive_facts st))"

definition fact_overlap :: "string list \<Rightarrow> string \<Rightarrow> mailbox_store \<Rightarrow> nat" where
  "fact_overlap keys case_id st =
     length (filter (\<lambda>k. k \<in> set keys) (remdups (filter (\<lambda>k. k \<noteq> []) (map (keycol ''fact_key'')
       (filter (\<lambda>f. status_of f \<noteq> ''superseded'') (lookup_rows case_id (m_facts st)))))))"

definition fetch_resolved_cases_by_family_and_fact_keys ::
  "string \<Rightarrow> string list \<Rightarrow> string \<Rightarrow> int \<Rightarrow> mailbox_store \<Rightarrow> pydict list" where
  "fetch_resolved_cases_by_family_and_fact_keys case_family fact_keys exclude_case_id limit st =
     (let family = strip case_family; keys = filter (\<lambda>k. k \<noteq> []) (map strip fact_keys);
          exclude = strip exclude_case_id;
          found = filter (\<lambda>(case_id, row). fact_overlap keys case_id st > 0)
            (filter (\<lambda>(case_id, row). case_id \<noteq> exclude \<and> col ''status'' row = ''resolved'' \<and>
               col ''case_family'' row = family) (m_cases st));
          scored = map (\<lambda>(case_id, row). (fact_overlap keys case_id st,
            AList.update ''overlap_count'' (PInt (int (fact_overlap keys case_id st))) row)) found
      in if family = [] \<or> keys = [] then []
         else map snd (slice_to (max 1 (if limit = 0 then 5 else limit)) (sort_desc fst scored)))"

subsection \<open>Lemmas on the table\<close>

lemma id_view_superseded [simp]: "id_view (superseded_row t f [] p) = id_view p"
  "id_view (superseded_row t f [(''supersede_reason'', r)] p) = id_view p"
  by (simp_all add: id_view_def superseded_row_def)

lemma status_superseded [simp]: "status_of (superseded_row t f r p) = ''superseded''"
  by (simp add: status_of_def superseded_row_def Let_def py_or_def)

lemma superseded_row_other:
  "k \<noteq> ''status'' \<Longrightarrow> k \<noteq> ''metadata'' \<Longrightarrow> dget k (superseded_row t f r p) = dget k p"
  by (simp add: superseded_row_def Let_def)

lemma superseded_row_meta [simp]: "is_dict (dget ''metadata'' (superseded_row t f r p))"
  by (simp add: superseded_row_def Let_def)

definition fact_rows :: "facts \<Rightarrow> pydict list" where
  "fact_rows fs = concat (map snd fs)"

definition map_rows :: "(pydict \<Rightarrow> pydict) \<Rightarrow> facts \<Rightarrow> facts" where
  "map_rows f fs = map (\<lambda>(k, items). (k, map f items)) fs"

lemma fact_rows_simps [simp]:
  "fact_rows [] = []" "fact_rows ((k, items) # fs) = items @ fact_rows fs"
  "fact_rows (map_rows f fs) = map f (fact_rows fs)"
  by (simp_all add: fact_rows_def map_rows_def case_prod_unfold map_concat comp_def)

lemma map_rows_simps [simp]:
  "map_rows f [] = []" "map_rows f ((k, items) # fs) = (k, map f items) # map_rows f fs"
  "map fst (map_rows f fs) = map fst fs"
  by (simp_all add: map_rows_def case_prod_unfold comp_def)

lemma lookup_rows_map_rows: "lookup_rows k (map_rows f fs) = map f (lookup_rows k fs)"
  by (induction fs) (auto simp: lookup_rows_def)

lemma map_rows_comp: "map_rows f (map_rows g fs) = map_rows (f \<circ> g) fs"
  by (simp add: map_rows_def case_prod_unfold comp_def)

lemma map_rows_cong: "(\<And>r. r \<in> set (fact_rows fs) \<Longrightarrow> f r = g r) \<Longrightarrow> map_rows f fs = map_rows g fs"
  unfolding map_rows_def fact_rows_def by (intro map_cong refl) force

lemma map_rows_id: "(\<And>r. r \<in> set (fact_rows fs) \<Longrightarrow> f r = r) \<Longrightarrow> map_rows f fs = fs"
  by (induction fs) (auto simp: map_rows_def intro: map_idI)

lemma set_append_to_bucket [simp]: "set (fact_rows (append_to_bucket k p fs)) = insert p (set (fact_rows fs))"
proof -
  have "set (fact_rows (AList.update k (items @ [p]) fs)) = insert p (set (fact_rows fs))"
    if "items = lookup_rows k fs" for items
    using that by (induction fs) (auto simp: lookup_rows_def)
  then show ?thesis by (simp add: append_to_bucket_def)
qed

lemma lookup_append_to_bucket:
  "lookup_rows k' (append_to_bucket k p fs) = (if k' = k then lookup_rows k fs @ [p] else lookup_rows k' fs)"
  by (simp add: append_to_bucket_def lookup_rows_def update_conv')

lemma length_append_to_bucket [simp]: "length (fact_rows (append_to_bucket k p fs)) = Suc (length (fact_rows fs))"
proof -
  have "length (fact_rows (AList.update k (items @ [p]) fs)) = Suc (length (fact_rows fs))"
    if "items = lookup_rows k fs" for items
    using that by (induction fs) (auto simp: lookup_rows_def)
  then show ?thesis by (simp add: append_to_bucket_def)
qed

definition says :: "(string \<Rightarrow> string) \<Rightarrow> pydict \<Rightarrow> pydict \<Rightarrow> bool" where
  "says digest p item \<longleftrightarrow>
     same_active digest (keycol ''case_id'' p) (proposition_identity digest [] p) item \<and>
     keycol ''normalized_value'' item = keycol ''normalized_value'' p"

definition contradicts :: "(string \<Rightarrow> string) \<Rightarrow> pydict \<Rightarrow> pydict \<Rightarrow> bool" where
  "contradicts digest p item \<longleftrightarrow>
     same_active digest (keycol ''case_id'' p) (proposition_identity digest [] p) item \<and>
     keycol ''normalized_value'' item \<noteq> keycol ''normalized_value'' p"

definition upd_row :: "(string \<Rightarrow> string) \<Rightarrow> pydict \<Rightarrow> pydict \<Rightarrow> pydict" where
  "upd_row digest p item = fst (the (append_item digest p item))"

definition count_stats :: "(string \<Rightarrow> string) \<Rightarrow> pydict \<Rightarrow> pydict list \<Rightarrow> append_stats" where
  "count_stats digest p items = \<lparr>st_inserted = 0,
     st_superseded = (if keeps_conflict digest p then 0 else length (filter (contradicts digest p) items)),
     st_unchanged = length (filter (says digest p) items)\<rparr>"

lemma append_item_count: "append_item digest p item = Some (item', s) \<Longrightarrow> s = count_stats digest p [item]"
  by (auto simp: append_item_def count_stats_def says_def contradicts_def no_stats_def split: if_splits option.splits)

lemma count_stats_Cons: "add_stats (count_stats digest p [x]) (count_stats digest p xs) = count_stats digest p (x # xs)"
  by (simp add: add_stats_def count_stats_def)

lemma count_stats_append:
  "add_stats (count_stats digest p xs) (count_stats digest p ys) = count_stats digest p (xs @ ys)"
  by (simp add: add_stats_def count_stats_def)

lemma append_items_eq:
  "append_items digest p items = (if list_all (\<lambda>item. append_item digest p item \<noteq> None) items
     then Some (map (upd_row digest p) items, count_stats digest p items) else None)"
proof (induction items)
  case Nil
  show ?case by (simp add: count_stats_def no_stats_def)
next
  case (Cons item items)
  show ?case
  proof (cases "append_item digest p item")
    case (Some a)
    obtain item' s where a: "a = (item', s)" by (cases a)
    have "s = count_stats digest p [item]" using append_item_count Some a by blast
    then show ?thesis using Cons Some a by (simp add: upd_row_def count_stats_Cons)
  qed simp
qed

lemma append_buckets_ok:
  "list_all (\<lambda>item. append_item digest p item \<noteq> None) (fact_rows fs) \<Longrightarrow>
     append_buckets digest p fs = (Some (count_stats digest p (fact_rows fs)), map_rows (upd_row digest p) fs)"
proof (induction fs)
  case Nil
  show ?case by (simp add: count_stats_def no_stats_def)
next
  case (Cons b fs)
  obtain k items where b: "b = (k, items)" by (cases b)
  from Cons b show ?case by (simp add: append_items_eq count_stats_append del: not_None_eq)
qed

lemma append_buckets_raises:
  "\<not> list_all (\<lambda>item. append_item digest p item \<noteq> None) (fact_rows fs) \<Longrightarrow>
     fst (append_buckets digest p fs) = None"
proof (induction fs)
  case (Cons b fs)
  obtain k items where b: "b = (k, items)" by (cases b)
  from Cons b show ?case by (auto simp: append_items_eq case_prod_unfold simp del: not_None_eq)
qed simp

lemma append_buckets_Some:
  "append_buckets digest p fs = (Some s, fs') \<Longrightarrow>
     list_all (\<lambda>item. append_item digest p item \<noteq> None) (fact_rows fs) \<and>
     fs' = map_rows (upd_row digest p) fs \<and> s = count_stats digest p (fact_rows fs)"
  using append_buckets_ok [of digest p fs] append_buckets_raises [of digest p fs] by fastforce

text \<open>What appending one row does when it returns.\<close>

lemma append_payload_Some:
  assumes "append_payload digest row fs = (Some s, fs')" and p: "p = attach_subject_metadata digest [] row"
    and "keycol ''case_id'' row \<noteq> []" and "keycol ''fact_key'' row \<noteq> []"
  shows "list_all (\<lambda>item. append_item digest p item \<noteq> None) (fact_rows fs)"
    and "if list_ex (says digest p) (fact_rows fs)
         then s = count_stats digest p (fact_rows fs) \<and> fs' = map_rows (upd_row digest p) fs
         else s = (count_stats digest p (fact_rows fs))\<lparr>st_inserted := 1\<rparr> \<and>
              fs' = append_to_bucket (append_bucket_key (keycol ''case_id'' row) p) p (map_rows (upd_row digest p) fs)"
proof -
  have kc: "keycol ''case_id'' p = keycol ''case_id'' row" "keycol ''fact_key'' p = keycol ''fact_key'' row"
    by (simp_all add: p attach_other)
  have un: "st_unchanged (count_stats digest p xs) > 0 \<longleftrightarrow> list_ex (says digest p) xs" for xs
    by (simp add: count_stats_def filter_empty_conv list_ex_iff)
  obtain r fs1 where r: "append_buckets digest p fs = (r, fs1)" by fastforce
  have "r \<noteq> None" using assms(1,3,4) r by (cases r) (auto simp: append_payload_def Let_def kc p [symmetric])
  then obtain s1 where r1: "r = Some s1" by blast
  note b = append_buckets_Some [OF r [unfolded r1]]
  show "list_all (\<lambda>item. append_item digest p item \<noteq> None) (fact_rows fs)" using b by simp
  show "if list_ex (says digest p) (fact_rows fs)
         then s = count_stats digest p (fact_rows fs) \<and> fs' = map_rows (upd_row digest p) fs
         else s = (count_stats digest p (fact_rows fs))\<lparr>st_inserted := 1\<rparr> \<and>
              fs' = append_to_bucket (append_bucket_key (keycol ''case_id'' row) p) p (map_rows (upd_row digest p) fs)"
    using assms(1,3,4) r r1 b by (auto simp: append_payload_def Let_def kc p [symmetric] un split: if_splits)
qed


lemma says_same: "says digest p item \<Longrightarrow> same_active digest (keycol ''case_id'' p) (proposition_identity digest [] p) item"
  by (simp add: says_def)

lemma same_active_cases: "same_active digest (keycol ''case_id'' p) (proposition_identity digest [] p) item \<longleftrightarrow>
    says digest p item \<or> contradicts digest p item"
  by (auto simp: says_def contradicts_def)

lemma upd_row_says:
  assumes "says digest p item" and "append_item digest p item \<noteq> None"
  obtains m where "merge_fact_evidence (dget ''metadata'' item) p 16 = Some m"
    and "upd_row digest p item =
      (if m \<noteq> subject_meta item then AList.update ''metadata'' (PDict m) item else item)"
  using assms by (auto simp: says_def append_item_def upd_row_def split: option.splits if_splits)

lemma upd_row_contradicts:
  "contradicts digest p item \<Longrightarrow> upd_row digest p item = (if keeps_conflict digest p then item
     else superseded_row (dget ''observed_at'' p) (col ''fact_id'' p) [] item)"
  by (auto simp: contradicts_def append_item_def upd_row_def)

lemma upd_row_other:
  "\<not> says digest p item \<Longrightarrow> \<not> contradicts digest p item \<Longrightarrow> upd_row digest p item = item"
  by (auto simp: says_def contradicts_def append_item_def upd_row_def)

text \<open>A row keeps everything but its metadata and its status, and only an active row is superseded.\<close>

definition row_core :: "pydict \<Rightarrow> pydict" where
  "row_core item = AList.delete ''metadata'' (AList.delete ''status'' item)"

definition row_kept :: "pydict \<Rightarrow> pydict \<Rightarrow> bool" where
  "row_kept old new \<longleftrightarrow>
     row_core new = row_core old \<and> id_view new = id_view old \<and>
     (status_of new = status_of old \<or> (status_of old = ''active'' \<and> status_of new = ''superseded''))"

lemma delete_update_other:
  "k \<noteq> k' \<Longrightarrow> AList.delete k (AList.update k' v d) = AList.update k' v (AList.delete k d)"
  by (induction d) auto

lemma row_core_updates [simp]:
  "row_core (AList.update ''metadata'' v item) = row_core item"
  "row_core (AList.update ''status'' v item) = row_core item"
  by (simp_all add: row_core_def delete_update_same delete_update_other)

lemma row_core_superseded [simp]: "row_core (superseded_row t f r item) = row_core item"
  by (simp add: superseded_row_def Let_def)

lemma row_kept_refl [simp]: "row_kept r r"
  by (simp add: row_kept_def)

lemma row_kept_trans: "row_kept a b \<Longrightarrow> row_kept b c \<Longrightarrow> row_kept a c"
  by (auto simp: row_kept_def)

lemma status_metadata [simp]: "status_of (AList.update ''metadata'' v item) = status_of item"
  by (simp add: status_of_def)

lemma upd_row_kept:
  assumes "append_item digest p item \<noteq> None"
  shows "row_kept item (upd_row digest p item)"
proof -
  consider "says digest p item" | "contradicts digest p item" | "\<not> says digest p item" "\<not> contradicts digest p item"
    by blast
  then show ?thesis
  proof cases
    case 1
    from 1 assms obtain m where m: "merge_fact_evidence (dget ''metadata'' item) p 16 = Some m"
      "upd_row digest p item = (if m \<noteq> subject_meta item then AList.update ''metadata'' (PDict m) item else item)"
      by (rule upd_row_says)
    then show ?thesis by (simp add: row_kept_def id_view_merged)
  next
    case 2
    then have "status_of item = ''active''" by (simp add: contradicts_def same_active_def)
    then show ?thesis by (simp add: row_kept_def upd_row_contradicts [OF 2])
  next
    case 3
    then show ?thesis by (simp add: upd_row_other)
  qed
qed

lemma row_kept_identity:
  assumes "row_kept a b"
  shows "proposition_identity digest cf b = proposition_identity digest cf a"
    and "dget ''case_id'' b = dget ''case_id'' a" and "dget ''normalized_value'' b = dget ''normalized_value'' a"
    and "dget ''message_id'' b = dget ''message_id'' a" and "dget ''fact_id'' b = dget ''fact_id'' a"
proof -
  have v: "id_view b = id_view a" using assms by (simp add: row_kept_def)
  show "proposition_identity digest cf b = proposition_identity digest cf a" by (rule id_view_identity [OF v])
  show "dget ''case_id'' b = dget ''case_id'' a" "dget ''normalized_value'' b = dget ''normalized_value'' a"
    "dget ''message_id'' b = dget ''message_id'' a" "dget ''fact_id'' b = dget ''fact_id'' a"
    by (rule id_view_key [OF v]; simp)+
qed

lemma upd_row_active:
  assumes "append_item digest p item \<noteq> None" and "\<not> keeps_conflict digest p"
  shows "says digest p (upd_row digest p item) \<longleftrightarrow> says digest p item"
    and "\<not> contradicts digest p (upd_row digest p item)"
proof -
  note k = row_kept_identity [OF upd_row_kept [OF assms(1)]]
  consider "says digest p item" | "contradicts digest p item" | "\<not> says digest p item" "\<not> contradicts digest p item"
    by blast
  then have "(says digest p (upd_row digest p item) \<longleftrightarrow> says digest p item) \<and> \<not> contradicts digest p (upd_row digest p item)"
  proof cases
    case 1
    from 1 assms(1) obtain m where "upd_row digest p item =
        (if m \<noteq> subject_meta item then AList.update ''metadata'' (PDict m) item else item)"
      by (rule upd_row_says)
    then have "status_of (upd_row digest p item) = status_of item" by simp
    with 1 show ?thesis by (simp add: says_def contradicts_def same_active_def k)
  next
    case 2
    have "status_of (upd_row digest p item) = ''superseded''" using assms(2) by (simp add: upd_row_contradicts [OF 2])
    with 2 show ?thesis by (simp add: says_def contradicts_def same_active_def)
  next
    case 3
    then show ?thesis by (simp add: upd_row_other)
  qed
  then show "says digest p (upd_row digest p item) \<longleftrightarrow> says digest p item"
    "\<not> contradicts digest p (upd_row digest p item)" by blast+
qed

lemma add_no_stats [simp]: "add_stats s no_stats = s" "add_stats no_stats s = s"
  by (simp_all add: add_stats_def no_stats_def)

lemma append_one:
  "append_facts_with_supersession digest [row] fs = append_payload digest row fs"
  by (simp split: prod.splits option.splits)

lemma upd_row_says_iff:
  assumes "append_item digest p item \<noteq> None"
  shows "says digest p (upd_row digest p item) \<longleftrightarrow> says digest p item"
proof (cases "keeps_conflict digest p \<and> contradicts digest p item")
  case True
  then show ?thesis by (simp add: upd_row_contradicts)
next
  case False
  show ?thesis
  proof (cases "keeps_conflict digest p")
    case True
    with False have nc: "\<not> contradicts digest p item" by simp
    show ?thesis
    proof (cases "says digest p item")
      case True
      then obtain m where u: "upd_row digest p item =
          (if m \<noteq> subject_meta item then AList.update ''metadata'' (PDict m) item else item)"
        using assms by (rule upd_row_says)
      have "status_of (upd_row digest p item) = status_of item" by (simp add: u)
      with True show ?thesis
        by (simp add: says_def same_active_def row_kept_identity [OF upd_row_kept [OF assms]])
    qed (simp add: upd_row_other nc)
  qed (rule upd_row_active(1) [OF assms])
qed

lemma append_item_again:
  assumes "append_item digest p item \<noteq> None"
  shows "append_item digest p (upd_row digest p item) \<noteq> None"
    and "upd_row digest p (upd_row digest p item) = upd_row digest p item"
proof -
  let ?u = "upd_row digest p item"
  consider "says digest p item" | "\<not> says digest p item" "contradicts digest p item" "keeps_conflict digest p"
    | "\<not> says digest p item" "\<not> contradicts digest p ?u"
    using upd_row_active(2) [OF assms] upd_row_other [of digest p item] by metis
  then have "append_item digest p ?u \<noteq> None \<and> upd_row digest p ?u = ?u"
  proof cases
    case 1
    then obtain m where m: "merge_fact_evidence (dget ''metadata'' item) p 16 = Some m"
      and u: "?u = (if m \<noteq> subject_meta item then AList.update ''metadata'' (PDict m) item else item)"
      using assms by (rule upd_row_says)
    show ?thesis
    proof (cases "m = subject_meta item")
      case True
      with u assms show ?thesis by simp
    next
      case False
      have s: "says digest p ?u" using 1 upd_row_says_iff [OF assms] by simp
      have "merge_fact_evidence (dget ''metadata'' ?u) p 16 = Some m"
        using u False merge_fact_evidence_idem [OF m] by simp
      moreover have "subject_meta ?u = m" using u False by simp
      ultimately have "append_item digest p ?u = Some (?u, no_stats\<lparr>st_unchanged := 1\<rparr>)"
        using s by (simp add: append_item_def says_def)
      then show ?thesis by (simp add: upd_row_def [of digest p "upd_row digest p item"])
    qed
  next
    case 2
    then show ?thesis using assms by (simp add: upd_row_contradicts)
  next
    case 3
    then have "\<not> says digest p ?u" using upd_row_says_iff [OF assms] by simp
    with 3(2) have "\<not> same_active digest (keycol ''case_id'' p) (proposition_identity digest [] p) ?u"
      by (simp add: same_active_cases)
    then have "append_item digest p ?u = Some (?u, no_stats)" by (simp add: append_item_def)
    then show ?thesis by (simp add: upd_row_def [of digest p "upd_row digest p item"])
  qed
  then show "append_item digest p ?u \<noteq> None" "upd_row digest p ?u = ?u" by blast+
qed

text \<open>The rows an append of one payload looks at and the ones it leaves.\<close>

lemma appended_rows:
  assumes "append_payload digest row fs = (Some s, fs')" and p: "p = attach_subject_metadata digest [] row"
    and "keycol ''case_id'' row \<noteq> []" and "keycol ''fact_key'' row \<noteq> []"
  shows "set (fact_rows fs') = upd_row digest p ` set (fact_rows fs) \<union>
      (if list_ex (says digest p) (fact_rows fs) then {} else {p})"
    and "\<And>item. item \<in> set (fact_rows fs) \<Longrightarrow> append_item digest p item \<noteq> None"
    and "st_superseded s = st_superseded (count_stats digest p (fact_rows fs))"
proof -
  note a = append_payload_Some [OF assms(1) p assms(3,4)]
  show "set (fact_rows fs') = upd_row digest p ` set (fact_rows fs) \<union>
      (if list_ex (says digest p) (fact_rows fs) then {} else {p})"
    using a(2) by (auto split: if_splits)
  show "st_superseded s = st_superseded (count_stats digest p (fact_rows fs))"
    using a(2) by (auto split: if_splits)
  show "append_item digest p item \<noteq> None" if "item \<in> set (fact_rows fs)" for item
    using a(1) that by (simp add: list_all_iff del: not_None_eq)
qed

lemma payload_says:
  assumes "p = attach_subject_metadata digest [] row" and "col ''case_id'' row = keycol ''case_id'' row"
    and "status_of p = ''active''"
  shows "says digest p p"
proof -
  have "dget ''case_id'' p = dget ''case_id'' row" by (simp add: assms(1) attach_other)
  then show ?thesis using assms by (simp add: says_def same_active_def)
qed

text \<open>
  Property C22.  The newest value of a proposition wins: after an append of an active row that may supersede (a
  case fact, or a source that is allowed to correct), an active row of the proposition says the new
  value and none says another.
\<close>

theorem appended_value_wins:
  assumes "append_facts_with_supersession digest [row] fs = (Some s, fs')"
    and p: "p = attach_subject_metadata digest [] row"
    and "keycol ''case_id'' row \<noteq> []" and "keycol ''fact_key'' row \<noteq> []"
    and "col ''case_id'' row = keycol ''case_id'' row" and "status_of p = ''active''"
    and nk: "\<not> keeps_conflict digest p"
  shows "list_ex (says digest p) (fact_rows fs') \<and> \<not> list_ex (contradicts digest p) (fact_rows fs')"
proof -
  note r = appended_rows [OF assms(1) [unfolded append_one] p assms(3,4)]
  have pp: "says digest p p" by (rule payload_says [OF p assms(5,6)])
  have "\<exists>item\<in>set (fact_rows fs'). says digest p item"
  proof (cases "list_ex (says digest p) (fact_rows fs)")
    case True
    then obtain item where i: "item \<in> set (fact_rows fs)" "says digest p item" by (auto simp: list_ex_iff)
    then have "says digest p (upd_row digest p item)" using upd_row_says_iff [OF r(2)] by blast
    with i(1) show ?thesis using r(1) by auto
  next
    case False
    with pp show ?thesis using r(1) by auto
  qed
  moreover have "\<not> contradicts digest p item" if "item \<in> set (fact_rows fs')" for item
  proof (cases "item = p")
    case True
    with pp show ?thesis by (simp add: says_def contradicts_def)
  next
    case False
    with that r(1) obtain old where "old \<in> set (fact_rows fs)" "item = upd_row digest p old"
      by (auto split: if_splits)
    then show ?thesis using upd_row_active(2) [OF r(2) nk] by blast
  qed
  ultimately show ?thesis by (auto simp: list_ex_iff)
qed

text \<open>
  Property C23.  A source that is not allowed to correct supersedes nothing: when the row is about a customer,
  a property, a device or a service event and comes from an ordinary source, every stored row keeps
  its content and its status, and a conflicting value is stored beside the old one.
\<close>

theorem weak_source_supersedes_nothing:
  assumes "append_facts_with_supersession digest [row] fs = (Some s, fs')"
    and p: "p = attach_subject_metadata digest [] row"
    and "keycol ''case_id'' row \<noteq> []" and "keycol ''fact_key'' row \<noteq> []"
    and k: "keeps_conflict digest p"
  shows "st_superseded s = 0 \<and>
    list_all (\<lambda>old. list_ex (\<lambda>new. row_core new = row_core old \<and> status_of new = status_of old) (fact_rows fs'))
      (fact_rows fs)"
proof -
  note r = appended_rows [OF assms(1) [unfolded append_one] p assms(3,4)]
  have "row_core (upd_row digest p old) = row_core old \<and> status_of (upd_row digest p old) = status_of old"
    if "old \<in> set (fact_rows fs)" for old
  proof -
    note ai = r(2) [OF that]
    consider "says digest p old" | "contradicts digest p old" | "\<not> says digest p old" "\<not> contradicts digest p old"
      by blast
    then show ?thesis
    proof cases
      case 1
      then obtain m where "upd_row digest p old =
          (if m \<noteq> subject_meta old then AList.update ''metadata'' (PDict m) old else old)"
        using ai by (rule upd_row_says)
      then show ?thesis by simp
    qed (simp_all add: upd_row_contradicts k upd_row_other)
  qed
  moreover have "st_superseded s = 0" using r(3) k by (simp add: count_stats_def)
  ultimately show ?thesis using r(1) by (force simp: list_all_iff list_ex_iff)
qed

text \<open>
  Property C24.  Retrying an append is harmless: appending the same active row a second time inserts and supersedes
  nothing, and from then on the table does not change at all (its evidence has been merged).
\<close>

theorem append_retry_settles:
  assumes first: "append_facts_with_supersession digest [row] fs = (Some s, fs1)"
    and second: "append_facts_with_supersession digest [row] fs1 = (Some s2, fs2)"
    and p: "p = attach_subject_metadata digest [] row"
    and ne: "keycol ''case_id'' row \<noteq> []" "keycol ''fact_key'' row \<noteq> []"
    and cid: "col ''case_id'' row = keycol ''case_id'' row" and act: "status_of p = ''active''"
  shows "st_inserted s2 = 0 \<and> st_superseded s2 = 0 \<and>
    append_facts_with_supersession digest [row] fs2 = (Some s2, fs2)"
proof -
  note r1 = appended_rows [OF first [unfolded append_one] p ne]
  note r2 = appended_rows [OF second [unfolded append_one] p ne]
  have pp: "says digest p p" by (rule payload_says [OF p cid act])
  have ex1: "list_ex (says digest p) (fact_rows fs1)"
  proof (cases "list_ex (says digest p) (fact_rows fs)")
    case True
    then obtain item where "item \<in> set (fact_rows fs)" "says digest p item" by (auto simp: list_ex_iff)
    with r1(1) upd_row_says_iff [OF r1(2)] show ?thesis by (auto simp: list_ex_iff)
  next
    case False
    with pp show ?thesis using r1(1) by (auto simp: list_ex_iff)
  qed
  have nc1: "keeps_conflict digest p \<or> \<not> contradicts digest p item" if "item \<in> set (fact_rows fs1)" for item
    using that r1(1) upd_row_active(2) [OF r1(2)] pp by (auto simp: says_def contradicts_def split: if_splits)
  have s2: "s2 = count_stats digest p (fact_rows fs1)" and fs2: "fs2 = map_rows (upd_row digest p) fs1"
    using append_payload_Some(2) [OF second [unfolded append_one] p ne] ex1 by simp_all
  have sup: "st_superseded s2 = 0" using nc1 by (auto simp: s2 count_stats_def filter_empty_conv)
  have ok: "list_all (\<lambda>item. append_item digest p item \<noteq> None) (fact_rows fs2)"
    using append_item_again(1) [OF r2(2)] by (auto simp: fs2 list_all_iff simp del: not_None_eq)
  have fix2: "map_rows (upd_row digest p) fs2 = fs2"
    by (rule map_rows_id) (use append_item_again(2) [OF r2(2)] in \<open>auto simp: fs2\<close>)
  have same: "count_stats digest p (fact_rows fs2) = s2"
  proof -
    have "filter (says digest p) (fact_rows fs2) = map (upd_row digest p) (filter (says digest p) (fact_rows fs1))"
      unfolding fs2 fact_rows_simps filter_map comp_def
      by (rule arg_cong [where f = "map _"], rule filter_cong [OF refl]) (rule upd_row_says_iff [OF r2(2)])
    moreover have "keeps_conflict digest p \<or> filter (contradicts digest p) (fact_rows fs2) = []"
      using upd_row_active(2) [OF r2(2)] by (auto simp: fs2 filter_empty_conv)
    ultimately show ?thesis using sup by (auto simp: s2 count_stats_def)
  qed
  have kp: "keycol ''case_id'' p \<noteq> []" "keycol ''fact_key'' p \<noteq> []" using ne by (simp_all add: p attach_other)
  have "st_unchanged s2 > 0" using ex1 by (simp add: s2 count_stats_def filter_empty_conv list_ex_iff)
  then have "append_payload digest row fs2 = (Some s2, fs2)"
    using append_buckets_ok [OF ok] kp by (simp add: append_payload_def p [symmetric] fix2 same)
  then show ?thesis unfolding append_one using sup by (simp add: s2 count_stats_def)
qed

lemma lookup_rows_Cons: "lookup_rows k ((k', items) # fs) = (if k = k' then items else lookup_rows k fs)"
  by (simp add: lookup_rows_def)

definition table_kept :: "facts \<Rightarrow> facts \<Rightarrow> bool" where
  "table_kept fs fs' \<longleftrightarrow> (\<forall>k.
     list_all2 (row_kept) (lookup_rows k fs) (take (length (lookup_rows k fs)) (lookup_rows k fs')))"

lemma row_kept_all_refl [simp]: "list_all2 (row_kept) xs xs"
  by (simp add: list.rel_refl)

lemma table_kept_refl [simp]: "table_kept fs fs"
  by (simp add: table_kept_def)

lemma table_kept_trans:
  assumes "table_kept fs fs1" and "table_kept fs1 fs2"
  shows "table_kept fs fs2"
  unfolding table_kept_def
proof
  fix k
  let ?x = "lookup_rows k fs" and ?y = "lookup_rows k fs1" and ?z = "lookup_rows k fs2"
  have a: "list_all2 (row_kept) ?x (take (length ?x) ?y)"
    and b: "list_all2 (row_kept) ?y (take (length ?y) ?z)"
    using assms by (simp_all add: table_kept_def)
  have le: "length ?x \<le> length ?y" using list_all2_lengthD [OF a] by simp
  have "list_all2 (row_kept) (take (length ?x) ?y) (take (length ?x) (take (length ?y) ?z))"
    using b by (rule list_all2_takeI)
  then have c: "list_all2 (row_kept) (take (length ?x) ?y) (take (length ?x) ?z)"
    using le by (simp add: min_def)
  show "list_all2 (row_kept) ?x (take (length ?x) ?z)"
    by (rule list_all2_trans [OF row_kept_trans a c])
qed

lemma append_items_kept:
  "append_items digest p items = Some (items', s) \<Longrightarrow> list_all2 (row_kept) items items'"
  by (auto simp: append_items_eq list_all2_map2 list.rel_refl_strong list_all_iff upd_row_kept split: if_splits
      simp del: not_None_eq intro!: list.rel_refl_strong)

lemma append_buckets_kept:
  "append_buckets digest p fs = (r, fs') \<Longrightarrow> list_all2 (row_kept) (lookup_rows k fs) (lookup_rows k fs')"
proof (induction fs arbitrary: r fs')
  case Nil
  then show ?case by simp
next
  case (Cons b fs)
  obtain k' items where b: "b = (k', items)" by (cases b)
  obtain r2 fs2 where r2: "append_buckets digest p fs = (r2, fs2)" by fastforce
  note ih = Cons.IH [OF r2]
  show ?case
  proof (cases "append_items digest p items")
    case None
    with Cons.prems show ?thesis by (simp add: b)
  next
    case (Some a)
    obtain items' s where a: "a = (items', s)" by (cases a)
    with Cons.prems Some r2 have "fs' = (k', items') # fs2" by (simp add: b)
    with append_items_kept [of digest p items items' s] Some a ih show ?thesis
      by (simp add: b lookup_rows_Cons)
  qed
qed

lemma append_to_bucket_kept: "table_kept fs (append_to_bucket k p fs)"
  by (simp add: table_kept_def lookup_append_to_bucket)

lemma append_payload_kept: "append_payload digest row fs = (r, fs') \<Longrightarrow> table_kept fs fs'"
proof -
  assume a: "append_payload digest row fs = (r, fs')"
  let ?p = "attach_subject_metadata digest [] row"
  obtain r1 fs1 where r1: "append_buckets digest ?p fs = (r1, fs1)" by fastforce
  have k1: "table_kept fs fs1"
    unfolding table_kept_def using append_buckets_kept [OF r1] by (metis list_all2_lengthD order_refl take_all)
  have "fs' = fs \<or> fs' = fs1 \<or> (\<exists>k. fs' = append_to_bucket k ?p fs1)"
    using a r1 by (auto simp: append_payload_def Let_def split: if_splits option.splits)
  then show "table_kept fs fs'"
    using k1 append_to_bucket_kept table_kept_trans by (elim disjE exE) (simp, simp, blast)
qed

lemma append_facts_kept:
  "append_facts_with_supersession digest rows fs = (r, fs') \<Longrightarrow> table_kept fs fs'"
proof (induction rows arbitrary: fs r fs')
  case Nil
  then show ?case by simp
next
  case (Cons row rows)
  obtain r1 fs1 where r1: "append_payload digest row fs = (r1, fs1)" by fastforce
  note k1 = append_payload_kept [OF r1]
  show ?case
  proof (cases r1)
    case None
    with Cons.prems r1 k1 show ?thesis by simp
  next
    case (Some s)
    obtain r2 fs2 where r2: "append_facts_with_supersession digest rows fs1 = (r2, fs2)" by fastforce
    with Cons.prems r1 Some have "fs' = fs2" by simp
    with table_kept_trans [OF k1 Cons.IH [OF r2]] show ?thesis by simp
  qed
qed

text \<open>
  No append loses or rewrites history, also when it raises half way: every row stays at its place in
  its bucket with its content, and its status changes at most from active to superseded.
\<close>

theorem append_keeps_history:
  assumes "append_facts_with_supersession digest rows fs = (r, fs')" and "i < length (lookup_rows k fs)"
  shows "i < length (lookup_rows k fs') \<and> row_core (lookup_rows k fs' ! i) = row_core (lookup_rows k fs ! i) \<and>
    (status_of (lookup_rows k fs' ! i) = status_of (lookup_rows k fs ! i) \<or>
     (status_of (lookup_rows k fs ! i) = ''active'' \<and> status_of (lookup_rows k fs' ! i) = ''superseded''))"
proof -
  have k: "list_all2 (row_kept) (lookup_rows k fs) (take (length (lookup_rows k fs)) (lookup_rows k fs'))"
    using append_facts_kept [OF assms(1)] by (simp add: table_kept_def)
  have "length (lookup_rows k fs) \<le> length (lookup_rows k fs')" using list_all2_lengthD [OF k] by simp
  moreover have "row_kept (lookup_rows k fs ! i) (lookup_rows k fs' ! i)"
    using list_all2_nthD [OF k assms(2)] assms(2) by simp
  ultimately show ?thesis using assms(2) by (auto simp: row_kept_def)
qed

subsection \<open>Witnesses\<close>

definition sample_fact :: "string \<Rightarrow> string \<Rightarrow> string \<Rightarrow> string \<Rightarrow> string \<Rightarrow> string \<Rightarrow> pydict" where
  "sample_fact cid key value mid fid observed =
     [(''case_id'', PStr cid), (''fact_key'', PStr key), (''normalized_value'', PStr value),
      (''message_id'', PStr mid), (''fact_id'', PStr fid), (''source_type'', PStr ''message''),
      (''observed_at'', PStr observed)]"

definition plain_text :: "string \<Rightarrow> string" where
  "plain_text s = s"

definition one_price :: facts where
  "one_price = snd (append_facts_with_supersession plain_text [sample_fact ''A'' ''price'' ''100'' ''m1'' ''f1'' ''1''] [])"

definition one_phone :: facts where
  "one_phone = snd (append_facts_with_supersession plain_text [sample_fact ''A'' ''customer_phone'' ''111'' ''m1'' ''f1'' ''1''] [])"

definition next_price :: pydict where
  "next_price = sample_fact ''A'' ''price'' ''120'' ''m2'' ''f2'' ''2''"

definition next_phone :: pydict where
  "next_phone = sample_fact ''A'' ''customer_phone'' ''222'' ''m2'' ''f2'' ''2''"

definition append_next :: "pydict \<Rightarrow> facts \<Rightarrow> append_stats option \<times> facts" where
  "append_next row fs = append_facts_with_supersession plain_text [row] fs"

lemma append_next_runs: "fst (append_next row fs) \<noteq> None \<Longrightarrow>
    append_facts_with_supersession plain_text [row] fs = (Some (the (fst (append_next row fs))), snd (append_next row fs))"
  by (cases "append_next row fs") (auto simp: append_next_def)

theorem appended_value_wins_witness:
  "list_ex (says plain_text (attach_subject_metadata plain_text [] next_price)) (fact_rows (snd (append_next next_price one_price))) \<and>
   \<not> list_ex (contradicts plain_text (attach_subject_metadata plain_text [] next_price)) (fact_rows (snd (append_next next_price one_price)))"
proof (rule appended_value_wins [OF append_next_runs refl])
  show "fst (append_next next_price one_price) \<noteq> None" by code_simp
  show "keycol ''case_id'' next_price \<noteq> []" "keycol ''fact_key'' next_price \<noteq> []"
    "col ''case_id'' next_price = keycol ''case_id'' next_price" by code_simp+
  show "status_of (attach_subject_metadata plain_text [] next_price) = ''active''" by code_simp
  show "\<not> keeps_conflict plain_text (attach_subject_metadata plain_text [] next_price)" by code_simp
qed

theorem weak_source_supersedes_nothing_witness:
  "st_superseded (the (fst (append_next next_phone one_phone))) = 0 \<and>
   list_all (\<lambda>old. list_ex (\<lambda>new. row_core new = row_core old \<and> status_of new = status_of old)
     (fact_rows (snd (append_next next_phone one_phone)))) (fact_rows one_phone)"
proof (rule weak_source_supersedes_nothing [OF append_next_runs refl])
  show "fst (append_next next_phone one_phone) \<noteq> None" by code_simp
  show "keycol ''case_id'' next_phone \<noteq> []" "keycol ''fact_key'' next_phone \<noteq> []" by code_simp+
  show "keeps_conflict plain_text (attach_subject_metadata plain_text [] next_phone)" by code_simp
qed

definition retried :: "append_stats option \<times> facts" where
  "retried = append_next next_price (snd (append_next next_price one_price))"

theorem append_retry_settles_witness:
  "st_inserted (the (fst retried)) = 0 \<and> st_superseded (the (fst retried)) = 0 \<and>
   append_facts_with_supersession plain_text [next_price] (snd retried) = (Some (the (fst retried)), snd retried)"
  unfolding retried_def
proof (rule append_retry_settles [OF append_next_runs append_next_runs refl])
  show "fst (append_next next_price one_price) \<noteq> None" by code_simp
  show "fst (append_next next_price (snd (append_next next_price one_price))) \<noteq> None" by code_simp
  show "keycol ''case_id'' next_price \<noteq> []" "keycol ''fact_key'' next_price \<noteq> []"
    "col ''case_id'' next_price = keycol ''case_id'' next_price" by code_simp+
  show "status_of (attach_subject_metadata plain_text [] next_price) = ''active''" by code_simp
qed

theorem append_keeps_history_witness:
  "row_core (lookup_rows ''append::A:'' (snd (append_next next_price one_price)) ! 0) =
     row_core (lookup_rows ''append::A:'' one_price ! 0) \<and>
   status_of (lookup_rows ''append::A:'' (snd (append_next next_price one_price)) ! 0) = ''superseded''"
proof -
  have "0 < length (lookup_rows ''append::A:'' one_price)" by code_simp
  note h = append_keeps_history [OF prod.collapse [symmetric] this, of plain_text "[next_price]"]
  have "status_of (lookup_rows ''append::A:'' (snd (append_next next_price one_price)) ! 0) = ''superseded''"
    by code_simp
  with h show ?thesis by (simp add: append_next_def)
qed

end
