(* ===== verification/Fact_Upkeep.thy ===== *)
theory Fact_Upkeep
  imports Fact_Memory
begin

text \<open>
  Theorems on the upkeep of the fact table of \<open>Fact_Memory\<close>: what reconciling leaves of the live rows
  of a case, what replacing the snapshot of a message stores and supersedes, the invariant of every
  reachable table, and what a move of facts between cases does not reconcile.
\<close>

subsection \<open>Lemmas on groups and positions\<close>

lemma groups_of_snoc:
  "groups_of f (xs @ [x]) =
     AList.update (f x) ((case map_of (groups_of f xs) (f x) of Some ys \<Rightarrow> ys | None \<Rightarrow> []) @ [x]) (groups_of f xs)"
  by (simp add: groups_of_def)

lemma groups_of_Nil [simp]: "groups_of f [] = []"
  by (simp add: groups_of_def)

lemma groups_of_lookup:
  "distinct (map fst (groups_of f xs)) \<and>
   map_of (groups_of f xs) k = (let ys = filter (\<lambda>x. f x = k) xs in if ys = [] then None else Some ys)"
proof (induction xs arbitrary: k rule: rev_induct)
  case Nil
  show ?case by simp
next
  case (snoc x xs)
  have d: "distinct (map fst (groups_of f xs))" using snoc by blast
  show ?case
    using snoc [of k] snoc [of "f x"] distinct_update [OF d]
    by (auto simp: groups_of_snoc update_conv' Let_def)
qed

lemma groups_of_mem: "(k, ys) \<in> set (groups_of f xs) \<longleftrightarrow> ys = filter (\<lambda>x. f x = k) xs \<and> ys \<noteq> []"
proof -
  have "(k, ys) \<in> set (groups_of f xs) \<longleftrightarrow> map_of (groups_of f xs) k = Some ys"
    using map_of_eq_Some_iff [of "groups_of f xs" k ys] groups_of_lookup [of f xs k] by blast
  then show ?thesis using groups_of_lookup [of f xs k] by (auto simp: Let_def)
qed

lemma groups_of_keys: "fst ` set (groups_of f xs) = f ` set xs"
proof (rule set_eqI)
  fix k
  have "k \<in> fst ` set (groups_of f xs) \<longleftrightarrow> (\<exists>ys. (k, ys) \<in> set (groups_of f xs))" by force
  then show "k \<in> fst ` set (groups_of f xs) \<longleftrightarrow> k \<in> f ` set xs"
    unfolding groups_of_mem by (auto simp: filter_empty_conv)
qed

lemma length_update_snoc:
  "length (concat (map snd (AList.update k ((case map_of g k of Some ys \<Rightarrow> ys | None \<Rightarrow> []) @ [x]) g))) =
     Suc (length (concat (map snd g)))"
proof -
  have "length (concat (map snd (AList.update k (ys @ [x]) g))) = Suc (length (concat (map snd g)))"
    if "ys = (case map_of g k of Some ys \<Rightarrow> ys | None \<Rightarrow> [])" for ys
    using that by (induction g) auto
  then show ?thesis by simp
qed

lemma length_groups_of: "length (concat (map snd (groups_of f xs))) = length xs"
  by (induction xs rule: rev_induct) (simp_all add: groups_of_snoc length_update_snoc)


lemma enumerate_mem: "(i, x) \<in> set (enumerate 0 xs) \<longleftrightarrow> i < length xs \<and> x = xs ! i"
  by (auto simp: in_set_enumerate_eq)

lemma enumerate_update:
  "enumerate 0 (xs[i := r]) = map (\<lambda>(j, x). (j, if j = i then r else x)) (enumerate 0 xs)"
  by (rule nth_equalityI) (auto simp: nth_enumerate_eq nth_list_update)

definition pos :: "string \<times> nat \<times> pydict \<Rightarrow> string \<times> nat" where
  "pos e = (fst e, fst (snd e))"

lemma fact_positions_simps [simp]:
  "fact_positions [] = []"
  "fact_positions ((k, items) # fs) = map (\<lambda>(i, item). (k, i, item)) (enumerate 0 items) @ fact_positions fs"
  by (simp_all add: fact_positions_def)

lemma fact_positions_key: "e \<in> set (fact_positions fs) \<Longrightarrow> fst e \<in> fst ` set fs"
  by (force simp: fact_positions_def)

lemma fact_positions_mem:
  "distinct (map fst fs) \<Longrightarrow> (k, i, item) \<in> set (fact_positions fs) \<longleftrightarrow>
     i < length (lookup_rows k fs) \<and> item = lookup_rows k fs ! i"
proof (induction fs)
  case Nil
  show ?case by (simp add: lookup_rows_def)
next
  case (Cons b fs)
  obtain k' items where b: "b = (k', items)" by (cases b)
  have "k = k' \<Longrightarrow> (k, i, item) \<notin> set (fact_positions fs)"
    using Cons.prems fact_positions_key [of "(k, i, item)" fs] by (auto simp: b)
  with Cons show ?case by (auto simp: b lookup_rows_Cons enumerate_mem)
qed

lemma distinct_pos: "distinct (map fst fs) \<Longrightarrow> distinct (map pos (fact_positions fs))"
proof (induction fs)
  case (Cons b fs)
  obtain k items where b: "b = (k, items)" by (cases b)
  have a: "map pos (map (\<lambda>(i, item). (k, i, item)) (enumerate 0 items)) = map (\<lambda>i. (k, i)) [0..<length items]"
    by (rule nth_equalityI) (auto simp: pos_def nth_enumerate_eq)
  have "(k, i) \<notin> pos ` set (fact_positions fs)" for i
    using Cons.prems fact_positions_key by (force simp: b pos_def)
  with Cons show ?case
    unfolding b fact_positions_simps map_append a distinct_append by (auto simp: distinct_map inj_on_def)
qed simp

lemma set_row_Cons:
  "set_row k i r ((k', items) # fs) = (if k = k' then (k, items[i := r]) # fs else (k', items) # set_row k i r fs)"
  by (simp add: set_row_def lookup_rows_Cons)

lemma fact_positions_set_row:
  "distinct (map fst fs) \<Longrightarrow> k \<in> fst ` set fs \<Longrightarrow>
    fact_positions (set_row k i r fs) =
    map (\<lambda>e. if pos e = (k, i) then (k, i, r) else e) (fact_positions fs)"
proof (induction fs)
  case (Cons b fs)
  obtain k' items where b: "b = (k', items)" by (cases b)
  have u: "map (\<lambda>(j, item). (k, j, item)) (enumerate 0 (items[i := r])) =
      map (\<lambda>e. if pos e = (k, i) then (k, i, r) else e) (map (\<lambda>(j, item). (k, j, item)) (enumerate 0 items))"
    by (auto simp: enumerate_update pos_def)
  show ?case
  proof (cases "k = k'")
    case True
    have "pos e \<noteq> (k, i)" if "e \<in> set (fact_positions fs)" for e
      using Cons.prems fact_positions_key [OF that] by (auto simp: b True pos_def)
    then have "map (\<lambda>e. if pos e = (k, i) then (k, i, r) else e) (fact_positions fs) = fact_positions fs"
      by (simp add: map_idI)
    with u True show ?thesis by (simp add: b set_row_Cons)
  next
    case False
    then have "map (\<lambda>e. if pos e = (k, i) then (k, i, r) else e) (map (\<lambda>(j, item). (k', j, item)) (enumerate 0 items)) =
        map (\<lambda>(j, item). (k', j, item)) (enumerate 0 items)"
      by (auto simp: pos_def)
    with Cons False show ?thesis by (auto simp: b set_row_Cons)
  qed
qed simp

lemma set_row_keys: "k \<in> fst ` set fs \<Longrightarrow> map fst (set_row k i r fs) = map fst fs"
  by (simp add: set_row_def update_keys)

lemma filter_map_if:
  "\<not> P z \<Longrightarrow> filter P (map (\<lambda>e. if Q e then z else e) xs) = filter (\<lambda>e. \<not> Q e) (filter P xs)"
  by (induction xs) auto

lemma live_entries_set_row:
  assumes "distinct (map fst fs)" and "k \<in> fst ` set fs" and "status_of r = ''superseded''"
  shows "live_entries cid (set_row k i r fs) = filter (\<lambda>e. pos e \<noteq> (k, i)) (live_entries cid fs)"
  unfolding live_entries_def fact_positions_set_row [OF assms(1,2)]
  by (rule filter_map_if) (simp add: live_row_def assms(3))

lemma live_entries_mem: "e \<in> set (live_entries cid fs) \<Longrightarrow> fst e \<in> fst ` set fs"
  using fact_positions_key by (auto simp: live_entries_def)

lemma supersede_entries:
  assumes "distinct (map fst fs)" and "\<forall>e\<in>set es. fst e \<in> fst ` set fs"
    and "foldl (\<lambda>(n, fs) (k, i, item). (n + 1, set_row k i (superseded_row t f r item) fs)) (n, fs) es = (n', fs')"
  shows "n' = n + length es \<and> map fst fs' = map fst fs \<and>
    live_entries cid fs' = filter (\<lambda>e. pos e \<notin> pos ` set es) (live_entries cid fs)"
  using assms
proof (induction es arbitrary: n fs)
  case Nil
  then show ?case by simp
next
  case (Cons e es)
  obtain k i item where e: "e = (k, i, item)" by (cases e)
  let ?fs = "set_row k i (superseded_row t f r item) fs"
  have ke: "k \<in> fst ` set fs" using Cons.prems(2) by (simp add: e)
  have m: "map fst ?fs = map fst fs" by (rule set_row_keys [OF ke])
  have ks: "fst ` set ?fs = fst ` set fs" using m by (metis list.set_map)
  have l: "live_entries cid ?fs = filter (\<lambda>e. pos e \<noteq> (k, i)) (live_entries cid fs)"
    by (rule live_entries_set_row [OF Cons.prems(1) ke]) simp
  have "n' = (n + 1) + length es \<and> map fst fs' = map fst ?fs \<and>
      live_entries cid fs' = filter (\<lambda>e. pos e \<notin> pos ` set es) (live_entries cid ?fs)"
    by (rule Cons.IH) (use Cons.prems in \<open>auto simp: e m ks\<close>)
  then show ?case unfolding l filter_filter by (simp add: m e pos_def conj_commute)
qed

lemma newest_first_props:
  "set (newest_first es) = set es" "length (newest_first es) = length es"
  "e \<in> set es \<Longrightarrow> col ''observed_at'' (entry_row e) \<le> col ''observed_at'' (entry_row (hd (newest_first es)))"
proof -
  show s: "set (newest_first es) = set es" and "length (newest_first es) = length es"
    by (simp_all add: newest_first_def)
  let ?f = "\<lambda>e. col ''observed_at'' (entry_row e)"
  assume e: "e \<in> set es"
  have so: "sorted (rev (map ?f (newest_first es)))" unfolding newest_first_def by (rule sort_desc_sorted)
  obtain x xs where x: "newest_first es = x # xs" using e s by (cases "newest_first es") auto
  from e s x so show "?f e \<le> ?f (hd (newest_first es))" by (auto simp: sorted_append)
qed

lemma reconcile_group_live:
  assumes "distinct (map fst fs)" and "\<forall>e\<in>set entries. fst e \<in> fst ` set fs"
    and "reconcile_group (n, fs) entries = (n', fs')"
  shows "n' = n + (length entries - 1) \<and> map fst fs' = map fst fs \<and>
    live_entries cid fs' = filter (\<lambda>e. pos e \<notin> pos ` set (tl (newest_first entries))) (live_entries cid fs)"
proof (cases "length entries < 2")
  case True
  then have "length (tl (newest_first entries)) = 0" by (simp add: newest_first_props(2))
  then have "tl (newest_first entries) = []" by (cases "newest_first entries") simp_all
  with True assms(3) show ?thesis by (auto simp: reconcile_group_def)
next
  case False
  have tk: "\<forall>e\<in>set (tl (newest_first entries)). fst e \<in> fst ` set fs"
    using assms(2) newest_first_props(1) [of entries] by (metis list.set_sel(2) tl_Nil)
  let ?w = "entry_row (hd (newest_first entries))"
  from supersede_entries [OF assms(1) tk, where t = "dget ''observed_at'' ?w" and f = "col ''fact_id'' ?w"
      and r = "[(''supersede_reason'', PStr ''reconcile_active_fact_identities'')]" and n = n and n' = n'
      and fs' = fs' and cid = cid] assms(3) False
  show ?thesis by (simp add: reconcile_group_def newest_first_props(2) Let_def)
qed

lemma reconcile_groups_live:
  assumes "distinct (map fst fs)" and "\<forall>es\<in>set gs. \<forall>e\<in>set es. fst e \<in> fst ` set fs"
    and "foldl reconcile_group (n, fs) gs = (n', fs')"
  shows "n' = n + sum_list (map (\<lambda>es. length es - 1) gs) \<and> map fst fs' = map fst fs \<and>
    live_entries cid fs' = filter (\<lambda>e. \<forall>es\<in>set gs. pos e \<notin> pos ` set (tl (newest_first es))) (live_entries cid fs)"
  using assms
proof (induction gs arbitrary: n fs)
  case Nil
  then show ?case by simp
next
  case (Cons es gs)
  obtain n1 fs1 where g: "reconcile_group (n, fs) es = (n1, fs1)" by fastforce
  have h: "n1 = n + (length es - 1) \<and> map fst fs1 = map fst fs \<and>
    live_entries cid fs1 = filter (\<lambda>e. pos e \<notin> pos ` set (tl (newest_first es))) (live_entries cid fs)"
    by (rule reconcile_group_live [OF _ _ g]) (use Cons.prems in auto)
  then have ks: "fst ` set fs1 = fst ` set fs" by (metis list.set_map)
  have "n' = n1 + sum_list (map (\<lambda>es. length es - 1) gs) \<and> map fst fs' = map fst fs1 \<and>
    live_entries cid fs' = filter (\<lambda>e. \<forall>es\<in>set gs. pos e \<notin> pos ` set (tl (newest_first es))) (live_entries cid fs1)"
    by (rule Cons.IH) (use Cons.prems h in \<open>auto simp: ks g\<close>)
  with h show ?case by (auto simp: intro!: filter_cong)
qed


lemma sum_minus_one:
  "\<forall>ys\<in>set yss. ys \<noteq> [] \<Longrightarrow> sum_list (map (\<lambda>ys. length ys - 1) yss) + length yss = length (concat yss)"
  by (induction yss) (auto simp: Suc_le_eq)

definition newest_of :: "(string \<Rightarrow> string) \<Rightarrow> (string \<times> nat \<times> pydict) list \<Rightarrow> string \<times> nat \<times> pydict \<Rightarrow> string \<times> nat \<times> pydict" where
  "newest_of digest es e = hd (newest_first (filter
     (\<lambda>e'. proposition_identity digest [] (entry_row e') = proposition_identity digest [] (entry_row e)) es))"

lemma reconcile_survivors:
  assumes d: "distinct (map fst fs)" and cid: "strip case_id \<noteq> []"
    and "reconcile_facts digest case_id fs = (n, fs')"
  defines "es \<equiv> live_entries (strip case_id) fs"
  defines "f \<equiv> \<lambda>e. proposition_identity digest [] (entry_row e)"
  shows "live_entries (strip case_id) fs' = filter (\<lambda>e. e = newest_of digest es e) es"
    and "n + length (groups_of f es) = length es" and "map fst fs' = map fst fs"
proof -
  let ?gs = "map snd (groups_of f es)"
  have gm: "ys \<in> set ?gs \<longleftrightarrow> (\<exists>k. ys = filter (\<lambda>x. f x = k) es \<and> ys \<noteq> [])" for ys
  proof -
    have "ys \<in> set ?gs \<longleftrightarrow> (\<exists>k. (k, ys) \<in> set (groups_of f es))" by force
    then show ?thesis unfolding groups_of_mem .
  qed
  have r: "foldl reconcile_group (0, fs) ?gs = (n, fs')"
    using assms(3) cid by (simp add: reconcile_facts_def es_def f_def)
  have sub: "\<forall>ys\<in>set ?gs. \<forall>e\<in>set ys. fst e \<in> fst ` set fs"
  proof (intro ballI)
    fix ys e assume "ys \<in> set ?gs" and e: "e \<in> set ys"
    then obtain k where "ys = filter (\<lambda>x. f x = k) es" unfolding gm by blast
    with e have "e \<in> set (live_entries (strip case_id) fs)" by (simp add: es_def)
    then show "fst e \<in> fst ` set fs" by (rule live_entries_mem)
  qed
  note l = reconcile_groups_live [OF d sub r, of "strip case_id"]
  show "map fst fs' = map fst fs" using l by blast
  have "sum_list (map (\<lambda>es. length es - 1) ?gs) + length ?gs = length (concat ?gs)"
    by (rule sum_minus_one) (auto simp: gm simp del: set_map)
  then show "n + length (groups_of f es) = length es"
    using l length_groups_of [of f es] by simp
  have dp: "distinct (map pos es)"
    using distinct_pos [OF d] unfolding es_def live_entries_def by (rule distinct_map_filter)
  have "(\<forall>ys\<in>set ?gs. pos e \<notin> pos ` set (tl (newest_first ys))) \<longleftrightarrow> e = newest_of digest es e"
    if e: "e \<in> set es" for e
  proof -
    let ?g = "filter (\<lambda>x. f x = f e) es"
    have eg: "e \<in> set ?g" using e by simp
    have ne: "?g \<noteq> []" using e by (auto simp: filter_empty_conv)
    have g: "?g \<in> set ?gs" unfolding gm by (rule exI [where x = "f e"]) (rule conjI [OF refl ne])
    have inj: "pos e \<in> pos ` set xs \<longleftrightarrow> e \<in> set xs" if "set xs \<subseteq> set es" for xs
      using that dp e by (auto simp: distinct_map inj_on_def)
    have tls: "set (tl (newest_first ys)) \<subseteq> set ys" for ys
      using newest_first_props(1) [of ys] by (metis list.set_sel(2) subsetI tl_Nil)
    have "(\<forall>ys\<in>set ?gs. pos e \<notin> pos ` set (tl (newest_first ys))) \<longleftrightarrow> e \<notin> set (tl (newest_first ?g))"
    proof
      assume "\<forall>ys\<in>set ?gs. pos e \<notin> pos ` set (tl (newest_first ys))"
      then show "e \<notin> set (tl (newest_first ?g))" using g by blast
    next
      assume n: "e \<notin> set (tl (newest_first ?g))"
      show "\<forall>ys\<in>set ?gs. pos e \<notin> pos ` set (tl (newest_first ys))"
      proof
        fix ys assume "ys \<in> set ?gs"
        then obtain k where k: "ys = filter (\<lambda>x. f x = k) es" unfolding gm by blast
        have "e \<notin> set (tl (newest_first ys))"
        proof (cases "k = f e")
          case True
          with n k show ?thesis by simp
        next
          case False
          then have "e \<notin> set ys" by (simp add: k)
          with tls [of ys] show ?thesis by blast
        qed
        moreover have "set (tl (newest_first ys)) \<subseteq> set es" using tls [of ys] by (auto simp: k)
        ultimately show "pos e \<notin> pos ` set (tl (newest_first ys))" using inj by blast
      qed
    qed
    also have "\<dots> \<longleftrightarrow> e = hd (newest_first ?g)"
    proof -
      have "distinct ?g" using dp by (simp add: distinct_map)
      then have "distinct (newest_first ?g)"
        using newest_first_props(1,2) [of ?g] by (metis card_distinct distinct_card)
      moreover have "e \<in> set (newest_first ?g)" using eg newest_first_props(1) by blast
      ultimately show ?thesis by (cases "newest_first ?g") auto
    qed
    finally show ?thesis by (simp add: newest_of_def f_def)
  qed
  then have sv: "\<And>e. e \<in> set es \<Longrightarrow>
      (\<forall>ys\<in>set ?gs. pos e \<notin> pos ` set (tl (newest_first ys))) \<longleftrightarrow> e = newest_of digest es e" .
  have l2: "live_entries (strip case_id) fs' =
      filter (\<lambda>e. \<forall>ys\<in>set ?gs. pos e \<notin> pos ` set (tl (newest_first ys))) es"
    using l by (simp only: es_def)
  show "live_entries (strip case_id) fs' = filter (\<lambda>e. e = newest_of digest es e) es"
    unfolding l2 by (rule filter_cong [OF refl sv])
qed

text \<open>
  Reconciling a case leaves exactly one live row per proposition identity, a newest one of those that
  were live; no identity is lost, no row becomes live, and the returned number is that of the rows retired.  The
  identity is the one the code groups by: kind and id of the fact's subject with its key where the key is about a
  subject and one is known, and scope with key otherwise.  It is not the scope and key its docstring names: rows of
  one scope and key whose subjects differ all stay live (\<open>moved_case_facts_stay_conflicting\<close>).
\<close>

theorem reconcile_keeps_newest_per_identity:
  assumes "distinct (map fst fs)" and "strip case_id \<noteq> []"
    and "reconcile_facts digest case_id fs = (n, fs')"
    and ident: "ident = (\<lambda>e. proposition_identity digest [] (entry_row e))"
    and es: "es = live_entries (strip case_id) fs" and es': "es' = live_entries (strip case_id) fs'"
  shows "distinct (map ident es') \<and> ident ` set es' = ident ` set es \<and> set es' \<subseteq> set es \<and>
    list_all (\<lambda>e'. list_all (\<lambda>e. ident e = ident e' \<longrightarrow>
      col ''observed_at'' (entry_row e) \<le> col ''observed_at'' (entry_row e')) es) es' \<and>
    length es' + n = length es"
proof -
  note s = reconcile_survivors [OF assms(1-3)]
  have es'_eq: "es' = filter (\<lambda>e. e = newest_of digest es e) es" using s(1) by (simp add: es es')
  have n: "n + length (groups_of ident es) = length es" using s(2) by (simp add: es ident)
  have new: "newest_of digest es e = hd (newest_first (filter (\<lambda>e'. ident e' = ident e) es))" for e
    by (simp add: newest_of_def ident)
  have nm: "newest_of digest es e \<in> set es \<and> ident (newest_of digest es e) = ident e" if "e \<in> set es" for e
  proof -
    have "e \<in> set (newest_first (filter (\<lambda>e'. ident e' = ident e) es))"
      using that newest_first_props(1) by force
    then have "hd (newest_first (filter (\<lambda>e'. ident e' = ident e) es)) \<in> set (newest_first (filter (\<lambda>e'. ident e' = ident e) es))"
      by (metis list.set_cases list.sel(1) list.set_intros(1))
    then show ?thesis unfolding new newest_first_props(1) by simp
  qed
  have same: "newest_of digest es e = newest_of digest es e'" if "ident e = ident e'" for e e'
    using that by (simp add: new)
  have "distinct (map pos es)"
    using distinct_pos [OF assms(1)] unfolding es live_entries_def by (rule distinct_map_filter)
  then have "distinct es" by (simp add: distinct_map)
  moreover have "inj_on ident (set es')"
  proof (rule inj_onI)
    fix e e' assume "e \<in> set es'" "e' \<in> set es'" "ident e = ident e'"
    then show "e = e'" using same [of e e'] by (simp add: es'_eq)
  qed
  ultimately have d: "distinct (map ident es')" by (simp add: distinct_map es'_eq)
  have im: "ident ` set es' = ident ` set es"
  proof -
    have "newest_of digest es e \<in> set es'" if "e \<in> set es" for e
      unfolding es'_eq using nm [OF that] same [of "newest_of digest es e" e] by simp
    then have "ident e \<in> ident ` set es'" if "e \<in> set es" for e
      using nm [OF that] that by (intro image_eqI [where x = "newest_of digest es e"]) simp_all
    then show ?thesis by (auto simp: es'_eq)
  qed
  have "fst ` set (groups_of ident es) = ident ` set es" by (rule groups_of_keys)
  then have "length (groups_of ident es) = length es'"
    using d im groups_of_lookup [of ident es] by (metis distinct_card length_map list.set_map)
  then have len: "length es' + n = length es" using n by simp
  have "col ''observed_at'' (entry_row e) \<le> col ''observed_at'' (entry_row e')"
    if "e' \<in> set es'" "e \<in> set es" "ident e = ident e'" for e e'
  proof -
    have "e' = hd (newest_first (filter (\<lambda>x. ident x = ident e') es))" using that(1) new by (simp add: es'_eq)
    moreover have "e \<in> set (filter (\<lambda>x. ident x = ident e') es)" using that(2,3) by simp
    ultimately show ?thesis using newest_first_props(3) by metis
  qed
  then show ?thesis using d im len by (auto simp: list_all_iff es'_eq)
qed

abbreviation idn :: "(string \<Rightarrow> string) \<Rightarrow> pydict \<Rightarrow> string list" where
  "idn digest \<equiv> proposition_identity digest []"

lemma insert_replaced_rows:
  "set (fact_rows fs) \<subseteq> set (fact_rows (insert_replaced digest mid cid i fs p))"
  "set (fact_rows (insert_replaced digest mid cid i fs p)) \<subseteq> insert p (set (fact_rows fs))"
  "p \<in> set (fact_rows (insert_replaced digest mid cid i fs p)) \<or> already_stored digest mid cid i p fs"
  by (auto simp: insert_replaced_def)

lemma already_stored_iff:
  "already_stored digest mid cid i p fs \<longleftrightarrow> (\<exists>r\<in>set (fact_rows fs). same_active digest cid i r \<and>
     keycol ''normalized_value'' r = keycol ''normalized_value'' p \<and> col ''message_id'' r = mid \<and>
     col ''fact_id'' r = col ''fact_id'' p)"
  unfolding already_stored_def by (induction fs) (auto simp: list_ex_iff)

lemma already_stored_mono:
  "already_stored digest mid cid i p fs \<Longrightarrow> set (fact_rows fs) \<subseteq> set (fact_rows fs') \<Longrightarrow>
   already_stored digest mid cid i p fs'"
  unfolding already_stored_iff by blast

lemma insert_all_rows:
  "set (fact_rows fs) \<subseteq> set (fact_rows (foldl (insert_replaced digest mid cid i) fs ps)) \<and>
   set (fact_rows (foldl (insert_replaced digest mid cid i) fs ps)) \<subseteq> set ps \<union> set (fact_rows fs) \<and>
   (\<forall>p\<in>set ps. p \<in> set (fact_rows (foldl (insert_replaced digest mid cid i) fs ps)) \<or>
      already_stored digest mid cid i p (foldl (insert_replaced digest mid cid i) fs ps))"
proof (induction ps arbitrary: fs)
  case (Cons q ps)
  let ?f = "insert_replaced digest mid cid i fs q"
  let ?l = "foldl (insert_replaced digest mid cid i) ?f ps"
  have sub: "set (fact_rows fs) \<subseteq> set (fact_rows ?l)" "set (fact_rows ?f) \<subseteq> set (fact_rows ?l)"
    and up: "set (fact_rows ?l) \<subseteq> set (q # ps) \<union> set (fact_rows fs)"
    using Cons [of ?f] insert_replaced_rows(1) [of fs digest mid cid i q]
      insert_replaced_rows(2) [of digest mid cid i fs q] by auto
  have "q \<in> set (fact_rows ?l) \<or> already_stored digest mid cid i q ?l"
    using insert_replaced_rows(3) [of q digest mid cid i fs] sub already_stored_mono by blast
  then show ?case using Cons [of ?f] sub up by simp
qed simp

lemma singleton_list: "distinct ys \<Longrightarrow> set ys = {a} \<Longrightarrow> ys = [a]"
  by (cases ys; cases "tl ys") auto

lemma apply_group_eq:
  "apply_group digest mid fs (i, grp) =
     foldl (insert_replaced digest mid (keycol ''case_id'' (hd grp)) i)
       (map_rows (supersede_other_messages digest mid i grp) fs) grp"
  by (simp add: apply_group_def map_rows_def)

lemma apply_group_rows:
  assumes "fs' = apply_group digest mid fs (i, grp)"
  shows "old \<in> set (fact_rows fs) \<Longrightarrow> supersede_other_messages digest mid i grp old \<in> set (fact_rows fs')"
    and "r \<in> set (fact_rows fs') \<Longrightarrow>
      r \<in> set grp \<or> (\<exists>old\<in>set (fact_rows fs). r = supersede_other_messages digest mid i grp old)"
    and "p \<in> set grp \<Longrightarrow>
      p \<in> set (fact_rows fs') \<or> already_stored digest mid (keycol ''case_id'' (hd grp)) i p fs'"
  using insert_all_rows [of "map_rows (supersede_other_messages digest mid i grp) fs" digest mid
      "keycol ''case_id'' (hd grp)" i grp]
  unfolding assms apply_group_eq by auto

lemma supersede_other_same:
  "col ''message_id'' r = mid \<Longrightarrow> supersede_other_messages digest mid i grp r = r"
  "idn digest r \<noteq> i \<Longrightarrow> supersede_other_messages digest mid i grp r = r"
  "status_of r \<noteq> ''active'' \<Longrightarrow> supersede_other_messages digest mid i grp r = r"
  by (simp_all add: supersede_other_messages_def same_active_def)

lemma supersede_other_cases:
  obtains "supersede_other_messages digest mid i grp r = r"
  | "status_of (supersede_other_messages digest mid i grp r) = ''superseded''"
    and "dget ''message_id'' (supersede_other_messages digest mid i grp r) = dget ''message_id'' r"
    and "col ''message_id'' r \<noteq> mid"
  by (cases "supersede_other_messages digest mid i grp r = r")
    (auto simp: supersede_other_messages_def Let_def superseded_row_other split: if_splits)

definition extract_of :: "string \<Rightarrow> pydict \<Rightarrow> bool" where
  "extract_of mid r \<longleftrightarrow> col ''message_id'' r = mid \<and> \<not> is_structured r"

lemma retire_message_rows: "fact_rows (retire_message mid fs) = filter (\<lambda>r. \<not> extract_of mid r) (fact_rows fs)"
  by (induction mid fs rule: retire_message.induct) (auto simp: Let_def extract_of_def)

lemma retire_bucket_rows: "set (fact_rows (retire_bucket mid fs)) \<subseteq> set (fact_rows fs)"
proof -
  have "set (fact_rows (AList.update mid ys fs)) \<subseteq> set ys \<union> set (fact_rows fs)" for ys
    by (induction fs) auto
  moreover have "set (fact_rows (AList.delete mid fs)) \<subseteq> set (fact_rows fs)"
    by (induction fs) auto
  moreover have "set ys \<subseteq> set (fact_rows fs)" if "map_of fs mid = Some ys" for ys
    using map_of_SomeD [OF that] by (force simp: fact_rows_def)
  ultimately have sub: "set (fact_rows (AList.update mid (filter is_structured ys) fs)) \<subseteq> set (fact_rows fs)"
    "set (fact_rows (AList.delete mid fs)) \<subseteq> set (fact_rows fs)" if "map_of fs mid = Some ys" for ys
    using that filter_is_subset [of is_structured ys] by blast+
  show ?thesis
  proof (cases "map_of fs mid")
    case (Some ys)
    with sub [OF Some] show ?thesis by (simp add: retire_bucket_def Let_def)
  qed (simp add: retire_bucket_def)
qed

lemma replaced_facts:
  assumes "st' = replace_message_facts digest message_id rows st" and "mid = strip message_id"
    and "ps = replaced_payloads digest rows"
  obtains fs where "\<And>r. r \<in> set (fact_rows fs) \<Longrightarrow> \<not> extract_of mid r"
    and "m_facts st' = foldl (apply_group digest mid) fs (groups_of (idn digest) ps)"
proof
  let ?fs = "retire_bucket mid (retire_message mid (m_facts st))"
  show "\<not> extract_of mid r" if "r \<in> set (fact_rows ?fs)" for r
    using that retire_bucket_rows [of mid "retire_message mid (m_facts st)"] by (auto simp: retire_message_rows)
  show "m_facts st' = foldl (apply_group digest mid) ?fs (groups_of (idn digest) ps)"
    using assms by (auto simp: replace_message_facts_def Let_def apply_replaced_message_fact_rows_def replaced_payloads_def)
qed

text \<open>
  Replacing the facts of a message stores its new snapshot and nothing of the old one: every extracted
  row of the message is one of the new ones, and every new one is stored or stated by an active row of
  the message with its id and value.
\<close>

theorem message_snapshot_is_replaced:
  assumes "st' = replace_message_facts digest message_id rows st" and "mid = strip message_id"
    and "ps = replaced_payloads digest rows"
  shows "list_all (\<lambda>r. extract_of mid r \<longrightarrow> r \<in> set ps) (fact_rows (m_facts st')) \<and>
    list_all (\<lambda>p. list_ex (\<lambda>r. r = p \<or> (idn digest r = idn digest p \<and> status_of r = ''active'' \<and>
      keycol ''normalized_value'' r = keycol ''normalized_value'' p \<and> col ''message_id'' r = mid \<and>
      col ''fact_id'' r = col ''fact_id'' p)) (fact_rows (m_facts st'))) ps"
proof -
  obtain fs where fs: "\<And>r. r \<in> set (fact_rows fs) \<Longrightarrow> \<not> extract_of mid r"
    and st': "m_facts st' = foldl (apply_group digest mid) fs (groups_of (idn digest) ps)"
    using replaced_facts [OF assms] by blast
  have only: "r \<in> set ps"
    if "r \<in> set (fact_rows (foldl (apply_group digest mid) fs gs))" and "extract_of mid r"
      and "\<forall>(i, grp)\<in>set gs. set grp \<subseteq> set ps" for r gs
    using that
  proof (induction gs arbitrary: r rule: rev_induct)
    case Nil
    with fs show ?case by simp
  next
    case (snoc g gs)
    obtain i grp where g: "g = (i, grp)" by (cases g)
    let ?fs = "foldl (apply_group digest mid) fs gs"
    have "r \<in> set (fact_rows (apply_group digest mid ?fs (i, grp)))" using snoc.prems(1) by (simp add: g)
    from apply_group_rows(2) [OF refl this]
    consider "r \<in> set grp" | old where "old \<in> set (fact_rows ?fs)" "r = supersede_other_messages digest mid i grp old"
      by blast
    then show ?case
    proof cases
      case 1
      with snoc.prems(3) show ?thesis by (auto simp: g)
    next
      case 2
      have "r = old"
        by (rule supersede_other_cases [of digest mid i grp old]) (use 2 snoc.prems(2) in \<open>auto simp: extract_of_def\<close>)
      with 2 snoc show ?thesis by auto
    qed
  qed
  define good where "good = (\<lambda>p r. r = p \<or> (idn digest r = idn digest p \<and> status_of r = ''active'' \<and>
      keycol ''normalized_value'' r = keycol ''normalized_value'' p \<and> col ''message_id'' r = mid \<and>
      col ''fact_id'' r = col ''fact_id'' p))"
  have kept: "\<exists>r\<in>set (fact_rows (foldl (apply_group digest mid) fs2 gs)). good p r"
    if "\<exists>r\<in>set (fact_rows fs2). good p r" and "\<forall>(i, grp)\<in>set gs. i \<noteq> idn digest p" for p fs2 gs
    using that
  proof (induction gs arbitrary: fs2)
    case (Cons g gs)
    obtain i grp where g: "g = (i, grp)" by (cases g)
    obtain r where r: "r \<in> set (fact_rows fs2)" "good p r" using Cons.prems(1) by blast
    have "idn digest r \<noteq> i" using r(2) Cons.prems(2) by (auto simp: good_def g)
    then have "supersede_other_messages digest mid i grp r = r" by (rule supersede_other_same(2))
    then have "r \<in> set (fact_rows (apply_group digest mid fs2 (i, grp)))"
      using apply_group_rows(1) [OF refl r(1)] by metis
    with r(2) Cons show ?case by (auto simp: g)
  qed simp
  have all: "\<exists>r\<in>set (fact_rows (m_facts st')). good p r" if p: "p \<in> set ps" for p
  proof -
    let ?grp = "filter (\<lambda>q. idn digest q = idn digest p) ps"
    have pg: "p \<in> set ?grp" using p by simp
    have gm: "(idn digest p, ?grp) \<in> set (groups_of (idn digest) ps)"
      unfolding groups_of_mem using p by (auto simp: filter_empty_conv)
    then obtain g1 g2 where gs: "groups_of (idn digest) ps = g1 @ (idn digest p, ?grp) # g2"
      by (meson split_list)
    have "distinct (map fst (groups_of (idn digest) ps))" using groups_of_lookup [of "idn digest" ps] by blast
    then have "idn digest p \<notin> fst ` set g2" by (simp add: gs)
    then have later: "\<forall>(i, grp)\<in>set g2. i \<noteq> idn digest p" by force
    let ?fs1 = "apply_group digest mid (foldl (apply_group digest mid) fs g1) (idn digest p, ?grp)"
    have "\<exists>r\<in>set (fact_rows ?fs1). good p r"
    proof (cases "p \<in> set (fact_rows ?fs1)")
      case True
      moreover have "good p p" by (simp add: good_def)
      ultimately show ?thesis by (rule bexI [rotated])
    next
      case False
      with apply_group_rows(3) [OF refl pg] obtain r where r: "r \<in> set (fact_rows ?fs1)"
        and s: "same_active digest (keycol ''case_id'' (hd ?grp)) (idn digest p) r"
          "keycol ''normalized_value'' r = keycol ''normalized_value'' p" "col ''message_id'' r = mid"
          "col ''fact_id'' r = col ''fact_id'' p"
        unfolding already_stored_iff by metis
      have "good p r" using s by (simp add: good_def same_active_def)
      then show ?thesis using r by (rule bexI)
    qed
    from kept [OF this later] show ?thesis by (simp add: st' gs)
  qed
  have gps: "\<forall>(i, grp)\<in>set (groups_of (idn digest) ps). set grp \<subseteq> set ps"
    by (auto simp: groups_of_mem)
  show ?thesis
    unfolding list_all_iff list_ex_iff
    using only [OF _ _ gps] all by (simp add: st' good_def)
qed

lemma remdups_const: "xs \<noteq> [] \<Longrightarrow> \<forall>q\<in>set xs. f q = c \<Longrightarrow> remdups (map f xs) = [c]"
  by (rule singleton_list) (auto simp: neq_Nil_conv)

lemma unless_not: "\<not> (a \<and> b \<and> \<not> c) \<Longrightarrow> a \<and> b \<longrightarrow> c"
  by blast

text \<open>
  Property C25.  A newer message supersedes the older ones: when its snapshot gives one value for a proposition,
  no active row of another message of the case says a different one.
\<close>

theorem newer_message_supersedes:
  assumes "st' = replace_message_facts digest message_id rows st" and "mid = strip message_id"
    and "ps = replaced_payloads digest rows" and p: "p \<in> set ps"
    and case1: "list_all (\<lambda>q. keycol ''case_id'' q = cid) ps"
    and val1: "list_all (\<lambda>q. idn digest q = idn digest p \<longrightarrow>
      keycol ''normalized_value'' q = keycol ''normalized_value'' p) ps"
  shows "list_all (\<lambda>r. same_active digest cid (idn digest p) r \<and> col ''message_id'' r \<noteq> mid \<longrightarrow>
    keycol ''normalized_value'' r = keycol ''normalized_value'' p) (fact_rows (m_facts st'))"
proof -
  obtain fs where st': "m_facts st' = foldl (apply_group digest mid) fs (groups_of (idn digest) ps)"
    using replaced_facts [OF assms(1-3)] by blast
  define ok where "ok = (\<lambda>r. same_active digest cid (idn digest p) r \<and> col ''message_id'' r \<noteq> mid \<longrightarrow>
    keycol ''normalized_value'' r = keycol ''normalized_value'' p)"
  let ?grp = "filter (\<lambda>q. idn digest q = idn digest p) ps"
  have gm: "(idn digest p, ?grp) \<in> set (groups_of (idn digest) ps)"
    unfolding groups_of_mem using p by (auto simp: filter_empty_conv)
  then obtain g1 g2 where gs: "groups_of (idn digest) ps = g1 @ (idn digest p, ?grp) # g2"
    by (meson split_list)
  have new: "ok q" if "(i, grp) \<in> set (groups_of (idn digest) ps)" "q \<in> set grp" for i grp q
    using that val1 by (auto simp: groups_of_mem ok_def same_active_def list_all_iff)
  have sup: "ok (supersede_other_messages digest mid i grp r)" if "ok r" for i grp r
    by (rule supersede_other_cases [of digest mid i grp r]) (use that in \<open>auto simp: ok_def same_active_def\<close>)
  have est: "ok (supersede_other_messages digest mid (idn digest p) ?grp r)" for r
  proof -
    have "hd ?grp \<in> set ps" using p by (metis (mono_tags, lifting) filter_empty_conv filter_is_subset hd_in_set subsetD)
    then have c: "keycol ''case_id'' (hd ?grp) = cid" using case1 by (auto simp: list_all_iff)
    have same: "\<forall>q\<in>set ?grp. keycol ''normalized_value'' q = keycol ''normalized_value'' p"
    proof
      fix q assume "q \<in> set ?grp"
      then have "q \<in> set ps" "idn digest q = idn digest p" by simp_all
      with val1 show "keycol ''normalized_value'' q = keycol ''normalized_value'' p"
        unfolding list_all_iff by blast
    qed
    have "?grp \<noteq> []" using p by (auto simp: filter_empty_conv)
    note v = remdups_const [OF this same]
    have e: "supersede_other_messages digest mid (idn digest p) ?grp r =
        (if same_active digest cid (idn digest p) r \<and> col ''message_id'' r \<noteq> mid \<and>
            keycol ''normalized_value'' r \<noteq> keycol ''normalized_value'' p
         then superseded_row (dget ''observed_at'' (hd ?grp)) (col ''fact_id'' (hd ?grp))
                [(''supersede_reason'', PStr ''replace_message_facts'')] r else r)"
      unfolding supersede_other_messages_def Let_def c v by simp
    let ?c = "same_active digest cid (idn digest p) r \<and> col ''message_id'' r \<noteq> mid \<and>
            keycol ''normalized_value'' r \<noteq> keycol ''normalized_value'' p"
    show ?thesis
    proof (cases ?c)
      case True
      have "status_of (supersede_other_messages digest mid (idn digest p) ?grp r) = ''superseded''"
        unfolding e if_P [OF True] by (rule status_superseded)
      then show ?thesis by (simp add: ok_def same_active_def)
    next
      case False
      have "ok r" unfolding ok_def by (rule unless_not [OF False])
      then show ?thesis unfolding e if_not_P [OF False] .
    qed
  qed
  have pres: "\<forall>r\<in>set (fact_rows (foldl (apply_group digest mid) fs2 hs)). ok r"
    if "\<forall>r\<in>set (fact_rows fs2). ok r" and "set hs \<subseteq> set (groups_of (idn digest) ps)" for fs2 hs
    using that
  proof (induction hs arbitrary: fs2)
    case (Cons h hs)
    obtain i grp where h: "h = (i, grp)" by (cases h)
    have "ok r" if "r \<in> set (fact_rows (apply_group digest mid fs2 (i, grp)))" for r
    proof -
      have "(i, grp) \<in> set (groups_of (idn digest) ps)" using Cons.prems(2) by (simp add: h)
      then show ?thesis using apply_group_rows(2) [OF refl that] new sup Cons.prems(1) by blast
    qed
    with Cons show ?case by (auto simp: h)
  qed simp
  let ?fs1 = "apply_group digest mid (foldl (apply_group digest mid) fs g1) (idn digest p, ?grp)"
  have "ok r" if "r \<in> set (fact_rows ?fs1)" for r
    using apply_group_rows(2) [OF refl that] new [OF gm] est by blast
  then have "\<forall>r\<in>set (fact_rows ?fs1). ok r" by blast
  have sub2: "set g2 \<subseteq> set (groups_of (idn digest) ps)" by (auto simp: gs)
  from pres [OF \<open>\<forall>r\<in>set (fact_rows ?fs1). ok r\<close> sub2] show ?thesis by (simp add: st' gs ok_def list_all_iff)
qed

subsection \<open>The table invariant\<close>

definition row_ok :: "pydict \<Rightarrow> bool" where
  "row_ok r \<longleftrightarrow> is_dict (dget ''metadata'' r) \<and> keycol ''case_id'' r \<noteq> [] \<and> keycol ''fact_key'' r \<noteq> []"

definition facts_ok :: "facts \<Rightarrow> bool" where
  "facts_ok fs \<longleftrightarrow> distinct (map fst fs) \<and> list_all row_ok (fact_rows fs)"

lemma row_ok_superseded [simp]: "row_ok (superseded_row t f r p) \<longleftrightarrow> keycol ''case_id'' p \<noteq> [] \<and> keycol ''fact_key'' p \<noteq> []"
  by (simp add: row_ok_def superseded_row_other)

lemma row_ok_upd:
  assumes "append_item digest p item \<noteq> None" and "row_ok item"
  shows "row_ok (upd_row digest p item)"
proof -
  consider "says digest p item" | "contradicts digest p item" | "\<not> says digest p item" "\<not> contradicts digest p item"
    by blast
  then show ?thesis
  proof cases
    case 1
    then obtain m where "upd_row digest p item =
        (if m \<noteq> subject_meta item then AList.update ''metadata'' (PDict m) item else item)"
      using assms(1) by (rule upd_row_says)
    with assms(2) show ?thesis by (simp add: row_ok_def)
  next
    case 2
    with assms(2) show ?thesis by (simp add: upd_row_contradicts) (simp add: row_ok_def)
  next
    case 3
    with assms(2) show ?thesis by (simp add: upd_row_other)
  qed
qed

lemma facts_ok_Cons: "facts_ok ((k, items) # fs) \<longleftrightarrow> k \<notin> fst ` set fs \<and> list_all row_ok items \<and> facts_ok fs"
  by (auto simp: facts_ok_def)

lemma append_buckets_ok_facts:
  "append_buckets digest p fs = (r, fs') \<Longrightarrow> facts_ok fs \<Longrightarrow> facts_ok fs' \<and> map fst fs' = map fst fs"
proof (induction fs arbitrary: r fs')
  case Nil
  then show ?case by simp
next
  case (Cons b fs)
  obtain k items where b: "b = (k, items)" by (cases b)
  obtain r2 fs2 where r2: "append_buckets digest p fs = (r2, fs2)" by fastforce
  have ok: "facts_ok fs" and items: "list_all row_ok items" and k: "k \<notin> fst ` set fs"
    using Cons.prems(2) by (simp_all add: b facts_ok_Cons)
  have ih: "facts_ok fs2" "map fst fs2 = map fst fs" using Cons.IH [OF r2 ok] by simp_all
  then have k2: "k \<notin> fst ` set fs2" using k by (metis list.set_map)
  show ?case
  proof (cases "list_all (\<lambda>item. append_item digest p item \<noteq> None) items")
    case True
    then have ai: "append_items digest p items = Some (map (upd_row digest p) items, count_stats digest p items)"
      by (simp add: append_items_eq del: not_None_eq)
    have "list_all row_ok (map (upd_row digest p) items)"
      using True items row_ok_upd by (auto simp: list_all_iff simp del: not_None_eq)
    then show ?thesis using Cons.prems(1) ai r2 ih k2 by (auto simp: b facts_ok_Cons)
  next
    case False
    then have "append_items digest p items = None" by (simp add: append_items_eq del: not_None_eq)
    then show ?thesis using Cons.prems by (simp add: b)
  qed
qed

lemma append_to_bucket_facts_ok [inv_intros]: "facts_ok fs \<Longrightarrow> row_ok p \<Longrightarrow> facts_ok (append_to_bucket k p fs)"
  unfolding facts_ok_def list_all_iff set_append_to_bucket by (simp add: append_to_bucket_def distinct_update)

lemma row_ok_attached:
  "keycol ''case_id'' row \<noteq> [] \<Longrightarrow> keycol ''fact_key'' row \<noteq> [] \<Longrightarrow> row_ok (attach_subject_metadata digest cf row)"
  by (simp add: row_ok_def attach_other)

lemma append_payload_facts_ok:
  assumes "append_payload digest row fs = (r, fs')" and "facts_ok fs"
  shows "facts_ok fs'"
proof -
  let ?p = "attach_subject_metadata digest [] row"
  obtain r1 fs1 where r1: "append_buckets digest ?p fs = (r1, fs1)" by fastforce
  have ok1: "facts_ok fs1" using append_buckets_ok_facts [OF r1 assms(2)] by simp
  have "fs' = fs \<or> fs' = fs1 \<or> (row_ok ?p \<and> (\<exists>k. fs' = append_to_bucket k ?p fs1))"
    using assms(1) r1 by (auto simp: append_payload_def Let_def row_ok_def split: if_splits option.splits)
  then show ?thesis using assms(2) ok1 append_to_bucket_facts_ok by (elim disjE conjE exE) simp_all
qed

lemma append_facts_ok [inv_intros]:
  "facts_ok fs \<Longrightarrow> facts_ok (snd (append_facts_with_supersession digest rows fs))"
proof (induction rows arbitrary: fs)
  case (Cons row rows)
  obtain r1 fs1 where r1: "append_payload digest row fs = (r1, fs1)" by fastforce
  note ok = append_payload_facts_ok [OF r1 Cons.prems]
  show ?case
  proof (cases r1)
    case None
    with r1 ok show ?thesis by simp
  next
    case (Some s)
    with r1 Cons.IH [OF ok] show ?thesis by (simp add: case_prod_unfold)
  qed
qed simp

lemma map_rows_facts_ok [inv_intros]:
  "facts_ok fs \<Longrightarrow> (\<And>r. row_ok r \<Longrightarrow> row_ok (f r)) \<Longrightarrow> facts_ok (map_rows f fs)"
  by (simp add: facts_ok_def list_all_iff)

lemma row_ok_supersede_other: "row_ok r \<Longrightarrow> row_ok (supersede_other_messages digest mid i grp r)"
  by (simp add: supersede_other_messages_def Let_def) (simp add: row_ok_def)

lemma retire_message_facts_ok [inv_intros]: "facts_ok fs \<Longrightarrow> facts_ok (retire_message mid fs)"
proof -
  assume ok: "facts_ok fs"
  have "set (map fst (retire_message mid fs)) \<subseteq> set (map fst fs) \<and>
      (distinct (map fst fs) \<longrightarrow> distinct (map fst (retire_message mid fs)))"
    by (induction mid fs rule: retire_message.induct) (auto simp: Let_def)
  with ok show ?thesis by (simp add: facts_ok_def retire_message_rows list_all_iff)
qed

lemma retire_bucket_facts_ok [inv_intros]: "facts_ok fs \<Longrightarrow> facts_ok (retire_bucket mid fs)"
proof -
  assume ok: "facts_ok fs"
  have "distinct (map fst (retire_bucket mid fs))"
    using ok by (simp add: facts_ok_def retire_bucket_def Let_def distinct_update distinct_delete split: option.split)
  with ok retire_bucket_rows [of mid fs] show ?thesis by (auto simp: facts_ok_def list_all_iff)
qed

lemma insert_replaced_facts_ok:
  "facts_ok fs \<Longrightarrow> list_all row_ok ps \<Longrightarrow> facts_ok (foldl (insert_replaced digest mid cid i) fs ps)"
proof (induction ps arbitrary: fs)
  case (Cons p ps)
  have "facts_ok (insert_replaced digest mid cid i fs p)"
    unfolding insert_replaced_def using Cons.prems by (auto intro: append_to_bucket_facts_ok)
  with Cons show ?case by simp
qed simp

lemma apply_groups_facts_ok:
  "facts_ok fs \<Longrightarrow> list_all (\<lambda>(i, grp). list_all row_ok grp) gs \<Longrightarrow> facts_ok (foldl (apply_group digest mid) fs gs)"
proof (induction gs arbitrary: fs)
  case (Cons g gs)
  obtain i grp where g: "g = (i, grp)" by (cases g)
  have "facts_ok (apply_group digest mid fs (i, grp))"
    unfolding apply_group_eq using Cons.prems
    by (intro insert_replaced_facts_ok map_rows_facts_ok row_ok_supersede_other) (simp_all add: g)
  with Cons show ?case by (simp add: g)
qed simp

lemma replaced_payloads_ok: "list_all row_ok (replaced_payloads digest rows)"
  by (auto simp: replaced_payloads_def list_all_iff row_ok_def dget_setdefault)

lemma replace_facts_ok [inv_intros]:
  "facts_ok (m_facts st) \<Longrightarrow> facts_ok (m_facts (replace_message_facts digest message_id rows st))"
proof -
  assume ok: "facts_ok (m_facts st)"
  have "list_all (\<lambda>(i, grp). list_all row_ok grp) (groups_of (idn digest) (replaced_payloads digest rows))"
    using replaced_payloads_ok [of digest rows] by (auto simp: list_all_iff groups_of_mem)
  with ok show ?thesis
    by (auto simp: replace_message_facts_def Let_def apply_replaced_message_fact_rows_def
        intro!: apply_groups_facts_ok inv_intros)
qed

lemma set_row_facts_ok:
  assumes "facts_ok fs" and "row_ok r"
  shows "facts_ok (set_row k i r fs)"
proof -
  have "set (fact_rows (AList.update k ys fs)) \<subseteq> set ys \<union> set (fact_rows fs)" for ys
    by (induction fs) auto
  moreover have "set ((lookup_rows k fs)[i := r]) \<subseteq> insert r (set (fact_rows fs))"
  proof -
    have "set (lookup_rows k fs) \<subseteq> set (fact_rows fs)"
      by (induction fs) (auto simp: lookup_rows_def split: if_splits)
    then show ?thesis using set_update_subset_insert by fastforce
  qed
  ultimately have "set (fact_rows (set_row k i r fs)) \<subseteq> insert r (set (fact_rows fs))"
    unfolding set_row_def by blast
  with assms show ?thesis by (auto simp: facts_ok_def list_all_iff set_row_def distinct_update)
qed

lemma live_entries_ok: "facts_ok fs \<Longrightarrow> e \<in> set (live_entries cid fs) \<Longrightarrow> row_ok (entry_row e)"
  by (auto simp: live_entries_def fact_positions_def facts_ok_def fact_rows_def list_all_iff entry_row_def
      enumerate_mem)

lemma supersede_entries_facts_ok:
  "facts_ok fs \<Longrightarrow> list_all (\<lambda>e. row_ok (entry_row e)) es \<Longrightarrow>
   facts_ok (snd (foldl (\<lambda>(n, fs) (k, i, item). (n + 1, set_row k i (superseded_row t f r item) fs)) (n, fs) es))"
proof (induction es arbitrary: n fs)
  case (Cons e es)
  obtain k i item where e: "e = (k, i, item)" by (cases e)
  have "row_ok item" using Cons.prems(2) by (simp add: e entry_row_def)
  then have "row_ok (superseded_row t f r item)" unfolding row_ok_superseded by (simp add: row_ok_def)
  with Cons.prems(1) have "facts_ok (set_row k i (superseded_row t f r item) fs)" by (rule set_row_facts_ok)
  with Cons show ?case by (simp add: e)
qed simp

lemma reconcile_groups_facts_ok:
  "facts_ok (snd nfs) \<Longrightarrow> list_all (list_all (\<lambda>e. row_ok (entry_row e))) gs \<Longrightarrow>
   facts_ok (snd (foldl reconcile_group nfs gs))"
proof (induction gs arbitrary: nfs)
  case (Cons es gs)
  obtain n fs where nfs: "nfs = (n, fs)" by (cases nfs)
  have "list_all (\<lambda>e. row_ok (entry_row e)) (tl (newest_first es))"
    using Cons.prems(2) newest_first_props(1) [of es] by (auto simp: list_all_iff dest: list.set_sel(2) [rotated])
      (metis emptyE list.set(1) list.set_sel(2) tl_Nil)
  with Cons.prems(1) have "facts_ok (snd (reconcile_group nfs es))"
    unfolding reconcile_group_def nfs Let_def
    by (cases "length es < 2") (simp_all only: if_True if_False snd_conv supersede_entries_facts_ok)
  with Cons show ?case by simp
qed simp

lemma reconcile_facts_ok [inv_intros]: "facts_ok fs \<Longrightarrow> facts_ok (snd (reconcile_facts digest case_id fs))"
proof -
  assume ok: "facts_ok fs"
  have "list_all (list_all (\<lambda>e. row_ok (entry_row e)))
      (map snd (groups_of (\<lambda>e. idn digest (entry_row e)) (live_entries (strip case_id) fs)))"
    using live_entries_ok [OF ok] by (auto simp: list_all_iff groups_of_mem)
  with ok show ?thesis by (simp add: reconcile_facts_def Let_def reconcile_groups_facts_ok)
qed

lemma reassign_facts_ok [inv_intros]:
  assumes "facts_ok (m_facts st)"
  shows "facts_ok (m_facts (snd (reassign_case_facts digest source_case_id target_case_id st)))"
proof -
  let ?f = "\<lambda>row. if col ''case_id'' row = strip source_case_id
    then AList.update ''case_id'' (PStr (strip target_case_id)) row else row"
  have "facts_ok (map_rows ?f (m_facts st))" if "strip target_case_id \<noteq> []"
    using assms that by (intro map_rows_facts_ok) (auto simp: row_ok_def)
  then show ?thesis
    using assms reconcile_facts_ok
    by (auto simp: reassign_case_facts_def Let_def reconcile_active_fact_identities_def map_rows_def case_prod_unfold)
qed

text \<open>The tables the operations reach from an empty one.\<close>

inductive fact_reachable :: "(string \<Rightarrow> string) \<Rightarrow> mailbox_store \<Rightarrow> bool" for digest where
  reach_start: "m_facts st = [] \<Longrightarrow> fact_reachable digest st"
| reach_append: "fact_reachable digest st \<Longrightarrow> fact_reachable digest (snd (append_fact_rows digest rows st))"
| reach_replace: "fact_reachable digest st \<Longrightarrow> fact_reachable digest (replace_message_facts digest message_id rows st)"
| reach_reassign: "fact_reachable digest st \<Longrightarrow>
    fact_reachable digest (snd (reassign_case_facts digest source_case_id target_case_id st))"
| reach_reconcile: "fact_reachable digest st \<Longrightarrow>
    fact_reachable digest (snd (reconcile_active_fact_identities digest case_id st))"

text \<open>
  Property C26.  Whatever the operations do, the fact table is well formed: bucket keys are distinct and every row
  has a case, a fact key and a dictionary as metadata.
\<close>

theorem fact_table_ok: "fact_reachable digest st \<Longrightarrow> facts_ok (m_facts st)"
proof (induction rule: fact_reachable.induct)
  case (reach_start st)
  then show ?case by (simp add: facts_ok_def)
next
  case (reach_append st rows)
  then show ?case using append_facts_ok [of "m_facts st" digest rows] by (simp add: append_fact_rows_def case_prod_unfold)
next
  case (reach_replace st message_id rows)
  then show ?case by (intro replace_facts_ok)
next
  case (reach_reassign st source_case_id target_case_id)
  then show ?case by (intro reassign_facts_ok)
next
  case (reach_reconcile st case_id)
  then show ?case using reconcile_facts_ok [of "m_facts st" digest case_id]
    by (simp add: reconcile_active_fact_identities_def case_prod_unfold)
qed

subsection \<open>Sample tables\<close>

definition sample_store :: mailbox_store where
  "sample_store = empty_mailbox\<lparr>m_facts := snd (append_facts_with_supersession plain_text
     [sample_fact ''A'' ''price'' ''100'' ''m1'' ''f1'' ''1''] [])\<rparr>"

theorem fact_table_ok_witness: "facts_ok (m_facts (replace_message_facts plain_text ''m1''
    [sample_fact ''A'' ''price'' ''120'' ''m1'' ''f2'' ''2''] empty_mailbox))"
  by (rule fact_table_ok [of plain_text]) (rule reach_replace, rule reach_start, simp add: empty_mailbox_def)

definition two_live :: facts where
  "two_live = [(''m1'', [sample_fact ''A'' ''price'' ''100'' ''m1'' ''f1'' ''1'']),
     (''m2'', [sample_fact ''A'' ''price'' ''120'' ''m2'' ''f2'' ''2''])]"

theorem reconcile_keeps_newest_per_identity_witness:
  "length (live_entries (strip ''A'') (snd (reconcile_facts plain_text ''A'' two_live))) + fst (reconcile_facts plain_text ''A'' two_live) =
     length (live_entries (strip ''A'') two_live) \<and> fst (reconcile_facts plain_text ''A'' two_live) = 1"
proof -
  have d: "distinct (map fst two_live)" and a: "strip ''A'' \<noteq> []" and n: "fst (reconcile_facts plain_text ''A'' two_live) = 1"
    by code_simp+
  from reconcile_keeps_newest_per_identity [OF d a prod.collapse [symmetric] refl refl refl, of plain_text] n
  show ?thesis by blast
qed

theorem message_snapshot_is_replaced_witness:
  "list_all (\<lambda>r. extract_of (strip ''m1'') r \<longrightarrow>
     r \<in> set (replaced_payloads plain_text [sample_fact ''A'' ''price'' ''120'' ''m1'' ''f2'' ''2'']))
   (fact_rows (m_facts (replace_message_facts plain_text ''m1'' [sample_fact ''A'' ''price'' ''120'' ''m1'' ''f2'' ''2''] sample_store)))"
  using message_snapshot_is_replaced [OF refl refl refl] by blast

theorem newer_message_supersedes_witness:
  "list_all (\<lambda>r. same_active plain_text ''A'' (idn plain_text (hd (replaced_payloads plain_text
         [sample_fact ''A'' ''price'' ''120'' ''m2'' ''f2'' ''2'']))) r \<and> col ''message_id'' r \<noteq> strip ''m2'' \<longrightarrow>
       keycol ''normalized_value'' r = keycol ''normalized_value'' (hd (replaced_payloads plain_text
         [sample_fact ''A'' ''price'' ''120'' ''m2'' ''f2'' ''2''])))
     (fact_rows (m_facts (replace_message_facts plain_text ''m2'' [sample_fact ''A'' ''price'' ''120'' ''m2'' ''f2'' ''2''] sample_store)))"
proof (rule newer_message_supersedes [OF refl refl refl])
  let ?ps = "replaced_payloads plain_text [sample_fact ''A'' ''price'' ''120'' ''m2'' ''f2'' ''2'']"
  have l: "length ?ps = 1" by code_simp
  then show "hd ?ps \<in> set ?ps" by (cases ?ps) simp_all
  show "list_all (\<lambda>q. keycol ''case_id'' q = ''A'') ?ps" by code_simp
  show "list_all (\<lambda>q. idn plain_text q = idn plain_text (hd ?ps) \<longrightarrow>
      keycol ''normalized_value'' q = keycol ''normalized_value'' (hd ?ps)) ?ps"
    using l by (cases ?ps) simp_all
qed

subsection \<open>What a move and the precedent search miss\<close>

text \<open>
  A case fact keeps the subject of the case it was stored for: after a move the row of the source and
  the row of the target state different propositions, so the reconciliation leaves both active.
\<close>

lemma moved_case_facts_stay_conflicting:
  "case reassign_case_facts plain_text ''A'' ''B'' (empty_mailbox\<lparr>m_facts :=
      snd (append_facts_with_supersession plain_text
        [sample_fact ''A'' ''price'' ''100'' ''m1'' ''f1'' ''1'', sample_fact ''B'' ''price'' ''200'' ''m2'' ''f2'' ''2''] [])\<rparr>) of
     (moved, st) \<Rightarrow> moved = (1, 0) \<and>
       map (\<lambda>r. (col ''case_id'' r, col ''fact_key'' r, col ''normalized_value'' r, status_of r)) (fact_rows (m_facts st)) =
         [(''B'', ''price'', ''100'', ''active''), (''B'', ''price'', ''200'', ''active'')]"
  by code_simp

text \<open>
  The search for resolved cases reads the bucket whose key is the case id, but buckets are keyed by
  message id or by \<open>append::case:source\<close>: no case is found unless its id is a bucket key.
\<close>

lemma resolved_case_search_reads_buckets:
  assumes "\<forall>(case_id, row)\<in>set (m_cases st). map_of (m_facts st) case_id = None"
  shows "fetch_resolved_cases_by_family_and_fact_keys family keys exclude limit st = []"
proof -
  have "fact_overlap ks case_id st = 0" if "(case_id, row) \<in> set (m_cases st)" for ks case_id row
    using assms that by (auto simp: fact_overlap_def lookup_rows_def)
  then have none: "filter (\<lambda>(case_id, row). fact_overlap ks case_id st > 0) (filter p (m_cases st)) = []" for ks p
    by (auto simp: filter_empty_conv)
  show ?thesis
    unfolding fetch_resolved_cases_by_family_and_fact_keys_def Let_def none
    by (simp add: sort_desc_def slice_to_def)
qed

lemma resolved_case_with_fact_is_not_found:
  "fetch_resolved_cases_by_family_and_fact_keys ''lead'' [''price''] [] 5
     (sample_store\<lparr>m_cases := [(''A'', [(''case_id'', PStr ''A''), (''status'', PStr ''resolved''), (''case_family'', PStr ''lead'')])]\<rparr>) = [] \<and>
   fetch_active_facts_for_case ''A'' sample_store \<noteq> Some []"
  by code_simp

end
