(* ===== verification/Fact_Conflicts.thy ===== *)
theory Fact_Conflicts
  imports Fact_Upkeep
begin

text \<open>
  Disputed facts: how the facts of a case are split into one active row per proposition and the
  conflicts between values (\<open>split_conflicting_facts\<close> in \<open>mailbox_memory_runtime.py\<close>), how the
  conflicts mark the facts an action may not rest on, and when they block an action
  (\<open>mailbox_memory/active_facts.py\<close>).

  \<open>set_order\<close> is the order in which a set of values is iterated, which Python leaves open.  A
  confidence that is not a number raises: the result is then \<open>None\<close>.
\<close>

subsection \<open>Decision keys\<close>

definition DECISION_CRITICAL_FACT_KEYS :: "string list" where
  "DECISION_CRITICAL_FACT_KEYS = [''customer_email'', ''address'', ''heated_area_m2'', ''device'', ''device_model'',
     ''model'', ''service_date'', ''price'', ''amount'', ''amount_total'', ''warranty'', ''service_obligation'',
     ''warranty_service_obligation'']"

definition FACT_KEY_ALIASES :: "(string \<times> string) list" where
  "FACT_KEY_ALIASES = [(''device/model'', ''device_model''), (''device.model'', ''device_model''),
     (''model_urzadzenia'', ''device_model''), (''device/model_name'', ''device_model''),
     (''price/amount'', ''amount''), (''total_amount'', ''amount_total''),
     (''warranty/service_obligation'', ''warranty_service_obligation'')]"

definition ACTION_REQUIRED_FACT_KEYS :: "(string \<times> string list) list" where
  "ACTION_REQUIRED_FACT_KEYS = [(''calculate_quote'', [''heated_area_m2'']),
     (''call_kalk_top_quote'', [''heated_area_m2'']), (''prepare_offer'', [''heated_area_m2'']),
     (''send_offer'', [''heated_area_m2'', ''customer_email'']),
     (''schedule_service'', [''service_date'', ''address'']),
     (''dispatch_service'', [''service_date'', ''address'', ''device_model'']),
     (''send_invoice'', [''customer_email'', ''amount_total'']), (''acknowledge_documents'', []),
     (''ask_for_missing_data'', []), (''prepare_reply'', [])]"

definition normalize_decision_fact_key :: "pyval \<Rightarrow> string" where
  "normalize_decision_fact_key v =
     (let raw = lower (norm_of v) in
      if raw = [] then []
      else let normalized = map (\<lambda>c. if c = CHR '' '' then CHR ''_'' else c) raw
           in case map_of FACT_KEY_ALIASES normalized of Some k \<Rightarrow> k | None \<Rightarrow> normalized)"

definition is_live_fact :: "pydict \<Rightarrow> bool" where
  "is_live_fact row \<longleftrightarrow> status_of row \<noteq> ''superseded''"

definition fetch_current_facts_for_case :: "string \<Rightarrow> mailbox_store \<Rightarrow> pydict list option" where
  "fetch_current_facts_for_case case_id st = fetch_active_facts_for_case (strip case_id) st"

definition conflict_fact_keys :: "pyval \<Rightarrow> string list" where
  "conflict_fact_keys conflicting_facts =
     filter (\<lambda>k. k \<noteq> []) (map (\<lambda>row. normalize_decision_fact_key
       (py_or (py_or (dget ''fact_key'' row) (dget ''predicate'' row)) (dget ''type'' row)))
       (dict_rows (list_items conflicting_facts)))"

definition decision_key :: "pydict \<Rightarrow> string" where
  "decision_key row = normalize_decision_fact_key
     (py_or (py_or (dget ''fact_key'' row) (dget ''predicate'' row)) (dget ''key'' row))"

definition annotate_row :: "string list \<Rightarrow> pydict \<Rightarrow> pydict" where
  "annotate_row blocked_keys row =
     (let key = decision_key row in
      if key \<in> set blocked_keys
      then AList.update ''decision_block_reason'' (PStr ''fact_conflict'')
             (AList.update ''decision_usable'' (PBool False)
               (AList.update ''trust_state'' (PStr ''conflicted'') row))
      else setdefault ''decision_block_reason'' PNone
             (setdefault ''decision_usable'' (PBool True)
               (setdefault ''trust_state'' (PStr (if key \<noteq> [] then ''confirmed'' else ''provisional'')) row)))"

definition annotate_decision_fact_use :: "pyval \<Rightarrow> pyval \<Rightarrow> pydict list" where
  "annotate_decision_fact_use facts conflicting_facts =
     (let blocked_keys = filter (\<lambda>k. k \<in> set DECISION_CRITICAL_FACT_KEYS) (conflict_fact_keys conflicting_facts)
      in map (annotate_row blocked_keys) (dict_rows (list_items facts)))"

definition action_required_fact_keys :: "pyval \<Rightarrow> string list" where
  "action_required_fact_keys action_type =
     (case map_of ACTION_REQUIRED_FACT_KEYS (lower (norm_of action_type)) of Some ks \<Rightarrow> ks | None \<Rightarrow> [])"

definition blocks_action :: "string list \<Rightarrow> pydict \<Rightarrow> bool" where
  "blocks_action required item \<longleftrightarrow>
     decision_key item \<in> set required \<and> dget ''decision_usable'' item = PBool False \<and>
     dget ''decision_block_reason'' item = PStr ''fact_conflict''"

record conflict_block =
  cb_blocked :: bool
  cb_blocked_fact_keys :: "string list"
  cb_decision_block_reason :: "string option"

definition action_conflict_block :: "pyval \<Rightarrow> pyval \<Rightarrow> conflict_block" where
  "action_conflict_block action_type facts =
     (let blocked = map decision_key (filter (blocks_action (action_required_fact_keys action_type))
            (dict_rows (list_items facts)))
      in \<lparr>cb_blocked = (blocked \<noteq> []), cb_blocked_fact_keys = sort (remdups blocked),
          cb_decision_block_reason = (if blocked \<noteq> [] then Some ''fact_conflict'' else None)\<rparr>)"

subsection \<open>Splitting\<close>

text \<open>
  \<open>str.casefold\<close> on the modelled range (the micro sign, whose folding lies outside the range, is
  its own).
\<close>

definition casefold :: "string \<Rightarrow> string" where
  "casefold s = concat (map (\<lambda>c. if ord_of c = 223 then ''ss'' else [lower_char c]) s)"

definition dedupe_values :: "string list \<Rightarrow> string list" where
  "dedupe_values values = dedup_key casefold [] (filter (\<lambda>v. v \<noteq> []) (map strip values))"

definition live_prepared :: "(string \<Rightarrow> string) \<Rightarrow> pydict list \<Rightarrow> pydict list" where
  "live_prepared digest facts = filter is_live_fact (map (attach_subject_metadata digest []) facts)"

text \<open>The values a newer message replaced: settled supersessions are left out.\<close>

definition replaced_values :: "(string \<Rightarrow> string) \<Rightarrow> pydict list \<Rightarrow> string list \<Rightarrow> string list" where
  "replaced_values digest facts identity =
     remdups (filter (\<lambda>v. v \<noteq> []) (map (keycol ''normalized_value'') (filter (\<lambda>fact.
       \<not> is_live_fact fact \<and> text_of (dget ''supersede_reason'' (subject_meta fact)) = ''replace_message_facts'' \<and>
       proposition_identity digest [] fact = identity)
       (map (attach_subject_metadata digest []) facts))))"

definition rank_facts :: "pydict list \<Rightarrow> pydict list option" where
  "rank_facts items =
     (if list_all (\<lambda>item. confidence_of item \<noteq> None) items
      then Some (sort_key (\<lambda>item. desc_key (the (confidence_of item))) (sort_desc (col ''observed_at'') items))
      else None)"

definition conflict_entry :: "(string \<Rightarrow> string) \<Rightarrow> pydict \<Rightarrow> string \<Rightarrow> string list \<Rightarrow> pydict" where
  "conflict_entry digest best fact_key values =
     [(''entity_scope'', PStr (py_str (py_or (dget ''entity_scope'' best) (PStr ''case'')))),
      (''fact_key'', PStr fact_key), (''values'', PList (map PStr (sort values)))] @
     (case fact_subject_ref digest [] best of
        Some ref \<Rightarrow> [(''subject_kind'', PStr (sr_kind ref)), (''subject_identity'', PStr (sr_id ref)),
                     (''subject_resolution'', PStr (sr_resolution ref))]
      | None \<Rightarrow> [])"

text \<open>The active row of a group and its conflict, when its values differ.\<close>

definition split_group ::
  "(string list \<Rightarrow> string list) \<Rightarrow> (string \<Rightarrow> string) \<Rightarrow> pydict list \<Rightarrow> string list \<times> pydict list \<Rightarrow> (pydict \<times> pydict list) option" where
  "split_group set_order digest facts grp =
     (case grp of (identity, items) \<Rightarrow>
        (case rank_facts items of
           None \<Rightarrow> None
         | Some ranked \<Rightarrow>
             (let values = dedupe_values (filter (\<lambda>v. strip v \<noteq> []) (map (col ''normalized_value'') items) @
                    set_order (replaced_values digest facts identity))
              in Some (hd ranked, if length values > 1
                   then [conflict_entry digest (hd ranked) (keycol ''fact_key'' (hd items)) values] else []))))"

fun split_groups ::
  "(string list \<Rightarrow> string list) \<Rightarrow> (string \<Rightarrow> string) \<Rightarrow> pydict list \<Rightarrow> (string list \<times> pydict list) list \<Rightarrow>
   (pydict list \<times> pydict list) option" where
  "split_groups set_order digest facts [] = Some ([], [])"
| "split_groups set_order digest facts (g # gs) =
     (case split_group set_order digest facts g of
        None \<Rightarrow> None
      | Some (a, c) \<Rightarrow> map_option (\<lambda>(as, cs). (a # as, c @ cs)) (split_groups set_order digest facts gs))"

text \<open>Rows of different scopes that disagree on a key that has no subject.\<close>

definition cross_scope_conflicts :: "pydict list \<Rightarrow> pydict list \<Rightarrow> pydict list" where
  "cross_scope_conflicts live conflicts =
     concat (map (\<lambda>(fact_key, rows).
         let values = dedupe_values (map (keycol ''normalized_value'') rows) in
         if length values \<le> 1 \<or> is_subject_aware_fact_key fact_key \<or>
            fact_key \<in> set (map (col ''fact_key'') conflicts) then []
         else [[(''entity_scope'', PStr ''mixed''), (''fact_key'', PStr fact_key),
                (''values'', PList (map PStr (sort values)))]])
       (groups_of (keycol ''fact_key'') (filter (\<lambda>fact. keycol ''fact_key'' fact \<noteq> []) live)))"

definition split_conflicting_facts ::
  "(string list \<Rightarrow> string list) \<Rightarrow> (string \<Rightarrow> string) \<Rightarrow> pydict list \<Rightarrow> (pydict list \<times> pydict list) option" where
  "split_conflicting_facts set_order digest facts =
     (let live = live_prepared digest facts in
      map_option (\<lambda>(active, conflicts). (active, conflicts @ cross_scope_conflicts live conflicts))
        (split_groups set_order digest facts (groups_of (proposition_identity digest []) live)))"

subsection \<open>Blocking\<close>

lemma required_are_critical:
  "k \<in> set (action_required_fact_keys a) \<Longrightarrow> k \<in> set DECISION_CRITICAL_FACT_KEYS"
proof -
  have "list_all (\<lambda>(a, ks). set ks \<subseteq> set DECISION_CRITICAL_FACT_KEYS) ACTION_REQUIRED_FACT_KEYS"
    by (simp add: ACTION_REQUIRED_FACT_KEYS_def DECISION_CRITICAL_FACT_KEYS_def)
  then show "k \<in> set (action_required_fact_keys a) \<Longrightarrow> k \<in> set DECISION_CRITICAL_FACT_KEYS"
    by (cases "map_of ACTION_REQUIRED_FACT_KEYS (lower (norm_of a))")
      (auto simp: action_required_fact_keys_def list_all_iff dest!: map_of_SomeD)
qed

lemma annotate_key [simp]: "decision_key (annotate_row ks row) = decision_key row"
  by (simp add: annotate_row_def decision_key_def Let_def dget_setdefault)

definition pre_blocked :: "pydict \<Rightarrow> bool" where
  "pre_blocked row \<longleftrightarrow> dget ''decision_usable'' row = PBool False \<and>
     dget ''decision_block_reason'' row = PStr ''fact_conflict''"

lemma dhas_setdefault: "dhas k (setdefault k' v d) \<longleftrightarrow> k = k' \<or> dhas k d"
  by (auto simp: dhas_def setdefault_def map_add_def split: option.splits)

lemma no_dhas: "\<not> dhas k d \<Longrightarrow> dget k d = PNone"
  by (simp add: dhas_def dget_def)

lemma dict_rows_comp [simp]: "dict_rows (map (PDict \<circ> f) xs) = map f xs"
  by (induction xs) simp_all

lemma annotated_blocks:
  "blocks_action required (annotate_row ks row) \<longleftrightarrow>
     decision_key row \<in> set required \<and> (decision_key row \<in> set ks \<or> pre_blocked row)"
proof (cases "decision_key row \<in> set ks")
  case True
  then show ?thesis by (simp add: blocks_action_def annotate_row_def [of ks row]) (simp add: decision_key_def)
next
  case False
  have "dget ''decision_usable'' (annotate_row ks row) =
      (if dhas ''decision_usable'' row then dget ''decision_usable'' row else PBool True)"
    "dget ''decision_block_reason'' (annotate_row ks row) =
      (if dhas ''decision_block_reason'' row then dget ''decision_block_reason'' row else PNone)"
    using False by (simp_all add: annotate_row_def Let_def dget_setdefault dhas_setdefault)
  then have "dget ''decision_usable'' (annotate_row ks row) = PBool False \<and>
      dget ''decision_block_reason'' (annotate_row ks row) = PStr ''fact_conflict'' \<longleftrightarrow> pre_blocked row"
    using no_dhas [of "''decision_usable''" row] no_dhas [of "''decision_block_reason''" row]
    by (simp add: pre_blocked_def)
  with False show ?thesis by (simp add: blocks_action_def)
qed

lemma dict_rows_in: "row \<in> set (dict_rows xs) \<longleftrightarrow> PDict row \<in> set xs"
  by (induction xs rule: dict_rows.induct) auto

lemma blocked_iff:
  "cb_blocked (action_conflict_block action (PList (map PDict (annotate_decision_fact_use facts conflicts)))) \<longleftrightarrow>
    list_ex (\<lambda>row. decision_key row \<in> set (action_required_fact_keys action) \<and>
      (decision_key row \<in> set (conflict_fact_keys conflicts) \<or> pre_blocked row)) (dict_rows (list_items facts))"
  using required_are_critical [of _ action]
  by (auto simp: action_conflict_block_def annotate_decision_fact_use_def Let_def filter_empty_conv annotated_blocks
      list_ex_iff)

text \<open>
  The exact condition under which annotated facts block an action.
\<close>

theorem action_blocked_iff:
  "cb_blocked (action_conflict_block action (PList (map PDict (annotate_decision_fact_use facts conflicts)))) \<longleftrightarrow>
    list_ex (\<lambda>row. decision_key row \<in> set (action_required_fact_keys action) \<and>
      (decision_key row \<in> set (conflict_fact_keys conflicts) \<or> pre_blocked row)) (dict_rows (list_items facts))"
  by (rule blocked_iff)

subsection \<open>The split\<close>

lemma hd_sort_desc:
  "x \<in> set (filter p (sort_desc f xs)) \<Longrightarrow> f x \<le> f (hd (filter p (sort_desc f xs)))"
proof -
  assume x: "x \<in> set (filter p (sort_desc f xs))"
  have "sorted (map f (rev (sort_desc f xs)))" using sort_desc_sorted [of f xs] by (simp add: rev_map)
  then have "sorted (map f (filter p (rev (sort_desc f xs))))" by (rule sorted_filter)
  then have "sorted (map f (rev (filter p (sort_desc f xs))))" by (simp add: rev_filter)
  with x show ?thesis by (cases "filter p (sort_desc f xs)") (auto simp: sorted_append)
qed

text \<open>The best row of a group: the greatest confidence and, among those, the newest.\<close>

definition outranks :: "pydict \<Rightarrow> pydict \<Rightarrow> bool" where
  "outranks a b \<longleftrightarrow>
     (let ka = desc_key (the (confidence_of a)); kb = desc_key (the (confidence_of b)) in
      ka < kb \<or> (ka = kb \<and> col ''observed_at'' b \<le> col ''observed_at'' a))"

lemma rank_facts_best:
  assumes r: "rank_facts items = Some ranked" and ne: "items \<noteq> []"
  shows "hd ranked \<in> set items" and "\<And>x. x \<in> set items \<Longrightarrow> outranks (hd ranked) x"
proof -
  let ?k = "\<lambda>item. desc_key (the (confidence_of item))" and ?o = "col ''observed_at''"
  let ?d = "sort_desc ?o items"
  have rk: "ranked = sort_key ?k ?d" using r by (auto simp: rank_facts_def split: if_splits)
  have set_rk: "set ranked = set items" by (simp add: rk)
  obtain b rest where b: "ranked = b # rest" using ne set_rk by (cases ranked) auto
  show "hd ranked \<in> set items" using b set_rk by auto
  fix x assume x: "x \<in> set items"
  have "sorted (map ?k ranked)" by (simp add: rk)
  then have le: "?k b \<le> ?k x" using x b set_rk by (cases "x = b") auto
  have st: "filter (\<lambda>y. ?k y = ?k b) ranked = filter (\<lambda>y. ?k y = ?k b) ?d"
    unfolding rk by (rule sort_key_stable)
  have "?o x \<le> ?o b" if "?k x = ?k b"
  proof -
    have "hd (filter (\<lambda>y. ?k y = ?k b) ?d) = b" unfolding st [symmetric] by (simp add: b)
    moreover have "x \<in> set (filter (\<lambda>y. ?k y = ?k b) ?d)" using x that by simp
    ultimately show ?thesis using hd_sort_desc [of x "\<lambda>y. ?k y = ?k b" ?o items] by simp
  qed
  with le show "outranks (hd ranked) x" by (auto simp: outranks_def Let_def b)
qed

lemma split_groups_Some:
  "split_groups so digest facts gs = Some (as, cs) \<Longrightarrow>
   list_all2 (\<lambda>g a. \<exists>c. split_group so digest facts g = Some (a, c) \<and> set c \<subseteq> set cs) gs as \<and>
   (\<forall>c\<in>set cs. \<exists>g\<in>set gs. \<exists>a c'. split_group so digest facts g = Some (a, c') \<and> c \<in> set c')"
proof (induction gs arbitrary: as cs)
  case (Cons g gs)
  obtain a c where g: "split_group so digest facts g = Some (a, c)"
    using Cons.prems by (cases "split_group so digest facts g") auto
  obtain as2 cs2 where gs: "split_groups so digest facts gs = Some (as2, cs2)"
    using Cons.prems g by (cases "split_groups so digest facts gs") auto
  have eq: "as = a # as2" "cs = c @ cs2" using Cons.prems g gs by auto
  have "list_all2 (\<lambda>g a. \<exists>c. split_group so digest facts g = Some (a, c) \<and> set c \<subseteq> set cs) gs as2"
    by (rule list_all2_mono [OF Cons.IH [OF gs, THEN conjunct1]]) (auto simp: eq)
  then show ?case using Cons.IH [OF gs] g by (auto simp: eq)
qed simp

lemma split_group_Some:
  assumes "split_group so digest facts (i, items) = Some (a, c)"
  obtains ranked where "rank_facts items = Some ranked" and "a = hd ranked"
    and "c = (let values = dedupe_values (filter (\<lambda>v. strip v \<noteq> []) (map (col ''normalized_value'') items) @
                so (replaced_values digest facts i)) in
              if length values > 1 then [conflict_entry digest (hd ranked) (keycol ''fact_key'' (hd items)) values] else [])"
  using assms by (auto simp: split_group_def Let_def split: option.splits if_splits)

lemma split_Some:
  assumes "split_conflicting_facts so digest facts = Some (active, conflicts)"
  obtains cs where "split_groups so digest facts (groups_of (idn digest) (live_prepared digest facts)) = Some (active, cs)"
    and "conflicts = cs @ cross_scope_conflicts (live_prepared digest facts) cs"
  using assms by (auto simp: split_conflicting_facts_def Let_def)

lemma group_rows:
  assumes "(i, items) \<in> set (groups_of f xs)"
  shows "items \<noteq> []" and "set items \<subseteq> set xs" and "\<And>x. x \<in> set items \<longleftrightarrow> x \<in> set xs \<and> f x = i"
  using assms by (auto simp: groups_of_mem)

text \<open>
  The split chooses one active row for every proposition that has a live row: the most confident one
  and, among those, a newest one.
\<close>

theorem split_picks_best:
  assumes "split_conflicting_facts so digest facts = Some (active, conflicts)"
  shows "distinct (map (idn digest) active) \<and>
    idn digest ` set active = idn digest ` set (live_prepared digest facts) \<and>
    set active \<subseteq> set (live_prepared digest facts) \<and>
    list_all (\<lambda>a. list_all (\<lambda>r. idn digest r = idn digest a \<longrightarrow> outranks a r) (live_prepared digest facts)) active"
proof -
  let ?live = "live_prepared digest facts"
  let ?gs = "groups_of (idn digest) ?live"
  obtain cs where s: "split_groups so digest facts ?gs = Some (active, cs)" using split_Some [OF assms] by blast
  have "list_all2 (\<lambda>g a. \<exists>c. split_group so digest facts g = Some (a, c) \<and> set c \<subseteq> set cs) ?gs active"
    using split_groups_Some [OF s] by blast
  then have all2: "list_all2 (\<lambda>g a. idn digest a = fst g \<and> a \<in> set ?live \<and>
      (\<forall>x\<in>set ?live. idn digest x = idn digest a \<longrightarrow> outranks a x)) ?gs active"
  proof (rule list.rel_mono_strong)
    fix g a assume g: "g \<in> set ?gs"
      and "\<exists>c. split_group so digest facts g = Some (a, c) \<and> set c \<subseteq> set cs"
    moreover obtain i items where gi: "g = (i, items)" by (cases g)
    ultimately obtain ranked where r: "rank_facts items = Some ranked" "a = hd ranked"
      by (blast elim: split_group_Some)
    note gr = group_rows [OF g [unfolded gi]]
    note best = rank_facts_best [OF r(1) gr(1)]
    from best(1) gr(3) have "a \<in> set ?live" "idn digest a = i" by (simp_all add: r(2))
    then show "idn digest a = fst g \<and> a \<in> set ?live \<and>
        (\<forall>x\<in>set ?live. idn digest x = idn digest a \<longrightarrow> outranks a x)"
      using best(2) gr(3) by (simp add: gi r(2))
  qed
  have ids: "map (idn digest) active = map fst ?gs"
    using all2 by (induction rule: list_all2_induct) simp_all
  have "a \<in> set ?live \<and> (\<forall>x\<in>set ?live. idn digest x = idn digest a \<longrightarrow> outranks a x)" if "a \<in> set active" for a
    using all2 that by (induction rule: list_all2_induct) auto
  moreover have "distinct (map (idn digest) active)" unfolding ids using groups_of_lookup [of "idn digest" ?live] by blast
  moreover have "idn digest ` set active = idn digest ` set ?live"
    using arg_cong [OF ids, of set] groups_of_keys [of "idn digest" ?live] by simp
  ultimately show ?thesis by (auto simp: list_all_iff)
qed

subsection \<open>Disputed facts\<close>

lemma identity_key: "last (idn digest p) = keycol ''fact_key'' p"
  by (simp add: proposition_identity_def Let_def split: option.split)

lemma normalize_key_cong: "norm_of v = norm_of w \<Longrightarrow> normalize_decision_fact_key v = normalize_decision_fact_key w"
  by (simp add: normalize_decision_fact_key_def)

lemma norm_of_truthy: "norm_of v \<noteq> [] \<Longrightarrow> py_or v w = v"
  by (auto simp: norm_of_def text_of_def py_or_def)

lemma decision_key_eq:
  assumes "keycol ''fact_key'' row \<noteq> []"
  shows "decision_key row = normalize_decision_fact_key (PStr (keycol ''fact_key'' row))"
proof -
  have "decision_key row = normalize_decision_fact_key (dget ''fact_key'' row)"
    by (simp add: decision_key_def norm_of_truthy [OF assms])
  also have "\<dots> = normalize_decision_fact_key (PStr (keycol ''fact_key'' row))"
    by (rule normalize_key_cong) simp
  finally show ?thesis .
qed

lemma dedupe_two:
  assumes "v \<in> set vs" and "w \<in> set vs" and "strip v \<noteq> []" and "strip w \<noteq> []"
    and "casefold (strip v) \<noteq> casefold (strip w)"
  shows "length (dedupe_values vs) > 1"
proof -
  have "casefold ` set (dedupe_values vs) = casefold ` set (filter (\<lambda>v. v \<noteq> []) (map strip vs))"
    by (simp add: dedupe_values_def dedup_key_keys)
  moreover have "{casefold (strip v), casefold (strip w)} \<subseteq> casefold ` set (filter (\<lambda>v. v \<noteq> []) (map strip vs))"
    using assms by auto
  ultimately have "card {casefold (strip v), casefold (strip w)} \<le> card (casefold ` set (dedupe_values vs))"
    by (intro card_mono) simp_all
  also have "\<dots> \<le> length (dedupe_values vs)" by (meson card_image_le card_length finite_set le_trans)
  finally show ?thesis using assms(5) by simp
qed

text \<open>
  Two values of one proposition block the actions that require its key, whatever further rows and conflicts are
  annotated with them.
\<close>

lemma disputed_fact_blocks:
  assumes split: "split_conflicting_facts so digest facts = Some (active, conflicts)"
    and rows: "r1 \<in> set (live_prepared digest facts)" "r2 \<in> set (live_prepared digest facts)"
    and same: "idn digest r1 = idn digest r2"
    and vals: "keycol ''normalized_value'' r1 \<noteq> []" "keycol ''normalized_value'' r2 \<noteq> []"
      "casefold (keycol ''normalized_value'' r1) \<noteq> casefold (keycol ''normalized_value'' r2)"
    and key: "keycol ''fact_key'' r1 \<noteq> []"
    and req: "decision_key r1 \<in> set (action_required_fact_keys action)"
    and into: "set active \<subseteq> set rows" "set conflicts \<subseteq> set confs"
  shows "cb_blocked (action_conflict_block action (PList (map PDict
    (annotate_decision_fact_use (PList (map PDict rows)) (PList (map PDict confs))))))"
proof -
  let ?live = "live_prepared digest facts"
  let ?items = "filter (\<lambda>r. idn digest r = idn digest r1) ?live"
  obtain cs where s: "split_groups so digest facts (groups_of (idn digest) ?live) = Some (active, cs)"
    and conf: "conflicts = cs @ cross_scope_conflicts ?live cs" using split_Some [OF split] by blast
  have ne: "?items \<noteq> []" using rows(1) by (auto simp: filter_empty_conv)
  have g: "(idn digest r1, ?items) \<in> set (groups_of (idn digest) ?live)"
    unfolding groups_of_mem by (rule conjI [OF refl ne])
  obtain a c where a: "a \<in> set active" and sg: "split_group so digest facts (idn digest r1, ?items) = Some (a, c)"
    and c: "set c \<subseteq> set cs"
    using split_groups_Some [OF s, THEN conjunct1] g by (auto simp: list_all2_conv_all_nth in_set_conv_nth) metis
  obtain ranked where rk: "rank_facts ?items = Some ranked" "a = hd ranked"
    and ceq: "c = (let values = dedupe_values (filter (\<lambda>v. strip v \<noteq> []) (map (col ''normalized_value'') ?items) @
                so (replaced_values digest facts (idn digest r1))) in
              if length values > 1 then [conflict_entry digest (hd ranked) (keycol ''fact_key'' (hd ?items)) values] else [])"
    using split_group_Some [OF sg] by blast
  have st: "strip (col ''normalized_value'' r) = keycol ''normalized_value'' r" for r by (simp add: norm_of_def)
  have "length (dedupe_values (filter (\<lambda>v. strip v \<noteq> []) (map (col ''normalized_value'') ?items) @
      so (replaced_values digest facts (idn digest r1)))) > 1"
    by (rule dedupe_two [of "col ''normalized_value'' r1" _ "col ''normalized_value'' r2"])
      (use rows same vals in \<open>simp_all add: st\<close>)
  then obtain vs where "conflict_entry digest (hd ranked) (keycol ''fact_key'' (hd ?items)) vs \<in> set c"
    unfolding ceq by (simp add: Let_def)
  then have e: "conflict_entry digest (hd ranked) (keycol ''fact_key'' (hd ?items)) vs \<in> set confs"
    using c conf into(2) by auto
  have kk: "keycol ''fact_key'' r = keycol ''fact_key'' r1" if "r \<in> set ?items" for r
    using that identity_key [of digest r] identity_key [of digest r1] by simp
  have "hd ?items \<in> set ?items" using ne by (rule hd_in_set)
  then have k1: "keycol ''fact_key'' (hd ?items) = keycol ''fact_key'' r1" by (rule kk)
  have "a \<in> set ?items" using rank_facts_best(1) [OF rk(1) ne] rk(2) by simp
  then have ka: "keycol ''fact_key'' a = keycol ''fact_key'' r1" by (rule kk)
  have dk: "decision_key a = decision_key r1" using key ka by (simp add: decision_key_eq)
  let ?e = "conflict_entry digest (hd ranked) (keycol ''fact_key'' (hd ?items)) vs"
  have fe: "dget ''fact_key'' ?e = PStr (keycol ''fact_key'' r1)" by (simp add: conflict_entry_def k1)
  have n1: "norm_of (PStr (keycol ''fact_key'' r1)) \<noteq> []" using key by simp
  have "normalize_decision_fact_key (py_or (py_or (dget ''fact_key'' ?e) (dget ''predicate'' ?e)) (dget ''type'' ?e)) = decision_key r1"
    unfolding fe norm_of_truthy [OF n1] decision_key_eq [OF key] ..
  moreover have "decision_key r1 \<noteq> []"
    using required_are_critical [OF req] by (auto simp: DECISION_CRITICAL_FACT_KEYS_def)
  ultimately have "decision_key r1 \<in> set (conflict_fact_keys (PList (map PDict confs)))"
    using e by (force simp: conflict_fact_keys_def image_iff)
  then show ?thesis
    unfolding blocked_iff list_ex_iff using a into(1) dk req by (intro bexI [where x = a]) auto
qed

text \<open>
  Property C19.  A disputed fact blocks the actions that rest on it: when two live rows of the facts of a case state
  the same proposition with values that differ beyond upper and lower case, every action that requires
  its key is blocked by the facts the split and the annotation produce.
\<close>

theorem disputed_fact_blocks_action:
  assumes split: "split_conflicting_facts so digest facts = Some (active, conflicts)"
    and rows: "r1 \<in> set (live_prepared digest facts)" "r2 \<in> set (live_prepared digest facts)"
    and same: "idn digest r1 = idn digest r2"
    and vals: "keycol ''normalized_value'' r1 \<noteq> []" "keycol ''normalized_value'' r2 \<noteq> []"
      "casefold (keycol ''normalized_value'' r1) \<noteq> casefold (keycol ''normalized_value'' r2)"
    and key: "keycol ''fact_key'' r1 \<noteq> []"
    and req: "decision_key r1 \<in> set (action_required_fact_keys action)"
  shows "cb_blocked (action_conflict_block action (PList (map PDict
    (annotate_decision_fact_use (PList (map PDict active)) (PList (map PDict conflicts))))))"
  by (rule disputed_fact_blocks [OF assms subset_refl subset_refl])

subsection \<open>Witnesses\<close>

definition area_facts :: "pydict list" where
  "area_facts = [sample_fact ''A'' ''heated_area_m2'' ''120'' ''m1'' ''f1'' ''1'',
     sample_fact ''A'' ''heated_area_m2'' ''160'' ''m2'' ''f2'' ''2'']"

definition plain_list :: "string list \<Rightarrow> string list" where
  "plain_list xs = xs"

definition area_split :: "(pydict list \<times> pydict list) option" where
  "area_split = split_conflicting_facts plain_list plain_text area_facts"

definition area_row :: "nat \<Rightarrow> pydict" where
  "area_row i = live_prepared plain_text area_facts ! i"

lemma area_split_eq: "split_conflicting_facts plain_list plain_text area_facts = Some (fst (the area_split), snd (the area_split))"
proof -
  have "area_split \<noteq> None" by code_simp
  then show ?thesis by (auto simp: area_split_def)
qed

theorem split_picks_best_witness:
  "list_all (\<lambda>a. list_all (\<lambda>r. idn plain_text r = idn plain_text a \<longrightarrow> outranks a r)
     (live_prepared plain_text area_facts)) (fst (the area_split)) \<and> length (fst (the area_split)) = 1"
proof -
  have "length (fst (the area_split)) = 1" by code_simp
  with split_picks_best [OF area_split_eq] show ?thesis by blast
qed

theorem disputed_fact_blocks_action_witness:
  "cb_blocked (action_conflict_block (PStr ''prepare_offer'') (PList (map PDict
     (annotate_decision_fact_use (PList (map PDict (fst (the area_split)))) (PList (map PDict (snd (the area_split))))))))"
proof (rule disputed_fact_blocks_action [OF area_split_eq])
  have "length (live_prepared plain_text area_facts) = 2" by code_simp
  then show "area_row 0 \<in> set (live_prepared plain_text area_facts)" "area_row 1 \<in> set (live_prepared plain_text area_facts)"
    by (simp_all add: area_row_def)
  show "idn plain_text (area_row 0) = idn plain_text (area_row 1)" by code_simp
  show "keycol ''normalized_value'' (area_row 0) \<noteq> []" "keycol ''normalized_value'' (area_row 1) \<noteq> []" by code_simp+
  show "casefold (keycol ''normalized_value'' (area_row 0)) \<noteq> casefold (keycol ''normalized_value'' (area_row 1))" by code_simp
  show "keycol ''fact_key'' (area_row 0) \<noteq> []" by code_simp
  show "decision_key (area_row 0) \<in> set (action_required_fact_keys (PStr ''prepare_offer''))" by code_simp
qed

end
