(* ===== verification/Tool_Contract.thy ===== *)
theory Tool_Contract
  imports Effective_Tools Argument_Constraints
begin

text \<open>
  The values the planner, the policy stages and the tools exchange: a planned tool call and a tool
  result (\<open>agent_runtime/tool_result.py\<close>), the policy envelope and the observed consistency of a plan
  with it (\<open>llm_contracts/engagement_snapshot_v2.py\<close>), the attribution of a failure
  (\<open>agent_runtime/failure_taxonomy.py\<close>) and the classification of an absent envelope
  (\<open>agent_runtime/envelope_presence.py\<close>).

  The envelope extends the record of \<open>Effective_Tools\<close>, which holds the fields the offer of tools
  reads.  Operator-facing sentences are transliterated: a Polish letter or a dash outside U+00FF is
  its ASCII counterpart.
\<close>

subsection \<open>Plans and results\<close>

record tool_call_plan =
  tp_tool_name :: string
  tp_arguments :: pydict
  tp_policy_decision_id :: string
  tp_action_proposal_id :: string
  tp_correlation_status :: string
  tp_semantic_hash :: string
  tp_decision_version_id :: string

definition plan_for :: "string \<Rightarrow> pydict \<Rightarrow> tool_call_plan" where
  "plan_for name arguments = \<lparr>tp_tool_name = name, tp_arguments = arguments, tp_policy_decision_id = [],
     tp_action_proposal_id = [], tp_correlation_status = [], tp_semantic_hash = [], tp_decision_version_id = []\<rparr>"

record tool_result =
  tr_status :: string
  tr_snapshot_delta :: pydict
  tr_turn_summary_pl :: string
  tr_tokens_used :: int
  tr_next_tool_hint :: "string option"
  tr_failure_class :: string
  tr_failure_owner :: string
  tr_retryable :: "bool option"

definition tool_result_of :: "string \<Rightarrow> string \<Rightarrow> pydict \<Rightarrow> tool_result" where
  "tool_result_of status summary delta = \<lparr>tr_status = status, tr_snapshot_delta = delta,
     tr_turn_summary_pl = summary, tr_tokens_used = 0, tr_next_tool_hint = None, tr_failure_class = [],
     tr_failure_owner = [], tr_retryable = None\<rparr>"

text \<open>The delta every refusal carries: stop, and ask the operator for the given reason.\<close>

definition gate_delta :: "string \<Rightarrow> pydict" where
  "gate_delta reason =
     [(''operational_status'', PDict [(''code'', PStr ''pending_operator''), (''blocking'', PBool True)]),
      (''hitl_gate'', PDict [(''required'', PBool True), (''reason'', PStr reason)])]"

subsection \<open>The policy envelope\<close>

record policy_envelope = tool_envelope +
  pe_canonical_decision_id :: string
  pe_decision_version_id :: string
  pe_source_semantic_hash :: string
  pe_decision_candidate_id :: string
  pe_policy_decision_id :: string
  pe_action_proposal_id :: string
  pe_source_signal_id :: string
  pe_source_message_id :: string
  pe_policy_status :: string
  pe_allowed_by_policy :: "bool option"
  pe_requires_operator_approval :: "bool option"
  pe_argument_constraints :: "pydict list"
  pe_proposal_status :: string
  pe_reason_codes :: "string list"
  pe_generated_at :: string
  pe_expires_at :: string

text \<open>An envelope of which only the freshness and the reason codes are given.\<close>

definition bare_envelope :: "string \<Rightarrow> string list \<Rightarrow> policy_envelope" where
  "bare_envelope fresh reasons = \<lparr>freshness = fresh, action_intent = [], action_target = [], action_channel = [],
     allowed_tools = [], allowed_action_tools = [], forbidden_tools = [], pe_canonical_decision_id = [],
     pe_decision_version_id = [], pe_source_semantic_hash = [], pe_decision_candidate_id = [],
     pe_policy_decision_id = [], pe_action_proposal_id = [], pe_source_signal_id = [], pe_source_message_id = [],
     pe_policy_status = [], pe_allowed_by_policy = None, pe_requires_operator_approval = None,
     pe_argument_constraints = [], pe_proposal_status = [], pe_reason_codes = reasons, pe_generated_at = [],
     pe_expires_at = []\<rparr>"

text \<open>The observation a plan leaves; the six statuses of the contract are a datatype.\<close>

datatype plan_status = CONSISTENT | CONFLICTING | MISSING_POLICY_ENVELOPE | STALE_POLICY_ENVELOPE
  | MISSING_PLAN_CORRELATION | NOT_EVALUABLE

fun plan_status_str :: "plan_status \<Rightarrow> string" where
  "plan_status_str CONSISTENT = ''consistent''"
| "plan_status_str CONFLICTING = ''conflicting''"
| "plan_status_str MISSING_POLICY_ENVELOPE = ''missing_policy_envelope''"
| "plan_status_str STALE_POLICY_ENVELOPE = ''stale_policy_envelope''"
| "plan_status_str MISSING_PLAN_CORRELATION = ''missing_plan_correlation''"
| "plan_status_str NOT_EVALUABLE = ''not_evaluable''"

record plan_consistency =
  pc_status :: plan_status
  pc_reason_codes :: "string list"
  pc_argument_violations :: "violation list"
  pc_policy_decision_id :: string
  pc_action_proposal_id :: string
  pc_tool_name :: string

subsection \<open>Failure attribution\<close>

definition attribution :: "string \<Rightarrow> string \<Rightarrow> string \<Rightarrow> bool \<Rightarrow> string \<Rightarrow> (string \<times> string) list \<Rightarrow> string \<Rightarrow> pydict" where
  "attribution failure_class owner stage retryable safe_next_step correlation detail =
     [(''failure_class'', PStr failure_class), (''owner'', PStr owner), (''stage'', PStr (take 80 stage)),
      (''retryable'', PBool retryable), (''safe_next_step'', PStr (take 160 safe_next_step)),
      (''detail'', PStr (take 320 detail))] @
     (if correlation = [] then []
      else [(''correlation'', PDict (map (\<lambda>(k, v). (k, PStr (take 120 v))) (take 8 correlation)))])"

definition attach_attribution :: "tool_result \<Rightarrow> pydict \<Rightarrow> tool_result" where
  "attach_attribution result payload =
     result\<lparr>tr_snapshot_delta := AList.update ''execution_attribution'' (PDict payload) (tr_snapshot_delta result),
       tr_failure_class := text_of (dget ''failure_class'' payload),
       tr_failure_owner := text_of (dget ''owner'' payload),
       tr_retryable := (case dget ''retryable'' payload of PBool b \<Rightarrow> Some b | _ \<Rightarrow> None)\<rparr>"

text \<open>
  The word of the second test that has a letter outside U+00FF occurs in no text of the model, so that
  test is the English one alone.
\<close>

definition classify_tool_handler_error :: "string \<Rightarrow> string \<Rightarrow> string \<Rightarrow> pydict" where
  "classify_tool_handler_error tool_name summary status =
     (let tx = lower summary; name = strip tool_name;
          attr = (\<lambda>fc owner retryable next detail.
            attribution fc owner ''tool_execution'' retryable next [] (name @ '': '' @ detail))
      in if contains tx ''not configured'' \<or> contains tx ''is not configured''
         then attr ''TOOL_CONFIGURATION_MISSING'' ''infra'' False ''request_operator_clarification'' ''configuration missing''
         else if status = ''node_a_error'' \<or> contains tx ''unreachable''
         then attr ''TOOL_UNAVAILABLE'' ''infra'' True ''request_operator_clarification'' ''upstream unavailable''
         else if contains tx ''timeout'' \<or> contains tx ''timed out''
         then attr ''TOOL_TIMEOUT'' ''infra'' True ''retry_or_escalate'' ''timeout''
         else if contains tx ''rate limit'' \<or> contains tx ''429''
         then attr ''TOOL_RATE_LIMITED'' ''infra'' True ''backoff_then_retry'' ''rate limited''
         else if contains tx ''wymagan'' \<or> contains tx ''required'' \<or> contains tx ''invalid''
         then attr ''TOOL_ARGUMENTS_INVALID'' ''planner'' True ''correct_arguments'' ''invalid arguments''
         else attr ''TOOL_EXECUTION_FAILED'' ''capability'' False ''request_operator_clarification'' ''execution failed'')"

subsection \<open>Why an envelope is present or absent\<close>

datatype presence_status = PRESENT_CURRENT | PRESENT_STALE | EXPECTED_ABSENCE | WIRING_FAILURE | STORE_UNAVAILABLE

record envelope_presence =
  ep_status :: presence_status
  ep_expected :: bool
  ep_wiring_ok :: bool
  ep_reason_codes :: "string list"
  ep_policy_decision_id :: string
  ep_action_proposal_id :: string
  ep_decision_candidate_id :: string
  ep_source_signal_id :: string

definition present_as :: "presence_status \<Rightarrow> string list \<Rightarrow> policy_envelope \<Rightarrow> envelope_presence" where
  "present_as status reasons e = \<lparr>ep_status = status, ep_expected = True, ep_wiring_ok = True,
     ep_reason_codes = reasons, ep_policy_decision_id = pe_policy_decision_id e,
     ep_action_proposal_id = pe_action_proposal_id e, ep_decision_candidate_id = pe_decision_candidate_id e,
     ep_source_signal_id = pe_source_signal_id e\<rparr>"

definition absent_as :: "presence_status \<Rightarrow> bool \<Rightarrow> bool \<Rightarrow> string list \<Rightarrow> envelope_presence" where
  "absent_as status expected wiring_ok reasons = \<lparr>ep_status = status, ep_expected = expected,
     ep_wiring_ok = wiring_ok, ep_reason_codes = reasons, ep_policy_decision_id = [], ep_action_proposal_id = [],
     ep_decision_candidate_id = [], ep_source_signal_id = []\<rparr>"

definition STORE_REASONS :: "string list" where
  "STORE_REASONS = [''canonical_action_proposal_v2_store_unavailable'', ''canonical_action_proposal_v2_not_found'',
     ''canonical_policy_decision_not_found'']"

definition absence_reasons :: "policy_envelope option \<Rightarrow> string list" where
  "absence_reasons envelope = (case envelope of
       Some e \<Rightarrow> take 8 (pe_reason_codes e)
     | None \<Rightarrow> [''policy_action_envelope_absent''])"

definition classify_absence :: "string list \<Rightarrow> bool \<Rightarrow> bool \<Rightarrow> bool \<Rightarrow> envelope_presence" where
  "classify_absence reasons case_understanding_present policy_required harness_mode =
     (if list_ex (\<lambda>r. r \<in> set STORE_REASONS) reasons \<and> \<not> case_understanding_present
      then absent_as STORE_UNAVAILABLE (\<not> policy_required) False reasons
      else if harness_mode \<and> \<not> policy_required
      then absent_as EXPECTED_ABSENCE True True (reasons @ [''harness_skips_policy_spine''])
      else if case_understanding_present \<or> policy_required
      then absent_as WIRING_FAILURE False False (reasons @ [''policy_envelope_required_after_brain1''])
      else absent_as EXPECTED_ABSENCE True True reasons)"

definition classify_envelope_presence :: "policy_envelope option \<Rightarrow> bool \<Rightarrow> bool \<Rightarrow> bool \<Rightarrow> envelope_presence" where
  "classify_envelope_presence envelope case_understanding_present policy_required harness_mode =
     (case envelope of
        Some e \<Rightarrow>
          if freshness e = ''current'' then present_as PRESENT_CURRENT [] e
          else if freshness e = ''stale'' then present_as PRESENT_STALE (pe_reason_codes e) e
          else classify_absence (absence_reasons envelope) case_understanding_present policy_required harness_mode
      | None \<Rightarrow> classify_absence (absence_reasons envelope) case_understanding_present policy_required harness_mode)"

text \<open>A run is policy-gated when the payload says so, or when an understanding of the case exists.\<close>

definition policy_path_requires_envelope :: "bool \<Rightarrow> pydict \<Rightarrow> bool" where
  "policy_path_requires_envelope case_understanding_present payload =
     (if is_true (dget ''policy_required'' payload) then True
      else if is_true (dget ''harness_mode'' payload) then False
      else case_understanding_present \<or> is_dict (dget ''case_understanding_projection'' payload) \<or>
           is_dict (dget ''case_intelligence_result'' payload))"

subsection \<open>Lemmas\<close>

lemma tool_result_of_sel [simp]:
  "tr_status (tool_result_of s m d) = s" "tr_snapshot_delta (tool_result_of s m d) = d"
  "tr_turn_summary_pl (tool_result_of s m d) = m"
  by (simp_all add: tool_result_of_def)

lemma attach_attribution_sel [simp]:
  "tr_status (attach_attribution r p) = tr_status r"
  "tr_turn_summary_pl (attach_attribution r p) = tr_turn_summary_pl r"
  "tr_snapshot_delta (attach_attribution r p) =
     AList.update ''execution_attribution'' (PDict p) (tr_snapshot_delta r)"
  by (simp_all add: attach_attribution_def)

lemma attribution_class [simp]:
  "dget ''failure_class'' (attribution fc owner stage retryable next corr detail) = PStr fc"
  by (simp add: attribution_def)

lemma attach_failure_class [simp]:
  "tr_failure_class (attach_attribution r (attribution fc owner stage retryable next corr detail)) = fc"
  by (simp add: attach_attribution_def)

text \<open>When the absence of an envelope stops an action: it is not usable, and the run needed it.\<close>

lemma wiring_failure_iff:
  "ep_status (classify_envelope_presence e u req harness) = WIRING_FAILURE \<longleftrightarrow>
     (case e of None \<Rightarrow> True | Some x \<Rightarrow> freshness x \<notin> {''current'', ''stale''}) \<and>
     (u \<or> req \<and> \<not> list_ex (\<lambda>r. r \<in> set STORE_REASONS) (absence_reasons e)) \<and> (harness \<longrightarrow> req)"
  unfolding classify_envelope_presence_def classify_absence_def present_as_def absent_as_def
  by (cases e; cases u; cases req) simp_all

end
