(* ===== verification/Reference_Monitor.thy ===== *)
theory Reference_Monitor
  imports Tool_Contract Mailbox_Store Revision_Ledger
begin

text \<open>
  The handoff of policy to action, and the monitor that holds a plan to it:
  \<open>agent_runtime/policy_action_spine.py\<close> and \<open>_policy_enforcement_block\<close> of \<open>agent_runtime/graph.py\<close>.

  \<^item> The first stage's policy decision and action proposals are appended to the mailbox store, each
    proposal with the tools and the arguments its meaning allows (\<open>persist_policy_action_spine\<close>).
  \<^item> The records of the current signal are projected to a policy envelope (\<open>project_policy_action_envelope\<close>).
  \<^item> A plan is correlated with the envelope and compared with it (\<open>evaluate_semantic_policy_plan_consistency\<close>);
    the enforcement block turns a conflict into a refusal.

  Timestamps are of an abstract ordered type: \<open>as_utc\<close> is \<open>datetime.fromisoformat\<close> followed by the conversion
  to UTC (\<open>None\<close> is its \<open>ValueError\<close>) and \<open>iso_z\<close> is \<open>isoformat\<close> with the suffix Z.  A constraint is stored as
  the dictionary \<open>build_argument_constraint\<close> returns; \<open>constraint_of_row\<close> reads it back as
  \<open>constraint_violations\<close> does, where a mode it does not know is one it does not enforce.
\<close>

subsection \<open>Constraints as rows\<close>

definition constraint_row :: "arg_constraint \<Rightarrow> pydict" where
  "constraint_row c =
     [(''argument_name'', PStr (ac_argument_name c)), (''constraint_mode'', PStr (mode_str (ac_mode c))),
      (''expected_value'', ac_expected_value c), (''allowed_values'', PList (ac_allowed_values c)),
      (''source_kind'', PStr (pv_source_kind (ac_provenance c))),
      (''source_ref'', PStr (pv_source_ref (ac_provenance c))),
      (''decision_id'', PStr (pv_decision_id (ac_provenance c))),
      (''decision_version_id'', PStr (pv_decision_version_id (ac_provenance c))),
      (''semantic_hash'', PStr (pv_semantic_hash (ac_provenance c)))]"

definition constraint_of_row :: "pydict \<Rightarrow> arg_constraint" where
  "constraint_of_row d =
     \<lparr>ac_argument_name = norm_text (dget ''argument_name'' d),
      ac_mode = (case find (\<lambda>m. mode_str m = upper (norm_of (dget ''constraint_mode'' d))) ARGUMENT_CONSTRAINT_MODES
                 of Some m \<Rightarrow> m | None \<Rightarrow> PLANNER_GENERATED),
      ac_expected_value = dget ''expected_value'' d,
      ac_allowed_values = list_items (dget ''allowed_values'' d),
      ac_provenance = \<lparr>pv_source_kind = norm_text (dget ''source_kind'' d), pv_source_ref = norm_text (dget ''source_ref'' d),
        pv_decision_id = norm_text (dget ''decision_id'' d),
        pv_decision_version_id = norm_text (dget ''decision_version_id'' d),
        pv_semantic_hash = norm_text (dget ''semantic_hash'' d)\<rparr>\<rparr>"

subsection \<open>The meaning of a proposal\<close>

definition ACTION_PRODUCING_TOOLS :: "string list" where
  "ACTION_PRODUCING_TOOLS = [''generate_draft_reply'', ''propose_mutation'']"

definition SEMANTIC_ACTION_TOOLS :: "string list" where
  "SEMANTIC_ACTION_TOOLS = [''generate_draft_reply'', ''request_operator_clarification'', ''call_kalk_top_quote'',
     ''propose_mutation'', ''propose_plan'']"

definition STALE_PROPOSAL_STATUSES :: "string list" where
  "STALE_PROPOSAL_STATUSES = [''expired'', ''stale'', ''superseded'']"

definition CUSTOMER_MAIL_TOOLS :: "string list" where
  "CUSTOMER_MAIL_TOOLS = [''generate_draft_reply'']"

definition OPERATOR_CLARIFICATION_TOOL :: string where
  "OPERATOR_CLARIFICATION_TOOL = ''request_operator_clarification''"

definition next_best_action_dict :: "pydict \<Rightarrow> pydict" where
  "next_best_action_dict candidate = as_dict (dget ''next_best_action'' candidate)"

abbreviation nba_action_of :: "pydict \<Rightarrow> string" where
  "nba_action_of candidate \<equiv>
     norm_of (py_or (dget ''action_type'' (next_best_action_dict candidate)) (dget ''next_best_action'' candidate))"

definition semantic_tool_constraints :: "string \<Rightarrow> pydict \<Rightarrow> string \<Rightarrow> string \<Rightarrow> string \<Rightarrow> pydict" where
  "semantic_tool_constraints proposal_action_type candidate canonical_decision_id source_semantic_hash decision_version_id =
     (let proposal_action = strip proposal_action_type;
          nba_action = nba_action_of candidate;
          channel = norm_of (dget ''suggested_channel'' (next_best_action_dict candidate));
          identity = [(''canonical_decision_id'', PStr canonical_decision_id),
            (''source_semantic_hash'', PStr (strip source_semantic_hash)),
            (''decision_version_id'', PStr (strip decision_version_id))]
      in if nba_action = ''ask_for_missing_data'' \<or> proposal_action = ''request_missing_info''
         then identity @
           [(''action_target'', PStr ''customer''), (''action_channel'', PStr (str_or channel ''mail'')),
            (''argument_constraints'', PList (map (PDict \<circ> constraint_row)
               (project_slice_argument_constraints (str_or nba_action proposal_action) ''customer''
                  (str_or channel ''mail'') canonical_decision_id (strip decision_version_id)
                  (strip source_semantic_hash) CUSTOMER_MAIL_TOOLS ''generate_draft_reply''))),
            (''allowed_tools'', PList []), (''allowed_action_tools'', PList (map PStr CUSTOMER_MAIL_TOOLS)),
            (''forbidden_tools'', PList [PStr OPERATOR_CLARIFICATION_TOOL])]
         else identity @
           [(''action_target'', PStr []), (''action_channel'', PStr channel), (''allowed_tools'', PList []),
            (''allowed_action_tools'', PList []), (''forbidden_tools'', PList [])])"

subsection \<open>Appending the records\<close>

definition proposal_raw_json :: "pydict \<Rightarrow> pydict" where
  "proposal_raw_json proposal = as_dict (dget ''raw_json'' proposal)"

definition string_list :: "pyval \<Rightarrow> string list" where
  "string_list v = filter (\<lambda>s. s \<noteq> []) (map (strip \<circ> py_str) (list_items v))"

definition constraint_list :: "pyval \<Rightarrow> pydict list" where
  "constraint_list v = dict_rows (list_items v)"

definition candidate_from_intelligence :: "pydict \<Rightarrow> pydict" where
  "candidate_from_intelligence case_intelligence_result =
     (case dget ''decision_candidate'' case_intelligence_result of
        PDict d \<Rightarrow> d
      | _ \<Rightarrow> as_dict (dget ''decision_candidate''
               (as_dict (dget ''outputs'' (as_dict (dget ''decision_pipeline'' case_intelligence_result))))))"

definition same_id :: "pyval \<Rightarrow> string \<Rightarrow> bool" where
  "same_id v expected \<longleftrightarrow> expected \<noteq> [] \<and> norm_of v = expected"

definition valid_spine_inputs :: "pydict \<Rightarrow> pydict \<Rightarrow> string \<Rightarrow> string \<Rightarrow> bool" where
  "valid_spine_inputs candidate policy_decision case_id source_message_id \<longleftrightarrow>
     (let candidate_id = norm_of (dget ''decision_candidate_id'' candidate) in
      candidate_id \<noteq> [] \<and> norm_of (dget ''policy_decision_id'' policy_decision) \<noteq> [] \<and>
      same_id (dget ''case_id'' candidate) case_id \<and> same_id (dget ''source_signal_id'' candidate) source_message_id \<and>
      norm_of (dget ''decision_candidate_id'' policy_decision) = candidate_id)"

text \<open>Where a record comes from: the case, the signal and the message it was derived from.\<close>

record origin =
  og_case_id :: string
  og_signal_id :: string
  og_message_id :: string

text \<open>\<open>None\<close> is the \<open>TypeError\<close> of \<open>list\<close> on a value that cannot be iterated.\<close>

definition policy_row :: "origin \<Rightarrow> pydict \<Rightarrow> pydict \<Rightarrow> pydict option" where
  "policy_row og candidate pd =
     (case (iter_or_empty (dget ''evidence_refs'' candidate), iter_or_empty (dget ''allowed_actions'' pd),
            iter_or_empty (dget ''policy_basis'' pd), iter_or_empty (dget ''failed_rules'' pd),
            iter_or_empty (dget ''warnings'' pd)) of
        (Some evidence_refs, Some allowed, Some basis, Some failed, Some warnings) \<Rightarrow> Some
          [(''policy_decision_id'', PStr (norm_of (dget ''policy_decision_id'' pd))),
           (''decision_candidate_id'', PStr (norm_of (dget ''decision_candidate_id'' candidate))),
           (''case_id'', PStr (og_case_id og)), (''source_signal_id'', PStr (og_signal_id og)),
           (''source_message_id'', PStr (og_message_id og)),
           (''schema_version'', PStr (text_of (dget ''schema_version'' pd))),
           (''status'', PStr (text_of (dget ''status'' pd))), (''allowed_actions'', PList allowed),
           (''requires_review'', PBool (truthy (dget ''requires_review'' pd))),
           (''requires_human_approval'', PBool (truthy (dget ''requires_human_approval'' pd))),
           (''policy_basis'', PList basis), (''failed_rules'', PList failed), (''warnings'', PList warnings),
           (''evidence_refs'', PList (take 24 evidence_refs)),
           (''generated_at'', PStr (text_of (dget ''created_at'' pd))), (''raw_json'', PDict pd)]
      | _ \<Rightarrow> None)"

text \<open>\<open>{**d, **e}\<close>.\<close>

definition dict_merge :: "pydict \<Rightarrow> pydict \<Rightarrow> pydict" where
  "dict_merge d e = fold (\<lambda>(k, v). AList.update k v) e d"

definition raw_with_semantics :: "pydict \<Rightarrow> pydict \<Rightarrow> pydict" where
  "raw_with_semantics candidate raw =
     dict_merge raw (semantic_tool_constraints (text_of (dget ''action_type'' raw)) candidate
       (text_of (dget ''canonical_decision_id'' raw)) (text_of (dget ''semantic_hash'' raw))
       (text_of (dget ''decision_version_id'' raw)))"

definition proposal_row :: "origin \<Rightarrow> pydict \<Rightarrow> pydict \<Rightarrow> pydict \<Rightarrow> pydict option" where
  "proposal_row og candidate pd raw =
     map_option (\<lambda>evidence_refs.
       [(''proposal_id'', PStr (norm_of (dget ''proposal_id'' raw))),
        (''policy_decision_id'', PStr (norm_of (dget ''policy_decision_id'' pd))),
        (''decision_candidate_id'', PStr (norm_of (dget ''decision_candidate_id'' candidate))),
        (''case_id'', PStr (og_case_id og)),
        (''canonical_decision_id'', PStr (text_of (dget ''canonical_decision_id'' raw))),
        (''source_semantic_hash'', PStr (text_of (dget ''semantic_hash'' raw))),
        (''decision_version_id'', PStr (text_of (dget ''decision_version_id'' raw))),
        (''source_signal_id'', PStr (og_signal_id og)), (''source_message_id'', PStr (og_message_id og)),
        (''schema_version'', PStr (text_of (dget ''schema_version'' raw))),
        (''action_type'', PStr (text_of (dget ''action_type'' raw))),
        (''allowed_by_policy'', PBool (truthy (dget ''allowed_by_policy'' raw))),
        (''requires_operator_approval'', PBool (truthy (dget ''requires_operator_approval'' raw))),
        (''status'', PStr (text_of (dget ''status'' raw))), (''action_mode'', PStr (text_of (dget ''action_mode'' raw))),
        (''blocked_reason'', PStr (text_of (dget ''blocked_reason'' raw))),
        (''evidence_refs'', PList (take 24 evidence_refs)),
        (''generated_at'', PStr (text_of (dget ''created_at'' raw))),
        (''expires_at'', PStr (text_of (dget ''expires_at'' raw))),
        (''raw_json'', PDict (raw_with_semantics candidate raw))])
       (iter_or_empty (dget ''evidence_refs'' raw))"

text \<open>A proposal is appended when it is of the second schema and belongs to the decision at hand.\<close>

definition proposal_relevant :: "origin \<Rightarrow> pydict \<Rightarrow> pydict \<Rightarrow> pydict \<Rightarrow> bool" where
  "proposal_relevant og candidate pd raw \<longleftrightarrow>
     text_of (dget ''schema_version'' raw) = ''action_proposal.v2'' \<and>
     same_id (dget ''case_id'' raw) (og_case_id og) \<and>
     norm_of (dget ''decision_candidate_id'' raw) = norm_of (dget ''decision_candidate_id'' candidate) \<and>
     norm_of (dget ''policy_decision_id'' raw) = norm_of (dget ''policy_decision_id'' pd) \<and>
     norm_of (dget ''proposal_id'' raw) \<noteq> []"

fun append_proposals :: "origin \<Rightarrow> pydict \<Rightarrow> pydict \<Rightarrow> pyval list \<Rightarrow> nat \<Rightarrow> mailbox_store \<Rightarrow>
    nat option \<times> mailbox_store" where
  "append_proposals og candidate pd [] inserted st = (Some inserted, st)"
| "append_proposals og candidate pd (raw # raws) inserted st =
     (if \<not> is_dict raw \<or> \<not> proposal_relevant og candidate pd (as_dict raw)
      then append_proposals og candidate pd raws inserted st
      else case proposal_row og candidate pd (as_dict raw) of
             None \<Rightarrow> (None, st)
           | Some row \<Rightarrow>
               (let (ok, st') = append_action_proposal_v2 row st
                in append_proposals og candidate pd raws (inserted + (if ok then 1 else 0)) st'))"

record spine_result =
  policy_decision_inserted :: bool
  action_proposals_v2_inserted :: nat

definition persist_policy_action_spine :: "mailbox_store option \<Rightarrow> pyval \<Rightarrow> string \<Rightarrow> string \<Rightarrow> string \<Rightarrow>
    spine_result option \<times> mailbox_store option" where
  "persist_policy_action_spine store case_intelligence_result case_id source_signal_id source_message_id =
     (let nothing = Some \<lparr>policy_decision_inserted = False, action_proposals_v2_inserted = 0\<rparr>;
          intelligence = as_dict case_intelligence_result;
          candidate = candidate_from_intelligence intelligence;
          og = \<lparr>og_case_id = strip case_id, og_signal_id = strip source_signal_id, og_message_id = strip source_message_id\<rparr>
      in case store of
           None \<Rightarrow> (nothing, None)
         | Some st \<Rightarrow>
        (case dget ''policy_decision'' intelligence of
           PDict pd \<Rightarrow>
             if og_case_id og = [] \<or> og_signal_id og = [] \<or> og_message_id og = [] \<or>
                \<not> valid_spine_inputs candidate pd (og_case_id og) (og_message_id og)
             then (nothing, store)
             else (case policy_row og candidate pd of
                 None \<Rightarrow> (None, store)
               | Some row \<Rightarrow>
                   (let (ok, st1) = append_policy_decision row st;
                        (inserted, st2) = append_proposals og candidate pd
                          (list_items (dget ''action_proposals_v2'' intelligence)) 0 st1
                    in (map_option (\<lambda>n. \<lparr>policy_decision_inserted = ok, action_proposals_v2_inserted = n\<rparr>) inserted,
                        Some st2)))
         | _ \<Rightarrow> (nothing, store)))"

subsection \<open>The projection\<close>

definition utc_text :: "pyval \<Rightarrow> string" where
  "utc_text v = concat (map (\<lambda>c. if c = CHR ''Z'' then ''+00:00'' else [c]) (norm_of v))"

definition as_datetime :: "(string \<Rightarrow> 't option) \<Rightarrow> pyval \<Rightarrow> 't option" where
  "as_datetime as_utc v = (if utc_text v = [] then None else as_utc (utc_text v))"

definition as_iso :: "(string \<Rightarrow> 't option) \<Rightarrow> ('t \<Rightarrow> string) \<Rightarrow> pyval \<Rightarrow> string" where
  "as_iso as_utc iso_z v = (case as_datetime as_utc v of None \<Rightarrow> text_of v | Some t \<Rightarrow> iso_z t)"

abbreviation unavailable :: "string \<Rightarrow> policy_envelope" where
  "unavailable reason \<equiv> bare_envelope ''unavailable'' [reason]"

definition envelope_reasons :: "(string \<Rightarrow> 't::linorder option) \<Rightarrow> 't option \<Rightarrow> pydict \<Rightarrow> string list" where
  "envelope_reasons as_utc now_at proposal =
     (let status = lower (norm_of (dget ''status'' proposal)) in
      (if status \<in> set STALE_PROPOSAL_STATUSES then [''proposal_status_'' @ status] else []) @
      (case (as_datetime as_utc (dget ''expires_at'' proposal), now_at) of
         (Some expires_at, Some now) \<Rightarrow> if expires_at \<le> now then [''proposal_expired''] else []
       | _ \<Rightarrow> []))"

definition envelope_of :: "(string \<Rightarrow> 't::linorder option) \<Rightarrow> ('t \<Rightarrow> string) \<Rightarrow> 't option \<Rightarrow> origin \<Rightarrow> string \<Rightarrow>
    pydict \<Rightarrow> pydict \<Rightarrow> policy_envelope" where
  "envelope_of as_utc iso_z now_at og policy_id policy proposal =
     (let reasons = envelope_reasons as_utc now_at proposal; raw_json = proposal_raw_json proposal in
      \<lparr>freshness = (if reasons = [] then ''current'' else ''stale''),
       action_intent = text_of (dget ''action_type'' proposal),
       action_target = text_of (dget ''action_target'' raw_json),
       action_channel = text_of (dget ''action_channel'' raw_json),
       allowed_tools = string_list (dget ''allowed_tools'' raw_json),
       allowed_action_tools = string_list (dget ''allowed_action_tools'' raw_json),
       forbidden_tools = string_list (dget ''forbidden_tools'' raw_json),
       pe_canonical_decision_id = text_of (dget ''canonical_decision_id'' raw_json),
       pe_decision_version_id = text_of (dget ''decision_version_id'' raw_json),
       pe_source_semantic_hash = text_of (py_or (dget ''source_semantic_hash'' raw_json)
         (dget ''source_semantic_hash'' proposal)),
       pe_decision_candidate_id = text_of (dget ''decision_candidate_id'' proposal),
       pe_policy_decision_id = policy_id,
       pe_action_proposal_id = text_of (dget ''proposal_id'' proposal),
       pe_source_signal_id = og_signal_id og, pe_source_message_id = og_message_id og,
       pe_policy_status = text_of (dget ''status'' policy),
       pe_allowed_by_policy = Some (truthy (dget ''allowed_by_policy'' proposal)),
       pe_requires_operator_approval = Some (truthy (dget ''requires_operator_approval'' proposal)),
       pe_argument_constraints = constraint_list (dget ''argument_constraints'' raw_json),
       pe_proposal_status = text_of (dget ''status'' proposal), pe_reason_codes = reasons,
       pe_generated_at = as_iso as_utc iso_z (dget ''generated_at'' proposal),
       pe_expires_at = as_iso as_utc iso_z (dget ''expires_at'' proposal)\<rparr>)"

definition project_policy_action_envelope :: "(string \<Rightarrow> 't::linorder option) \<Rightarrow> ('t \<Rightarrow> string) \<Rightarrow>
    mailbox_store option \<Rightarrow> string \<Rightarrow> string \<Rightarrow> string \<Rightarrow> 't option \<Rightarrow> policy_envelope" where
  "project_policy_action_envelope as_utc iso_z store case_id source_signal_id source_message_id now_at =
     (let og = \<lparr>og_case_id = strip case_id, og_signal_id = strip source_signal_id, og_message_id = strip source_message_id\<rparr> in
      case store of
        None \<Rightarrow> unavailable ''canonical_action_proposal_v2_store_unavailable''
      | Some st \<Rightarrow>
          if og_case_id og = [] \<or> og_signal_id og = [] \<or> og_message_id og = []
          then unavailable ''source_correlation_incomplete''
          else (case fetch_action_proposals_v2 (og_case_id og) (og_signal_id og) (og_message_id og) 20 st of
              [] \<Rightarrow> unavailable ''canonical_action_proposal_v2_not_found''
            | proposal # _ \<Rightarrow>
                (let policy_id = norm_of (dget ''policy_decision_id'' proposal) in
                 case (if policy_id = [] then None else fetch_policy_decision policy_id st) of
                   None \<Rightarrow> unavailable ''canonical_policy_decision_not_found''
                 | Some policy \<Rightarrow>
                     if \<not> same_id (dget ''case_id'' policy) (og_case_id og) \<or>
                        \<not> same_id (dget ''source_signal_id'' policy) (og_signal_id og) \<or>
                        \<not> same_id (dget ''source_message_id'' policy) (og_message_id og) \<or>
                        norm_of (dget ''decision_candidate_id'' policy) \<noteq> norm_of (dget ''decision_candidate_id'' proposal)
                     then unavailable ''canonical_policy_action_correlation_mismatch''
                     else envelope_of as_utc iso_z now_at og policy_id policy proposal)))"

subsection \<open>Correlation and consistency of a plan\<close>

definition correlate_tool_plan :: "tool_call_plan \<Rightarrow> policy_envelope option \<Rightarrow> tool_call_plan" where
  "correlate_tool_plan plan envelope =
     (case envelope of
        None \<Rightarrow> plan\<lparr>tp_policy_decision_id := [], tp_action_proposal_id := [],
                  tp_correlation_status := ''missing_policy_envelope''\<rparr>
      | Some e \<Rightarrow>
          if freshness e = ''unavailable''
          then plan\<lparr>tp_policy_decision_id := [], tp_action_proposal_id := [],
                 tp_correlation_status := ''missing_policy_envelope''\<rparr>
          else let policy_id = str_or (tp_policy_decision_id plan) (pe_policy_decision_id e);
                   proposal_id = str_or (tp_action_proposal_id plan) (pe_action_proposal_id e);
                   status = (if freshness e = ''stale'' then ''stale_policy_envelope''
                     else if policy_id = pe_policy_decision_id e \<and> proposal_id = pe_action_proposal_id e
                     then ''correlated'' else ''conflicting'')
               in plan\<lparr>tp_policy_decision_id := policy_id, tp_action_proposal_id := proposal_id,
                    tp_correlation_status := status\<rparr>)"

definition validate_plan_arguments :: "policy_envelope \<Rightarrow> tool_call_plan \<Rightarrow> violation list" where
  "validate_plan_arguments e plan =
     (let constraints = (if pe_argument_constraints e \<noteq> [] then map constraint_of_row (pe_argument_constraints e)
        else project_slice_argument_constraints (action_intent e) (action_target e) (action_channel e)
          (pe_canonical_decision_id e) (pe_decision_version_id e) (pe_source_semantic_hash e)
          (allowed_action_tools e) ''generate_draft_reply'')
      in constraint_violations (PDict (tp_arguments plan)) constraints)"

definition consistency_of :: "plan_status \<Rightarrow> string list \<Rightarrow> policy_envelope option \<Rightarrow> tool_call_plan \<Rightarrow>
    violation list \<Rightarrow> plan_consistency" where
  "consistency_of status reasons envelope plan violations =
     \<lparr>pc_status = status, pc_reason_codes = map (take 160) (take 8 reasons), pc_argument_violations = violations,
      pc_policy_decision_id = (case envelope of None \<Rightarrow> [] | Some e \<Rightarrow> pe_policy_decision_id e),
      pc_action_proposal_id = (case envelope of None \<Rightarrow> [] | Some e \<Rightarrow> pe_action_proposal_id e),
      pc_tool_name = tp_tool_name plan\<rparr>"

text \<open>The comparison with a current envelope, once the ids of the plan agree with it.\<close>

definition argument_verdict :: "string \<Rightarrow> policy_envelope \<Rightarrow> tool_call_plan \<Rightarrow> plan_consistency" where
  "argument_verdict passed e plan =
     (let vs = validate_plan_arguments e plan in
      if vs \<noteq> [] then consistency_of CONFLICTING (violations_reason_codes vs) (Some e) plan vs
      else consistency_of CONSISTENT [passed] (Some e) plan [])"

definition BLOCKING_POLICY_STATUSES :: "string list" where
  "BLOCKING_POLICY_STATUSES = [''blocked'', ''needs_human'', ''insufficient_context'', ''requires_adjudication'',
     ''dry_run_only'']"

definition policy_blocks :: "policy_envelope \<Rightarrow> bool" where
  "policy_blocks e \<longleftrightarrow> pe_policy_status e \<in> set BLOCKING_POLICY_STATUSES \<or> pe_allowed_by_policy e = Some False"

definition drifted :: "string \<Rightarrow> string \<Rightarrow> bool" where
  "drifted expected observed \<longleftrightarrow> strip expected \<noteq> [] \<and> strip observed \<noteq> [] \<and> strip expected \<noteq> strip observed"

definition evaluate_against :: "policy_envelope \<Rightarrow> tool_call_plan \<Rightarrow> plan_consistency" where
  "evaluate_against e plan =
     (let conflict = (\<lambda>reasons. consistency_of CONFLICTING reasons (Some e) plan []);
          allowed = stripped_names (allowed_tools e);
          allowed_action = stripped_names (allowed_action_tools e);
          tool = tp_tool_name plan
      in if drifted (pe_decision_version_id e) (tp_decision_version_id plan) then conflict [''STALE_DECISION_REVISION'']
         else if drifted (pe_source_semantic_hash e) (tp_semantic_hash plan) then conflict [''canonical_semantic_drift'']
         else if tool \<in> set (stripped_names (forbidden_tools e))
         then conflict (''semantic_tool_forbidden_for_action_intent'' #
           (if strip (pe_canonical_decision_id e) \<noteq> [] then [''canonical_semantic_drift''] else []))
         else if allowed \<noteq> []
         then (if tool \<notin> set allowed then conflict [''semantic_tool_not_allowed_for_action_intent'']
               else argument_verdict ''semantic_tool_allowed_for_action_intent'' e plan)
         else if allowed_action \<noteq> [] \<and> tool \<in> set SEMANTIC_ACTION_TOOLS
         then (if tool \<notin> set allowed_action then conflict [''semantic_tool_not_allowed_for_action_intent'']
               else argument_verdict ''semantic_action_tool_allowed_for_action_intent'' e plan)
         else if policy_blocks e \<and> tool \<in> set ACTION_PRODUCING_TOOLS then conflict [''policy_blocks_actionable_tool'']
         else consistency_of NOT_EVALUABLE [''no_formal_action_intent_tool_mapping''] (Some e) plan [])"

definition id_mismatches :: "policy_envelope \<Rightarrow> tool_call_plan \<Rightarrow> string list" where
  "id_mismatches e plan =
     (if tp_policy_decision_id plan \<noteq> pe_policy_decision_id e then [''policy_decision_id_mismatch''] else []) @
     (if tp_action_proposal_id plan \<noteq> pe_action_proposal_id e then [''action_proposal_id_mismatch''] else [])"

definition evaluate_semantic_policy_plan_consistency ::
  "policy_envelope option \<Rightarrow> tool_call_plan \<Rightarrow> plan_consistency" where
  "evaluate_semantic_policy_plan_consistency envelope plan =
     (case envelope of
        None \<Rightarrow> consistency_of MISSING_POLICY_ENVELOPE [''policy_action_envelope_absent''] None plan []
      | Some e \<Rightarrow>
          if freshness e = ''unavailable''
          then consistency_of MISSING_POLICY_ENVELOPE
                 (if pe_reason_codes e \<noteq> [] then pe_reason_codes e else [''policy_action_envelope_absent''])
                 envelope plan []
          else if freshness e = ''stale''
          then consistency_of STALE_POLICY_ENVELOPE
                 (if pe_reason_codes e \<noteq> [] then pe_reason_codes e else [''policy_action_envelope_stale''])
                 envelope plan []
          else if strip (tp_policy_decision_id plan) = [] \<or> strip (tp_action_proposal_id plan) = []
          then consistency_of MISSING_PLAN_CORRELATION [''planner_correlation_ids_missing''] envelope plan []
          else if id_mismatches e plan \<noteq> []
          then consistency_of CONFLICTING (id_mismatches e plan) envelope plan []
          else evaluate_against e plan)"

text \<open>New actions of a delta are stamped with their parents when the plan's ids are those of a current envelope.\<close>

definition parent_refs :: "policy_envelope \<Rightarrow> pydict" where
  "parent_refs e =
     [(''parent_policy_decision_id'', PStr (pe_policy_decision_id e)),
      (''parent_action_proposal_v2_id'', PStr (pe_action_proposal_id e)),
      (''parent_decision_candidate_id'', PStr (pe_decision_candidate_id e)),
      (''decision_version_id'', PStr (pe_decision_version_id e)),
      (''source_semantic_hash'', PStr (pe_source_semantic_hash e)),
      (''source_signal_id'', PStr (pe_source_signal_id e)), (''identity_state'', PStr ''complete'')]"

definition annotate_action_parent_refs :: "pydict \<Rightarrow> tool_call_plan \<Rightarrow> policy_envelope option \<Rightarrow> pydict" where
  "annotate_action_parent_refs snapshot_delta plan envelope =
     (case envelope of
        None \<Rightarrow> snapshot_delta
      | Some e \<Rightarrow>
          if freshness e \<noteq> ''current'' \<or> pe_policy_decision_id e = [] \<or> pe_action_proposal_id e = [] \<or>
             tp_policy_decision_id plan \<noteq> pe_policy_decision_id e \<or> tp_action_proposal_id plan \<noteq> pe_action_proposal_id e
          then snapshot_delta
          else (case dget ''actions'' snapshot_delta of
              PList actions \<Rightarrow> AList.update ''actions''
                (PList (map (\<lambda>item. case item of PDict d \<Rightarrow> PDict (dict_merge d (parent_refs e)) | _ \<Rightarrow> item) actions))
                snapshot_delta
            | _ \<Rightarrow> snapshot_delta))"

subsection \<open>Enforcement\<close>

definition SEMANTIC_REASONS :: "string list" where
  "SEMANTIC_REASONS = [''canonical_semantic_drift'', ''semantic_tool_forbidden_for_action_intent'',
     ''semantic_tool_not_allowed_for_action_intent'', ''STALE_DECISION_REVISION'', ''CANONICAL_ARGUMENT_MISMATCH'',
     ''ARGUMENT_NOT_ALLOWED'', ''ARGUMENT_OUTSIDE_CANONICAL_SET'', ''MISSING_REQUIRED_CANONICAL_ARGUMENT'',
     ''UNBOUND_EXECUTION_ARGUMENT'']"

definition policy_refusal :: "string \<Rightarrow> string \<Rightarrow> string \<Rightarrow> string \<Rightarrow> (string \<times> string) list \<Rightarrow> string \<Rightarrow> tool_result" where
  "policy_refusal summary reason failure_class next correlation detail =
     attach_attribution (tool_result_of ''error'' summary (gate_delta reason))
       (attribution failure_class ''policy'' ''policy_enforcement'' False next correlation detail)"

text \<open>The revision the envelope was projected from, against the current revision of the ledger.\<close>

definition stale_revision_block :: "policy_envelope option \<Rightarrow> ledger option \<Rightarrow> tool_call_plan \<Rightarrow> tool_result option" where
  "stale_revision_block envelope led plan =
     (case (led, envelope) of
        (Some L, Some e) \<Rightarrow>
          let decision_id = strip (pe_canonical_decision_id e); envelope_version = strip (pe_decision_version_id e);
              durable_version = (case current_cad decision_id L of
                None \<Rightarrow> [] | Some c \<Rightarrow> text_of (dget ''decision_version_id'' c))
          in if freshness e = ''current'' \<and> decision_id \<noteq> [] \<and> envelope_version \<noteq> [] \<and> durable_version \<noteq> envelope_version
             then Some (policy_refusal
               ''Envelope pochodzi z nieaktualnej rewizji decyzji - zablokowano przed wykonaniem.''
               (''stale_decision_revision:'' @ tp_tool_name plan) ''STALE_DECISION_REVISION''
               ''rebuild_policy_envelope_from_current_revision'' []
               (''envelope_decision_version_id='' @ envelope_version @ '';durable_current='' @
                 str_or durable_version ''(none)''))
             else None
      | _ \<Rightarrow> None)"

definition violation_detail :: "violation list \<Rightarrow> string" where
  "violation_detail violations = (case violations of
       [] \<Rightarrow> []
     | v # _ \<Rightarrow> '';argument='' @ vi_argument_name v @ '';constraint='' @ mode_str (vi_mode v) @
                '';expected='' @ vi_expected v @ '';proposed='' @ vi_proposed v)"

definition conflict_refusal :: "policy_envelope option \<Rightarrow> plan_consistency \<Rightarrow> tool_call_plan \<Rightarrow> tool_result option" where
  "conflict_refusal envelope consistency plan =
     (let reasons = pc_reason_codes consistency;
          semantic = filter (\<lambda>r. r \<in> set SEMANTIC_REASONS) reasons;
          correlation = [(''policy_decision_id'', pc_policy_decision_id consistency),
            (''action_proposal_id'', pc_action_proposal_id consistency)]
      in if semantic \<noteq> []
         then Some (policy_refusal
           ''Wybrane narzedzie zmienialoby adresata lub kanal decyzji - zablokowano przed wykonaniem.''
           (''semantic_tool_mismatch:'' @ tp_tool_name plan) ''SEMANTIC_TOOL_MISMATCH''
           ''use_allowed_customer_facing_tool'' correlation
           (join '','' (sort (remdups semantic)) @ '';expected_semantic_hash='' @
            (case envelope of None \<Rightarrow> [] | Some e \<Rightarrow> pe_source_semantic_hash e) @
            '';observed_semantic_hash='' @ tp_semantic_hash plan @ violation_detail (pc_argument_violations consistency)))
         else if ''policy_blocks_actionable_tool'' \<notin> set reasons then None
         else Some (policy_refusal ''Polityka blokuje wybrane narzedzie - wymaga decyzji operatora.''
           (''policy_blocks_actionable_tool:'' @ tp_tool_name plan) ''POLICY_TOOL_MISMATCH''
           ''request_operator_clarification'' correlation (tp_tool_name plan)))"

definition policy_enforcement_block :: "policy_envelope option \<Rightarrow> plan_consistency option \<Rightarrow> bool \<Rightarrow> tool_call_plan \<Rightarrow>
    pydict \<Rightarrow> ledger option \<Rightarrow> tool_result option" where
  "policy_enforcement_block envelope consistency case_understanding_present plan payload led =
     (let presence = classify_envelope_presence envelope case_understanding_present
            (policy_path_requires_envelope case_understanding_present payload)
            (truthy (dget ''harness_mode'' payload))
      in if ep_status presence = WIRING_FAILURE \<and> tp_tool_name plan \<in> set ACTION_PRODUCING_TOOLS
         then Some (policy_refusal
           ''Brak wymaganego policy/action envelope po Brain 1 - fail-closed, wymaga operatora (wiring failure).''
           ''policy_envelope_wiring_failure'' ''POLICY_ENVELOPE_MISSING'' ''rebuild_policy_spine_or_escalate'' []
           (join '','' (ep_reason_codes presence)))
         else case stale_revision_block envelope led plan of
                Some r \<Rightarrow> Some r
              | None \<Rightarrow>
                  (case consistency of
                     None \<Rightarrow> None
                   | Some c \<Rightarrow> if pc_status c \<noteq> CONFLICTING then None else conflict_refusal envelope c plan))"

text \<open>One look at a plan, as the loop takes it: correlate, observe, enforce.\<close>

definition monitor_plan :: "policy_envelope option \<Rightarrow> bool \<Rightarrow> pydict \<Rightarrow> ledger option \<Rightarrow> tool_call_plan \<Rightarrow> tool_result option" where
  "monitor_plan envelope case_understanding_present payload led plan =
     (let correlated = correlate_tool_plan plan envelope in
      policy_enforcement_block envelope (Some (evaluate_semantic_policy_plan_consistency envelope correlated))
        case_understanding_present correlated payload led)"

subsection \<open>Lemmas on the monitor\<close>

lemma argument_violation_code: "argument_violation by_name arg = Some vi \<Longrightarrow> vi_reason_code vi \<in> set SEMANTIC_REASONS"
proof -
  have "vi_reason_code vi \<in> set SEMANTIC_REASONS" if "check_one n c v = Some vi" for n c v
    using that by (cases "ac_mode c") (auto simp: check_one_def violation_of_def Let_def SEMANTIC_REASONS_def split: if_splits)
  then show "argument_violation by_name arg = Some vi \<Longrightarrow> vi_reason_code vi \<in> set SEMANTIC_REASONS"
    by (auto simp: argument_violation_def unknown_violation_def Let_def SEMANTIC_REASONS_def split: if_splits option.splits)
qed

lemma presence_code: "presence_violation args c = Some vi \<Longrightarrow> vi_reason_code vi \<in> set SEMANTIC_REASONS"
  by (auto simp: presence_violation_def SEMANTIC_REASONS_def split: if_splits)

lemma violation_codes:
  assumes "vi \<in> set (constraint_violations v cs)"
  shows "vi_reason_code vi \<in> set SEMANTIC_REASONS"
proof -
  from assms consider "vi \<in> set (List.map_filter (argument_violation (constraints_by_name cs)) (as_dict v))"
    | "vi \<in> set (List.map_filter (presence_violation (as_dict v)) cs)"
    unfolding constraint_violations_def Let_def by (auto split: if_splits)
  then show ?thesis
  proof cases
    case 1
    from set_map_filter [OF 1] obtain x where "argument_violation (constraints_by_name cs) x = Some vi" ..
    then show ?thesis by (rule argument_violation_code)
  next
    case 2
    from set_map_filter [OF 2] obtain x where "presence_violation (as_dict v) x = Some vi" ..
    then show ?thesis by (rule presence_code)
  qed
qed

lemma semantic_reasons_short: "r \<in> set SEMANTIC_REASONS \<Longrightarrow> take 160 r = r"
proof -
  have "list_all (\<lambda>r. length r \<le> 160) SEMANTIC_REASONS" by code_simp
  then show "r \<in> set SEMANTIC_REASONS \<Longrightarrow> take 160 r = r" by (simp add: list_all_iff)
qed

text \<open>What the enforcement makes of an observation: a conflict with a semantic reason, or a policy block, is refused.\<close>

definition enforce :: "policy_envelope \<Rightarrow> tool_call_plan \<Rightarrow> plan_consistency \<Rightarrow> tool_result option" where
  "enforce e plan c = (if pc_status c \<noteq> CONFLICTING then None else conflict_refusal (Some e) c plan)"

lemma enforce_passes:
  "s \<noteq> CONFLICTING \<Longrightarrow> enforce e plan (consistency_of s reasons envelope plan vs) = None"
  by (simp add: enforce_def consistency_of_def)

lemma enforce_semantic:
  assumes "reasons \<noteq> []" and "set reasons \<subseteq> set SEMANTIC_REASONS"
  shows "enforce e plan (consistency_of CONFLICTING reasons envelope plan vs) \<noteq> None"
proof -
  obtain r rs where r: "reasons = r # rs" using assms(1) by (cases reasons) auto
  then have "take 160 r = r" "r \<in> set SEMANTIC_REASONS"
    using assms(2) semantic_reasons_short by auto
  then have "filter (\<lambda>r. r \<in> set SEMANTIC_REASONS) (map (take 160) (take 8 reasons)) \<noteq> []"
    by (simp add: r)
  then show ?thesis by (simp add: enforce_def conflict_refusal_def consistency_of_def)
qed

lemma enforce_argument_verdict:
  "enforce e plan (argument_verdict passed e plan) = None \<longleftrightarrow> validate_plan_arguments e plan = []"
proof (cases "validate_plan_arguments e plan = []")
  case True
  then show ?thesis by (simp add: argument_verdict_def enforce_passes)
next
  case False
  let ?vs = "validate_plan_arguments e plan"
  have "violations_reason_codes ?vs \<noteq> []"
    using False violations_reason_codes_Nil unfolding validate_plan_arguments_def Let_def by blast
  moreover have "set (violations_reason_codes ?vs) \<subseteq> set SEMANTIC_REASONS"
    using violation_codes unfolding validate_plan_arguments_def Let_def violations_reason_codes_def by auto
  ultimately have "enforce e plan (consistency_of CONFLICTING (violations_reason_codes ?vs) (Some e) plan ?vs) \<noteq> None"
    by (rule enforce_semantic)
  with False show ?thesis by (simp add: argument_verdict_def Let_def)
qed

text \<open>What a current envelope asks of a plan that is correlated with it.\<close>

definition plan_conforms :: "policy_envelope \<Rightarrow> tool_call_plan \<Rightarrow> bool" where
  "plan_conforms e plan \<longleftrightarrow>
     \<not> drifted (pe_decision_version_id e) (tp_decision_version_id plan) \<and>
     \<not> drifted (pe_source_semantic_hash e) (tp_semantic_hash plan) \<and>
     tp_tool_name plan \<notin> set (stripped_names (forbidden_tools e)) \<and>
     (if stripped_names (allowed_tools e) \<noteq> []
      then tp_tool_name plan \<in> set (stripped_names (allowed_tools e)) \<and> validate_plan_arguments e plan = []
      else if stripped_names (allowed_action_tools e) \<noteq> [] \<and> tp_tool_name plan \<in> set SEMANTIC_ACTION_TOOLS
      then tp_tool_name plan \<in> set (stripped_names (allowed_action_tools e)) \<and> validate_plan_arguments e plan = []
      else \<not> (policy_blocks e \<and> tp_tool_name plan \<in> set ACTION_PRODUCING_TOOLS))"

lemma enforce_policy_block:
  "enforce e plan (consistency_of CONFLICTING [''policy_blocks_actionable_tool''] (Some e) plan []) \<noteq> None"
  by (simp add: enforce_def conflict_refusal_def consistency_of_def)

lemma enforce_literal:
  "enforce e plan (consistency_of CONFLICTING [''STALE_DECISION_REVISION''] (Some e) plan []) \<noteq> None"
  "enforce e plan (consistency_of CONFLICTING [''canonical_semantic_drift''] (Some e) plan []) \<noteq> None"
  "enforce e plan (consistency_of CONFLICTING [''semantic_tool_not_allowed_for_action_intent''] (Some e) plan []) \<noteq> None"
  "enforce e plan (consistency_of CONFLICTING (''semantic_tool_forbidden_for_action_intent'' #
     (if b then [''canonical_semantic_drift''] else [])) (Some e) plan []) \<noteq> None"
  by (rule enforce_semantic; cases b; simp add: SEMANTIC_REASONS_def)+

lemma enforce_evaluate_iff: "enforce e plan (evaluate_against e plan) = None \<longleftrightarrow> plan_conforms e plan"
proof -
  note lits = enforce_literal enforce_policy_block
  have ne: "enforce e plan (consistency_of NOT_EVALUABLE rs (Some e) plan []) = None" for rs
    by (rule enforce_passes) simp
  show ?thesis
    unfolding evaluate_against_def plan_conforms_def Let_def
    by (simp only: if_distrib [of "enforce e plan"] enforce_argument_verdict ne if_distrib [of "\<lambda>x. x = None"]
        lits [THEN eq_False [THEN iffD2]] simp_thms if_bool_eq_conj split: if_split) blast
qed

text \<open>The plan names the policy decision and the proposal of the envelope, or none and gets them from it.\<close>

definition same_parents :: "policy_envelope \<Rightarrow> tool_call_plan \<Rightarrow> bool" where
  "same_parents e plan \<longleftrightarrow>
     strip (pe_policy_decision_id e) \<noteq> [] \<and> strip (pe_action_proposal_id e) \<noteq> [] \<and>
     tp_policy_decision_id plan \<in> {[], pe_policy_decision_id e} \<and>
     tp_action_proposal_id plan \<in> {[], pe_action_proposal_id e}"

text \<open>The ledger holds another current revision of the decision than the one the envelope projects.\<close>

definition superseded_in :: "ledger option \<Rightarrow> policy_envelope option \<Rightarrow> bool" where
  "superseded_in led envelope \<longleftrightarrow>
     (case (led, envelope) of
        (Some L, Some e) \<Rightarrow>
          freshness e = ''current'' \<and> strip (pe_canonical_decision_id e) \<noteq> [] \<and> strip (pe_decision_version_id e) \<noteq> [] \<and>
          (case current_cad (strip (pe_canonical_decision_id e)) L of
             None \<Rightarrow> True
           | Some c \<Rightarrow> text_of (dget ''decision_version_id'' c) \<noteq> strip (pe_decision_version_id e))
      | _ \<Rightarrow> False)"

lemma stale_revision_iff: "stale_revision_block envelope led plan = None \<longleftrightarrow> \<not> superseded_in led envelope"
  by (auto simp: stale_revision_block_def superseded_in_def Let_def split: option.splits)

lemma correlated_sel [simp]:
  "tp_tool_name (correlate_tool_plan plan envelope) = tp_tool_name plan"
  "tp_arguments (correlate_tool_plan plan envelope) = tp_arguments plan"
  "tp_semantic_hash (correlate_tool_plan plan envelope) = tp_semantic_hash plan"
  "tp_decision_version_id (correlate_tool_plan plan envelope) = tp_decision_version_id plan"
  by (simp_all add: correlate_tool_plan_def Let_def split: option.split)

lemma correlated_ids:
  assumes "freshness e \<noteq> ''unavailable''"
  shows "tp_policy_decision_id (correlate_tool_plan plan (Some e)) =
      str_or (tp_policy_decision_id plan) (pe_policy_decision_id e)"
    and "tp_action_proposal_id (correlate_tool_plan plan (Some e)) =
      str_or (tp_action_proposal_id plan) (pe_action_proposal_id e)"
  using assms by (simp_all add: correlate_tool_plan_def Let_def)

lemma conforms_correlated [simp]: "plan_conforms e (correlate_tool_plan plan envelope) = plan_conforms e plan"
  by (simp add: plan_conforms_def validate_plan_arguments_def)

lemma mismatch_not_enforced:
  assumes "id_mismatches e plan \<noteq> []"
  shows "enforce e plan (consistency_of CONFLICTING (id_mismatches e plan) (Some e) plan []) = None"
  using assms
  by (simp add: enforce_def conflict_refusal_def consistency_of_def id_mismatches_def Let_def SEMANTIC_REASONS_def)

lemma observed_enforced:
  "(let c = evaluate_semantic_policy_plan_consistency (Some e) (correlate_tool_plan plan (Some e))
    in enforce e (correlate_tool_plan plan (Some e)) c) = None \<longleftrightarrow>
   (freshness e \<in> {''unavailable'', ''stale''} \<or> \<not> same_parents e plan \<or> plan_conforms e plan)"
proof (cases "freshness e \<in> {''unavailable'', ''stale''}")
  case True
  then show ?thesis
    unfolding evaluate_semantic_policy_plan_consistency_def Let_def option.case
    by (auto simp: enforce_passes)
next
  case False
  let ?p = "correlate_tool_plan plan (Some e)"
  from False have f: "freshness e \<noteq> ''unavailable''" "freshness e \<noteq> ''stale''" by simp_all
  note ids = correlated_ids [OF f(1), of plan]
  have same: "same_parents e plan \<longleftrightarrow> id_mismatches e ?p = [] \<and>
      strip (tp_policy_decision_id ?p) \<noteq> [] \<and> strip (tp_action_proposal_id ?p) \<noteq> []"
    unfolding same_parents_def id_mismatches_def ids str_or_def by auto
  have ev: "evaluate_semantic_policy_plan_consistency (Some e) ?p =
      (if strip (tp_policy_decision_id ?p) = [] \<or> strip (tp_action_proposal_id ?p) = []
       then consistency_of MISSING_PLAN_CORRELATION [''planner_correlation_ids_missing''] (Some e) ?p []
       else if id_mismatches e ?p \<noteq> [] then consistency_of CONFLICTING (id_mismatches e ?p) (Some e) ?p []
       else evaluate_against e ?p)"
    unfolding evaluate_semantic_policy_plan_consistency_def option.case if_not_P [OF f(1)] if_not_P [OF f(2)] ..
  show ?thesis
    using False unfolding Let_def ev same
    by (auto simp: enforce_passes mismatch_not_enforced enforce_evaluate_iff)
qed

lemma enforcement_None:
  "policy_enforcement_block (Some e) (Some c) u plan payload led = None \<longleftrightarrow>
     \<not> (ep_status (classify_envelope_presence (Some e) u (policy_path_requires_envelope u payload)
            (truthy (dget ''harness_mode'' payload))) = WIRING_FAILURE \<and>
         tp_tool_name plan \<in> set ACTION_PRODUCING_TOOLS) \<and>
     stale_revision_block (Some e) led plan = None \<and> enforce e plan c = None"
  by (simp add: policy_enforcement_block_def enforce_def Let_def split: option.split)

lemma monitor_passes:
  "monitor_plan envelope u payload led plan = None \<longleftrightarrow>
     \<not> (ep_status (classify_envelope_presence envelope u (policy_path_requires_envelope u payload)
            (truthy (dget ''harness_mode'' payload))) = WIRING_FAILURE \<and>
         tp_tool_name plan \<in> set ACTION_PRODUCING_TOOLS) \<and>
     \<not> superseded_in led envelope \<and>
     (\<forall>e. envelope = Some e \<longrightarrow>
        freshness e \<in> {''unavailable'', ''stale''} \<or> \<not> same_parents e plan \<or> plan_conforms e plan)"
proof -
  have none: "pc_status (evaluate_semantic_policy_plan_consistency None p) \<noteq> CONFLICTING" for p
    by (simp add: evaluate_semantic_policy_plan_consistency_def consistency_of_def)
  show ?thesis
  proof (cases envelope)
    case None
    with none show ?thesis
      by (simp add: monitor_plan_def policy_enforcement_block_def Let_def stale_revision_block_def superseded_in_def
          split: option.split)
  next
    case (Some e)
    have "(\<forall>x. Some e = Some x \<longrightarrow> P x) \<longleftrightarrow> P e" for P by simp
    then show ?thesis
      unfolding Some monitor_plan_def Let_def enforcement_None stale_revision_iff correlated_sel
        observed_enforced [unfolded Let_def] by simp
  qed
qed


subsection \<open>Properties of the monitor\<close>

text \<open>
  Property C4.  What a current envelope asks of the plans that are bound to it.  When the envelope's freshness
  is current and the plan carries the envelope's policy decision and proposal, or no ids of its own, the monitor
  passes the plan exactly when no ledger holds another current revision of the decision the envelope projects (or
  none), the plan names no other decision version and no other semantic hash than the envelope, the tool is not
  forbidden, and either the envelope lists allowed tools and the tool is among them with arguments free of
  violations; or it lists only allowed action tools, the tool is one of the semantic tools, and it is among the
  listed ones with arguments free of violations; or neither restricts the tool and the policy does not
  block it as an action-producing tool.  Nothing is said here of an envelope that is stale or unavailable and of
  a plan with foreign parents, which the monitor does not hold to any of this
  (\<open>stale_envelope_enforces_nothing\<close>, \<open>foreign_parent_is_not_enforced\<close>).
\<close>

theorem current_envelope_binds_plan:
  assumes "freshness e = ''current''" and "same_parents e plan"
  shows "monitor_plan (Some e) u payload led plan = None \<longleftrightarrow>
     (\<forall>L. led = Some L \<and> strip (pe_canonical_decision_id e) \<noteq> [] \<and> strip (pe_decision_version_id e) \<noteq> [] \<longrightarrow>
        (\<exists>c. current_cad (strip (pe_canonical_decision_id e)) L = Some c \<and>
             text_of (dget ''decision_version_id'' c) = strip (pe_decision_version_id e))) \<and>
     (strip (pe_decision_version_id e) = [] \<or> strip (tp_decision_version_id plan) = [] \<or>
        strip (pe_decision_version_id e) = strip (tp_decision_version_id plan)) \<and>
     (strip (pe_source_semantic_hash e) = [] \<or> strip (tp_semantic_hash plan) = [] \<or>
        strip (pe_source_semantic_hash e) = strip (tp_semantic_hash plan)) \<and>
     tp_tool_name plan \<notin> set (stripped_names (forbidden_tools e)) \<and>
     (if stripped_names (allowed_tools e) \<noteq> []
      then tp_tool_name plan \<in> set (stripped_names (allowed_tools e)) \<and> validate_plan_arguments e plan = []
      else if stripped_names (allowed_action_tools e) \<noteq> [] \<and> tp_tool_name plan \<in> set SEMANTIC_ACTION_TOOLS
      then tp_tool_name plan \<in> set (stripped_names (allowed_action_tools e)) \<and> validate_plan_arguments e plan = []
      else \<not> (policy_blocks e \<and> tp_tool_name plan \<in> set ACTION_PRODUCING_TOOLS))"
proof -
  have superseded: "\<not> superseded_in led (Some e) \<longleftrightarrow>
     (\<forall>L. led = Some L \<and> strip (pe_canonical_decision_id e) \<noteq> [] \<and> strip (pe_decision_version_id e) \<noteq> [] \<longrightarrow>
        (\<exists>c. current_cad (strip (pe_canonical_decision_id e)) L = Some c \<and>
             text_of (dget ''decision_version_id'' c) = strip (pe_decision_version_id e)))"
    using assms(1) by (cases led) (auto simp: superseded_in_def split: option.split)
  have wiring: "ep_status (classify_envelope_presence (Some e) u req h) \<noteq> WIRING_FAILURE" for req h
    unfolding wiring_failure_iff using assms(1) by simp
  have drift: "\<not> drifted x y \<longleftrightarrow> strip x = [] \<or> strip y = [] \<or> strip x = strip y" for x y
    by (auto simp: drifted_def Let_def)
  have "(\<forall>e'. Some e = Some e' \<longrightarrow> P e') \<longleftrightarrow> P e" for P by simp
  then show ?thesis
    using assms wiring
    unfolding monitor_passes plan_conforms_def superseded drift by simp
qed



definition slice_envelope :: policy_envelope where
  "slice_envelope = (bare_envelope ''current'' [])\<lparr>action_intent := ''prepare_reply_draft'', action_target := ''customer'',
     action_channel := ''mail'', allowed_action_tools := [''generate_draft_reply''],
     forbidden_tools := [''request_operator_clarification''], pe_canonical_decision_id := ''dec_1'',
     pe_policy_decision_id := ''pd_1'', pe_action_proposal_id := ''ap_1''\<rparr>"

theorem current_envelope_binds_plan_witness:
  "monitor_plan (Some slice_envelope) True [] None (plan_for ''generate_draft_reply'' [(''intent'', PStr ''quote'')]) = None \<and>
   monitor_plan (Some slice_envelope) True [] None (plan_for ''generate_draft_reply'' [(''recipient'', PStr ''x'')]) \<noteq> None \<and>
   monitor_plan (Some slice_envelope) True [] None (plan_for ''request_operator_clarification'' []) \<noteq> None"
proof -
  have "validate_plan_arguments slice_envelope (plan_for ''generate_draft_reply'' [(''intent'', PStr ''quote'')]) = []"
    "validate_plan_arguments slice_envelope (plan_for ''generate_draft_reply'' [(''recipient'', PStr ''x'')]) \<noteq> []"
    by code_simp+
  moreover have same: "same_parents slice_envelope (plan_for n a)" for n a
  proof -
    have "strip ''pd_1'' \<noteq> []" "strip ''ap_1'' \<noteq> []" by code_simp+
    then show ?thesis by (simp add: same_parents_def slice_envelope_def bare_envelope_def plan_for_def)
  qed
  moreover have "stripped_names [] = []" "stripped_names [''generate_draft_reply''] = [''generate_draft_reply'']"
    "stripped_names [''request_operator_clarification''] = [''request_operator_clarification'']" "strip [] = []"
    by code_simp+
  moreover have cur: "freshness slice_envelope = ''current''" by (simp add: slice_envelope_def bare_envelope_def)
  ultimately show ?thesis
    unfolding current_envelope_binds_plan [OF cur same]
    by (simp add: slice_envelope_def bare_envelope_def plan_for_def SEMANTIC_ACTION_TOOLS_def
        ACTION_PRODUCING_TOOLS_def)
qed

text \<open>
  No envelope, no action.  Once the case has been understood, a plan that produces an action (a draft
  to the customer or a change of data) is refused when there is no envelope or only one that is not available,
  unless the run is a harness run whose payload does not insist on the policy; the refusal names the missing
  envelope and asks for the operator.
\<close>

theorem no_action_without_envelope:
  assumes "envelope = None \<or> (\<exists>e. envelope = Some e \<and> freshness e \<notin> {''current'', ''stale''})"
    and "tp_tool_name plan \<in> set ACTION_PRODUCING_TOOLS"
    and "is_true (dget ''policy_required'' payload) \<or> \<not> truthy (dget ''harness_mode'' payload)"
  shows "\<exists>r. monitor_plan envelope True payload led plan = Some r \<and>
     tr_failure_class r = ''POLICY_ENVELOPE_MISSING'' \<and> tr_status r = ''error'' \<and>
     dget ''hitl_gate'' (tr_snapshot_delta r) =
       PDict [(''required'', PBool True), (''reason'', PStr ''policy_envelope_wiring_failure'')]"
proof -
  have "\<not> (truthy (dget ''harness_mode'' payload) \<and> \<not> policy_path_requires_envelope True payload)"
    using assms(3) unfolding policy_path_requires_envelope_def by auto
  with assms(1) have "ep_status (classify_envelope_presence envelope True (policy_path_requires_envelope True payload)
      (truthy (dget ''harness_mode'' payload))) = WIRING_FAILURE"
    unfolding wiring_failure_iff by (cases envelope) auto
  then show ?thesis
    using assms(2)
    by (simp add: monitor_plan_def policy_enforcement_block_def policy_refusal_def gate_delta_def Let_def)
qed

theorem no_action_without_envelope_witness:
  "\<exists>r. monitor_plan None True [] None (plan_for ''generate_draft_reply'' []) = Some r \<and>
     tr_failure_class r = ''POLICY_ENVELOPE_MISSING''"
proof -
  have "tp_tool_name (plan_for ''generate_draft_reply'' []) \<in> set ACTION_PRODUCING_TOOLS"
    "is_true (dget ''policy_required'' []) \<or> \<not> truthy (dget ''harness_mode'' ([]::pydict))"
    by code_simp+
  from no_action_without_envelope [OF disjI1 [OF refl] this] show ?thesis by blast
qed

text \<open>
  Property C7.  A revision overtakes the plans already on their way to a tool: once a reachable ledger has
  accepted a revision of its current decision, every plan that arrives under an envelope that projects the version
  that was current before, and whose freshness is still current, is refused as a stale revision, whatever its
  tool, its arguments and the ids it carries, and the refusal asks for the operator.  An envelope whose
  freshness is no longer current is not covered: the code does not compare it with the ledger.
\<close>

theorem current_envelope_of_superseded_version_is_refused:
  assumes "reachable L" and "current_cad i L = Some old" and "rid request \<noteq> []"
    and "evaluate_decision_revision sha256 u1 u2 now (PDict request) (PDict old) br cs L = (Inr oc, M)"
    and "ro_accepted oc" and "freshness e = ''current''"
    and bound: "strip (pe_canonical_decision_id e) = did old" "strip (pe_decision_version_id e) = ver old"
  shows "\<exists>r. monitor_plan (Some e) u payload (Some M) plan = Some r \<and>
     tr_failure_class r = ''STALE_DECISION_REVISION'' \<and> tr_status r = ''error'' \<and>
     (\<exists>reason. dget ''hitl_gate'' (tr_snapshot_delta r) =
       PDict [(''required'', PBool True), (''reason'', PStr reason)])"
proof -
  obtain new where new: "current_cad i M = Some new" "ver new \<noteq> ver old" "ver new \<noteq> []"
    using accepted_supersedes(1) [OF assms(1-5)] by blast
  have did: "did old = strip i" by (rule accepted_supersedes(2) [OF assms(1-5)])
  have cur: "current_cad (did old) M = Some new" using new(1) by (simp add: did current_cad_def)
  have ids: "did old \<noteq> []" "ver old \<noteq> []"
    using current_row_canonical [OF assms(1,2)] by (simp_all add: canonical_row_def wf_row_def)
  have "text_of (dget ''decision_version_id'' new) \<noteq> ver old"
    using new(2) by (metis norm_of_def strip_norm_of)
  then obtain r where r: "stale_revision_block (Some e) (Some M) (correlate_tool_plan plan (Some e)) = Some r"
    and f: "tr_failure_class r = ''STALE_DECISION_REVISION'' \<and> tr_status r = ''error'' \<and>
      (\<exists>reason. dget ''hitl_gate'' (tr_snapshot_delta r) =
        PDict [(''required'', PBool True), (''reason'', PStr reason)])"
    using cur ids assms(6) bound
    by (simp add: stale_revision_block_def policy_refusal_def gate_delta_def Let_def)
  have "ep_status (classify_envelope_presence (Some e) u req h) \<noteq> WIRING_FAILURE" for req h
    unfolding wiring_failure_iff using assms(6) by simp
  then have "monitor_plan (Some e) u payload (Some M) plan = Some r"
    using r by (simp add: monitor_plan_def policy_enforcement_block_def Let_def)
  with f show ?thesis by blast
qed

definition sample_envelope :: policy_envelope where
  "sample_envelope = slice_envelope\<lparr>pe_canonical_decision_id := did sample_cad, pe_decision_version_id := ver sample_cad\<rparr>"

theorem current_envelope_of_superseded_version_is_refused_witness:
  "\<exists>r. monitor_plan (Some sample_envelope) True [] (Some (snd sample_evaluation))
     (plan_for ''generate_draft_reply'' [(''intent'', PStr ''quote'')]) = Some r \<and>
   tr_failure_class r = ''STALE_DECISION_REVISION''"
proof -
  obtain oc where oc: "fst sample_evaluation = Inr oc" "ro_accepted oc"
    using sample_evaluation_accepts by (auto split: sum.splits)
  then have ev: "evaluate_decision_revision sample_digest ''u1'' ''u2'' ''t2'' (PDict sample_request)
      (PDict sample_cad) sample_br sample_canon_state sample_ledger = (Inr oc, snd sample_evaluation)"
    unfolding sample_evaluation_def by (metis prod.collapse)
  have e: "freshness sample_envelope = ''current''" "strip (pe_canonical_decision_id sample_envelope) = did sample_cad"
    "strip (pe_decision_version_id sample_envelope) = ver sample_cad"
    by (simp_all add: sample_envelope_def slice_envelope_def bare_envelope_def)
  show ?thesis
    using current_envelope_of_superseded_version_is_refused [OF sample_reachable sample_current(1) sample_request_facts(1) ev oc(2) e,
        of True "[]" "plan_for ''generate_draft_reply'' [(''intent'', PStr ''quote'')]"] by blast
qed

text \<open>
  What the monitor does not hold a plan to.  Under an envelope that has expired nothing is checked: not the
  forbidden tools, not the ledger.  A plan that names another policy decision is a conflict the
  enforcement ignores, and the forbidden tools are then not looked at.  When the lookup of the records fails, a
  policy-gated action runs without an envelope.
\<close>

theorem stale_envelope_enforces_nothing:
  "freshness e = ''stale'' \<Longrightarrow> monitor_plan (Some e) u payload led plan = None"
  unfolding monitor_passes superseded_in_def wiring_failure_iff by (simp split: option.split)

theorem foreign_parent_is_not_enforced:
  "monitor_plan (Some slice_envelope) True [] None
     ((plan_for ''request_operator_clarification'' [])\<lparr>tp_policy_decision_id := ''pd_2''\<rparr>) = None \<and>
   monitor_plan (Some slice_envelope) True [] None (plan_for ''request_operator_clarification'' []) \<noteq> None"
  by code_simp

theorem failed_lookup_runs_ungated:
  "monitor_plan (Some (unavailable ''canonical_policy_decision_not_found'')) False [(''policy_required'', PBool True)] None
     (plan_for ''propose_mutation'' []) = None \<and>
   monitor_plan None False [(''policy_required'', PBool True)] None (plan_for ''propose_mutation'' []) \<noteq> None"
  by code_simp


subsection \<open>From the first stage's records to the monitor\<close>

lemma dget_merge:
  "distinct (map fst e) \<Longrightarrow> dget k (dict_merge d e) = (case map_of e k of Some v \<Rightarrow> v | None \<Rightarrow> dget k d)"
  unfolding dict_merge_def
proof (induction e arbitrary: d)
  case (Cons a e)
  then show ?case by (cases a) (auto split: option.split simp: map_of_eq_None_iff image_iff)
qed simp

lemma constraint_round_trip:
  assumes "strip (ac_argument_name c) = ac_argument_name c" and "norm_provenance (ac_provenance c) = ac_provenance c"
  shows "constraint_of_row (constraint_row c) = c"
proof -
  have "list_all (\<lambda>k. find (\<lambda>m. mode_str m = upper (strip (mode_str k))) ARGUMENT_CONSTRAINT_MODES = Some k)
      ARGUMENT_CONSTRAINT_MODES" by code_simp
  moreover have "k \<in> set ARGUMENT_CONSTRAINT_MODES" for k
    by (cases k) (simp_all add: ARGUMENT_CONSTRAINT_MODES_def)
  ultimately have modes:
    "find (\<lambda>m. mode_str m = upper (strip (mode_str k))) ARGUMENT_CONSTRAINT_MODES = Some k" for k
    unfolding list_all_iff by blast
  have n: "norm_text (PStr t) = strip t" for t by (simp add: norm_text_def)
  from assms(2) have "strip (pv_source_kind (ac_provenance c)) = pv_source_kind (ac_provenance c)"
    "strip (pv_source_ref (ac_provenance c)) = pv_source_ref (ac_provenance c)"
    "strip (pv_decision_id (ac_provenance c)) = pv_decision_id (ac_provenance c)"
    "strip (pv_decision_version_id (ac_provenance c)) = pv_decision_version_id (ac_provenance c)"
    "strip (pv_semantic_hash (ac_provenance c)) = pv_semantic_hash (ac_provenance c)"
    by (metis norm_provenance_def provenance.select_convs)+
  with assms(1) show ?thesis
    by (simp add: constraint_of_row_def constraint_row_def modes n)
qed

lemma slice_round_trip:
  "map constraint_of_row (map constraint_row (project_slice_argument_constraints i t ch d v h tools tool)) =
     project_slice_argument_constraints i t ch d v h tools tool"
proof -
  have "constraint_of_row (constraint_row c) = c"
    if "build_argument_constraint n m ex al pv = Some c" for n m ex al pv c
    using that by (intro constraint_round_trip) (auto simp: build_argument_constraint_def norm_provenance_def)
  then have "list_all (\<lambda>c. constraint_of_row (constraint_row c) = c)
      (project_slice_argument_constraints i t ch d v h tools tool)"
    unfolding project_slice_argument_constraints_def Let_def
    by (auto simp: list_all_iff map_filter_def)
  then show ?thesis by (induction "project_slice_argument_constraints i t ch d v h tools tool") (simp_all add: list_all_iff map_idI)
qed

lemma update_rows: "snd ` set (AList.update k v d) \<subseteq> insert v (snd ` set d)"
  by (induction d) auto

lemma append_proposals_rows:
  assumes "append_proposals og candidate pd raws n st = (k, st')"
  shows "m_policy_decisions st' = m_policy_decisions st"
    and "row \<in> snd ` set (m_action_proposals_v2 st') \<Longrightarrow>
      row \<in> snd ` set (m_action_proposals_v2 st) \<or>
      (\<exists>raw. proposal_relevant og candidate pd raw \<and> proposal_row og candidate pd raw = Some row)"
proof -
  have "m_policy_decisions st' = m_policy_decisions st \<and>
     (\<forall>row \<in> snd ` set (m_action_proposals_v2 st'). row \<in> snd ` set (m_action_proposals_v2 st) \<or>
      (\<exists>raw. proposal_relevant og candidate pd raw \<and> proposal_row og candidate pd raw = Some row))"
    using assms
  proof (induction og candidate pd raws n st arbitrary: k st' rule: append_proposals.induct)
    case (2 og candidate pd raw raws n st)
    show ?case
    proof (cases "\<not> is_dict raw \<or> \<not> proposal_relevant og candidate pd (as_dict raw)")
      case True
      with 2 show ?thesis by simp
    next
      case rel: False
      show ?thesis
      proof (cases "proposal_row og candidate pd (as_dict raw)")
        case None
        with 2(3) rel show ?thesis by auto
      next
        case (Some r)
        obtain ok st1 where a: "append_action_proposal_v2 r st = (ok, st1)" by fastforce
        have st1: "m_policy_decisions st1 = m_policy_decisions st"
          using a by (auto simp: append_action_proposal_v2_eq split: if_split_asm)
        have "st1 = st \<or> m_action_proposals_v2 st1 =
            AList.update (keycol ''proposal_id'' r) r (m_action_proposals_v2 st)"
          using a by (auto simp: append_action_proposal_v2_eq split: if_split_asm)
        then have rows: "snd ` set (m_action_proposals_v2 st1) \<subseteq> insert r (snd ` set (m_action_proposals_v2 st))"
          by (elim disjE) (simp_all add: update_rows subset_insertI)
        have ih: "m_policy_decisions st' = m_policy_decisions st1 \<and>
            (\<forall>row \<in> snd ` set (m_action_proposals_v2 st'). row \<in> snd ` set (m_action_proposals_v2 st1) \<or>
              (\<exists>raw. proposal_relevant og candidate pd raw \<and> proposal_row og candidate pd raw = Some row))"
          by (rule "2.IH"(2) [OF rel Some a [symmetric] refl]) (use 2(3) rel Some a in simp)
        have r: "proposal_relevant og candidate pd (as_dict raw)" using rel by simp
        show ?thesis
        proof (intro conjI ballI)
          show "m_policy_decisions st' = m_policy_decisions st" using ih st1 by simp
          fix row
          assume "row \<in> snd ` set (m_action_proposals_v2 st')"
          with ih have "row \<in> snd ` set (m_action_proposals_v2 st1) \<or>
              (\<exists>raw. proposal_relevant og candidate pd raw \<and> proposal_row og candidate pd raw = Some row)"
            by (rule conjunct2 [THEN bspec])
          then show "row \<in> snd ` set (m_action_proposals_v2 st) \<or>
              (\<exists>raw. proposal_relevant og candidate pd raw \<and> proposal_row og candidate pd raw = Some row)"
          proof
            assume "row \<in> snd ` set (m_action_proposals_v2 st1)"
            then have "row = r \<or> row \<in> snd ` set (m_action_proposals_v2 st)" using rows by (meson insertE subsetD)
            then show ?thesis using r Some by (elim disjE) (simp_all, metis)
          qed (rule disjI2)
        qed
      qed
    qed
  qed simp
  then show "m_policy_decisions st' = m_policy_decisions st"
    and "row \<in> snd ` set (m_action_proposals_v2 st') \<Longrightarrow>
      row \<in> snd ` set (m_action_proposals_v2 st) \<or>
      (\<exists>raw. proposal_relevant og candidate pd raw \<and> proposal_row og candidate pd raw = Some row)"
    by blast+
qed


lemma slice_to_Nil: "0 < n \<Longrightarrow> slice_to n xs = [] \<longleftrightarrow> xs = []"
  by (simp add: slice_to_def)

lemma fetch_v2_Nil:
  "fetch_action_proposals_v2 c sig m 20 st = [] \<longleftrightarrow>
     (\<forall>row \<in> snd ` set (m_action_proposals_v2 st). \<not> of_origin c sig m row)"
proof -
  have "sort_desc f xs = [] \<longleftrightarrow> xs = []" for f :: "pydict \<Rightarrow> string" and xs
    by (metis length_0_conv length_sort_desc)
  then show ?thesis by (auto simp: fetch_action_proposals_v2_def slice_to_Nil filter_empty_conv)
qed

lemma fetch_v2_member:
  "row \<in> set (fetch_action_proposals_v2 c sig m n st) \<Longrightarrow>
     row \<in> snd ` set (m_action_proposals_v2 st) \<and> of_origin c sig m row"
  using set_slice_to by (fastforce simp: fetch_action_proposals_v2_def)

text \<open>Whatever is persisted for an origin that had no proposal is projected from one of its proposals.\<close>

lemma projected_from_persisted:
  assumes persist: "persist_policy_action_spine (Some st) (PDict intel) cid sig msg = (Some res, Some st')"
    and empty: "fetch_action_proposals_v2 (strip cid) (strip sig) (strip msg) 20 st = []"
    and cur: "freshness (project_policy_action_envelope as_utc iso_z (Some st') cid sig msg now_at) = ''current''"
  obtains pd raw row policy where "proposal_relevant \<lparr>og_case_id = strip cid, og_signal_id = strip sig, og_message_id = strip msg\<rparr>
      (candidate_from_intelligence intel) pd raw"
    and "proposal_row \<lparr>og_case_id = strip cid, og_signal_id = strip sig, og_message_id = strip msg\<rparr>
      (candidate_from_intelligence intel) pd raw = Some row"
    and "norm_of (dget ''policy_decision_id'' row) \<noteq> []"
    and "project_policy_action_envelope as_utc iso_z (Some st') cid sig msg now_at =
      envelope_of as_utc iso_z now_at \<lparr>og_case_id = strip cid, og_signal_id = strip sig, og_message_id = strip msg\<rparr>
        (norm_of (dget ''policy_decision_id'' row)) policy row"
proof -
  let ?og = "\<lparr>og_case_id = strip cid, og_signal_id = strip sig, og_message_id = strip msg\<rparr>"
  let ?cand = "candidate_from_intelligence intel"
  have un: "freshness (unavailable r) \<noteq> ''current''" for r by (simp add: bare_envelope_def)
  obtain row rest where rows: "fetch_action_proposals_v2 (strip cid) (strip sig) (strip msg) 20 st' = row # rest"
    using cur un by (auto simp: project_policy_action_envelope_def Let_def split: list.splits if_split_asm)
  from rows obtain policy where pol: "norm_of (dget ''policy_decision_id'' row) \<noteq> []"
    and proj: "project_policy_action_envelope as_utc iso_z (Some st') cid sig msg now_at =
      envelope_of as_utc iso_z now_at ?og (norm_of (dget ''policy_decision_id'' row)) policy row"
    using cur un by (auto simp: project_policy_action_envelope_def Let_def split: option.splits if_split_asm)
  have row: "row \<in> snd ` set (m_action_proposals_v2 st')" "of_origin (strip cid) (strip sig) (strip msg) row"
    using fetch_v2_member [of row "strip cid" "strip sig" "strip msg" 20 st'] rows by simp_all
  then have "row \<notin> snd ` set (m_action_proposals_v2 st)" using empty unfolding fetch_v2_Nil by blast
  moreover have "st' \<noteq> st" using row(1) calculation by blast
  then obtain pd prow where "dget ''policy_decision'' intel = PDict pd" and "policy_row ?og ?cand pd = Some prow"
    and ap: "snd (append_proposals ?og ?cand pd (list_items (dget ''action_proposals_v2'' intel)) 0
      (snd (append_policy_decision prow st))) = st'"
    using persist
    by (auto simp: persist_policy_action_spine_def Let_def split: pyval.splits if_split_asm option.splits prod.splits)
  moreover define st1 where "st1 = snd (append_policy_decision prow st)"
  moreover have st1: "m_action_proposals_v2 st1 = m_action_proposals_v2 st"
    by (simp add: st1_def append_policy_decision_eq)
  ultimately obtain k where app: "append_proposals ?og ?cand pd (list_items (dget ''action_proposals_v2'' intel)) 0 st1 = (k, st')"
    by (metis prod.collapse)
  from append_proposals_rows(2) [OF app row(1)] \<open>row \<notin> snd ` set (m_action_proposals_v2 st)\<close> st1
  obtain raw where "proposal_relevant ?og ?cand pd raw" "proposal_row ?og ?cand pd raw = Some row" by auto
  then show thesis using pol proj by (rule that)
qed


text \<open>The envelope of a proposal that asks the customer for missing data.\<close>

lemma missing_data_envelope:
  fixes as_utc :: "string \<Rightarrow> 't::linorder option" and iso_z now_at pid policy
  assumes row: "proposal_row og candidate pd raw = Some row" and rel: "proposal_relevant og candidate pd raw"
    and nba: "nba_action_of candidate = ''ask_for_missing_data''"
  defines "e \<equiv> envelope_of as_utc iso_z now_at og pid policy row"
    and "ch \<equiv> str_or (norm_of (dget ''suggested_channel'' (next_best_action_dict candidate))) ''mail''"
  shows "allowed_tools e = []" and "allowed_action_tools e = [''generate_draft_reply'']"
    and "forbidden_tools e = [''request_operator_clarification'']"
    and "strip (pe_action_proposal_id e) \<noteq> []"
    and "\<exists>d v h. pe_argument_constraints e = map constraint_row
      (project_slice_argument_constraints ''ask_for_missing_data'' ''customer'' ch d v h [''generate_draft_reply'']
        ''generate_draft_reply'')"
proof -
  define sem where "sem = semantic_tool_constraints (text_of (dget ''action_type'' raw)) candidate
       (text_of (dget ''canonical_decision_id'' raw)) (text_of (dget ''semantic_hash'' raw))
       (text_of (dget ''decision_version_id'' raw))"
  have raw_json: "proposal_raw_json row = dict_merge raw sem" and pid: "dget ''proposal_id'' row = PStr (norm_of (dget ''proposal_id'' raw))"
    using row by (auto simp: proposal_row_def proposal_raw_json_def raw_with_semantics_def sem_def)
  have strips: "strip ''generate_draft_reply'' = ''generate_draft_reply''"
    "strip ''request_operator_clarification'' = ''request_operator_clarification''"
    by code_simp+
  have rows: "dict_rows (map (PDict \<circ> f) xs) = map f xs" for f :: "arg_constraint \<Rightarrow> pydict" and xs
    by (induction xs) simp_all
  note simps = sem_def semantic_tool_constraints_def nba Let_def CUSTOMER_MAIL_TOOLS_def OPERATOR_CLARIFICATION_TOOL_def
  have keys: "distinct (map fst sem)" by (simp add: simps)
  have first: "str_or ''ask_for_missing_data'' p = ''ask_for_missing_data''" for p by (simp add: str_or_def)
  have sems: "dget ''allowed_tools'' (dict_merge raw sem) = PList []"
    "dget ''allowed_action_tools'' (dict_merge raw sem) = PList [PStr ''generate_draft_reply'']"
    "dget ''forbidden_tools'' (dict_merge raw sem) = PList [PStr ''request_operator_clarification'']"
    "\<exists>d v h. dget ''argument_constraints'' (dict_merge raw sem) = PList (map (PDict \<circ> constraint_row)
      (project_slice_argument_constraints ''ask_for_missing_data'' ''customer'' ch d v h [''generate_draft_reply'']
        ''generate_draft_reply''))"
    unfolding dget_merge [OF keys] ch_def by (auto simp: simps first)
  show "allowed_tools e = []" "allowed_action_tools e = [''generate_draft_reply'']"
    "forbidden_tools e = [''request_operator_clarification'']"
    by (simp_all add: e_def envelope_of_def Let_def raw_json string_list_def sems strips)
  show "strip (pe_action_proposal_id e) \<noteq> []"
    using rel by (simp add: e_def envelope_of_def Let_def pid proposal_relevant_def)
  from sems(4) obtain d v h where c: "dget ''argument_constraints'' (dict_merge raw sem) = PList (map (PDict \<circ> constraint_row)
      (project_slice_argument_constraints ''ask_for_missing_data'' ''customer'' ch d v h [''generate_draft_reply'']
        ''generate_draft_reply''))" by blast
  show "\<exists>d v h. pe_argument_constraints e = map constraint_row
      (project_slice_argument_constraints ''ask_for_missing_data'' ''customer'' ch d v h [''generate_draft_reply'']
        ''generate_draft_reply'')"
    by (rule exI [of _ d], rule exI [of _ v], rule exI [of _ h])
      (simp add: e_def envelope_of_def Let_def raw_json constraint_list_def c rows)
qed


lemma draft_slice_arguments:
  assumes "pe_argument_constraints e = map constraint_row
      (project_slice_argument_constraints ''ask_for_missing_data'' ''customer'' ch d v h [''generate_draft_reply'']
        ''generate_draft_reply'')"
    and "lower (strip ch) = ''mail''" and "validate_plan_arguments e (plan_for n args) = []"
  shows "list_all (\<lambda>(k, x). strip k = [] \<or> strip k = ''intent'' \<and> lower (norm_text x) = ''missing_info'') args"
proof -
  let ?K = "project_slice_argument_constraints ''ask_for_missing_data'' ''customer'' ch d v h [''generate_draft_reply'']
        ''generate_draft_reply''"
  have hyp: "strip ''generate_draft_reply'' \<noteq> []" "strip ''generate_draft_reply'' \<in> strip ` set [''generate_draft_reply'']"
    "lower (strip ''customer'') = ''customer''" "set (intent_allowed_for ''ask_for_missing_data'') = {''missing_info''}"
    by code_simp+
  have "strip ''generate_draft_reply'' \<in> set (filter (\<lambda>t. t \<noteq> []) (map strip [''generate_draft_reply'']))" by code_simp
  from slice_constraint [OF this hyp(3) assms(2), of "''ask_for_missing_data''" d v h "''intent''"]
  have "?K \<noteq> []" by (auto simp: constraints_by_name_def)
  then have "validate_plan_arguments e (plan_for n args) = constraint_violations (PDict args) ?K"
    unfolding validate_plan_arguments_def Let_def assms(1) slice_round_trip by (simp add: plan_for_def)
  with assms(3) have "constraint_violations (PDict args) ?K = []" by simp
  then show ?thesis
    unfolding slice_leaves_intent_only [OF hyp(1-3) assms(2)] hyp(4) singleton_iff .
qed

text \<open>
  Property C6.  The first enforced slice, from the records of the first stage to the tool call.  The candidate's
  next best action asks for missing data, it suggests mail or no channel, its records are persisted for a
  signal that had no proposal before, and the envelope projected from the store afterwards is current.
  Then a plan that carries no ids of its own passes the monitor only if it does not ask the operator instead;
  and if its tool is one of the semantic action tools (the draft to the customer and the question to the operator)
  it is the draft, and every argument with a name is an intent that says missing information.  Tools that are not
  semantic action tools, such as lookups, are not restricted by this envelope.
\<close>

theorem missing_data_slice_allows_draft_only:
  assumes "persist_policy_action_spine (Some st) (PDict intel) cid sig msg = (Some res, Some st')"
    and "fetch_action_proposals_v2 (strip cid) (strip sig) (strip msg) 20 st = []"
    and "nba_action_of (candidate_from_intelligence intel) = ''ask_for_missing_data''"
    and "lower (norm_of (dget ''suggested_channel'' (next_best_action_dict (candidate_from_intelligence intel))))
      \<in> {[], ''mail''}"
    and "freshness (project_policy_action_envelope as_utc iso_z (Some st') cid sig msg now_at) = ''current''"
    and "monitor_plan (Some (project_policy_action_envelope as_utc iso_z (Some st') cid sig msg now_at)) u payload led
      (plan_for tool args) = None"
  shows "tool \<noteq> ''request_operator_clarification'' \<and>
    (tool \<in> set SEMANTIC_ACTION_TOOLS \<longrightarrow> tool = ''generate_draft_reply'' \<and>
      list_all (\<lambda>(k, x). strip k = [] \<or> strip k = ''intent'' \<and> lower (norm_text x) = ''missing_info'') args)"
proof -
  define e where "e = project_policy_action_envelope as_utc iso_z (Some st') cid sig msg now_at"
  let ?og = "\<lparr>og_case_id = strip cid, og_signal_id = strip sig, og_message_id = strip msg\<rparr>"
  let ?cand = "candidate_from_intelligence intel"
  obtain pd raw row policy where rel: "proposal_relevant ?og ?cand pd raw" and row: "proposal_row ?og ?cand pd raw = Some row"
    and pid: "norm_of (dget ''policy_decision_id'' row) \<noteq> []"
    and e: "e = envelope_of as_utc iso_z now_at ?og (norm_of (dget ''policy_decision_id'' row)) policy row"
    unfolding e_def by (rule projected_from_persisted [OF assms(1,2,5)])
  note env = missing_data_envelope [OF row rel assms(3), of as_utc iso_z now_at
      "norm_of (dget ''policy_decision_id'' row)" policy, folded e]
  have cur: "freshness e = ''current''" using assms(5) by (simp add: e_def)
  have "pe_policy_decision_id e = norm_of (dget ''policy_decision_id'' row)" by (simp add: e envelope_of_def Let_def)
  then have "same_parents e (plan_for tool args)"
    using pid env(4) by (simp add: same_parents_def plan_for_def)
  then have conf: "plan_conforms e (plan_for tool args)"
    using assms(6) cur unfolding e_def [symmetric] monitor_passes by simp
  have names: "stripped_names [] = []" "stripped_names [''generate_draft_reply''] = [''generate_draft_reply'']"
    "stripped_names [''request_operator_clarification''] = [''request_operator_clarification'']"
    by code_simp+
  have tn: "tp_tool_name (plan_for tool args) = tool" by (simp add: plan_for_def)
  note conf = conf [unfolded plan_conforms_def env(1-3) names tn]
  have tool1: "tool \<noteq> ''request_operator_clarification''" using conf by simp
  have tool2: "tool = ''generate_draft_reply'' \<and> validate_plan_arguments e (plan_for tool args) = []"
    if m: "tool \<in> set SEMANTIC_ACTION_TOOLS"
  proof -
    have "([]::string list) \<noteq> [] \<longleftrightarrow> False" "[''generate_draft_reply''] \<noteq> [] \<longleftrightarrow> True" by simp_all
    with conf m have "tool \<in> set [''generate_draft_reply''] \<and> validate_plan_arguments e (plan_for tool args) = []"
      by (simp only: if_True if_False simp_thms)
    then show ?thesis unfolding list.set singleton_iff .
  qed
  let ?ch = "str_or (norm_of (dget ''suggested_channel'' (next_best_action_dict ?cand))) ''mail''"
  have "lower (strip ''mail'') = ''mail''" by code_simp
  then have ch: "lower (strip ?ch) = ''mail''"
    using assms(4) by (auto simp: str_or_def)
  from env(5) obtain d v h where "pe_argument_constraints e = map constraint_row
      (project_slice_argument_constraints ''ask_for_missing_data'' ''customer'' ?ch d v h [''generate_draft_reply'']
        ''generate_draft_reply'')" by (elim exE)
  from draft_slice_arguments [OF this ch] tool1 tool2 show ?thesis by blast
qed

definition sample_intelligence :: pydict where
  "sample_intelligence =
     [(''decision_candidate'', PDict [(''decision_candidate_id'', PStr ''dc_1''), (''case_id'', PStr ''c1''),
         (''source_signal_id'', PStr ''m1''),
         (''next_best_action'', PDict [(''action_type'', PStr ''ask_for_missing_data'')])]),
      (''policy_decision'', PDict [(''policy_decision_id'', PStr ''pd_1''), (''decision_candidate_id'', PStr ''dc_1''),
         (''status'', PStr ''allowed'')]),
      (''action_proposals_v2'', PList [PDict [(''schema_version'', PStr ''action_proposal.v2''),
         (''proposal_id'', PStr ''ap_1''), (''case_id'', PStr ''c1''), (''decision_candidate_id'', PStr ''dc_1''),
         (''policy_decision_id'', PStr ''pd_1''), (''action_type'', PStr ''prepare_reply_draft'')]])]"

definition sample_spine_store :: mailbox_store where
  "sample_spine_store = the (snd (persist_policy_action_spine (Some empty_mailbox) (PDict sample_intelligence) ''c1'' ''s1'' ''m1''))"

lemma sample_spine_facts:
  "persist_policy_action_spine (Some empty_mailbox) (PDict sample_intelligence) ''c1'' ''s1'' ''m1'' =
     (Some \<lparr>policy_decision_inserted = True, action_proposals_v2_inserted = 1\<rparr>, Some sample_spine_store)"
  "fetch_action_proposals_v2 (strip ''c1'') (strip ''s1'') (strip ''m1'') 20 empty_mailbox = []"
  "nba_action_of (candidate_from_intelligence sample_intelligence) = ''ask_for_missing_data''"
  "norm_of (dget ''suggested_channel'' (next_best_action_dict (candidate_from_intelligence sample_intelligence))) = []"
  "freshness (project_policy_action_envelope (\<lambda>t. None :: int option) (\<lambda>t. []) (Some sample_spine_store) ''c1'' ''s1'' ''m1'' None) =
     ''current''"
  unfolding sample_spine_store_def by code_simp+

theorem missing_data_slice_allows_draft_only_witness:
  "monitor_plan (Some (project_policy_action_envelope (\<lambda>t. None :: int option) (\<lambda>t. []) (Some sample_spine_store)
     ''c1'' ''s1'' ''m1'' None)) True [] None (plan_for ''request_operator_clarification'' []) \<noteq> None \<and>
   monitor_plan (Some (project_policy_action_envelope (\<lambda>t. None :: int option) (\<lambda>t. []) (Some sample_spine_store)
     ''c1'' ''s1'' ''m1'' None)) True [] None (plan_for ''generate_draft_reply'' [(''intent'', PStr ''missing_info'')]) = None"
proof (rule conjI)
  have "lower (norm_of (dget ''suggested_channel'' (next_best_action_dict (candidate_from_intelligence sample_intelligence))))
      \<in> {[], ''mail''}" by (simp add: sample_spine_facts(4))
  from missing_data_slice_allows_draft_only [OF sample_spine_facts(1-3) this sample_spine_facts(5), of True "[]" None
      "''request_operator_clarification''" "[]"]
  show "monitor_plan (Some (project_policy_action_envelope (\<lambda>t. None :: int option) (\<lambda>t. []) (Some sample_spine_store)
     ''c1'' ''s1'' ''m1'' None)) True [] None (plan_for ''request_operator_clarification'' []) \<noteq> None" by blast
  show "monitor_plan (Some (project_policy_action_envelope (\<lambda>t. None :: int option) (\<lambda>t. []) (Some sample_spine_store)
     ''c1'' ''s1'' ''m1'' None)) True [] None (plan_for ''generate_draft_reply'' [(''intent'', PStr ''missing_info'')]) = None"
    unfolding sample_spine_store_def by code_simp
qed

end
