(* ===== verification/Agent_Snapshot.thy ===== *)
theory Agent_Snapshot
  imports Reference_Monitor
begin

text \<open>
  The engagement snapshot as the agent loop reads and writes it: \<open>agent_runtime/snapshot_delta.py\<close>,
  \<open>agent_runtime/sub_agents.py\<close> and the snapshot functions of \<open>agent_runtime/graph.py\<close>.

  A snapshot is the dictionary \<open>model_dump\<close> returns, an attribute access a lookup in it and
  \<open>model_copy\<close> with an update an item assignment.  The validation of the merged dictionary by the model
  class (\<open>model_validate\<close>, pydantic) is the argument \<open>validate\<close>: the dump of the validated model, or \<open>None\<close>
  for its \<open>ValidationError\<close>.  What a proof needs of it is a named hypothesis.
\<close>

type_synonym snapshot = pydict

subsection \<open>Reading a snapshot\<close>

definition sub_field :: "string \<Rightarrow> string \<Rightarrow> snapshot \<Rightarrow> pyval" where
  "sub_field k1 k2 s = dget k2 (as_dict (dget k1 s))"

definition hitl_required :: "snapshot \<Rightarrow> bool" where
  "hitl_required s \<longleftrightarrow> truthy (sub_field ''hitl_gate'' ''required'' s)"

definition op_code :: "snapshot \<Rightarrow> string" where
  "op_code s = text_of (sub_field ''operational_status'' ''code'' s)"

definition steps_remaining :: "snapshot \<Rightarrow> int" where
  "steps_remaining s = (case py_int (sub_field ''operational_status'' ''steps_remaining'' s) of Some n \<Rightarrow> n | None \<Rightarrow> 0)"

definition reasoning_trace :: "snapshot \<Rightarrow> pyval list" where
  "reasoning_trace s = list_items (sub_field ''agent_memory'' ''reasoning_trace'' s)"

definition understanding_present :: "snapshot \<Rightarrow> bool" where
  "understanding_present s \<longleftrightarrow> dget ''case_understanding'' s \<noteq> PNone"

definition opt_bool :: "pyval \<Rightarrow> bool option" where
  "opt_bool v = (case v of PBool b \<Rightarrow> Some b | _ \<Rightarrow> None)"

definition envelope_of_dump :: "pydict \<Rightarrow> policy_envelope" where
  "envelope_of_dump d =
     (let str = (\<lambda>k. text_of (dget k d)); strs = (\<lambda>k. map py_str (list_items (dget k d))) in
      \<lparr>freshness = str ''freshness'', action_intent = str ''action_intent'', action_target = str ''action_target'',
       action_channel = str ''action_channel'', allowed_tools = strs ''allowed_tools'',
       allowed_action_tools = strs ''allowed_action_tools'', forbidden_tools = strs ''forbidden_tools'',
       pe_canonical_decision_id = str ''canonical_decision_id'', pe_decision_version_id = str ''decision_version_id'',
       pe_source_semantic_hash = str ''source_semantic_hash'', pe_decision_candidate_id = str ''decision_candidate_id'',
       pe_policy_decision_id = str ''policy_decision_id'', pe_action_proposal_id = str ''action_proposal_id'',
       pe_source_signal_id = str ''source_signal_id'', pe_source_message_id = str ''source_message_id'',
       pe_policy_status = str ''policy_status'', pe_allowed_by_policy = opt_bool (dget ''allowed_by_policy'' d),
       pe_requires_operator_approval = opt_bool (dget ''requires_operator_approval'' d),
       pe_argument_constraints = dict_rows (list_items (dget ''argument_constraints'' d)),
       pe_proposal_status = str ''proposal_status'', pe_reason_codes = strs ''reason_codes'',
       pe_generated_at = str ''generated_at'', pe_expires_at = str ''expires_at''\<rparr>)"

definition snapshot_envelope :: "snapshot \<Rightarrow> policy_envelope option" where
  "snapshot_envelope s = (case dget ''policy_action_envelope'' s of PDict d \<Rightarrow> Some (envelope_of_dump d) | _ \<Rightarrow> None)"

text \<open>The fields the offer of tools reads.\<close>

definition view_of :: "snapshot \<Rightarrow> engagement_view" where
  "view_of s = \<lparr>case_kind = text_of (dget ''case_kind'' s),
     observed_action = (case dget ''decision_divergence_observation'' s of
        PDict d \<Rightarrow> Some (text_of (dget ''business_recommended_action'' d)) | _ \<Rightarrow> None),
     understanding_risks = (case dget ''case_understanding'' s of
        PDict d \<Rightarrow> Some (list_items (dget ''risks'' d)) | _ \<Rightarrow> None),
     heated_area_m2 = (case sub_field ''hvac_profile'' ''heated_area_m2'' s of PInt i \<Rightarrow> Some i | _ \<Rightarrow> None),
     policy_action_envelope = map_option tool_envelope.truncate (snapshot_envelope s)\<rparr>"

definition LOOP_TERMINAL_CODES :: "string list" where
  "LOOP_TERMINAL_CODES = [''pending_operator'', ''node_a_error'']"

definition is_loop_terminal :: "snapshot \<Rightarrow> bool" where
  "is_loop_terminal s \<longleftrightarrow> (if hitl_required s then True else op_code s \<in> set LOOP_TERMINAL_CODES)"

subsection \<open>Applying a delta\<close>

fun merge_value :: "pyval \<Rightarrow> pyval \<Rightarrow> pyval" and deep_merge :: "pydict \<Rightarrow> pydict \<Rightarrow> pydict" where
  "merge_value old (PDict p) = (case old of PDict b \<Rightarrow> PDict (deep_merge b p) | _ \<Rightarrow> PDict p)"
| "merge_value old v = v"
| "deep_merge base [] = base"
| "deep_merge base ((k, v) # patch) = deep_merge (AList.update k (merge_value (dget k base) v) base) patch"

definition merged_snapshot :: "snapshot \<Rightarrow> pydict \<Rightarrow> snapshot" where
  "merged_snapshot s delta =
     AList.update ''case_id'' (if dhas ''case_id'' delta then PStr (text_of (dget ''case_id'' delta)) else dget ''case_id'' s)
       (AList.update ''engagement_id'' (dget ''engagement_id'' s)
         (AList.update ''version'' (dget ''version'' s) (deep_merge s delta)))"

definition apply_snapshot_delta :: "(pydict \<Rightarrow> pydict option) \<Rightarrow> snapshot \<Rightarrow> pydict \<Rightarrow> snapshot option" where
  "apply_snapshot_delta validate s delta = (if delta = [] then Some s else validate (merged_snapshot s delta))"

definition set_sub :: "string \<Rightarrow> string \<Rightarrow> pyval \<Rightarrow> snapshot \<Rightarrow> snapshot" where
  "set_sub k1 k2 v s = AList.update k1 (PDict (AList.update k2 v (as_dict (dget k1 s)))) s"

definition decrement_steps :: "snapshot \<Rightarrow> snapshot" where
  "decrement_steps s = set_sub ''operational_status'' ''steps_remaining'' (PInt (max 0 (steps_remaining s - 1))) s"

definition require_operator :: "string \<Rightarrow> snapshot \<Rightarrow> snapshot" where
  "require_operator reason s =
     AList.update ''hitl_gate'' (PDict [(''required'', PBool True), (''reason'', PStr reason)]) s"

definition pending_delta :: pydict where
  "pending_delta = [(''operational_status'', PDict [(''code'', PStr ''pending_operator''), (''blocking'', PBool True)])]"

definition apply_snapshot_delta_blocking :: "(pydict \<Rightarrow> pydict option) \<Rightarrow> snapshot \<Rightarrow> string \<Rightarrow> snapshot option" where
  "apply_snapshot_delta_blocking validate s reason =
     map_option (require_operator reason) (apply_snapshot_delta validate s pending_delta)"

subsection \<open>Fields a tool may not write\<close>

definition BRAIN1_OWNED_SNAPSHOT_FIELDS :: "string list" where
  "BRAIN1_OWNED_SNAPSHOT_FIELDS = [''case_understanding'', ''case_understanding_provenance'',
     ''case_understanding_status'', ''policy_action_envelope'']"

definition RUNTIME_OWNED_SNAPSHOT_FIELDS :: "string list" where
  "RUNTIME_OWNED_SNAPSHOT_FIELDS = [''semantic_policy_plan_consistency'', ''decision_divergence_observation'']"

definition PROTECTED_SNAPSHOT_FIELDS :: "string list" where
  "PROTECTED_SNAPSHOT_FIELDS = BRAIN1_OWNED_SNAPSHOT_FIELDS @ RUNTIME_OWNED_SNAPSHOT_FIELDS @
     [''execution_attribution'', ''draft_sanity'', ''planner_run_budget'', ''effective_tools'', ''envelope_presence'']"

definition strip_protected_snapshot_fields :: "pydict \<Rightarrow> pydict" where
  "strip_protected_snapshot_fields delta_source =
     (let blocked = filter (\<lambda>f. dhas f delta_source) PROTECTED_SNAPSHOT_FIELDS in
      if blocked = [] then delta_source else filter (\<lambda>(k, v). k \<notin> set blocked) delta_source)"

text \<open>
  The traces of a delta: \<open>dict\<close> or \<open>.get\<close> of a memory entry that is a value other than a dictionary raises.
\<close>

definition delta_memory :: "pydict \<Rightarrow> pydict option" where
  "delta_memory delta = (case py_or (dget ''agent_memory'' delta) (PDict []) of PDict m \<Rightarrow> Some m | _ \<Rightarrow> None)"

definition trace_item :: "int \<Rightarrow> string \<Rightarrow> pyval" where
  "trace_item n summary = PDict [(''turn'', PInt n), (''summary_pl'', PStr summary)]"

definition record_call :: "string \<Rightarrow> string \<Rightarrow> string \<Rightarrow> snapshot \<Rightarrow> snapshot" where
  "record_call tool status summary s =
     (let trace = reasoning_trace s;
          trace' = (if summary \<noteq> [] then trace @ [trace_item (int (length trace) + 1) summary] else trace);
          calls = list_items (sub_field ''agent_memory'' ''tool_calls'' s) @
            [PDict [(''tool'', PStr tool), (''status'', PStr status)]]
      in set_sub ''agent_memory'' ''tool_calls'' (PList calls)
           (set_sub ''agent_memory'' ''reasoning_trace'' (PList trace') s))"

definition apply_tool_result :: "(pydict \<Rightarrow> pydict option) \<Rightarrow> snapshot \<Rightarrow> tool_call_plan \<Rightarrow> tool_result \<Rightarrow> snapshot option" where
  "apply_tool_result validate s plan result =
     (if tr_status result = ''node_a_error''
      then map_option (require_operator ''node_a_error'')
        (apply_snapshot_delta validate s [(''operational_status'', PDict [(''code'', PStr ''node_a_error'')])])
      else let delta = strip_protected_snapshot_fields (tr_snapshot_delta result) in
        case delta_memory delta of
          None \<Rightarrow> None
        | Some memory \<Rightarrow>
            (let incoming = list_items (dget ''reasoning_trace'' memory);
                 delta' = (if incoming \<noteq> []
                   then AList.update ''agent_memory''
                     (PDict (AList.update ''reasoning_trace'' (PList (reasoning_trace s @ incoming)) memory)) delta
                   else delta)
             in case apply_snapshot_delta validate s delta' of
                  Some updated \<Rightarrow>
                    Some (record_call (tp_tool_name plan) (tr_status result) (tr_turn_summary_pl result) updated)
                | None \<Rightarrow>
                    Some (record_call (tp_tool_name plan) ''error''
                      (''Odrzucono niespojna zmiane stanu narzedzia '' @ tp_tool_name plan @ ''.'') s)))"

subsection \<open>Sub-agents\<close>

definition TOOL_SCOPE_MAP :: "(string \<times> string) list" where
  "TOOL_SCOPE_MAP = [(''read_google_drive_file'', ''document''), (''list_drive_folder'', ''document''),
     (''retry_hard_parse'', ''document''), (''check_cp2025_eligibility'', ''policy''),
     (''search_rag_knowledge'', ''policy''), (''generate_draft_reply'', ''draft'')]"

definition POLICY_EXTRA_TOOLS :: "string list" where
  "POLICY_EXTRA_TOOLS = [''propose_case_link'', ''propose_artifact'', ''propose_plan'', ''propose_mutation'']"

definition DRAFT_EXTRA_TOOLS :: "string list" where
  "DRAFT_EXTRA_TOOLS = [''request_operator_clarification'', ''propose_plan'', ''propose_mutation'']"

definition ALWAYS_AVAILABLE_TOOLS :: "string list" where
  "ALWAYS_AVAILABLE_TOOLS = [''request_operator_clarification'', ''report_gaps_and_stop'']"

definition has_proposals :: "snapshot \<Rightarrow> bool" where
  "has_proposals s \<longleftrightarrow> truthy (sub_field ''agent_memory'' ''materialize_proposals'' s)"

definition select_sub_agent :: "string \<Rightarrow> snapshot \<Rightarrow> string" where
  "select_sub_agent tool_name s =
     (case map_of TOOL_SCOPE_MAP (strip tool_name) of
        Some scope \<Rightarrow> scope
      | None \<Rightarrow> if has_proposals s then ''policy'' else ''general'')"

definition select_preplan_sub_agent :: "snapshot \<Rightarrow> string" where
  "select_preplan_sub_agent s = (if has_proposals s then ''policy'' else ''general'')"

definition scope_tools :: "string \<Rightarrow> string list" where
  "scope_tools kind = map fst (filter (\<lambda>(n, sc). sc = kind) TOOL_SCOPE_MAP)"

definition tools_for_sub_agent :: "string \<Rightarrow> string list \<Rightarrow> string list" where
  "tools_for_sub_agent kind allowlist =
     (let pool = sort (remdups allowlist);
          scoped = (\<lambda>names. filter (\<lambda>n. n \<in> set names \<or> n \<in> set ALWAYS_AVAILABLE_TOOLS) pool)
      in if kind = ''document'' then scoped (scope_tools ''document'')
         else if kind = ''policy'' then scoped (scope_tools ''policy'' @ POLICY_EXTRA_TOOLS)
         else if kind = ''draft'' then scoped (scope_tools ''draft'' @ DRAFT_EXTRA_TOOLS)
         else pool)"

definition sub_agent_handoff_note :: "string \<Rightarrow> string \<Rightarrow> string" where
  "sub_agent_handoff_note kind tool_name = ''handoff:'' @ kind @ '':'' @ tool_name"

subsection \<open>Grounding the snapshot in the current signal\<close>

definition ground_trace :: "snapshot \<Rightarrow> pydict \<Rightarrow> pydict" where
  "ground_trace s payload =
     (let subject = norm_of (dget ''subject'' payload);
          essence = str_or (norm_of (dget ''snippet'' payload)) (norm_of (dget ''body_text'' payload));
          understanding = norm_of (dget ''understanding_brief_pl'' payload);
          line = (if subject \<noteq> [] then ''[EXTERNAL_EVIDENCE] Biezaca wiadomosc: '' @ [CHR 0x22] @ subject @ [CHR 0x22]
                  else ''[EXTERNAL_EVIDENCE] Biezaca wiadomosc:'');
          parts = (if subject \<noteq> [] \<or> essence \<noteq> []
                   then [if essence \<noteq> [] then line @ '' - '' @ take 280 essence else line] else []) @
                  (if understanding \<noteq> [] then [''Zrozumienie sprawy: '' @ take 400 understanding] else []);
          trace = reasoning_trace s
      in if subject \<noteq> [] \<or> essence \<noteq> [] \<or> understanding \<noteq> []
         then [(''agent_memory'', PDict [(''reasoning_trace'',
                 PList (trace @ [trace_item (int (length trace)) (join '' '' parts)]))])]
         else [])"

definition full_dict :: "pyval \<Rightarrow> bool" where
  "full_dict v \<longleftrightarrow> is_dict v \<and> truthy v"

text \<open>A field takes the value the payload brings, and is cleared when it brings none.\<close>

definition fresh_or_cleared :: "string \<Rightarrow> bool \<Rightarrow> pyval \<Rightarrow> snapshot \<Rightarrow> pydict" where
  "fresh_or_cleared field fresh v s =
     (if fresh then [(field, v)] else if dget field s \<noteq> PNone then [(field, PNone)] else [])"

definition ground_delta :: "(pydict \<Rightarrow> pydict option) \<Rightarrow> snapshot \<Rightarrow> pydict \<Rightarrow> pydict" where
  "ground_delta status_of s payload =
     (let projection = dget ''case_understanding_projection'' payload;
          provenance = dget ''case_understanding_provenance'' payload;
          envelope = dget ''policy_action_envelope'' payload;
          d_prov = fresh_or_cleared ''case_understanding_provenance'' (full_dict projection \<and> full_dict provenance)
            provenance s;
          status = (case dget ''case_understanding_provenance'' d_prov of PDict p \<Rightarrow> status_of p | _ \<Rightarrow> None);
          d_status = (if d_prov \<noteq> [] \<and> (status \<noteq> None \<or> dget ''case_understanding_status'' s \<noteq> PNone)
            then [(''case_understanding_status'', (case status of Some d \<Rightarrow> PDict d | None \<Rightarrow> PNone))] else [])
      in ground_trace s payload @
         fresh_or_cleared ''case_understanding'' (full_dict projection) projection s @ d_prov @ d_status @
         fresh_or_cleared ''policy_action_envelope'' (full_dict envelope) envelope s @
         fresh_or_cleared ''semantic_policy_plan_consistency'' False PNone s @
         fresh_or_cleared ''decision_divergence_observation'' False PNone s)"

definition ground_current_signal :: "(pydict \<Rightarrow> pydict option) \<Rightarrow> (pydict \<Rightarrow> pydict option) \<Rightarrow> snapshot \<Rightarrow> pydict \<Rightarrow>
    snapshot option" where
  "ground_current_signal validate status_of s payload =
     (let delta = ground_delta status_of s payload in
      if delta = [] then Some s else apply_snapshot_delta validate s delta)"

subsection \<open>Lemmas on deltas\<close>

lemma dhas_keys: "dhas k d \<longleftrightarrow> k \<in> fst ` set d"
  by (simp add: dhas_def map_of_eq_None_iff)

lemma update_keys_set: "fst ` set (AList.update k v d) = insert k (fst ` set d)"
  by (induction d) auto

lemma deep_merge_append: "deep_merge b (p @ q) = deep_merge (deep_merge b p) q"
  by (induction p arbitrary: b) auto

lemma dget_deep_merge_other: "k \<notin> fst ` set p \<Longrightarrow> dget k (deep_merge b p) = dget k b"
  by (induction p arbitrary: b) auto

lemma dget_deep_merge_one: "dget k (deep_merge b [(f, v)]) = (if k = f then merge_value (dget f b) v else dget k b)"
  by simp

lemma dget_merge_fresh:
  "dget k (deep_merge b (fresh_or_cleared f fresh v s)) =
     (if k \<noteq> f then dget k b else if fresh then merge_value (dget f b) v
      else if dget f s \<noteq> PNone then PNone else dget f b)"
  by (simp add: fresh_or_cleared_def)

lemma filtered_keys:
  "f \<in> fst ` set (if blocked = [] then d else filter (\<lambda>(k, v). k \<notin> set blocked) d) \<longleftrightarrow>
     f \<in> fst ` set d \<and> f \<notin> set blocked"
  by force

lemma strip_protected_keys:
  "f \<in> set PROTECTED_SNAPSHOT_FIELDS \<Longrightarrow> f \<notin> fst ` set (strip_protected_snapshot_fields delta)"
  unfolding strip_protected_snapshot_fields_def Let_def filtered_keys by (simp add: dhas_keys)

text \<open>
  A value of a field that validation returns as it came in: every value of a validated model is one, since
  validating a dump again changes nothing.
\<close>

definition keeps_field :: "(pydict \<Rightarrow> pydict option) \<Rightarrow> string \<Rightarrow> pyval \<Rightarrow> bool" where
  "keeps_field validate f v \<longleftrightarrow> (\<forall>d d'. validate d = Some d' \<and> dget f d = v \<longrightarrow> dget f d' = v)"

lemma apply_delta_other:
  assumes "apply_snapshot_delta validate s delta = Some s'" and "keeps_field validate f (dget f s)"
    and "f \<notin> fst ` set delta" and "f \<notin> {''version'', ''engagement_id'', ''case_id''}"
  shows "dget f s' = dget f s"
proof (cases "delta = []")
  case True
  with assms(1) show ?thesis by (simp add: apply_snapshot_delta_def)
next
  case False
  have "dget f (merged_snapshot s delta) = dget f s"
    using assms(3,4) by (simp add: merged_snapshot_def dget_deep_merge_other)
  moreover have "validate (merged_snapshot s delta) = Some s'"
    using False assms(1) by (simp add: apply_snapshot_delta_def)
  ultimately show ?thesis using assms(2) unfolding keeps_field_def by blast
qed

lemma dget_set_sub [simp]: "dget f (set_sub k1 k2 v s) =
    (if f = k1 then PDict (AList.update k2 v (as_dict (dget k1 s))) else dget f s)"
  by (simp add: set_sub_def)

lemma dget_record_call: "f \<noteq> ''agent_memory'' \<Longrightarrow> dget f (record_call tool status summary s) = dget f s"
  by (simp add: record_call_def Let_def)

lemma dget_require_operator: "f \<noteq> ''hitl_gate'' \<Longrightarrow> dget f (require_operator reason s) = dget f s"
  by (simp add: require_operator_def)

lemma protected_names:
  "f \<in> set PROTECTED_SNAPSHOT_FIELDS \<Longrightarrow>
     f \<notin> {''version'', ''engagement_id'', ''case_id'', ''agent_memory'', ''hitl_gate'', ''operational_status''}"
proof -
  have "list_all (\<lambda>f. f \<notin> {''version'', ''engagement_id'', ''case_id'', ''agent_memory'', ''hitl_gate'', ''operational_status''})
      PROTECTED_SNAPSHOT_FIELDS" by code_simp
  then show "f \<in> set PROTECTED_SNAPSHOT_FIELDS \<Longrightarrow>
     f \<notin> {''version'', ''engagement_id'', ''case_id'', ''agent_memory'', ''hitl_gate'', ''operational_status''}"
    unfolding list_all_iff by (rule bspec)
qed

text \<open>Whatever a tool returns, the protected fields of the snapshot stay.\<close>

lemma tool_result_keeps_protected:
  assumes "apply_tool_result validate s plan result = Some s'" and "f \<in> set PROTECTED_SNAPSHOT_FIELDS"
    and "keeps_field validate f (dget f s)"
  shows "dget f s' = dget f s"
proof -
  note names = protected_names [OF assms(2), unfolded insert_iff de_Morgan_disj]
  note strip = strip_protected_keys [OF assms(2), of "tr_snapshot_delta result"]
  show ?thesis
  proof (cases "tr_status result = ''node_a_error''")
    case True
    then obtain u where u: "apply_snapshot_delta validate s [(''operational_status'', PDict [(''code'', PStr ''node_a_error'')])] = Some u"
      "s' = require_operator ''node_a_error'' u"
      using assms(1) by (auto simp: apply_tool_result_def)
    have "dget f u = dget f s" by (rule apply_delta_other [OF u(1) assms(3)]) (use names in simp_all)
    then show ?thesis using u(2) names by (simp add: dget_require_operator)
  next
    case False
    define delta where "delta = strip_protected_snapshot_fields (tr_snapshot_delta result)"
    obtain memory where m: "delta_memory delta = Some memory"
      using assms(1) False by (auto simp: apply_tool_result_def Let_def delta_def split: option.splits)
    define delta' where "delta' = (if list_items (dget ''reasoning_trace'' memory) \<noteq> []
       then AList.update ''agent_memory'' (PDict (AList.update ''reasoning_trace''
         (PList (reasoning_trace s @ list_items (dget ''reasoning_trace'' memory))) memory)) delta else delta)"
    have res: "s' = (case apply_snapshot_delta validate s delta' of
        Some updated \<Rightarrow> record_call (tp_tool_name plan) (tr_status result) (tr_turn_summary_pl result) updated
      | None \<Rightarrow> record_call (tp_tool_name plan) ''error''
          (''Odrzucono niespojna zmiane stanu narzedzia '' @ tp_tool_name plan @ ''.'') s)"
      using assms(1) False m unfolding apply_tool_result_def Let_def delta_def [symmetric] delta'_def
      by (auto split: option.splits)
    have "f \<notin> fst ` set delta'"
      using strip names by (simp add: delta'_def delta_def update_keys_set)
    show ?thesis
    proof (cases "apply_snapshot_delta validate s delta'")
      case None
      with res names show ?thesis by (simp add: dget_record_call)
    next
      case (Some u)
      have "dget f u = dget f s" by (rule apply_delta_other [OF Some assms(3) \<open>f \<notin> fst ` set delta'\<close>]) (use names in simp)
      with Some res names show ?thesis by (simp add: dget_record_call)
    qed
  qed
qed

subsection \<open>Properties\<close>

lemma dget_merge_trace: "f \<noteq> ''agent_memory'' \<Longrightarrow> dget f (deep_merge b (ground_trace s payload)) = dget f b"
  by (rule dget_deep_merge_other) (auto simp: ground_trace_def Let_def)

lemma dget_merge_status:
  "f \<noteq> ''case_understanding_status'' \<Longrightarrow>
     dget f (deep_merge b (if c then [(''case_understanding_status'', v)] else [])) = dget f b"
  by simp

lemma merged_ground_fields:
  "\<not> full_dict (dget ''case_understanding_projection'' payload) \<Longrightarrow>
     dget ''case_understanding'' (deep_merge s (ground_delta status_of s payload)) = PNone"
  "\<not> full_dict (dget ''case_understanding_projection'' payload) \<Longrightarrow>
     dget ''case_understanding_provenance'' (deep_merge s (ground_delta status_of s payload)) = PNone"
  "\<not> full_dict (dget ''policy_action_envelope'' payload) \<Longrightarrow>
     dget ''policy_action_envelope'' (deep_merge s (ground_delta status_of s payload)) = PNone"
  "dget ''semantic_policy_plan_consistency'' (deep_merge s (ground_delta status_of s payload)) = PNone"
  "dget ''decision_divergence_observation'' (deep_merge s (ground_delta status_of s payload)) = PNone"
  unfolding ground_delta_def Let_def deep_merge_append
  by (simp_all add: dget_merge_fresh dget_merge_trace dget_merge_status del: deep_merge.simps)

text \<open>The status is cleared with the provenance it was derived from; a status without one would stay.\<close>

lemma merged_ground_status:
  assumes "\<not> (full_dict (dget ''case_understanding_projection'' payload) \<and>
      full_dict (dget ''case_understanding_provenance'' payload))"
    and "dget ''case_understanding_status'' s \<noteq> PNone \<longrightarrow> dget ''case_understanding_provenance'' s \<noteq> PNone"
  shows "dget ''case_understanding_status'' (deep_merge s (ground_delta status_of s payload)) = PNone"
    and "dget ''case_understanding_provenance'' (deep_merge s (ground_delta status_of s payload)) = PNone"
proof -
  have none: "(full_dict (dget ''case_understanding_projection'' payload) \<and>
      full_dict (dget ''case_understanding_provenance'' payload)) = False" using assms(1) by simp
  have prov: "fresh_or_cleared ''case_understanding_provenance'' False v s =
      (if dget ''case_understanding_provenance'' s \<noteq> PNone then [(''case_understanding_provenance'', PNone)] else [])" for v
    by (simp add: fresh_or_cleared_def)
  show "dget ''case_understanding_status'' (deep_merge s (ground_delta status_of s payload)) = PNone"
    "dget ''case_understanding_provenance'' (deep_merge s (ground_delta status_of s payload)) = PNone"
    using assms(2) unfolding ground_delta_def Let_def deep_merge_append none prov
    by (auto simp: dget_merge_fresh dget_merge_trace)
qed

lemma grounded_field:
  assumes "ground_current_signal validate status_of s payload = Some s'" and "keeps_field validate f PNone"
    and "dget f (deep_merge s (ground_delta status_of s payload)) = PNone"
    and "f \<notin> {''version'', ''engagement_id'', ''case_id''}"
  shows "dget f s' = PNone"
proof (cases "ground_delta status_of s payload = []")
  case True
  with assms(1,3) show ?thesis by (simp add: ground_current_signal_def)
next
  case False
  then have "validate (merged_snapshot s (ground_delta status_of s payload)) = Some s'"
    using assms(1) by (simp add: ground_current_signal_def apply_snapshot_delta_def Let_def)
  moreover have "dget f (merged_snapshot s (ground_delta status_of s payload)) = PNone"
    using assms(3,4) by (simp add: merged_snapshot_def)
  ultimately show ?thesis using assms(2) unfolding keeps_field_def by blast
qed

text \<open>
  What a new signal does not bring is not inherited from the last one.  Let the snapshot carry a
  status of the understanding only together with the provenance it was derived from.  After grounding, both
  observations on the previous plan (its consistency with the policy and its divergence) are gone; without a
  non-empty understanding in the payload the case's understanding, its provenance and its status are gone;
  when the understanding comes without a non-empty provenance, the provenance and the status are gone; and
  without a non-empty policy envelope in the payload the envelope is gone.  A field the payload does bring
  is merged into the old value and not covered here (\<open>old_understanding_shines_through\<close>), and a status that
  stands without a provenance is not cleared (\<open>lone_status_survives\<close>).
\<close>

theorem grounding_clears_what_is_not_brought:
  assumes "ground_current_signal validate status_of s payload = Some s'"
    and "\<forall>f \<in> set (BRAIN1_OWNED_SNAPSHOT_FIELDS @ RUNTIME_OWNED_SNAPSHOT_FIELDS). keeps_field validate f PNone"
    and "dget ''case_understanding_status'' s \<noteq> PNone \<longrightarrow> dget ''case_understanding_provenance'' s \<noteq> PNone"
  shows "dget ''semantic_policy_plan_consistency'' s' = PNone \<and> dget ''decision_divergence_observation'' s' = PNone \<and>
    (\<not> full_dict (dget ''case_understanding_projection'' payload) \<longrightarrow>
       dget ''case_understanding'' s' = PNone \<and> dget ''case_understanding_provenance'' s' = PNone \<and>
       dget ''case_understanding_status'' s' = PNone) \<and>
    (\<not> full_dict (dget ''case_understanding_provenance'' payload) \<longrightarrow>
       dget ''case_understanding_provenance'' s' = PNone \<and> dget ''case_understanding_status'' s' = PNone) \<and>
    (\<not> full_dict (dget ''policy_action_envelope'' payload) \<longrightarrow> snapshot_envelope s' = None)"
proof -
  have keeps: "keeps_field validate ''case_understanding'' PNone" "keeps_field validate ''case_understanding_provenance'' PNone"
    "keeps_field validate ''policy_action_envelope'' PNone" "keeps_field validate ''semantic_policy_plan_consistency'' PNone"
    "keeps_field validate ''decision_divergence_observation'' PNone" "keeps_field validate ''case_understanding_status'' PNone"
    using assms(2) by (simp_all add: BRAIN1_OWNED_SNAPSHOT_FIELDS_def RUNTIME_OWNED_SNAPSHOT_FIELDS_def)
  note field = grounded_field [OF assms(1)]
  have "dget ''semantic_policy_plan_consistency'' s' = PNone"
    by (rule field [OF keeps(4) merged_ground_fields(4)]) simp
  moreover have "dget ''decision_divergence_observation'' s' = PNone"
    by (rule field [OF keeps(5) merged_ground_fields(5)]) simp
  moreover have "dget ''case_understanding'' s' = PNone"
    if "\<not> full_dict (dget ''case_understanding_projection'' payload)"
    by (rule field [OF keeps(1) merged_ground_fields(1) [OF that]]) simp
  moreover have "dget ''case_understanding_provenance'' s' = PNone \<and> dget ''case_understanding_status'' s' = PNone"
    if "\<not> (full_dict (dget ''case_understanding_projection'' payload) \<and>
      full_dict (dget ''case_understanding_provenance'' payload))"
    using field [OF keeps(2) merged_ground_status(2) [OF that assms(3)]]
      field [OF keeps(6) merged_ground_status(1) [OF that assms(3)]] by simp
  moreover have "snapshot_envelope s' = None" if p: "\<not> full_dict (dget ''policy_action_envelope'' payload)"
  proof -
    have "dget ''policy_action_envelope'' s' = PNone" by (rule field [OF keeps(3) merged_ground_fields(3) [OF p]]) simp
    then show ?thesis by (simp add: snapshot_envelope_def)
  qed
  ultimately show ?thesis by blast
qed

definition sample_snapshot_dump :: snapshot where
  "sample_snapshot_dump =
     [(''engagement_id'', PStr ''e1''), (''case_id'', PStr ''c1''), (''version'', PInt 1),
      (''operational_status'', PDict [(''code'', PStr ''enriching''), (''steps_remaining'', PInt 6), (''blocking'', PBool False)]),
      (''hitl_gate'', PDict [(''required'', PBool False), (''reason'', PStr [])]),
      (''agent_memory'', PDict [(''reasoning_trace'', PList []), (''tool_calls'', PList []), (''materialize_proposals'', PList [])]),
      (''case_kind'', PStr ''zapytanie_klienta''),
      (''case_understanding'', PDict [(''essence_pl'', PStr ''stare'')]), (''case_understanding_provenance'', PDict [(''run'', PStr ''r1'')]),
      (''case_understanding_status'', PDict [(''status'', PStr ''ready'')]),
      (''policy_action_envelope'', PDict [(''freshness'', PStr ''current'')]),
      (''semantic_policy_plan_consistency'', PDict [(''status'', PStr ''conflicting'')])]"

theorem grounding_clears_what_is_not_brought_witness:
  "\<exists>s'. ground_current_signal Some (\<lambda>p. None) sample_snapshot_dump [(''subject'', PStr ''Nowy'')] = Some s' \<and>
     dget ''case_understanding'' s' = PNone \<and> dget ''case_understanding_status'' s' = PNone \<and>
     snapshot_envelope s' = None \<and> dget ''semantic_policy_plan_consistency'' s' = PNone \<and>
     length (reasoning_trace s') = 1"
proof -
  define s' where "s' = the (ground_current_signal Some (\<lambda>p. None) sample_snapshot_dump [(''subject'', PStr ''Nowy'')])"
  have g: "ground_current_signal Some (\<lambda>p. None) sample_snapshot_dump [(''subject'', PStr ''Nowy'')] = Some s'"
    by (simp add: s'_def ground_current_signal_def apply_snapshot_delta_def Let_def)
  have k: "\<forall>f \<in> set (BRAIN1_OWNED_SNAPSHOT_FIELDS @ RUNTIME_OWNED_SNAPSHOT_FIELDS). keeps_field Some f PNone"
    by (simp add: keeps_field_def)
  have "dget ''case_understanding_provenance'' sample_snapshot_dump \<noteq> PNone"
    by (simp add: sample_snapshot_dump_def dget_def)
  from grounding_clears_what_is_not_brought [OF g k impI [OF this]]
  have "dget ''case_understanding'' s' = PNone" "dget ''case_understanding_status'' s' = PNone"
    "snapshot_envelope s' = None" "dget ''semantic_policy_plan_consistency'' s' = PNone"
    by (simp_all add: full_dict_def)
  moreover have "length (reasoning_trace s') = 1" unfolding s'_def by code_simp
  ultimately show ?thesis using g by blast
qed

text \<open>
  The delta is merged into the dump key by key, so what an earlier understanding says under a key the new
  one does not have is still there; and a status the snapshot carries without a provenance is never cleared.
\<close>

theorem old_understanding_shines_through:
  "map_option (dget ''case_understanding'') (ground_current_signal Some (\<lambda>p. None) sample_snapshot_dump
      [(''case_understanding_projection'', PDict [(''goal_pl'', PStr ''nowe'')])]) =
    Some (PDict [(''essence_pl'', PStr ''stare''), (''goal_pl'', PStr ''nowe'')])"
  by code_simp

theorem lone_status_survives:
  "map_option (dget ''case_understanding_status'') (ground_current_signal Some (\<lambda>p. None)
      [(''case_understanding_status'', PDict [(''status'', PStr ''ready'')])] []) =
    Some (PDict [(''status'', PStr ''ready'')])"
  by code_simp

end
