(* ===== verification/Known_Facts.thy ===== *)
theory Known_Facts
  imports Agent_Snapshot Fact_Conflicts
begin

text \<open>
  What is observed of a plan beside policy: the guard on re-asked facts (\<open>agent_runtime/known_fact_guard.py\<close>)
  and the comparison of the decision surfaces (\<open>agent_runtime/decision_divergence.py\<close>).

  The cue patterns are regular expressions over Polish text: \<open>cues key t\<close> says that one of the patterns of
  \<open>key\<close> is found in the lower-cased text \<open>t\<close>.  The text a draft for missing information stands for is fixed
  and has a letter outside U+00FF, so the keys its patterns find are written out.
\<close>

subsection \<open>Known facts\<close>

type_synonym cues = "string \<Rightarrow> string \<Rightarrow> bool"

definition FACT_CUE_KEYS :: "string list" where
  "FACT_CUE_KEYS = [''heated_area_m2'', ''raw_geographic_signal'', ''building_type'', ''current_heating_source'',
     ''thermal_demand_kw'']"

definition SERVICE_KINDS :: "string list" where
  "SERVICE_KINDS = [''awaria_naprawa'', ''przeglad_konserwacja'', ''reklamacja'', ''serwis'']"

definition known_facts_from_snapshot :: "snapshot \<Rightarrow> pydict" where
  "known_facts_from_snapshot s =
     (let area = sub_field ''hvac_profile'' ''heated_area_m2'' s;
          location = as_dict (sub_field ''hvac_profile'' ''location'' s);
          city = dget ''city'' location; postal = dget ''postal_code'' location;
          building = sub_field ''hvac_profile'' ''building_type'' s;
          thermal = sub_field ''hvac_profile'' ''thermal_demand_kw'' s
      in (if area \<noteq> PNone then [(''heated_area_m2'', area)] else []) @
         (if truthy city \<or> truthy postal
          then [(''raw_geographic_signal'', PDict [(''city'', city), (''postal_code'', postal)])] else []) @
         (if truthy building then [(''building_type'', building)] else []) @
         (if thermal \<noteq> PNone then [(''thermal_demand_kw'', thermal)] else []))"

datatype ask = AskText string | AskMissingInfo

fun ask_targets :: "cues \<Rightarrow> ask \<Rightarrow> string \<Rightarrow> bool" where
  "ask_targets cues (AskText t) key = (strip t \<noteq> [] \<and> cues key (lower (strip t)))"
| "ask_targets cues AskMissingInfo key =
     (key \<in> set [''heated_area_m2'', ''raw_geographic_signal'', ''thermal_demand_kw''])"

definition ask_targets_known_fact :: "cues \<Rightarrow> ask \<Rightarrow> pydict \<Rightarrow> string list" where
  "ask_targets_known_fact cues ask known = filter (\<lambda>key. dhas key known \<and> ask_targets cues ask key) FACT_CUE_KEYS"

text \<open>The text a plan asks with, if it asks at all.\<close>

definition ask_of_plan :: "string \<Rightarrow> pydict \<Rightarrow> ask option" where
  "ask_of_plan tool_name args =
     (let name = strip tool_name in
      if name = ''request_operator_clarification'' then Some (AskText (text_of (dget ''ask_pl'' args)))
      else if name = ''generate_draft_reply''
      then (if norm_of (dget ''intent'' args) \<noteq> ''missing_info'' then None else Some AskMissingInfo)
      else if name = ''report_gaps_and_stop''
      then Some (AskText (if is_list (dget ''gaps'' args)
        then join '' '' (map (\<lambda>g. text_of (py_or (dget ''ask_pl'' g) (dget ''field'' g)))
               (dict_rows (list_items (dget ''gaps'' args))))
        else text_of (dget ''ask_pl'' args)))
      else None)"

record reask =
  ra_fact_keys :: "string list"
  ra_known_facts :: pydict

definition guard_known_fact_reask :: "cues \<Rightarrow> string \<Rightarrow> pydict \<Rightarrow> snapshot \<Rightarrow> reask option" where
  "guard_known_fact_reask cues tool_name args s =
     (case ask_of_plan tool_name args of
        None \<Rightarrow> None
      | Some ask \<Rightarrow>
          (let known = known_facts_from_snapshot s; hits = ask_targets_known_fact cues ask known in
           if hits = [] then None
           else Some \<lparr>ra_fact_keys = hits, ra_known_facts = map (\<lambda>k. (k, dget k known)) hits\<rparr>))"

definition is_service_case_kind :: "string \<Rightarrow> bool" where
  "is_service_case_kind kind0 =
     (let kind = lower (strip kind0) in
      kind \<in> set SERVICE_KINDS \<or> contains kind ''awaria'' \<or> contains kind ''serwis'' \<or> contains kind ''reklam'')"

subsection \<open>The decision surfaces\<close>

definition DECISION_FACT_DEPENDENT_ACTIONS :: "string list" where
  "DECISION_FACT_DEPENDENT_ACTIONS = [''call_kalk_top_quote'', ''prepare_offer'', ''acknowledge_documents'']"

definition block_row :: "conflict_block \<Rightarrow> pydict" where
  "block_row b = [(''blocked'', PBool (cb_blocked b)), (''blocked_fact_keys'', PList (map PStr (cb_blocked_fact_keys b))),
     (''decision_block_reason'', (case cb_decision_block_reason b of None \<Rightarrow> PNone | Some r \<Rightarrow> PStr r))]"

definition decision_fact_blocks :: "pyval \<Rightarrow> pydict" where
  "decision_fact_blocks case_context_pack =
     (let facts = PList (list_items (dget ''active_facts'' (as_dict case_context_pack)))
      in map (\<lambda>a. (a, PDict (block_row (action_conflict_block (PStr a) facts)))) DECISION_FACT_DEPENDENT_ACTIONS)"

definition build_decision_comparison_inputs :: "pyval \<Rightarrow> string \<Rightarrow> pydict option" where
  "build_decision_comparison_inputs case_intelligence_result message_id =
     (let intelligence = as_dict case_intelligence_result;
          metadata = as_dict (dget ''execution_metadata'' intelligence);
          primary_next_action = as_dict (dget ''primary_next_action'' (as_dict (dget ''next_best_action'' intelligence)))
      in case dget ''understanding_output'' intelligence of
           PDict understanding \<Rightarrow>
             (let source_signal_id = norm_of (dget ''source_signal_id'' understanding) in
              if source_signal_id = [] \<or> strip message_id = [] \<or> source_signal_id \<noteq> strip message_id then None
              else Some
                [(''schema_version'', PStr ''decision_comparison_inputs.v1''),
                 (''source_signal_id'', PStr source_signal_id),
                 (''business_recommended_action'', PStr (norm_of (dget ''input_business_next_action'' metadata))),
                 (''action_planner_primary_action'', PStr (norm_of (dget ''input_primary_action'' metadata))),
                 (''next_best_action_type'', PStr (norm_of (dget ''action_type'' primary_next_action))),
                 (''reply_draft_enabled'', (if dhas ''input_reply_draft_enabled'' metadata
                    then PBool (truthy (dget ''input_reply_draft_enabled'' metadata)) else PNone)),
                 (''case_family'', PStr (norm_of (dget ''case_family'' (as_dict (dget ''case_understanding'' intelligence))))),
                 (''decision_fact_blocks'', PDict (decision_fact_blocks (dget ''mailbox_memory_context_pack'' intelligence)))])
         | _ \<Rightarrow> None)"

definition bounded120 :: "pyval \<Rightarrow> string" where
  "bounded120 v = take 120 (norm_of v)"

text \<open>The observation, as the dictionary that is stored in the snapshot.\<close>

record divergence =
  dv_status :: string
  dv_action_tree_status :: string
  dv_case_typing_status :: string
  dv_tool_relation_status :: string
  dv_reason_codes :: "string list"

definition observation_row :: "divergence \<Rightarrow> string \<Rightarrow> string \<Rightarrow> string \<Rightarrow> string \<Rightarrow> bool option \<Rightarrow> string \<Rightarrow> string \<Rightarrow> string \<Rightarrow> pydict" where
  "observation_row d signal business legacy nba draft_enabled family kind tool =
     [(''schema_version'', PStr ''decision_divergence_observation.v1''), (''status'', PStr (dv_status d)),
      (''action_tree_status'', PStr (dv_action_tree_status d)), (''case_typing_status'', PStr (dv_case_typing_status d)),
      (''tool_relation_status'', PStr (dv_tool_relation_status d)), (''reason_codes'', PList (map PStr (dv_reason_codes d))),
      (''source_signal_id'', PStr signal), (''business_recommended_action'', PStr business),
      (''action_planner_primary_action'', PStr legacy), (''next_best_action_type'', PStr nba),
      (''reply_draft_enabled'', (case draft_enabled of None \<Rightarrow> PNone | Some b \<Rightarrow> PBool b)),
      (''case_family'', PStr family), (''case_kind'', PStr kind), (''tool_name'', PStr tool)]"

definition action_tree :: "string \<Rightarrow> string \<Rightarrow> string \<Rightarrow> bool option \<Rightarrow> string \<times> string list" where
  "action_tree business legacy nba draft_enabled =
     (if business = [] \<or> legacy = [] \<or> nba = [] then (''missing_inputs'', [''action_tree_input_missing''])
      else if business = ''reply'' \<and> legacy = ''hold'' \<and> nba = ''answer_customer'' \<and> draft_enabled = Some False
      then (''divergence_detected'', [''reply_without_draft_legacy_hold_nba_answer_customer''])
      else if business = legacy \<and> legacy = nba then (''same_literal'', [])
      else (''not_evaluable'', [''no_formal_action_vocabulary_mapping'']))"

definition case_typing :: "string \<Rightarrow> string \<Rightarrow> string \<times> string list" where
  "case_typing family kind =
     (if family = [] \<or> kind = [] then (''missing_inputs'', [''case_typing_input_missing''])
      else if family = kind then (''same_literal'', [])
      else (''different_unmapped_literals'', [''no_formal_case_family_case_kind_mapping'']))"

definition evaluate_decision_divergence :: "pyval \<Rightarrow> string \<Rightarrow> tool_call_plan \<Rightarrow> pydict" where
  "evaluate_decision_divergence decision_inputs kind0 plan =
     (let kind = take 120 (strip kind0); tool = take 120 (strip (tp_tool_name plan)) in
      case decision_inputs of
        PDict (x # xs) \<Rightarrow>
          (let inputs = x # xs;
               business = bounded120 (dget ''business_recommended_action'' inputs);
               legacy = bounded120 (dget ''action_planner_primary_action'' inputs);
               nba = bounded120 (dget ''next_best_action_type'' inputs);
               family = bounded120 (dget ''case_family'' inputs);
               draft_enabled = (if dget ''reply_draft_enabled'' inputs = PNone then None
                 else Some (truthy (dget ''reply_draft_enabled'' inputs)));
               (tree, tree_reasons) = action_tree business legacy nba draft_enabled;
               (typing, typing_reasons) = case_typing family kind;
               (relation, relation_reasons) = (if tool = [] then (''missing_inputs'', [''tool_plan_input_missing''])
                 else (''not_evaluable'', [''no_formal_action_to_tool_mapping'']));
               status = (if tree = ''divergence_detected'' then ''divergence_detected''
                 else if ''missing_inputs'' \<in> set [tree, typing, relation] then ''missing_inputs'' else ''not_evaluable'')
           in observation_row \<lparr>dv_status = status, dv_action_tree_status = tree, dv_case_typing_status = typing,
                dv_tool_relation_status = relation, dv_reason_codes = tree_reasons @ typing_reasons @ relation_reasons\<rparr>
                (bounded120 (dget ''source_signal_id'' inputs)) business legacy nba draft_enabled family kind tool)
      | _ \<Rightarrow> observation_row \<lparr>dv_status = ''missing_inputs'', dv_action_tree_status = ''missing_inputs'',
                dv_case_typing_status = ''missing_inputs'', dv_tool_relation_status = ''missing_inputs'',
                dv_reason_codes = [''decision_comparison_inputs_absent'']\<rparr> [] [] [] [] None [] kind tool)"

subsection \<open>Lemmas\<close>

text \<open>The guard blocks exactly the plans that ask for a fact at hand, and names such facts only.\<close>

lemma reask_iff:
  "guard_known_fact_reask cues tool args s \<noteq> None \<longleftrightarrow>
     (\<exists>ask. ask_of_plan tool args = Some ask \<and>
        (\<exists>key \<in> set FACT_CUE_KEYS. dhas key (known_facts_from_snapshot s) \<and> ask_targets cues ask key))"
  by (auto simp: guard_known_fact_reask_def ask_targets_known_fact_def Let_def filter_empty_conv split: option.split)

lemma reask_keys_known:
  "guard_known_fact_reask cues tool args s = Some r \<Longrightarrow> key \<in> set (ra_fact_keys r) \<Longrightarrow> dhas key (known_facts_from_snapshot s)"
  by (auto simp: guard_known_fact_reask_def ask_targets_known_fact_def Let_def split: option.splits if_splits)

text \<open>The block of an action is found again where the offer of the calculator looks for it.\<close>

lemma calculator_block_of_inputs:
  assumes "build_decision_comparison_inputs intelligence msg = Some inputs"
  shows "dget ''blocked'' (as_dict (dget ''call_kalk_top_quote'' (as_dict (dget ''decision_fact_blocks'' inputs)))) =
    PBool (cb_blocked (action_conflict_block (PStr ''call_kalk_top_quote'')
      (PList (list_items (dget ''active_facts'' (as_dict (dget ''mailbox_memory_context_pack'' (as_dict intelligence))))))))"
  using assms
  by (auto simp: build_decision_comparison_inputs_def Let_def decision_fact_blocks_def block_row_def
      DECISION_FACT_DEPENDENT_ACTIONS_def split: pyval.splits if_splits)

end
