(* ===== verification/Draft_Lineage.thy ===== *)
theory Draft_Lineage
  imports Known_Facts
begin

text \<open>
  Drafts on their way from the first stage to the operator: identity and revisions
  (\<open>agent_runtime/draft_identity.py\<close>), the sanity gate (\<open>agent_runtime/draft_sanity.py\<close>), provenance
  (\<open>agent_runtime/draft_lineage_provenance.py\<close>) and the transport of a finished draft past the generating tool
  (\<open>agent_runtime/draft_lineage_transport.py\<close>).

  \<open>digest\<close> is the hexadecimal SHA-256 of the UTF-8 text; the regular expressions of the gate are the fields
  of \<open>draft_patterns\<close>, each saying whether the pattern is found in a text.  The coverage of intents is the
  dictionary the composing tool builds, whose fields are lists of strings.
\<close>

subsection \<open>Identity\<close>

definition compute_draft_id :: "(string \<Rightarrow> string) \<Rightarrow> string \<Rightarrow> string \<Rightarrow> string \<Rightarrow> string" where
  "compute_draft_id digest case_id source_signal_id action_id =
     ''draft_'' @ take 20 (digest (join ''|'' [case_id, source_signal_id, action_id]))"

definition compute_body_hash :: "(string \<Rightarrow> string) \<Rightarrow> string \<Rightarrow> string" where
  "compute_body_hash digest body = (let t = strip body in if t = [] then [] else take 16 (digest t))"

subsection \<open>The sanity gate\<close>

record draft_patterns =
  dp_placeholder :: "string \<Rightarrow> bool"
  dp_promise :: "string \<Rightarrow> bool"
  dp_sales_ask :: "string \<Rightarrow> bool"
  dp_service_promise :: "string \<Rightarrow> bool"
  dp_diagnosis :: "string \<Rightarrow> bool"
  dp_asks_area :: "string \<Rightarrow> bool"
  dp_asks_location :: "string \<Rightarrow> bool"
  dp_service_scope :: "string \<Rightarrow> bool"
  dp_execution_claim :: "string \<Rightarrow> bool"
  dp_completion_claim :: "string \<Rightarrow> bool"

record intent_coverage =
  cv_intent_ids :: "string list"
  cv_covered :: "string list"
  cv_unresolved :: "string list"
  cv_ignored :: "string list"
  cv_required :: "(string \<times> string list) list"
  cv_requested :: "(string \<times> string list) list"

definition intent_coverage_issues :: "draft_patterns \<Rightarrow> intent_coverage option \<Rightarrow> string \<Rightarrow> string list" where
  "intent_coverage_issues pats coverage body =
     (case coverage of
        None \<Rightarrow> []
      | Some c \<Rightarrow>
          (let names = filter (\<lambda>x. x \<noteq> []);
               intent_ids = names (cv_intent_ids c); unresolved = names (cv_unresolved c); ignored = names (cv_ignored c);
               known = names (cv_covered c) @ unresolved @ ignored;
               requested_all = map (lower \<circ> strip) (concat (map snd (cv_requested c)));
               t = lower body
           in if intent_ids = [] then []
              else (if ignored \<noteq> [] \<or> set known \<noteq> set intent_ids then [''MULTI_INTENT_DROPPED''] else []) @
                   (if list_ex (\<lambda>(i, fields). list_ex (\<lambda>f. lower (strip f) \<notin> set requested_all) fields) (cv_required c)
                    then [''INTENT_REQUIRED_INFO_NOT_REQUESTED''] else []) @
                   (if dp_execution_claim pats t then [''INTENT_EXECUTION_ASSERTED_WITHOUT_EVIDENCE''] else []) @
                   (if unresolved \<noteq> [] \<and> dp_completion_claim pats t then [''INTENT_FALSELY_COMPLETED''] else [])))"

text \<open>The reasons against a draft; it is sane when there are none.\<close>

definition evaluate_draft_sanity :: "draft_patterns \<Rightarrow> string \<Rightarrow> string \<Rightarrow> string \<Rightarrow> snapshot option \<Rightarrow> bool option \<Rightarrow>
    (string \<Rightarrow> string list) option \<Rightarrow> intent_coverage option \<Rightarrow> string list" where
  "evaluate_draft_sanity pats body kind intent snap policy_allows_draft epistemic coverage =
     (let t = strip body; service = is_service_case_kind kind;
          known = (case snap of None \<Rightarrow> [] | Some s \<Rightarrow> known_facts_from_snapshot s);
          flag = (\<lambda>b code. if b then [code] else [])
      in flag (t = []) ''empty_body'' @
         flag (dp_placeholder pats t) ''placeholder_or_internal_token'' @
         flag (dp_promise pats t) ''forbidden_promise'' @
         flag (service \<and> dp_sales_ask pats t) ''service_draft_asks_sales_fields'' @
         flag (service \<and> dp_service_promise pats t) ''unsupported_service_promise'' @
         flag (service \<and> dp_diagnosis pats t) ''unsupported_diagnosis_claim'' @
         flag (dget ''heated_area_m2'' known \<noteq> PNone \<and> dp_asks_area pats t) ''asks_known_heated_area_m2'' @
         flag (truthy (dget ''raw_geographic_signal'' known) \<and> dp_asks_location pats t) ''asks_known_location'' @
         flag (intent = ''missing_info'' \<and> service \<and> \<not> dp_service_scope pats t)
           ''service_missing_info_without_service_scope'' @
         flag (policy_allows_draft = Some False) ''policy_disallows_draft'' @
         (case epistemic of None \<Rightarrow> [] | Some reasons_of \<Rightarrow> reasons_of body) @
         intent_coverage_issues pats coverage body)"

definition sanity_gate :: "string list \<Rightarrow> pydict \<Rightarrow> pydict" where
  "sanity_gate reasons action =
     (if reasons = [] then action
      else AList.update ''disabled_reason_pl'' (PStr (''DRAFT_SANITY_FAILED: '' @ join '','' reasons))
             (AList.update ''enabled'' (PBool False) action))"

subsection \<open>Edits of the operator\<close>

definition revision_of :: "pydict \<Rightarrow> int" where
  "revision_of item = (case py_int (py_or (dget ''revision'' item) (PInt 1)) of Some n \<Rightarrow> n | None \<Rightarrow> 1)"

definition stored_hash :: "(string \<Rightarrow> string) \<Rightarrow> pydict \<Rightarrow> string" where
  "stored_hash digest item =
     str_or (text_of (dget ''body_hash'' item)) (compute_body_hash digest (text_of (dget ''payload_pl'' item)))"

definition next_revision :: "(string \<Rightarrow> string) \<Rightarrow> pydict \<Rightarrow> string \<Rightarrow> int" where
  "next_revision digest item draft_text =
     (let old_hash = stored_hash digest item; new_hash = compute_body_hash digest draft_text;
          r = max (revision_of item) 1
      in if new_hash \<noteq> [] \<and> old_hash \<noteq> [] \<and> new_hash = old_hash then r
         else if strip (text_of (dget ''payload_pl'' item)) \<noteq> [] \<or> old_hash \<noteq> [] then r + 1 else r)"

definition default_field :: "string \<Rightarrow> string \<Rightarrow> pydict \<Rightarrow> pydict" where
  "default_field k v d = (if text_of (dget k d) = [] then AList.update k (PStr v) d else d)"

definition apply_operator_draft_edit :: "(string \<Rightarrow> string) \<Rightarrow> draft_patterns \<Rightarrow> string \<Rightarrow> string \<Rightarrow> string \<Rightarrow> string \<Rightarrow>
    snapshot option \<Rightarrow> string \<Rightarrow> pydict \<Rightarrow> string \<Rightarrow> pydict" where
  "apply_operator_draft_edit digest pats case_id source_signal_id action_id kind snap intent item draft_text =
     (let resolved_case = str_or (text_of (dget ''case_id'' item)) case_id;
          resolved_signal = str_or (text_of (dget ''source_signal_id'' item)) source_signal_id;
          draft_id = str_or (text_of (dget ''draft_id'' item)) (compute_draft_id digest resolved_case resolved_signal action_id);
          out = AList.update ''case_id'' (PStr resolved_case)
            (AList.update ''body_hash'' (PStr (compute_body_hash digest draft_text))
              (AList.update ''revision'' (PInt (next_revision digest item draft_text))
                (AList.update ''draft_id'' (PStr draft_id)
                  (AList.update ''disabled_reason_pl'' PNone
                    (AList.update ''enabled'' (PBool True)
                      (AList.update ''payload_pl'' (PStr draft_text) item))))))
      in sanity_gate (evaluate_draft_sanity pats draft_text kind intent snap None None None)
           (default_field ''identity_state'' ''identity_incomplete''
             (default_field ''source_signal_id'' resolved_signal out)))"

definition mint_gap_only_draft_action :: "(string \<Rightarrow> string) \<Rightarrow> draft_patterns \<Rightarrow> string \<Rightarrow> string \<Rightarrow> string \<Rightarrow> string \<Rightarrow>
    snapshot option \<Rightarrow> string \<Rightarrow> string \<Rightarrow> pydict" where
  "mint_gap_only_draft_action digest pats case_id source_signal_id action_id kind snap intent draft_text =
     (let aid = str_or action_id ''draft_reply'' in
      sanity_gate (evaluate_draft_sanity pats draft_text kind intent snap None None None)
        [(''id'', PStr aid), (''enabled'', PBool True), (''payload_pl'', PStr draft_text), (''disabled_reason_pl'', PNone),
         (''draft_id'', PStr (compute_draft_id digest case_id source_signal_id aid)), (''revision'', PInt 1),
         (''body_hash'', PStr (compute_body_hash digest draft_text)), (''case_id'', PStr case_id),
         (''source_signal_id'', PStr source_signal_id), (''identity_state'', PStr ''identity_incomplete''),
         (''parent_policy_decision_id'', PStr []), (''parent_action_proposal_v2_id'', PStr []),
         (''parent_decision_candidate_id'', PStr [])])"

subsection \<open>Provenance\<close>

definition build_draft_lineage_provenance :: "string \<Rightarrow> string \<Rightarrow> string \<Rightarrow> string \<Rightarrow> string \<Rightarrow> pydict" where
  "build_draft_lineage_provenance now draft_origin correlation_id producer created_at =
     [(''draft_origin'', PStr draft_origin), (''origin_correlation_id'', PStr (strip correlation_id)),
      (''origin_producer'', PStr (str_or (strip producer)
         (if draft_origin = ''brain1'' then ''reply_drafter'' else ''generate_draft_reply''))),
      (''origin_created_at'', PStr (str_or created_at now))]"

definition draft_origin_from_transport :: "pydict \<Rightarrow> string" where
  "draft_origin_from_transport transport =
     (let source = norm_of (dget ''source'' transport) in
      if source \<in> set [''brain1'', ''brain2_fallback''] then source else ''legacy_unknown'')"

subsection \<open>Transport\<close>

definition REQUIRED_TRANSPORT_KEYS :: "string list" where
  "REQUIRED_TRANSPORT_KEYS = [''draft_id'', ''revision'', ''body'', ''body_hash'', ''source'', ''created_at'',
     ''action_id'', ''case_id'', ''source_signal_id'']"

text \<open>\<open>None\<close>: the drafts are a truthy value that cannot be iterated.\<close>

definition select_brain1_draft_body :: "pydict \<Rightarrow> string option" where
  "select_brain1_draft_body reply_result =
     (if \<not> truthy (dget ''draft_enabled'' reply_result) then Some []
      else map_option (\<lambda>items.
        let drafts = dict_rows items; recommended = norm_of (dget ''recommended_variant'' reply_result);
            bodies = (\<lambda>ds. filter (\<lambda>b. b \<noteq> []) (map (\<lambda>d. norm_of (dget ''body'' d)) ds));
            wanted = bodies (filter (\<lambda>d. norm_of (dget ''variant'' d) = recommended) drafts)
        in if recommended \<noteq> [] \<and> wanted \<noteq> [] then hd wanted
           else if bodies drafts \<noteq> [] then hd (bodies drafts) else [])
        (iter_or_empty (dget ''drafts'' reply_result)))"

definition transport_of :: "(string \<Rightarrow> string) \<Rightarrow> string \<Rightarrow> string \<Rightarrow> string \<Rightarrow> string \<Rightarrow> string \<Rightarrow> pydict" where
  "transport_of digest created_at body case_id source_signal_id action_id =
     [(''draft_id'', PStr (compute_draft_id digest case_id source_signal_id action_id)), (''revision'', PInt 1),
      (''body'', PStr body), (''body_hash'', PStr (compute_body_hash digest body)), (''source'', PStr ''brain1''),
      (''created_at'', PStr created_at), (''action_id'', PStr action_id), (''case_id'', PStr case_id),
      (''source_signal_id'', PStr source_signal_id)]"

text \<open>The outer \<open>None\<close> is the exception of the selection, the inner one an absent draft.\<close>

definition build_upstream_draft_transport :: "(string \<Rightarrow> string) \<Rightarrow> string \<Rightarrow> pyval \<Rightarrow> string \<Rightarrow> string \<Rightarrow> string \<Rightarrow>
    pydict option option" where
  "build_upstream_draft_transport digest created_at reply_result case_id source_signal_id action_id =
     map_option (\<lambda>body.
       let payload = as_dict reply_result; cid = strip case_id; sid = strip source_signal_id;
           aid = str_or (strip (str_or action_id ''draft_reply'')) ''draft_reply''
       in if body = [] \<or> truthy (dget ''requires_manual_edit'' payload) \<or> truthy (dget ''do_not_send_reasons'' payload) \<or>
             cid = [] \<or> sid = [] \<or> compute_body_hash digest body = []
          then None
          else Some (transport_of digest created_at body cid sid aid))
     (select_brain1_draft_body (as_dict reply_result))"

text \<open>The left value is the text of the contract error.\<close>

definition validate_upstream_draft_transport :: "(string \<Rightarrow> string) \<Rightarrow> pydict \<Rightarrow> string option" where
  "validate_upstream_draft_transport digest transport =
     (let missing = filter (\<lambda>k. norm_of (dget k transport) = []) REQUIRED_TRANSPORT_KEYS;
          actual_hash = compute_body_hash digest (text_of (dget ''body'' transport))
      in if transport = [] then Some ''upstream_draft_transport_missing''
         else if missing \<noteq> [] then Some (''upstream_draft_transport_incomplete:'' @ join '','' missing)
         else if actual_hash = [] then Some ''upstream_draft_transport_empty_body''
         else if actual_hash \<noteq> text_of (dget ''body_hash'' transport)
         then Some ''upstream_draft_transport_body_hash_mismatch''
         else (case py_int (py_or (dget ''revision'' transport) (PInt 0)) of
             None \<Rightarrow> Some ''upstream_draft_transport_invalid_revision''
           | Some r \<Rightarrow> if r < 1 then Some ''upstream_draft_transport_invalid_revision'' else None))"

definition upstream_draft_transport_from_signal :: "pydict \<Rightarrow> pydict option" where
  "upstream_draft_transport_from_signal payload =
     (case dget ''upstream_draft_transport'' payload of
        PDict d \<Rightarrow> if d \<noteq> [] then Some d else None
      | _ \<Rightarrow> None)"

definition transferred_reasons :: "draft_patterns \<Rightarrow> string \<Rightarrow> snapshot option \<Rightarrow> pydict \<Rightarrow> string list" where
  "transferred_reasons pats kind snap transport =
     evaluate_draft_sanity pats (text_of (dget ''body'' transport))
       (str_or kind (text_of (dget ''case_kind'' transport))) [] snap None None None"

definition materialize_transferred_draft_action :: "(string \<Rightarrow> string) \<Rightarrow> draft_patterns \<Rightarrow> string \<Rightarrow> string \<Rightarrow>
    snapshot option \<Rightarrow> pydict \<Rightarrow> string + pydict" where
  "materialize_transferred_draft_action digest pats identity_state kind snap transport =
     (case validate_upstream_draft_transport digest transport of
        Some err \<Rightarrow> Inl err
      | None \<Rightarrow> Inr (sanity_gate (transferred_reasons pats kind snap transport)
          [(''id'', PStr (str_or (text_of (dget ''action_id'' transport)) ''draft_reply'')), (''enabled'', PBool True),
           (''payload_pl'', PStr (text_of (dget ''body'' transport))), (''disabled_reason_pl'', PNone),
           (''draft_id'', PStr (text_of (dget ''draft_id'' transport))), (''revision'', PInt (revision_of transport)),
           (''body_hash'', PStr (text_of (dget ''body_hash'' transport))),
           (''case_id'', PStr (text_of (dget ''case_id'' transport))),
           (''source_signal_id'', PStr (text_of (dget ''source_signal_id'' transport))),
           (''identity_state'', PStr identity_state), (''parent_policy_decision_id'', PStr []),
           (''parent_action_proposal_v2_id'', PStr []), (''parent_decision_candidate_id'', PStr [])]))"

definition blocked_transfer :: "pydict \<Rightarrow> pydict \<Rightarrow> tool_result" where
  "blocked_transfer action provenance =
     (let reason = str_or (text_of (dget ''disabled_reason_pl'' action)) ''DRAFT_SANITY_FAILED'' in
      tool_result_of ''error'' (''Draft sanity gate zablokowal przeniesiony draft: '' @ reason)
        [(''actions'', PList [PDict action]),
         (''hitl_gate'', PDict [(''required'', PBool True), (''reason'', PStr (''draft_sanity_failed:'' @ take 120 reason))]),
         (''operational_status'', PDict [(''code'', PStr ''pending_operator''), (''blocking'', PBool True)]),
         (''draft_lineage_provenance'', PDict provenance)])"

definition ready_transfer :: "string \<Rightarrow> pydict \<Rightarrow> pydict \<Rightarrow> tool_result" where
  "ready_transfer source action provenance =
     tool_result_of ''ok''
       (if source = ''brain1'' then ''Draft Brain 1 przeniesiony bez regeneracji (lineage transport).''
        else ''Draft utworzony przez Brain 2 (fallback).'')
       [(''actions'', PList [PDict action]),
        (''hitl_gate'', PDict [(''required'', PBool True), (''reason'', PStr ''draft_ready_for_approval'')]),
        (''operational_status'', PDict [(''code'', PStr ''pending_operator'')]),
        (''draft_lineage_provenance'', PDict provenance)]"

definition tool_result_from_upstream_transport :: "(string \<Rightarrow> string) \<Rightarrow> draft_patterns \<Rightarrow> string \<Rightarrow> pydict \<Rightarrow>
    string + tool_result" where
  "tool_result_from_upstream_transport digest pats now transport =
     (let source = str_or (text_of (dget ''source'' transport)) ''brain1''; origin = draft_origin_from_transport transport;
          provenance = build_draft_lineage_provenance now origin (text_of (dget ''source_signal_id'' transport))
            (if origin = ''brain1'' then ''reply_drafter'' else ''generate_draft_reply'')
            (text_of (dget ''created_at'' transport))
      in case materialize_transferred_draft_action digest pats ''identity_incomplete'' [] None transport of
           Inl err \<Rightarrow> Inl err
         | Inr action \<Rightarrow>
             if dget ''enabled'' action = PBool False then Inr (blocked_transfer action provenance)
             else Inr (ready_transfer source action provenance))"

definition contract_error_tool_result :: "string \<Rightarrow> tool_result" where
  "contract_error_tool_result err =
     tool_result_of ''error'' (''Kontrakt draft lineage naruszony: '' @ err)
       [(''hitl_gate'', PDict [(''required'', PBool True), (''reason'', PStr (''draft_lineage_contract:'' @ err))]),
        (''operational_status'', PDict [(''code'', PStr ''pending_operator''), (''blocking'', PBool True)])]"

definition resolve_generate_draft_reply :: "(string \<Rightarrow> string) \<Rightarrow> draft_patterns \<Rightarrow> string \<Rightarrow> pydict \<Rightarrow>
    tool_result option \<times> bool" where
  "resolve_generate_draft_reply digest pats now payload =
     (case upstream_draft_transport_from_signal payload of
        None \<Rightarrow> (None, True)
      | Some transport \<Rightarrow>
          (case tool_result_from_upstream_transport digest pats now transport of
             Inl err \<Rightarrow> (Some (contract_error_tool_result err), False)
           | Inr r \<Rightarrow> (Some r, False)))"

subsection \<open>Lemmas\<close>

lemma dget_sanity_gate: "k \<notin> {''enabled'', ''disabled_reason_pl''} \<Longrightarrow> dget k (sanity_gate reasons a) = dget k a"
  by (simp add: sanity_gate_def)

lemma enabled_sanity_gate:
  "dget ''enabled'' a = PBool True \<Longrightarrow> dget ''enabled'' (sanity_gate reasons a) = PBool (reasons = [])"
  by (simp add: sanity_gate_def)

lemma dget_default_field: "k' \<noteq> k \<Longrightarrow> dget k' (default_field k v d) = dget k' d"
  by (simp add: default_field_def)

lemma edit_fields:
  "dget ''payload_pl'' (apply_operator_draft_edit digest pats c sg a kind snap intent item t) = PStr t"
  "dget ''body_hash'' (apply_operator_draft_edit digest pats c sg a kind snap intent item t) = PStr (compute_body_hash digest t)"
  "dget ''revision'' (apply_operator_draft_edit digest pats c sg a kind snap intent item t) = PInt (next_revision digest item t)"
  "text_of (dget ''draft_id'' item) \<noteq> [] \<Longrightarrow>
     dget ''draft_id'' (apply_operator_draft_edit digest pats c sg a kind snap intent item t) = PStr (text_of (dget ''draft_id'' item))"
  "dget ''enabled'' (apply_operator_draft_edit digest pats c sg a kind snap intent item t) =
     PBool (evaluate_draft_sanity pats t kind intent snap None None None = [])"
  unfolding apply_operator_draft_edit_def Let_def
  by (simp_all add: dget_sanity_gate dget_default_field enabled_sanity_gate str_or_def)

text \<open>A draft with an identity: what every action has that was minted, transferred or edited once.\<close>

definition identified :: "(string \<Rightarrow> string) \<Rightarrow> pydict \<Rightarrow> bool" where
  "identified digest item \<longleftrightarrow> text_of (dget ''draft_id'' item) \<noteq> [] \<and> 1 \<le> revision_of item \<and>
     strip (text_of (dget ''payload_pl'' item)) \<noteq> [] \<and>
     text_of (dget ''body_hash'' item) = compute_body_hash digest (text_of (dget ''payload_pl'' item))"

fun content_changes :: "string list \<Rightarrow> nat" where
  "content_changes (x # y # hs) = (if x = y then 0 else 1) + content_changes (y # hs)"
| "content_changes _ = 0"

lemma hash_nonempty: "(\<And>x. digest x \<noteq> []) \<Longrightarrow> strip t \<noteq> [] \<Longrightarrow> compute_body_hash digest t \<noteq> []"
  by (simp add: compute_body_hash_def Let_def)

lemma next_revision_identified:
  assumes "identified digest item" and "\<And>x. digest x \<noteq> []" and "strip t \<noteq> []"
  shows "next_revision digest item t = revision_of item +
    (if compute_body_hash digest (text_of (dget ''payload_pl'' item)) = compute_body_hash digest t then 0 else 1)"
proof -
  have "stored_hash digest item = compute_body_hash digest (text_of (dget ''payload_pl'' item))"
    using assms(1) by (simp add: stored_hash_def identified_def str_or_def)
  moreover have "compute_body_hash digest t \<noteq> []" by (rule hash_nonempty [OF assms(2,3)])
  moreover have "compute_body_hash digest (text_of (dget ''payload_pl'' item)) \<noteq> []"
    by (rule hash_nonempty [OF assms(2)]) (use assms(1) in \<open>simp add: identified_def\<close>)
  ultimately show ?thesis using assms(1) unfolding next_revision_def Let_def by (auto simp: identified_def)
qed

lemma revision_of_PInt: "dget ''revision'' d = PInt n \<Longrightarrow> 1 \<le> n \<Longrightarrow> revision_of d = n"
  by (simp add: revision_of_def py_or_def)

lemma edit_identified:
  assumes "identified digest item" and "\<And>x. digest x \<noteq> []" and "strip t \<noteq> []"
    and out_def: "out = apply_operator_draft_edit digest pats c sg a kind snap intent item t"
  shows "identified digest out" and "text_of (dget ''draft_id'' out) = text_of (dget ''draft_id'' item)"
    and "revision_of out = revision_of item +
      (if compute_body_hash digest (text_of (dget ''payload_pl'' item)) = compute_body_hash digest t then 0 else 1)"
    and "text_of (dget ''payload_pl'' out) = t"
proof -
  have d: "text_of (dget ''draft_id'' item) \<noteq> []" and r1: "1 \<le> revision_of item"
    using assms(1) by (simp_all add: identified_def)
  note next_rev = next_revision_identified [OF assms(1-3)]
  have "1 \<le> next_revision digest item t" using r1 by (simp add: next_rev)
  then have rev: "revision_of out = next_revision digest item t"
    unfolding out_def by (rule revision_of_PInt [OF edit_fields(3)])
  show "text_of (dget ''payload_pl'' out) = t" by (simp add: out_def edit_fields(1))
  show "text_of (dget ''draft_id'' out) = text_of (dget ''draft_id'' item)" by (simp add: out_def edit_fields(4) [OF d])
  show "revision_of out = revision_of item +
      (if compute_body_hash digest (text_of (dget ''payload_pl'' item)) = compute_body_hash digest t then 0 else 1)"
    by (simp only: rev next_rev)
  show "identified digest out"
    unfolding identified_def rev
    using d r1 assms(3) by (simp add: out_def edit_fields(1,2) edit_fields(4) [OF d] next_rev)
qed

subsection \<open>Properties of drafts\<close>

text \<open>
  Whatever an operator types, a draft keeps its identity: over any sequence of edits with text in
  them the draft id stays, the revision number grows by exactly the number of times the content changed, the
  stored hash is the hash of the stored body, the body is the last text, and the action is enabled exactly
  when the sanity gate has nothing against it.
\<close>

theorem draft_edits_keep_identity:
  assumes "identified digest item" and "\<And>x. digest x \<noteq> []" and "list_all (\<lambda>t. strip t \<noteq> []) texts"
  shows "let out = foldl (apply_operator_draft_edit digest pats c sg a kind snap intent) item texts in
    identified digest out \<and> text_of (dget ''draft_id'' out) = text_of (dget ''draft_id'' item) \<and>
    revision_of out = revision_of item +
      int (content_changes (map (compute_body_hash digest) (text_of (dget ''payload_pl'' item) # texts))) \<and>
    text_of (dget ''payload_pl'' out) = last (text_of (dget ''payload_pl'' item) # texts) \<and>
    (texts \<noteq> [] \<longrightarrow> dget ''enabled'' out = PBool (evaluate_draft_sanity pats (last texts) kind intent snap None None None = []))"
  using assms(1,3) unfolding Let_def
proof (induction texts arbitrary: item)
  case Nil
  then show ?case by simp
next
  case (Cons t texts)
  let ?e = "apply_operator_draft_edit digest pats c sg a kind snap intent item t"
  have t: "strip t \<noteq> []" and ts: "list_all (\<lambda>t. strip t \<noteq> []) texts" using Cons.prems(2) by simp_all
  note e = edit_identified [OF Cons.prems(1) assms(2) t refl, of pats c sg a kind snap intent]
  note ih = Cons.IH [OF e(1) ts]
  have en: "dget ''enabled'' ?e = PBool (evaluate_draft_sanity pats t kind intent snap None None None = [])"
    by (rule edit_fields(5))
  show ?case using ih by (auto simp: e(2-4) en)
qed

text \<open>A digest that tells texts of different length apart, and patterns that find nothing but a fixed promise.\<close>

definition length_digest :: "string \<Rightarrow> string" where
  "length_digest t = replicate (length t) (CHR ''a'') @ ''f''"

definition sample_patterns :: draft_patterns where
  "sample_patterns = \<lparr>dp_placeholder = (\<lambda>t. False), dp_promise = (\<lambda>t. contains t ''gwarantujemy''),
     dp_sales_ask = (\<lambda>t. contains t ''ofert''), dp_service_promise = (\<lambda>t. False), dp_diagnosis = (\<lambda>t. False),
     dp_asks_area = (\<lambda>t. False), dp_asks_location = (\<lambda>t. False), dp_service_scope = (\<lambda>t. False),
     dp_execution_claim = (\<lambda>t. False), dp_completion_claim = (\<lambda>t. False)\<rparr>"

definition minted_draft :: pydict where
  "minted_draft = mint_gap_only_draft_action length_digest sample_patterns ''c1'' ''s1'' ''draft_reply'' ''wycena_oferta''
     None [] ''hello''"

theorem draft_edits_keep_identity_witness:
  "let out = foldl (apply_operator_draft_edit length_digest sample_patterns ''c1'' ''s1'' ''draft_reply'' ''wycena_oferta'' None [])
       minted_draft [''hello '', ''hi'', ''gwarantujemy''] in
   revision_of out = 3 \<and> text_of (dget ''draft_id'' out) = text_of (dget ''draft_id'' minted_draft)"
proof -
  have i: "identified length_digest minted_draft" by code_simp
  have d: "length_digest x \<noteq> []" for x by (simp add: length_digest_def)
  have t: "list_all (\<lambda>t. strip t \<noteq> []) [''hello '', ''hi'', ''gwarantujemy'']" by code_simp
  have n: "revision_of minted_draft +
      int (content_changes (map (compute_body_hash length_digest)
        (text_of (dget ''payload_pl'' minted_draft) # [''hello '', ''hi'', ''gwarantujemy'']))) = 3" by code_simp
  note c = draft_edits_keep_identity [OF i d t, of sample_patterns "''c1''" "''s1''" "''draft_reply''" "''wycena_oferta''" None "[]",
      unfolded Let_def, THEN conjunct2]
  show ?thesis
    unfolding Let_def by (rule conjI [OF trans [OF c [THEN conjunct2, THEN conjunct1] n] c [THEN conjunct1]])
qed

text \<open>
  A draft that was emptied loses its hash, so the next text takes the revision number of the empty one: two
  contents with one number, where the comment promises a new number for every change.
\<close>

lemma refilled_draft_reuses_revision:
  "let edit = apply_operator_draft_edit length_digest sample_patterns ''c1'' ''s1'' ''draft_reply'' ''wycena_oferta'' None [];
       emptied = edit minted_draft []; refilled = edit emptied ''hi'' in
   revision_of emptied = revision_of refilled \<and>
   text_of (dget ''body_hash'' emptied) \<noteq> text_of (dget ''body_hash'' refilled)"
  by code_simp

subsection \<open>Properties of the transport\<close>

lemma materialized_enabled:
  "materialize_transferred_draft_action digest pats st kind snap transport = Inr action \<Longrightarrow>
     validate_upstream_draft_transport digest transport = None \<and>
     dget ''enabled'' action = PBool (transferred_reasons pats kind snap transport = []) \<and>
     dget ''payload_pl'' action = PStr (text_of (dget ''body'' transport)) \<and>
     dget ''draft_id'' action = PStr (text_of (dget ''draft_id'' transport)) \<and>
     dget ''body_hash'' action = PStr (text_of (dget ''body_hash'' transport)) \<and>
     dget ''revision'' action = PInt (revision_of transport)"
  by (auto simp: materialize_transferred_draft_action_def enabled_sanity_gate dget_sanity_gate split: option.splits)

lemma transferred:
  "tool_result_from_upstream_transport digest pats now transport =
     (case validate_upstream_draft_transport digest transport of
        Some err \<Rightarrow> Inl err
      | None \<Rightarrow> Inr (
          let origin = draft_origin_from_transport transport;
              provenance = build_draft_lineage_provenance now origin (text_of (dget ''source_signal_id'' transport))
                (if origin = ''brain1'' then ''reply_drafter'' else ''generate_draft_reply'')
                (text_of (dget ''created_at'' transport));
              action = projr (materialize_transferred_draft_action digest pats ''identity_incomplete'' [] None transport)
          in if transferred_reasons pats [] None transport = []
             then ready_transfer (str_or (text_of (dget ''source'' transport)) ''brain1'') action provenance
             else blocked_transfer action provenance))"
proof (cases "validate_upstream_draft_transport digest transport")
  case (Some err)
  then show ?thesis by (simp add: tool_result_from_upstream_transport_def materialize_transferred_draft_action_def)
next
  case None
  then obtain action where a: "materialize_transferred_draft_action digest pats ''identity_incomplete'' [] None transport = Inr action"
    by (simp add: materialize_transferred_draft_action_def)
  note m = materialized_enabled [OF a]
  show ?thesis
    unfolding tool_result_from_upstream_transport_def Let_def a sum.case None option.case sum.sel by (simp add: m)
qed

lemma transfer_gates:
  "tr_status (ready_transfer source action provenance) = ''ok''"
  "tr_status (blocked_transfer action provenance) = ''error''"
  "tr_status (contract_error_tool_result err) = ''error''"
  "sub_field ''hitl_gate'' ''required'' (tr_snapshot_delta (ready_transfer source action provenance)) = PBool True"
  "sub_field ''hitl_gate'' ''required'' (tr_snapshot_delta (blocked_transfer action provenance)) = PBool True"
  "sub_field ''hitl_gate'' ''required'' (tr_snapshot_delta (contract_error_tool_result err)) = PBool True"
  by (simp_all add: ready_transfer_def blocked_transfer_def contract_error_tool_result_def Let_def sub_field_def)

text \<open>What a transport must be for its draft to go to the operator: complete, untampered and sane.\<close>

definition transferable :: "(string \<Rightarrow> string) \<Rightarrow> draft_patterns \<Rightarrow> pydict \<Rightarrow> bool" where
  "transferable digest pats t \<longleftrightarrow>
     list_all (\<lambda>k. norm_of (dget k t) \<noteq> []) REQUIRED_TRANSPORT_KEYS \<and>
     compute_body_hash digest (text_of (dget ''body'' t)) \<noteq> [] \<and>
     text_of (dget ''body_hash'' t) = compute_body_hash digest (text_of (dget ''body'' t)) \<and>
     (case py_int (py_or (dget ''revision'' t) (PInt 0)) of None \<Rightarrow> False | Some n \<Rightarrow> 1 \<le> n) \<and>
     transferred_reasons pats [] None t = []"

lemma transferable_iff:
  assumes "t \<noteq> []"
  shows "transferable digest pats t \<longleftrightarrow>
    validate_upstream_draft_transport digest t = None \<and> transferred_reasons pats [] None t = []"
  using assms
  by (auto simp: transferable_def validate_upstream_draft_transport_def Let_def filter_empty_conv list_all_iff
      split: option.splits)

text \<open>
  A finished draft of the first stage is never written again.  The generating tool may run as a
  fallback exactly when the signal brings no transport; otherwise the operator is asked, and the transfer
  succeeds exactly when every field of the transport is there, its hash is that of its body, its revision is at
  least one, and the sanity gate has nothing against the body.
\<close>

theorem draft_transfer_iff:
  "(snd (resolve_generate_draft_reply digest pats now payload) \<longleftrightarrow>
      upstream_draft_transport_from_signal payload = None) \<and>
   (fst (resolve_generate_draft_reply digest pats now payload) = None \<longleftrightarrow>
      upstream_draft_transport_from_signal payload = None) \<and>
   (\<forall>t. upstream_draft_transport_from_signal payload = Some t \<longrightarrow>
      (\<exists>r. fst (resolve_generate_draft_reply digest pats now payload) = Some r \<and>
         sub_field ''hitl_gate'' ''required'' (tr_snapshot_delta r) = PBool True \<and>
         (tr_status r = ''ok'' \<longleftrightarrow> transferable digest pats t)))"
proof (cases "upstream_draft_transport_from_signal payload")
  case None
  then show ?thesis by (simp add: resolve_generate_draft_reply_def)
next
  case (Some t)
  have ne: "t \<noteq> []" using Some by (auto simp: upstream_draft_transport_from_signal_def split: pyval.splits if_splits)
  show ?thesis
    by (cases "validate_upstream_draft_transport digest t")
      (simp_all add: Some resolve_generate_draft_reply_def transferred transfer_gates transferable_iff [OF ne] Let_def)
qed

definition sample_reply :: pydict where
  "sample_reply = [(''draft_enabled'', PBool True), (''recommended_variant'', PStr ''short''),
     (''drafts'', PList [PDict [(''variant'', PStr ''long''), (''body'', PStr ''dzien dobry'')],
        PDict [(''variant'', PStr ''short''), (''body'', PStr '' witam, oferta '')]])]"

definition sample_transport :: pydict where
  "sample_transport = the (the (build_upstream_draft_transport length_digest ''2024-01-01'' (PDict sample_reply) ''c1'' ''s1'' []))"

definition tampered_transport :: pydict where
  "tampered_transport = AList.update ''body'' (PStr ''inna tresc'') sample_transport"

theorem draft_transfer_iff_witness:
  "(\<exists>r. resolve_generate_draft_reply length_digest sample_patterns ''now'' [(''upstream_draft_transport'', PDict sample_transport)] =
      (Some r, False) \<and> tr_status r = ''ok'') \<and>
   (\<exists>r. resolve_generate_draft_reply length_digest sample_patterns ''now'' [(''upstream_draft_transport'', PDict tampered_transport)] =
      (Some r, False) \<and> tr_status r \<noteq> ''ok'')"
proof -
  have resolved: "\<exists>r. resolve_generate_draft_reply length_digest sample_patterns ''now'' payload = (Some r, False) \<and>
      (tr_status r = ''ok'' \<longleftrightarrow> transferable length_digest sample_patterns t)"
    if t: "upstream_draft_transport_from_signal payload = Some t" for payload t
  proof -
    note d = draft_transfer_iff [of length_digest sample_patterns "''now''" payload]
    obtain r where "fst (resolve_generate_draft_reply length_digest sample_patterns ''now'' payload) = Some r"
      "tr_status r = ''ok'' \<longleftrightarrow> transferable length_digest sample_patterns t"
      using d [THEN conjunct2, THEN conjunct2, THEN spec, THEN mp, OF t] by (elim exE conjE)
    moreover have "\<not> snd (resolve_generate_draft_reply length_digest sample_patterns ''now'' payload)"
      using d [THEN conjunct1] t by simp
    ultimately show ?thesis by (intro exI [of _ r]) (simp add: prod_eq_iff)
  qed
  have "upstream_draft_transport_from_signal [(''upstream_draft_transport'', PDict sample_transport)] = Some sample_transport"
    "upstream_draft_transport_from_signal [(''upstream_draft_transport'', PDict tampered_transport)] = Some tampered_transport"
    by code_simp+
  note good = resolved [OF this(1)] and bad = resolved [OF this(2)]
  have t: "transferable length_digest sample_patterns sample_transport"
    "\<not> transferable length_digest sample_patterns tampered_transport" by code_simp+
  show ?thesis using good bad by (simp only: t simp_thms)
qed




text \<open>
  The gate runs again on the transferred body, but without the kind of the case and without the snapshot, which the
  transport does not carry: a draft that the gate refuses for a service case is enabled.
\<close>

lemma transferred_service_draft_is_enabled:
  "evaluate_draft_sanity sample_patterns ''witam, oferta'' ''awaria_naprawa'' [] None None None None \<noteq> [] \<and>
   transferred_reasons sample_patterns [] None sample_transport = []"
  by code_simp

end
