(* ===== verification/Untrusted_Boundary.thy ===== *)
theory Untrusted_Boundary
  imports Tool_Contract Evidence_Authority
begin

text \<open>
  The execution boundary for untrusted inbound evidence (\<open>agent_runtime/untrusted_input_boundary.py\<close>):
  a plan made from a mail or an attachment may not carry authority, approval, canonical identities or
  recipients the runtime does not already hold.

  The arguments of a plan are a JSON value, so the search for keys is a recursion over the nested
  value and its lists; its specification is the inductive \<open>has_key\<close>.  The code goes through a set of
  identity keys, so the order in which it reports mismatches is not determined; here it is the order
  of the source.
\<close>

subsection \<open>Tables\<close>

definition UNTRUSTED_SOURCE_KINDS :: "string list" where
  "UNTRUSTED_SOURCE_KINDS = [''gmail'', ''gmail_inbound'', ''gmail_message'', ''gmail_message_observed'',
     ''gmail_attachment'', ''gmail_attachment_observed'', ''gmail_thread_update_observed'',
     ''mail_attachment'', ''attachment'']"

definition ACTION_TOOLS :: "string list" where
  "ACTION_TOOLS = [''generate_draft_reply'', ''request_operator_clarification'', ''call_kalk_top_quote'',
     ''propose_mutation'', ''propose_plan'']"

definition RECIPIENT_KEYS :: "string list" where
  "RECIPIENT_KEYS = [''to'', ''recipient'', ''recipient_email'', ''to_email'', ''reply_to'', ''customer_email'']"

definition AUTHORITY_KEYS :: "string list" where
  "AUTHORITY_KEYS = [''allowed_by_policy'', ''approval_required'', ''authority'', ''execution_authority'',
     ''hitl_required'', ''operator_scope'', ''policy_status'', ''requires_human_approval'',
     ''requires_operator_approval'', ''source_authority'', ''trusted'']"

definition APPROVAL_CLAIM_KEYS :: "string list" where
  "APPROVAL_CLAIM_KEYS = [''approved'', ''approval_id'', ''approval_receipt'', ''approval_state'',
     ''hitl_approved'', ''operator_approved'']"

definition CANONICAL_IDENTITY_KEYS :: "string list" where
  "CANONICAL_IDENTITY_KEYS = [''case_id'', ''thread_id'', ''customer_id'', ''engagement_id'', ''decision_id'',
     ''semantic_hash'', ''draft_hash'']"

subsection \<open>Canonical identities\<close>

text \<open>The three identities the runtime holds; the others have no canonical value, so none may be named.\<close>

definition canonical_identities :: "string \<Rightarrow> policy_envelope option \<Rightarrow> (string \<times> string) list" where
  "canonical_identities case_id envelope =
     [(''case_id'', strip case_id),
      (''decision_id'', (case envelope of None \<Rightarrow> [] | Some e \<Rightarrow> strip (pe_canonical_decision_id e))),
      (''semantic_hash'', (case envelope of None \<Rightarrow> [] | Some e \<Rightarrow> strip (pe_source_semantic_hash e)))]"

definition expected_identity :: "string \<Rightarrow> policy_envelope option \<Rightarrow> string \<Rightarrow> string" where
  "expected_identity case_id envelope key =
     (case map_of (canonical_identities case_id envelope) key of Some v \<Rightarrow> v | None \<Rightarrow> [])"

definition identity_mismatch :: "string \<Rightarrow> policy_envelope option \<Rightarrow> pydict \<Rightarrow> string \<Rightarrow> string option" where
  "identity_mismatch case_id envelope args key =
     (let proposed = norm_of (dget key args); expected = expected_identity case_id envelope key in
      if proposed = [] then None
      else if expected \<noteq> [] \<and> proposed \<noteq> expected
      then Some (key @ ''='' @ proposed @ ''!=canonical:'' @ expected)
      else if expected = [] then Some (key @ ''='' @ proposed @ ''!=canonical:(none)'')
      else None)"

definition canonical_identity_mismatches :: "string \<Rightarrow> policy_envelope option \<Rightarrow> pydict \<Rightarrow> string list" where
  "canonical_identity_mismatches case_id envelope args =
     List.map_filter (identity_mismatch case_id envelope args) CANONICAL_IDENTITY_KEYS"

subsection \<open>Keys at any depth\<close>

fun find_sensitive_paths :: "string list \<Rightarrow> string \<Rightarrow> pyval \<Rightarrow> string list"
  and paths_in_pairs :: "string list \<Rightarrow> string \<Rightarrow> pydict \<Rightarrow> string list"
  and paths_in_items :: "string list \<Rightarrow> string \<Rightarrow> nat \<Rightarrow> pyval list \<Rightarrow> string list" where
  "find_sensitive_paths keys prefix (PDict d) = paths_in_pairs keys prefix d"
| "find_sensitive_paths keys prefix (PList xs) = paths_in_items keys prefix 0 xs"
| "find_sensitive_paths keys prefix _ = []"
| "paths_in_pairs keys prefix [] = []"
| "paths_in_pairs keys prefix ((k, v) # d) =
     (let key_text = strip k; path = (if prefix \<noteq> [] then prefix @ ''.'' @ key_text else key_text)
      in (if lower key_text \<in> set keys then [path] else []) @ find_sensitive_paths keys path v @
         paths_in_pairs keys prefix d)"
| "paths_in_items keys prefix i [] = []"
| "paths_in_items keys prefix i (x # xs) =
     find_sensitive_paths keys (prefix @ ''['' @ nat_str i @ '']'') x @ paths_in_items keys prefix (Suc i) xs"

inductive has_key :: "string \<Rightarrow> pyval \<Rightarrow> bool" where
  here: "(k, v) \<in> set d \<Longrightarrow> has_key (lower (strip k)) (PDict d)"
| under: "(k, v) \<in> set d \<Longrightarrow> has_key n v \<Longrightarrow> has_key n (PDict d)"
| item: "x \<in> set xs \<Longrightarrow> has_key n x \<Longrightarrow> has_key n (PList xs)"

inductive_simps has_key_simps:
  "has_key n (PDict d)" "has_key n (PList xs)" "has_key n PNone" "has_key n (PBool b)" "has_key n (PInt i)"
  "has_key n (PFloat r)" "has_key n (PStr s)"

definition carries_key :: "string list \<Rightarrow> pyval \<Rightarrow> bool" where
  "carries_key keys v \<longleftrightarrow> (\<exists>k \<in> set keys. has_key k v)"

subsection \<open>Recipients\<close>

text \<open>The pattern of an address: one at-sign, no white space, a dot inside the domain.\<close>

definition is_email :: "string \<Rightarrow> bool" where
  "is_email t \<longleftrightarrow>
     (let at_sign = char_of (64::nat); user = takeWhile (\<lambda>c. c \<noteq> at_sign) t; rest = dropWhile (\<lambda>c. c \<noteq> at_sign) t;
          domain = tl rest
      in user \<noteq> [] \<and> rest \<noteq> [] \<and> at_sign \<notin> set domain \<and> list_all (\<lambda>c. \<not> is_space c) t \<and>
         CHR ''.'' \<in> set (butlast (tl domain)))"

definition boundary_email :: "pyval \<Rightarrow> string" where
  "boundary_email v =
     (let t = lower (norm_of v);
          u = (if CHR ''<'' \<in> set t \<and> CHR ''>'' \<in> set t
               then strip (takeWhile (\<lambda>c. c \<noteq> CHR ''>'') (tl (dropWhile (\<lambda>c. c \<noteq> CHR ''<'') t)))
               else t)
      in if is_email u then u else [])"

definition emails_of :: "pyval \<Rightarrow> string list" where
  "emails_of v = (if boundary_email v \<noteq> [] then [boundary_email v] else [])"

lemma size_map_of: "map_of d k = Some v \<Longrightarrow> size v < Suc (size_list (size_prod (\<lambda>x. 0) size) d)"
  by (induction d) (auto split: if_splits)

function argument_emails :: "pyval \<Rightarrow> string list" where
  "argument_emails (PStr s) = emails_of (PStr s)"
| "argument_emails (PDict d) =
     concat (map (\<lambda>k. case map_of d k of None \<Rightarrow> [] | Some v \<Rightarrow> argument_emails v) [''email'', ''address'', ''value''])"
| "argument_emails (PList xs) = concat (map argument_emails xs)"
| "argument_emails PNone = []"
| "argument_emails (PBool b) = []"
| "argument_emails (PInt i) = []"
| "argument_emails (PFloat r) = []"
  by pat_completeness auto
termination
  by (relation "measure size") (auto dest: size_map_of intro: size_list_estimation' less_Suc_eq_le [THEN iffD2])

fun collect_recipient_values :: "pyval \<Rightarrow> string list" and recipients_in_pairs :: "pydict \<Rightarrow> string list"
  and recipients_in_items :: "pyval list \<Rightarrow> string list" where
  "collect_recipient_values (PDict d) = recipients_in_pairs d"
| "collect_recipient_values (PList xs) = recipients_in_items xs"
| "collect_recipient_values _ = []"
| "recipients_in_pairs [] = []"
| "recipients_in_pairs ((k, v) # d) =
     (if lower (strip k) \<in> set RECIPIENT_KEYS then argument_emails v else collect_recipient_values v) @
     recipients_in_pairs d"
| "recipients_in_items [] = []"
| "recipients_in_items (x # xs) = collect_recipient_values x @ recipients_in_items xs"

definition trusted_recipient_candidates :: "pydict \<Rightarrow> string list" where
  "trusted_recipient_candidates payload =
     concat (map (\<lambda>k. emails_of (dget k payload)) [''customer_email'', ''from_email'', ''sender_email'']) @
     concat (map (\<lambda>k. emails_of (dget k (as_dict (dget ''source_message'' payload))))
       [''customer_email'', ''from_email'', ''sender_email'', ''from'']) @
     concat (map (\<lambda>k. emails_of (dget k (as_dict (dget ''source_ref'' payload))))
       [''customer_email'', ''from_email'', ''sender_email'', ''from''])"

subsection \<open>The guard\<close>

definition is_untrusted_inbound :: "pydict \<Rightarrow> bool" where
  "is_untrusted_inbound payload \<longleftrightarrow>
     list_ex (\<lambda>v. v \<in> set UNTRUSTED_SOURCE_KINDS)
       [ev_norm (dget ''source_kind'' payload), ev_norm (dget ''signal_kind'' payload),
        ev_norm (dget ''source_kind'' (as_dict (dget ''source'' payload)))] \<or>
     is_external_origin (classify_source_origin payload)"

definition boundary_blocked :: "string \<Rightarrow> string \<Rightarrow> string \<Rightarrow> tool_result" where
  "boundary_blocked reason failure_class detail =
     attach_attribution
       (tool_result_of ''error''
          ''Untrusted input boundary zablokowal narzedzie: inbound mail lub zalacznik nie moze ustalac authority ani zaufanego recipienta.''
          (gate_delta reason))
       (attribution failure_class ''policy'' ''untrusted_input_boundary'' False
          ''operator_review_trusted_arguments'' [] detail)"

definition guard_untrusted_input_execution ::
  "string \<Rightarrow> policy_envelope option \<Rightarrow> tool_call_plan \<Rightarrow> pydict \<Rightarrow> tool_result option" where
  "guard_untrusted_input_execution case_id envelope plan payload =
     (let tool_name = strip (tp_tool_name plan); args = tp_arguments plan;
          authority_paths = find_sensitive_paths AUTHORITY_KEYS [] (PDict args);
          approval_paths = find_sensitive_paths APPROVAL_CLAIM_KEYS [] (PDict args);
          mismatches = canonical_identity_mismatches case_id envelope args;
          recipients = collect_recipient_values (PDict args);
          trusted = trusted_recipient_candidates payload;
          untrusted = filter (\<lambda>v. v \<notin> set trusted) recipients;
          blocked = (\<lambda>reason cls details.
            Some (boundary_blocked (reason @ '':'' @ tool_name) cls (join '','' (take 8 details))))
      in if \<not> is_untrusted_inbound payload then None
         else if tool_name \<notin> set ACTION_TOOLS then None
         else if authority_paths \<noteq> []
         then blocked ''untrusted_authority_argument'' ''UNTRUSTED_AUTHORITY_OVERRIDE'' authority_paths
         else if approval_paths \<noteq> []
         then blocked ''untrusted_approval_claim'' ''UNTRUSTED_APPROVAL_CLAIM'' approval_paths
         else if mismatches \<noteq> []
         then blocked ''canonical_argument_mismatch'' ''CANONICAL_ARGUMENT_MISMATCH'' mismatches
         else if recipients = [] then None
         else if trusted = []
         then blocked ''untrusted_recipient_argument'' ''UNTRUSTED_RECIPIENT_OVERRIDE'' [''no_trusted_recipient'']
         else if untrusted \<noteq> []
         then blocked ''untrusted_recipient_argument'' ''UNTRUSTED_RECIPIENT_OVERRIDE'' untrusted
         else None)"

subsection \<open>Lemmas\<close>

lemma has_key_Cons:
  "has_key n (PDict ((k, v) # d)) \<longleftrightarrow> n = lower (strip k) \<or> has_key n v \<or> has_key n (PDict d)"
  "has_key n (PList (x # xs)) \<longleftrightarrow> has_key n x \<or> has_key n (PList xs)"
  unfolding has_key_simps by (simp_all, metis, metis)

lemma carries_key_simps [simp]:
  "\<not> carries_key keys (PDict [])" "\<not> carries_key keys (PList [])" "\<not> carries_key keys PNone"
  "\<not> carries_key keys (PBool b)" "\<not> carries_key keys (PInt i)" "\<not> carries_key keys (PFloat r)"
  "\<not> carries_key keys (PStr s)"
  "carries_key keys (PDict ((k, v) # d)) \<longleftrightarrow>
     lower (strip k) \<in> set keys \<or> carries_key keys v \<or> carries_key keys (PDict d)"
  "carries_key keys (PList (x # xs)) \<longleftrightarrow> carries_key keys x \<or> carries_key keys (PList xs)"
  unfolding carries_key_def has_key_Cons by (auto simp: has_key_simps)

lemma find_paths_Nil:
  "find_sensitive_paths keys p v = [] \<longleftrightarrow> \<not> carries_key keys v"
  "paths_in_pairs keys p d = [] \<longleftrightarrow> \<not> carries_key keys (PDict d)"
  "paths_in_items keys p i xs = [] \<longleftrightarrow> \<not> carries_key keys (PList xs)"
  by (induction keys p v and keys p d and keys p i xs
        rule: find_sensitive_paths_paths_in_pairs_paths_in_items.induct)
    (simp_all add: Let_def)

lemma mismatch_iff:
  "identity_mismatch case_id e args k = None \<longleftrightarrow>
     norm_of (dget k args) = [] \<or> norm_of (dget k args) = expected_identity case_id e k"
  by (auto simp: identity_mismatch_def Let_def)

lemma mismatches_Nil:
  "canonical_identity_mismatches case_id e args = [] \<longleftrightarrow>
     (\<forall>k \<in> set CANONICAL_IDENTITY_KEYS. norm_of (dget k args) \<in> {[], expected_identity case_id e k})"
  unfolding canonical_identity_mismatches_def map_filter_Nil list_all_iff mismatch_iff by simp

text \<open>What a tool call may do on untrusted evidence.\<close>

definition boundary_clear :: "string \<Rightarrow> policy_envelope option \<Rightarrow> pydict \<Rightarrow> pydict \<Rightarrow> bool" where
  "boundary_clear case_id e args payload \<longleftrightarrow>
     \<not> carries_key AUTHORITY_KEYS (PDict args) \<and> \<not> carries_key APPROVAL_CLAIM_KEYS (PDict args) \<and>
     (\<forall>k \<in> set CANONICAL_IDENTITY_KEYS. norm_of (dget k args) \<in> {[], expected_identity case_id e k}) \<and>
     set (collect_recipient_values (PDict args)) \<subseteq> set (trusted_recipient_candidates payload)"

lemma boundary_pass_iff:
  "guard_untrusted_input_execution case_id e plan payload = None \<longleftrightarrow>
     \<not> is_untrusted_inbound payload \<or> strip (tp_tool_name plan) \<notin> set ACTION_TOOLS \<or>
     boundary_clear case_id e (tp_arguments plan) payload"
proof -
  have sub: "set xs \<subseteq> set ys \<longleftrightarrow> xs = [] \<or> ys \<noteq> [] \<and> filter (\<lambda>v. v \<notin> set ys) xs = []" for xs ys :: "string list"
    by (auto simp: filter_empty_conv)
  show ?thesis
    unfolding guard_untrusted_input_execution_def boundary_clear_def Let_def find_paths_Nil mismatches_Nil sub
    by (simp split: if_split)
qed

lemma boundary_block_gates:
  assumes "guard_untrusted_input_execution case_id e plan payload = Some r"
  shows "tr_status r = ''error'' \<and>
    (\<exists>reason. dget ''hitl_gate'' (tr_snapshot_delta r) =
       PDict [(''required'', PBool True), (''reason'', PStr reason)])"
  using assms unfolding guard_untrusted_input_execution_def Let_def boundary_blocked_def
  by (auto simp: gate_delta_def split: if_splits)

text \<open>A payload is trusted when it says it is an instruction, and no kind it names is an inbound one.\<close>

definition names_inbound :: "pydict \<Rightarrow> bool" where
  "names_inbound payload \<longleftrightarrow>
     ev_norm (dget ''source_kind'' payload) \<in> set UNTRUSTED_SOURCE_KINDS \<or>
     ev_norm (dget ''signal_kind'' payload) \<in> set UNTRUSTED_SOURCE_KINDS \<or>
     ev_norm (dget ''source_kind'' (as_dict (dget ''source'' payload))) \<in> set UNTRUSTED_SOURCE_KINDS"

lemma untrusted_iff:
  "is_untrusted_inbound payload \<longleftrightarrow> names_inbound payload \<or>
     \<not> (is_true (dget ''operator_instruction'' payload) \<or> is_true (dget ''system_instruction'' payload) \<or>
        payload_kind payload \<in> set (OPERATOR_KINDS @ SYSTEM_KINDS))"
proof -
  have "is_external_origin (classify_source_origin payload) \<longleftrightarrow>
      classify_source_origin payload \<notin> {''OPERATOR'', ''SYSTEM''}"
  proof
    assume "is_external_origin (classify_source_origin payload)"
    moreover have "\<not> is_external_origin ''OPERATOR''" "\<not> is_external_origin ''SYSTEM''" by code_simp+
    ultimately show "classify_source_origin payload \<notin> {''OPERATOR'', ''SYSTEM''}" by auto
  next
    assume "classify_source_origin payload \<notin> {''OPERATOR'', ''SYSTEM''}"
    then have "classify_source_origin payload \<in> set EXTERNAL_ORIGINS" using classify_range by blast
    then show "is_external_origin (classify_source_origin payload)" by (rule external_origin_literals)
  qed
  then show ?thesis
    unfolding is_untrusted_inbound_def names_inbound_def classify_trusted_iff [symmetric] by simp
qed

subsection \<open>Properties\<close>

text \<open>
  Property C5.  What a plan may do on inbound evidence.  The boundary lets a plan through exactly when
  the payload names no inbound kind and is an operator's or the system's instruction, or the tool
  materializes no action, or the arguments carry, at no depth, a key of authority or of approval, name no
  identity other than the runtime's own, and address only recipients of the source message; whatever it
  stops becomes an error that requires the operator.
\<close>

theorem untrusted_guard_passes_iff:
  "(guard_untrusted_input_execution case_id e plan payload = None \<longleftrightarrow>
      \<not> names_inbound payload \<and>
        (is_true (dget ''operator_instruction'' payload) \<or> is_true (dget ''system_instruction'' payload) \<or>
         payload_kind payload \<in> set (OPERATOR_KINDS @ SYSTEM_KINDS)) \<or>
      strip (tp_tool_name plan) \<notin> set ACTION_TOOLS \<or>
      (\<forall>k \<in> set (AUTHORITY_KEYS @ APPROVAL_CLAIM_KEYS). \<not> has_key k (PDict (tp_arguments plan))) \<and>
      (\<forall>k \<in> set CANONICAL_IDENTITY_KEYS.
         norm_of (dget k (tp_arguments plan)) \<in> {[], expected_identity case_id e k}) \<and>
      set (collect_recipient_values (PDict (tp_arguments plan))) \<subseteq> set (trusted_recipient_candidates payload)) \<and>
   (guard_untrusted_input_execution case_id e plan payload = Some r \<longrightarrow>
      tr_status r = ''error'' \<and>
      (\<exists>reason. dget ''hitl_gate'' (tr_snapshot_delta r) =
         PDict [(''required'', PBool True), (''reason'', PStr reason)]))"
proof -
  have "boundary_clear case_id e (tp_arguments plan) payload \<longleftrightarrow>
      (\<forall>k \<in> set (AUTHORITY_KEYS @ APPROVAL_CLAIM_KEYS). \<not> has_key k (PDict (tp_arguments plan))) \<and>
      (\<forall>k \<in> set CANONICAL_IDENTITY_KEYS.
         norm_of (dget k (tp_arguments plan)) \<in> {[], expected_identity case_id e k}) \<and>
      set (collect_recipient_values (PDict (tp_arguments plan))) \<subseteq> set (trusted_recipient_candidates payload)"
    unfolding boundary_clear_def carries_key_def set_append ball_Un by blast
  then show ?thesis
    unfolding boundary_pass_iff untrusted_iff using boundary_block_gates by simp
qed

definition mail_payload :: pydict where
  "mail_payload = [(''source_kind'', PStr ''gmail''), (''operator_instruction'', PBool True),
     (''from_email'', PStr ''Jan <jan@example.pl>'')]"

theorem untrusted_guard_passes_iff_witness:
  "guard_untrusted_input_execution ''c1'' None
     (plan_for ''propose_mutation'' [(''to'', PList [PStr '' JAN@example.pl ''])]) mail_payload = None \<and>
   map_option tr_failure_class (guard_untrusted_input_execution ''c1'' None
     (plan_for ''propose_mutation'' [(''to'', PStr ''eve@example.pl'')]) mail_payload) =
     Some ''UNTRUSTED_RECIPIENT_OVERRIDE'' \<and>
   guard_untrusted_input_execution ''c1'' None
     (plan_for ''propose_mutation'' [(''x'', PList [PDict [('' Approved '', PBool True)]])]) mail_payload \<noteq> None"
proof -
  have 1: "\<forall>k \<in> set CANONICAL_IDENTITY_KEYS.
      norm_of (dget k [(''to'', PList [PStr '' JAN@example.pl ''])]) \<in> {[], expected_identity ''c1'' None k}"
    "set (collect_recipient_values (PDict [(''to'', PList [PStr '' JAN@example.pl ''])])) \<subseteq>
       set (trusted_recipient_candidates mail_payload)"
    by code_simp+
  have 2: "\<not> has_key k (PDict [(''to'', PList [PStr '' JAN@example.pl ''])])"
    if "k \<in> set (AUTHORITY_KEYS @ APPROVAL_CLAIM_KEYS)" for k
  proof -
    have "lower (strip ''to'') \<notin> set (AUTHORITY_KEYS @ APPROVAL_CLAIM_KEYS)" by code_simp
    with that show ?thesis by (auto simp: has_key_simps)
  qed
  have "guard_untrusted_input_execution ''c1'' None
     (plan_for ''propose_mutation'' [(''to'', PList [PStr '' JAN@example.pl ''])]) mail_payload = None"
    by (subst untrusted_guard_passes_iff [THEN conjunct1])
      (simp only: plan_for_def tool_call_plan.select_convs, intro disjI2 conjI ballI 2 1, assumption)
  moreover have "map_option tr_failure_class (guard_untrusted_input_execution ''c1'' None
     (plan_for ''propose_mutation'' [(''to'', PStr ''eve@example.pl'')]) mail_payload) =
     Some ''UNTRUSTED_RECIPIENT_OVERRIDE''"
    "guard_untrusted_input_execution ''c1'' None
     (plan_for ''propose_mutation'' [(''x'', PList [PDict [('' Approved '', PBool True)]])]) mail_payload \<noteq> None"
    by code_simp+
  ultimately show ?thesis by blast
qed

text \<open>
  The identity check reads the top level of the arguments only: a canonical identity of another case one
  level down passes, while an approval key there does not.
\<close>

theorem nested_identity_passes:
  "guard_untrusted_input_execution ''c1'' None
     (plan_for ''propose_mutation'' [(''payload'', PDict [(''case_id'', PStr ''c2'')])]) mail_payload = None \<and>
   guard_untrusted_input_execution ''c1'' None
     (plan_for ''propose_mutation'' [(''case_id'', PStr ''c2'')]) mail_payload \<noteq> None"
  by code_simp

end
