(* ===== verification/Agent_Loop.thy ===== *)
theory Agent_Loop
  imports Draft_Lineage Untrusted_Boundary Planner_Budget Authz
begin

text \<open>
  The agent graph engine (\<open>agent_runtime/graph.py\<close>): in every turn the planner picks one tool, a chain of
  guards decides whether it runs, and its result is folded into the snapshot; the engine stops when the
  operator is asked, a budget is spent or the steps are used up.

  The planner and the tool handlers are arguments that act on a world of type \<open>'w\<close>; a handler may return a
  result, raise, or overrun the time limit of the turn, in which case its effect on the world stays.  Further
  arguments of the model, collected in \<open>agent_env\<close>, are the validation of a snapshot, the text patterns of the
  guards, the digest, the normalisation of a research query and a reading of the clock.  Journal, checkpoint,
  metrics and event publication have no effect on the loop and are left out.
\<close>

subsection \<open>The environment of a run\<close>

datatype handler_outcome = Returned tool_result | Raised | TimedOut

type_synonym 'w handler = "tool_call_plan \<Rightarrow> snapshot \<Rightarrow> 'w \<Rightarrow> handler_outcome \<times> 'w"

record 'w agent_env =
  ae_validate :: "pydict \<Rightarrow> pydict option"
  ae_status_of :: "pydict \<Rightarrow> pydict option"
  ae_plan_next_tool :: "snapshot \<Rightarrow> string list \<Rightarrow> 'w \<Rightarrow> (string + tool_call_plan) \<times> 'w"
  ae_planner_tokens :: "'w \<Rightarrow> int"
  ae_handlers :: "string \<Rightarrow> 'w handler option"
  ae_cues :: cues
  ae_patterns :: draft_patterns
  ae_digest :: "string \<Rightarrow> string"
  ae_now :: string
  ae_objective :: "string \<Rightarrow> string"
  ae_payload :: pydict
  ae_ledger :: "ledger option"
  ae_settings :: "pydict option"
  ae_max_rounds :: int
  ae_allowlist :: "string list"
  ae_tool_budget :: "(string \<times> int) list"
  ae_operator_scope :: string
  ae_checkpoints :: bool

definition MAX_TOOL_CALLS_PER_TURN :: nat where
  "MAX_TOOL_CALLS_PER_TURN = 8"

definition READ_ONCE_AFTER_OK_TOOLS :: "string list" where
  "READ_ONCE_AFTER_OK_TOOLS = [''search_gmail_thread'']"

definition RAG_QUERY_PREFIX :: string where
  "RAG_QUERY_PREFIX = ''RAG query=''"

definition MAIL_AGENT_TOOL_BUDGET :: "(string \<times> int) list" where
  "MAIL_AGENT_TOOL_BUDGET = [(''search_gmail_thread'', 3), (''list_drive_folder'', 5), (''read_google_drive_file'', 5),
     (''extract_facts_from_text'', 10), (''search_rag_knowledge'', 5), (''check_cp2025_eligibility'', 3),
     (''call_kalk_top_quote'', 2), (''generate_draft_reply'', 3), (''request_operator_clarification'', 2),
     (''report_gaps_and_stop'', 1)]"

definition CHAT_AGENT_TOOL_BUDGET :: "(string \<times> int) list" where
  "CHAT_AGENT_TOOL_BUDGET = [(''search_gmail_thread'', 99), (''list_drive_folder'', 99), (''search_rag_knowledge'', 99),
     (''call_kalk_top_quote'', 99), (''generate_draft_reply'', 10), (''propose_mutation'', 10), (''propose_plan'', 5),
     (''read_google_drive_file'', 5), (''extract_facts_from_text'', 3), (''check_cp2025_eligibility'', 5),
     (''request_operator_clarification'', 3), (''report_gaps_and_stop'', 1), (''retry_hard_parse'', 999),
     (''get_pipeline_summary'', 99), (''get_client_health'', 99), (''get_daily_delta'', 99), (''get_win_rate'', 99),
     (''get_top_clients'', 99), (''get_revenue_forecast'', 99), (''get_system_health_snapshot'', 99),
     (''get_business_signals'', 99), (''get_agent_activity_summary'', 99)]"

text \<open>The mail budget wins for a tool that both list.\<close>

definition TOOL_BUDGET :: "(string \<times> int) list" where
  "TOOL_BUDGET = MAIL_AGENT_TOOL_BUDGET @
     filter (\<lambda>(t, n). map_of MAIL_AGENT_TOOL_BUDGET t = None) CHAT_AGENT_TOOL_BUDGET"

subsection \<open>Running one tool\<close>

definition guard_text :: "guard_summary \<Rightarrow> string" where
  "guard_text g = (case g of
       ToolForbidden name \<Rightarrow> ''Narzedzie '' @ name @ '' jest zabronione (HITL).''
     | ToolNotAllowlisted name \<Rightarrow> ''Narzedzie '' @ name @ '' nie jest na allowliscie konstytucji.'')"

definition denial_text :: "authz_denial \<Rightarrow> string" where
  "denial_text d = (case d of
       ToolDenied tool level \<Rightarrow> ''Brak uprawnien do narzedzia '' @ tool @ '' (wymagany poziom: '' @ level @ '').''
     | OperationDenied opn \<Rightarrow> ''Brak uprawnien do operacji '' @ opn @ '' (wymagany poziom operator).'')"

definition tool_limit :: "'w agent_env \<Rightarrow> string \<Rightarrow> int option" where
  "tool_limit env name = (case map_of (ae_tool_budget env) name of Some n \<Rightarrow> Some n | None \<Rightarrow> map_of TOOL_BUDGET name)"

type_synonym tool_usage = "(string \<times> int) list"

definition tool_use_count :: "string \<Rightarrow> tool_usage \<Rightarrow> int" where
  "tool_use_count name uses = (case map_of uses (strip name) of Some n \<Rightarrow> n | None \<Rightarrow> 0)"

definition budget_refusal :: "string \<Rightarrow> int \<Rightarrow> int \<Rightarrow> tool_result" where
  "budget_refusal name limit used =
     (tool_result_of ''budget_exceeded''
        (''Budzet narzedzia '' @ name @ '' wyczerpany ('' @ int_str limit @ ''/run).'')
        (gate_delta (''tool_budget_exceeded:'' @ name) @
         [(''agent_memory'', PDict [(''reasoning_trace'', PList [trace_item used
            (''Narzedzie '' @ name @ '' wyczerpalo budzet - nie uzywaj go ponownie w tym runie.'')])])]))
     \<lparr>tr_next_tool_hint := Some ''request_operator_clarification''\<rparr>"

definition registry_execute :: "'w agent_env \<Rightarrow> tool_call_plan \<Rightarrow> snapshot \<Rightarrow> tool_usage \<Rightarrow> 'w \<Rightarrow>
    handler_outcome \<times> tool_usage \<times> 'w" where
  "registry_execute env plan s uses w =
     (case guard_tool_plan (tp_tool_name plan) (Some (ae_allowlist env)) of
        Some g \<Rightarrow> (Returned (tool_result_of (gr_status g) (guard_text (gr_summary g)) (gr_snapshot_delta g)), uses, w)
      | None \<Rightarrow>
          (let name = strip (tp_tool_name plan);
               used = tool_use_count name uses + 1;
               uses' = (case tool_limit env name of None \<Rightarrow> uses | Some _ \<Rightarrow> AList.update name used uses)
           in case tool_limit env name of
                Some limit \<Rightarrow>
                  if limit < used then (Returned (budget_refusal name limit used), uses', w)
                  else (case ae_handlers env name of
                      None \<Rightarrow> (Returned (tool_result_of ''error'' (''Nieznane narzedzie: '' @ name) []), uses', w)
                    | Some h \<Rightarrow> (case h plan s w of (out, w') \<Rightarrow> (out, uses', w')))
              | None \<Rightarrow>
                  (case ae_handlers env name of
                      None \<Rightarrow> (Returned (tool_result_of ''error'' (''Nieznane narzedzie: '' @ name) []), uses', w)
                    | Some h \<Rightarrow> (case h plan s w of (out, w') \<Rightarrow> (out, uses', w')))))"

definition with_planner_tokens :: "int \<Rightarrow> tool_result \<Rightarrow> tool_result" where
  "with_planner_tokens n r = (if n \<noteq> 0 \<and> tr_tokens_used r = 0 then r\<lparr>tr_tokens_used := n\<rparr> else r)"

definition authz_block :: "'w agent_env \<Rightarrow> tool_call_plan \<Rightarrow> authz_denial option" where
  "authz_block env plan =
     (let opn = text_of (dget ''operation'' (tp_arguments plan)) in
      if ae_operator_scope env = [] then None
      else guard_tool_authz (tp_tool_name plan) (ae_operator_scope env) (if opn = [] then None else Some opn))"

definition execute_tool :: "'w agent_env \<Rightarrow> string \<Rightarrow> tool_call_plan \<Rightarrow> snapshot \<Rightarrow> tool_usage \<Rightarrow> 'w \<Rightarrow>
    handler_outcome \<times> tool_usage \<times> 'w" where
  "execute_tool env sub_agent plan s uses w =
     (if tp_tool_name plan \<notin> set (tools_for_sub_agent sub_agent (ae_allowlist env))
      then (Returned (tool_result_of ''error''
              (''Narzedzie '' @ tp_tool_name plan @ '' niedozwolone dla sub-agenta '' @ sub_agent @ ''.'') []), uses, w)
      else case authz_block env plan of
             Some d \<Rightarrow> (Returned (tool_result_of ''error'' (denial_text d) []), uses, w)
           | None \<Rightarrow>
               (case registry_execute env plan s uses w of
                  (Returned r, uses', w') \<Rightarrow> (Returned (with_planner_tokens (ae_planner_tokens env w) r), uses', w')
                | other \<Rightarrow> other))"

definition timeout_result :: "string \<Rightarrow> tool_result" where
  "timeout_result name = tool_result_of ''error''
     (''Przekroczono limit czasu (45s) dla narzedzia '' @ name @ ''. Sprobuj ponownie.'') []"

text \<open>\<open>None\<close>: the exception of the handler leaves the run.\<close>

definition execute_tool_with_timeout :: "'w agent_env \<Rightarrow> string \<Rightarrow> tool_call_plan \<Rightarrow> snapshot \<Rightarrow> tool_usage \<Rightarrow> 'w \<Rightarrow>
    tool_result option \<times> tool_usage \<times> 'w" where
  "execute_tool_with_timeout env sub_agent plan s uses w =
     (case execute_tool env sub_agent plan s uses w of
        (Returned r, uses', w') \<Rightarrow> (Some r, uses', w')
      | (TimedOut, uses', w') \<Rightarrow> (Some (timeout_result (tp_tool_name plan)), uses', w')
      | (Raised, uses', w') \<Rightarrow> (None, uses', w'))"

subsection \<open>The guards of a turn\<close>

definition violation_row :: "violation \<Rightarrow> pydict" where
  "violation_row v =
     [(''argument_name'', PStr (vi_argument_name v)), (''constraint_mode'', PStr (mode_str (vi_mode v))),
      (''reason_code'', PStr (vi_reason_code v)), (''expected'', PStr (vi_expected v)),
      (''proposed'', PStr (vi_proposed v)), (''source_kind'', PStr (pv_source_kind (vi_provenance v))),
      (''source_ref'', PStr (pv_source_ref (vi_provenance v))), (''decision_id'', PStr (pv_decision_id (vi_provenance v))),
      (''decision_version_id'', PStr (pv_decision_version_id (vi_provenance v))),
      (''semantic_hash'', PStr (pv_semantic_hash (vi_provenance v)))]"

definition consistency_row :: "plan_consistency \<Rightarrow> pydict" where
  "consistency_row c =
     [(''schema_version'', PStr ''semantic_policy_plan_consistency.v1''), (''status'', PStr (plan_status_str (pc_status c))),
      (''reason_codes'', PList (map PStr (pc_reason_codes c))),
      (''argument_violations'', PList (map (PDict \<circ> violation_row) (pc_argument_violations c))),
      (''policy_decision_id'', PStr (pc_policy_decision_id c)), (''action_proposal_id'', PStr (pc_action_proposal_id c)),
      (''tool_name'', PStr (pc_tool_name c)), (''mapping_classification'', PStr ''NO_SAFE_MAPPING_EXISTS'')]"

text \<open>The observation goes into the snapshot; the enforcement that follows reads it there.\<close>

definition observe_policy_plan :: "'w agent_env \<Rightarrow> snapshot \<Rightarrow> tool_call_plan \<Rightarrow>
    tool_call_plan \<times> plan_consistency \<times> snapshot" where
  "observe_policy_plan env s plan =
     (let correlated = correlate_tool_plan plan (snapshot_envelope s);
          telemetry = evaluate_semantic_policy_plan_consistency (snapshot_envelope s) correlated
      in (correlated, telemetry,
          AList.update ''decision_divergence_observation''
            (PDict (evaluate_decision_divergence (dget ''decision_comparison_inputs'' (ae_payload env))
               (text_of (dget ''case_kind'' s)) correlated))
            (AList.update ''semantic_policy_plan_consistency'' (PDict (consistency_row telemetry)) s)))"

definition filter_completed_read_once_tools :: "string list \<Rightarrow> string list \<Rightarrow> string list" where
  "filter_completed_read_once_tools available completed =
     filter (\<lambda>t. \<not> (t \<in> set READ_ONCE_AFTER_OK_TOOLS \<and> t \<in> set completed)) available"

text \<open>The objectives already researched, read off the traces that start with the query prefix.\<close>

definition completed_rag_research_objectives :: "(string \<Rightarrow> string) \<Rightarrow> snapshot \<Rightarrow> string list" where
  "completed_rag_research_objectives objective s =
     filter (\<lambda>t. t \<noteq> []) (map (\<lambda>summary. objective (strip (takeWhile (\<lambda>c. c \<noteq> CHR '';'') (drop (length RAG_QUERY_PREFIX) summary))))
       (filter (\<lambda>summary. starts_with summary RAG_QUERY_PREFIX)
         (map (\<lambda>item. text_of (dget ''summary_pl'' (as_dict item))) (reasoning_trace s))))"

definition duplicate_rag_research_result :: "(string \<Rightarrow> string) \<Rightarrow> snapshot \<Rightarrow> tool_call_plan \<Rightarrow> tool_result option" where
  "duplicate_rag_research_result objective s plan =
     (let query = norm_of (dget ''query'' (tp_arguments plan)); obj = objective query in
      if tp_tool_name plan \<noteq> ''search_rag_knowledge'' then None
      else if obj = [] \<or> obj \<notin> set (completed_rag_research_objectives objective s) then None
      else Some (tool_result_of ''error''
        (''Research RAG dla tego celu informacyjnego jest juz pokryty w tym runie: '' @ obj @ ''.'')
        (gate_delta (''duplicate_rag_research:'' @ obj) @
         [(''agent_memory'', PDict [(''reasoning_trace'', PList [trace_item 0
            (''RAG research stop: objective already covered; query='' @ take 120 query @ ''; objective='' @ obj)])])])))"

definition reask_correction :: "string list \<Rightarrow> tool_result" where
  "reask_correction keys =
     (attach_attribution
       (tool_result_of ''error''
         (''Zablokowano ponowne pytanie o znany fakt: '' @ join '', '' keys @ ''. Wybierz inna akcje w ramach budzetu.'')
         [(''agent_memory'', PDict [(''reasoning_trace'', PList [trace_item 0
            (''known_fact_reask_blocked: '' @ join '','' keys)])])])
       (attribution ''PLANNER_KNOWN_FACT_REASK'' ''planner'' ''pre_tool_guard'' True ''choose_non_reask_action'' []
         (join '','' keys)))\<lparr>tr_next_tool_hint := Some ''generate_draft_reply''\<rparr>"

definition reask_abstention :: "string list \<Rightarrow> tool_result" where
  "reask_abstention keys =
     attach_attribution
       (tool_result_of ''error''
         ''Ponowne pytanie o znany fakt po korekcie - bezpieczna abstencja, wymaga operatora.''
         (gate_delta ''known_fact_reask_blocked''))
       (attribution ''SAFE_ABSTENTION'' ''planner'' ''pre_tool_guard'' False ''request_operator_clarification'' []
         (join '','' keys))"

text \<open>The notes are written as \<open>list\<close> shows them.\<close>

definition not_offered_result :: "string \<Rightarrow> string list \<Rightarrow> tool_result" where
  "not_offered_result name notes =
     attach_attribution
       (tool_result_of ''error'' (''Narzedzie '' @ name @ '' nie bylo dostepne w tej turze.'')
         (gate_delta (''tool_not_offered:'' @ name)))
       (attribution ''TOOL_UNAVAILABLE'' ''infra'' ''planner_offer'' False ''use_offered_alternative'' []
         (''filtered_out='' @ py_repr (PList (map PStr (take 4 notes)))))"

datatype verdict =
    Refuse tool_result
  | Correct tool_result
  | Settle tool_result string
  | Execute string

text \<open>
  The guards, in their order: policy, untrusted evidence, the offer, re-asked facts, repeated research; then
  a draft of the first stage is transferred instead of being generated again.
\<close>

definition turn_verdict :: "'w agent_env \<Rightarrow> tool_availability \<Rightarrow> bool \<Rightarrow> snapshot \<Rightarrow> plan_consistency \<Rightarrow>
    tool_call_plan \<Rightarrow> verdict" where
  "turn_verdict env availability reask_used s consistency plan =
     (case policy_enforcement_block (snapshot_envelope s) (Some consistency) (understanding_present s) plan
         (ae_payload env) (ae_ledger env) of
        Some r \<Rightarrow> Refuse r
      | None \<Rightarrow>
     (case guard_untrusted_input_execution (text_of (dget ''case_id'' s)) (snapshot_envelope s) plan (ae_payload env) of
        Some r \<Rightarrow> Refuse r
      | None \<Rightarrow>
          if tp_tool_name plan \<notin> set (offered availability)
          then Refuse (not_offered_result (tp_tool_name plan) (unavailable_notes availability))
          else (case guard_known_fact_reask (ae_cues env) (tp_tool_name plan) (tp_arguments plan) s of
             Some ra \<Rightarrow> if \<not> reask_used then Correct (reask_correction (ra_fact_keys ra))
               else Refuse (reask_abstention (ra_fact_keys ra))
           | None \<Rightarrow>
          (case duplicate_rag_research_result (ae_objective env) s plan of
             Some r \<Rightarrow> Refuse r
           | None \<Rightarrow>
               (let sub_agent = select_sub_agent (tp_tool_name plan) s in
                if tp_tool_name plan = ''generate_draft_reply''
                then (case resolve_generate_draft_reply (ae_digest env) (ae_patterns env) (ae_now env) (ae_payload env) of
                    (Some r, _) \<Rightarrow> Settle r sub_agent
                  | (None, True) \<Rightarrow> Execute sub_agent
                  | (None, False) \<Rightarrow>
                      Settle (tool_result_of ''error'' ''Brak upstream draft i fallback zablokowany.'' []) sub_agent)
                else Execute sub_agent)))))"

subsection \<open>A turn\<close>

record turn_record =
  at_tool_name :: string
  at_tool_status :: string
  at_turn_summary_pl :: string
  at_snapshot_version :: pyval

record 'w loop_state =
  ls_snapshot :: snapshot
  ls_turns :: "turn_record list"
  ls_calls :: nat
  ls_completed :: "string list"
  ls_budget :: run_budget
  ls_reask_used :: bool
  ls_turn_idx :: int
  ls_uses :: tool_usage
  ls_world :: 'w

definition offer_tools :: "'w agent_env \<Rightarrow> snapshot \<Rightarrow> string list \<Rightarrow> tool_availability option" where
  "offer_tools env s completed =
     (let scoped = tools_for_sub_agent (select_preplan_sub_agent s) (ae_allowlist env);
          available = filter_completed_read_once_tools (if scoped \<noteq> [] then scoped else ae_allowlist env) completed
      in compute_effective_available_tools available (ae_allowlist env) (ae_settings env) True True (Some (view_of s))
           (dget ''decision_comparison_inputs'' (ae_payload env)))"

text \<open>The note of a specialist's hand-off, and the parents of new actions.\<close>

definition handoff :: "string \<Rightarrow> string \<Rightarrow> tool_result \<Rightarrow> tool_result option" where
  "handoff sub_agent tool_name r =
     (if tr_status r = ''ok'' \<and> sub_agent \<noteq> ''general''
      then (case delta_memory (tr_snapshot_delta r) of
          None \<Rightarrow> None
        | Some memory \<Rightarrow>
            (let trace = list_items (dget ''reasoning_trace'' memory);
                 note = trace_item (int (length trace)) (sub_agent_handoff_note sub_agent tool_name)
             in Some (r\<lparr>tr_snapshot_delta := AList.update ''agent_memory''
                   (PDict (AList.update ''reasoning_trace'' (PList (trace @ [note])) memory)) (tr_snapshot_delta r)\<rparr>)))
      else Some r)"

definition annotated :: "tool_call_plan \<Rightarrow> snapshot \<Rightarrow> tool_result \<Rightarrow> tool_result" where
  "annotated plan s r = r\<lparr>tr_snapshot_delta := annotate_action_parent_refs (tr_snapshot_delta r) plan (snapshot_envelope s)\<rparr>"

text \<open>What every turn does with its result, whatever produced it.\<close>

definition settle_turn :: "'w agent_env \<Rightarrow> snapshot \<Rightarrow> tool_call_plan \<Rightarrow> string \<Rightarrow> tool_result \<Rightarrow> 'w loop_state \<Rightarrow>
    'w loop_state option" where
  "settle_turn env s plan sub_agent result st =
     (case handoff sub_agent (tp_tool_name plan) result of
        None \<Rightarrow> None
      | Some r \<Rightarrow>
          map_option (\<lambda>updated.
            (let s' = decrement_steps updated in
             st\<lparr>ls_snapshot := s',
                ls_turns := ls_turns st @ [\<lparr>at_tool_name = tp_tool_name plan, at_tool_status = tr_status r,
                  at_turn_summary_pl = tr_turn_summary_pl r, at_snapshot_version = dget ''version'' s'\<rparr>],
                ls_calls := Suc (ls_calls st),
                ls_budget := snd (record_turn \<lparr>tn_tool = tp_tool_name plan, tn_status = tr_status result,
                  tn_tokens = tr_tokens_used result + ae_planner_tokens env (ls_world st)\<rparr> (ls_budget st)),
                ls_completed := (if tr_status result = ''ok'' \<and> tp_tool_name plan \<in> set READ_ONCE_AFTER_OK_TOOLS
                  then tp_tool_name plan # ls_completed st else ls_completed st),
                ls_turn_idx := (if ae_checkpoints env then ls_turn_idx st + 1 else ls_turn_idx st)\<rparr>))
          (apply_tool_result (ae_validate env) s plan (annotated plan s r)))"

definition planner_error_result :: "string \<Rightarrow> tool_result" where
  "planner_error_result exc = tool_result_of ''error''
     (''Blad planera ('' @ exc @ '') - zatrzymano, wymaga operatora.'') (gate_delta (''planner_error:'' @ exc))"

text \<open>The left value is an exception that leaves the run, with the world as it is then.\<close>

definition of_settled :: "'w \<Rightarrow> 'w loop_state option \<Rightarrow> 'w + 'w loop_state" where
  "of_settled w r = (case r of None \<Rightarrow> Inl w | Some st \<Rightarrow> Inr st)"

definition agent_turn :: "'w agent_env \<Rightarrow> 'w loop_state \<Rightarrow> 'w + 'w loop_state" where
  "agent_turn env st =
     (case offer_tools env (ls_snapshot st) (ls_completed st) of
        None \<Rightarrow> Inl (ls_world st)
      | Some availability \<Rightarrow>
     (case ae_plan_next_tool env (ls_snapshot st) (offered availability) (ls_world st) of
        (Inl exc, w) \<Rightarrow>
          (case observe_policy_plan env (ls_snapshot st) (plan_for ''planner_error'' []) of (plan, c, s) \<Rightarrow>
            of_settled w (settle_turn env s plan ''general'' (planner_error_result exc) (st\<lparr>ls_world := w\<rparr>)))
      | (Inr proposed, w) \<Rightarrow>
          (case observe_policy_plan env (ls_snapshot st) proposed of (plan, c, s) \<Rightarrow>
            (case turn_verdict env availability (ls_reask_used st) s c plan of
               Refuse r \<Rightarrow> of_settled w (settle_turn env s plan ''general'' r (st\<lparr>ls_world := w\<rparr>))
             | Correct r \<Rightarrow> of_settled w (settle_turn env s plan ''general'' r (st\<lparr>ls_world := w, ls_reask_used := True\<rparr>))
             | Settle r sub_agent \<Rightarrow> of_settled w (settle_turn env s plan sub_agent r (st\<lparr>ls_world := w\<rparr>))
             | Execute sub_agent \<Rightarrow>
                 (case execute_tool_with_timeout env sub_agent plan s (ls_uses st) w of
                    (None, uses, w') \<Rightarrow> Inl w'
                  | (Some r, uses, w') \<Rightarrow>
                      of_settled w' (settle_turn env s plan sub_agent r (st\<lparr>ls_world := w', ls_uses := uses\<rparr>)))))))"

subsection \<open>The loop\<close>

definition budget_delta :: "string \<Rightarrow> int \<Rightarrow> pydict" where
  "budget_delta reason turn_idx =
     [(''operational_status'', PDict [(''code'', PStr ''pending_operator''), (''blocking'', PBool True),
        (''steps_remaining'', PInt 0)]),
      (''hitl_gate'', PDict [(''required'', PBool True), (''reason'', PStr (''planner_budget_exceeded:'' @ reason))]),
      (''agent_memory'', PDict [(''reasoning_trace'', PList [trace_item turn_idx
        (''Budzet planera wyczerpany ('' @ reason @
         ''). Zatrzymano bezpiecznie z dotychczasowym evidence. [PLANNER_BUDGET_EXCEEDED]'')])])]"

definition stop_with :: "'w loop_state \<Rightarrow> snapshot option \<Rightarrow> 'w + 'w loop_state" where
  "stop_with st r = (case r of None \<Rightarrow> Inl (ls_world st) | Some s \<Rightarrow> Inr (st\<lparr>ls_snapshot := s\<rparr>))"

text \<open>What happens before the turn: the loop ends here, or the turn is taken with the checked budget.\<close>

definition before_turn :: "'w agent_env \<Rightarrow> 'w loop_state \<Rightarrow> ('w + 'w loop_state) option \<times> 'w loop_state" where
  "before_turn env st =
     (if steps_remaining (ls_snapshot st) \<le> 0 \<or> is_loop_terminal (ls_snapshot st) then (Some (Inr st), st)
      else let (hit, b) = check_before_turn (ls_budget st); st1 = st\<lparr>ls_budget := b\<rparr> in
        case hit of
          Some reason \<Rightarrow>
            (Some (stop_with st1 (apply_snapshot_delta (ae_validate env) (ls_snapshot st)
               (budget_delta reason (ls_turn_idx st)))), st1)
        | None \<Rightarrow>
            if MAX_TOOL_CALLS_PER_TURN \<le> ls_calls st
            then (Some (stop_with st1 (apply_snapshot_delta_blocking (ae_validate env) (ls_snapshot st)
               ''Przekroczono limit narzedzi w tej turze. Operatorze, doprecyzuj.'')), st1)
            else (None, st1))"

lemma settle_turn_calls: "settle_turn env s plan sub r st = Some st' \<Longrightarrow> ls_calls st' = Suc (ls_calls st)"
  by (auto simp: settle_turn_def Let_def split: option.splits)

lemma of_settled_Inr: "of_settled w r = Inr st' \<longleftrightarrow> r = Some st'"
  by (auto simp: of_settled_def split: option.split)

lemma agent_turn_calls: "agent_turn env st = Inr st' \<Longrightarrow> ls_calls st' = Suc (ls_calls st)"
  unfolding agent_turn_def
  by (auto simp: of_settled_Inr dest!: settle_turn_calls
      split: option.splits prod.splits sum.splits verdict.splits)

lemma before_turn_calls: "before_turn env st = (None, st1) \<Longrightarrow> ls_calls st1 = ls_calls st \<and> ls_calls st < 8"
  by (auto simp: before_turn_def Let_def MAX_TOOL_CALLS_PER_TURN_def split: prod.splits option.splits if_splits)

function agent_loop :: "'w agent_env \<Rightarrow> 'w loop_state \<Rightarrow> 'w + 'w loop_state" where
  "agent_loop env st =
     (case before_turn env st of
        (Some result, st1) \<Rightarrow> result
      | (None, st1) \<Rightarrow>
          (case agent_turn env st1 of
             Inl w \<Rightarrow> Inl w
           | Inr st2 \<Rightarrow> if is_loop_terminal (ls_snapshot st2) then Inr st2 else agent_loop env st2))"
  by pat_completeness auto
termination
  by (relation "measure (\<lambda>(env, st). 8 - ls_calls st)") (auto dest!: agent_turn_calls before_turn_calls [OF sym])

declare agent_loop.simps [simp del]

text \<open>When the steps are used up and nobody was asked, the operator is.\<close>

definition after_loop :: "'w agent_env \<Rightarrow> 'w loop_state \<Rightarrow> 'w + 'w loop_state" where
  "after_loop env st =
     (if steps_remaining (ls_snapshot st) \<le> 0 \<and> \<not> hitl_required (ls_snapshot st) \<and> \<not> is_loop_terminal (ls_snapshot st)
      then stop_with st (map_option (require_operator ''budget_exhausted'')
             (apply_snapshot_delta (ae_validate env) (ls_snapshot st) pending_delta))
      else Inr st)"

definition initial_budget :: "'w agent_env \<Rightarrow> snapshot \<Rightarrow> run_budget" where
  "initial_budget env s =
     (let b = build_planner_run_budget (if ae_max_rounds env \<noteq> 0 then ae_max_rounds env else 12) (ae_tool_budget env)
      in b\<lparr>max_turns := min (max_turns b) (max 1 (steps_remaining s))\<rparr>)"

definition initial_state :: "'w agent_env \<Rightarrow> snapshot \<Rightarrow> int \<Rightarrow> tool_usage \<Rightarrow> 'w \<Rightarrow> 'w loop_state" where
  "initial_state env s start_turn_idx uses w =
     \<lparr>ls_snapshot = s, ls_turns = [], ls_calls = 0, ls_completed = [], ls_budget = initial_budget env s,
      ls_reask_used = False, ls_turn_idx = start_turn_idx, ls_uses = uses, ls_world = w\<rparr>"

definition agent_run :: "'w agent_env \<Rightarrow> snapshot \<Rightarrow> int \<Rightarrow> tool_usage \<Rightarrow> 'w \<Rightarrow> 'w + 'w loop_state" where
  "agent_run env s start_turn_idx uses w =
     (case ground_current_signal (ae_validate env) (ae_status_of env) s (ae_payload env) of
        None \<Rightarrow> Inl w
      | Some current \<Rightarrow>
          (case agent_loop env (initial_state env current start_turn_idx uses w) of
             Inl w' \<Rightarrow> Inl w'
           | Inr st \<Rightarrow> after_loop env st))"

subsection \<open>Lemmas on the loop\<close>

text \<open>A property of the states at the head of the loop holds where the loop stops by itself.\<close>

lemma agent_loop_rule:
  assumes "agent_loop env st = Inr st'" and "I st"
    and "\<And>st st1 st2. I st \<Longrightarrow> before_turn env st = (None, st1) \<Longrightarrow> agent_turn env st1 = Inr st2 \<Longrightarrow> I st2"
    and "\<And>st st1 st'. I st \<Longrightarrow> before_turn env st = (Some (Inr st'), st1) \<Longrightarrow> Q st'"
    and "\<And>st. I st \<Longrightarrow> is_loop_terminal (ls_snapshot st) \<Longrightarrow> Q st"
  shows "Q st'"
  using assms
proof (induction env st rule: agent_loop.induct)
  case (1 env st)
  note step = 1(4) and stop = 1(5) and terminal = 1(6)
  show ?case
  proof (cases "before_turn env st")
    case (Pair r st1)
    show ?thesis
    proof (cases r)
      case (Some a)
      with 1(2) Pair have "before_turn env st = (Some (Inr st'), st1)" by (simp add: agent_loop.simps)
      then show ?thesis by (rule stop [OF 1(3)])
    next
      case None
      with 1(2) Pair obtain st2 where t: "agent_turn env st1 = Inr st2"
        and r: "(if is_loop_terminal (ls_snapshot st2) then Inr st2 else agent_loop env st2) = Inr st'"
        by (auto simp: agent_loop.simps [of env st] split: sum.splits)
      have i: "I st2" by (rule step [OF 1(3) _ t]) (use None Pair in simp)
      show ?thesis
      proof (cases "is_loop_terminal (ls_snapshot st2)")
        case True
        with r terminal [OF i] show ?thesis by simp
      next
        case False
        with r have "agent_loop env st2 = Inr st'" by simp
        then show ?thesis
          using 1(1) [OF Pair [symmetric] None t False] i step stop terminal by blast
      qed
    qed
  qed
qed

lemma turn_settled:
  assumes "agent_turn env st = Inr st2"
  obtains s c plan sub r st1 where "settle_turn env s plan sub r st1 = Some st2"
    and "\<exists>proposed. observe_policy_plan env (ls_snapshot st) proposed = (plan, c, s)"
    and "ls_turns st1 = ls_turns st" and "ls_calls st1 = ls_calls st" and "ls_budget st1 = ls_budget st"
    and "ls_snapshot st1 = ls_snapshot st"
proof -
  have "\<exists>s c plan sub r st1. settle_turn env s plan sub r st1 = Some st2 \<and>
      (\<exists>proposed. observe_policy_plan env (ls_snapshot st) proposed = (plan, c, s)) \<and>
      ls_turns st1 = ls_turns st \<and> ls_calls st1 = ls_calls st \<and> ls_budget st1 = ls_budget st \<and>
      ls_snapshot st1 = ls_snapshot st"
    using assms unfolding agent_turn_def
    by (auto simp: of_settled_Inr split: option.splits prod.splits sum.splits verdict.splits) force+
  then show thesis using that by blast
qed

text \<open>How a turn moves the counters, and the budget check before it.\<close>

lemma settle_turn_counters:
  assumes "settle_turn env s plan sub r st = Some st'"
  shows "length (ls_turns st') = Suc (length (ls_turns st))" and "ls_calls st' = Suc (ls_calls st)"
    and "turns_used (ls_budget st') = turns_used (ls_budget st) + 1"
    and "max_turns (ls_budget st') = max_turns (ls_budget st)"
  using assms by (auto simp: settle_turn_def Let_def record_turn_fields split: option.splits)

lemma before_turn_go:
  assumes "before_turn env st = (None, st1)"
  shows "st1 = st" and "turns_used (ls_budget st) < max_turns (ls_budget st)" and "ls_calls st < 8"
    and "0 < steps_remaining (ls_snapshot st)" and "\<not> is_loop_terminal (ls_snapshot st)"
proof -
  obtain b where b: "check_before_turn (ls_budget st) = (None, b)" "st1 = st\<lparr>ls_budget := b\<rparr>"
    using assms by (auto simp: before_turn_def Let_def split: prod.splits option.splits if_splits)
  then show "st1 = st" "turns_used (ls_budget st) < max_turns (ls_budget st)" by (auto simp: check_None)
  show "ls_calls st < 8" "0 < steps_remaining (ls_snapshot st)" "\<not> is_loop_terminal (ls_snapshot st)"
    using assms by (auto simp: before_turn_def Let_def MAX_TOOL_CALLS_PER_TURN_def split: prod.splits option.splits if_splits)
qed

text \<open>The ways the loop ends before a turn.\<close>

lemma before_turn_stop:
  assumes "before_turn env st = (Some (Inr st'), st1)"
  shows "st' = st \<and> (steps_remaining (ls_snapshot st) \<le> 0 \<or> is_loop_terminal (ls_snapshot st)) \<or>
    (\<exists>b delta u. st' = st\<lparr>ls_budget := b, ls_snapshot := u\<rparr> \<and>
       (\<exists>reason n. delta = budget_delta reason n) \<and>
       apply_snapshot_delta (ae_validate env) (ls_snapshot st) delta = Some u) \<or>
    (\<exists>b u reason. st' = st\<lparr>ls_budget := b, ls_snapshot := require_operator reason u\<rparr> \<and>
       apply_snapshot_delta (ae_validate env) (ls_snapshot st) pending_delta = Some u)"
proof (cases "steps_remaining (ls_snapshot st) \<le> 0 \<or> is_loop_terminal (ls_snapshot st)")
  case True
  with assms show ?thesis by (auto simp: before_turn_def)
next
  case False
  obtain hit b where c: "check_before_turn (ls_budget st) = (hit, b)" by fastforce
  show ?thesis
  proof (cases hit)
    case (Some reason)
    then obtain u where u: "apply_snapshot_delta (ae_validate env) (ls_snapshot st) (budget_delta reason (ls_turn_idx st)) = Some u"
      "st' = st\<lparr>ls_budget := b, ls_snapshot := u\<rparr>"
      using assms False c by (auto simp: before_turn_def stop_with_def Let_def split: option.splits)
    then show ?thesis by blast
  next
    case None
    with assms False c show ?thesis
      by (auto simp: before_turn_def stop_with_def apply_snapshot_delta_blocking_def Let_def
          split: option.splits if_splits)
  qed
qed

definition counted :: "int \<Rightarrow> 'w loop_state \<Rightarrow> bool" where
  "counted m st \<longleftrightarrow> ls_calls st = length (ls_turns st) \<and> turns_used (ls_budget st) = int (length (ls_turns st)) \<and>
     max_turns (ls_budget st) = m \<and> int (length (ls_turns st)) \<le> m \<and> length (ls_turns st) \<le> 8"

lemma counted_turn:
  assumes "counted m st" and "before_turn env st = (None, st1)" and "agent_turn env st1 = Inr st2"
  shows "counted m st2"
proof -
  note go = before_turn_go [OF assms(2)]
  from assms(3) obtain s c plan sub r st0 where t: "settle_turn env s plan sub r st0 = Some st2"
    "ls_turns st0 = ls_turns st1" "ls_calls st0 = ls_calls st1" "ls_budget st0 = ls_budget st1"
    by (rule turn_settled)
  show ?thesis
    using assms(1) go(1-3) settle_turn_counters [OF t(1)] t(2-4) unfolding counted_def by simp
qed

lemma agent_loop_counted:
  assumes "agent_loop env st = Inr st'" and "counted m st"
  shows "int (length (ls_turns st')) \<le> m \<and> length (ls_turns st') \<le> 8"
proof (rule agent_loop_rule [where I = "counted m" and Q = "\<lambda>st. int (length (ls_turns st)) \<le> m \<and> length (ls_turns st) \<le> 8",
      OF assms counted_turn])
  fix st st1 st' :: "'a loop_state"
  assume "counted m st" and "before_turn env st = (Some (Inr st'), st1)"
  with before_turn_stop [OF this(2)] show "int (length (ls_turns st')) \<le> m \<and> length (ls_turns st') \<le> 8"
    by (auto simp: counted_def)
qed (simp_all add: counted_def)

text \<open>Where the loop stops, the operator is asked, or the steps are used up.\<close>

definition keeps_pending :: "(pydict \<Rightarrow> pydict option) \<Rightarrow> bool" where
  "keeps_pending validate \<longleftrightarrow>
     (\<forall>d d'. validate d = Some d' \<and> sub_field ''operational_status'' ''code'' d = PStr ''pending_operator'' \<longrightarrow>
        sub_field ''operational_status'' ''code'' d' = PStr ''pending_operator'')"

lemma terminal_require: "is_loop_terminal (require_operator reason s)"
  by (simp add: is_loop_terminal_def hitl_required_def require_operator_def sub_field_def)

lemma pending_code:
  assumes "delta = pending_delta \<or> (\<exists>reason n. delta = budget_delta reason n)"
  shows "dget ''code'' (as_dict (dget ''operational_status'' (deep_merge s delta))) = PStr ''pending_operator''"
    and "delta \<noteq> []"
  using assms by (auto simp: pending_delta_def budget_delta_def split: pyval.split)

lemma pending_after:
  assumes "apply_snapshot_delta validate s delta = Some u" and "keeps_pending validate"
    and "delta = pending_delta \<or> (\<exists>reason n. delta = budget_delta reason n)"
  shows "is_loop_terminal u"
proof -
  note p = pending_code [OF assms(3)]
  have "sub_field ''operational_status'' ''code'' (merged_snapshot s delta) = PStr ''pending_operator''"
    using p(1) by (simp add: sub_field_def merged_snapshot_def)
  moreover have "validate (merged_snapshot s delta) = Some u"
    using assms(1) p(2) by (simp add: apply_snapshot_delta_def)
  ultimately have "sub_field ''operational_status'' ''code'' u = PStr ''pending_operator''"
    using assms(2) unfolding keeps_pending_def by blast
  then show ?thesis by (simp add: is_loop_terminal_def op_code_def LOOP_TERMINAL_CODES_def)
qed

text \<open>
  A list in a delta replaces the list it is merged into, so the note on the spent budget takes the place of the
  whole trace whose evidence it says is kept.
\<close>

lemma budget_stop_replaces_trace: "length (reasoning_trace (merged_snapshot s (budget_delta reason n))) = 1"
  by (simp add: reasoning_trace_def sub_field_def merged_snapshot_def budget_delta_def split: pyval.split)

lemma before_turn_stops:
  assumes "before_turn env st = (Some (Inr st'), st1)" and "keeps_pending (ae_validate env)"
  shows "is_loop_terminal (ls_snapshot st') \<or> steps_remaining (ls_snapshot st') \<le> 0"
proof -
  have "is_loop_terminal u" if "apply_snapshot_delta (ae_validate env) (ls_snapshot st) (budget_delta reason n) = Some u"
    for u reason n by (rule pending_after [OF that assms(2)]) blast
  with before_turn_stop [OF assms(1)] show ?thesis
    by (elim disjE exE conjE) (auto simp: terminal_require)
qed

text \<open>A field that the first stage owns stays as it was, turn for turn.\<close>

lemma observed_field:
  assumes "observe_policy_plan env s0 proposed = (plan, c, s)"
    and "f \<notin> {''decision_divergence_observation'', ''semantic_policy_plan_consistency''}"
  shows "dget f s = dget f s0"
  using assms by (auto simp: observe_policy_plan_def Let_def)

lemma settle_turn_keeps:
  assumes "settle_turn env s plan sub r st = Some st'" and "f \<in> set PROTECTED_SNAPSHOT_FIELDS"
    and "keeps_field (ae_validate env) f (dget f s)"
  shows "dget f (ls_snapshot st') = dget f s"
proof -
  from assms(1) obtain r' u where u: "apply_tool_result (ae_validate env) s plan (annotated plan s r') = Some u"
    "ls_snapshot st' = decrement_steps u"
    by (auto simp: settle_turn_def Let_def split: option.splits)
  with tool_result_keeps_protected [OF u(1) assms(2,3)] protected_names [OF assms(2)]
  show ?thesis by (simp add: decrement_steps_def)
qed

lemma before_turn_keeps:
  assumes "before_turn env st = (Some (Inr st'), st1)" and "f \<in> set PROTECTED_SNAPSHOT_FIELDS"
    and "keeps_field (ae_validate env) f (dget f (ls_snapshot st))"
  shows "dget f (ls_snapshot st') = dget f (ls_snapshot st)"
proof -
  note names = protected_names [OF assms(2)]
  have "f \<notin> fst ` set (budget_delta reason n)" "f \<notin> fst ` set pending_delta" for reason n
    using names by (simp_all add: budget_delta_def pending_delta_def)
  note other = apply_delta_other [OF _ assms(3) this(1)] apply_delta_other [OF _ assms(3) this(2)]
  show ?thesis
    using before_turn_stop [OF assms(1)] other names
    by (elim disjE exE conjE) (auto simp: dget_require_operator)
qed

lemma loop_keeps_brain1_field:
  assumes "agent_loop env st = Inr st'" and "f \<in> set BRAIN1_OWNED_SNAPSHOT_FIELDS"
    and "keeps_field (ae_validate env) f (dget f (ls_snapshot st))"
  shows "dget f (ls_snapshot st') = dget f (ls_snapshot st)"
proof -
  let ?v = "dget f (ls_snapshot st)"
  have protected: "f \<in> set PROTECTED_SNAPSHOT_FIELDS"
    using assms(2) by (simp only: PROTECTED_SNAPSHOT_FIELDS_def set_append Un_iff) simp
  have "list_all (\<lambda>f. f \<notin> {''decision_divergence_observation'', ''semantic_policy_plan_consistency''})
      BRAIN1_OWNED_SNAPSHOT_FIELDS" by code_simp
  then have runtime: "f \<notin> {''decision_divergence_observation'', ''semantic_policy_plan_consistency''}"
    using assms(2) unfolding list_all_iff by (rule bspec)
  show ?thesis
  proof (rule agent_loop_rule [OF assms(1), where I = "\<lambda>x. dget f (ls_snapshot x) = ?v"
        and Q = "\<lambda>x. dget f (ls_snapshot x) = ?v"])
    fix st0 st1 st2 :: "'a loop_state"
    assume kept: "dget f (ls_snapshot st0) = ?v"
    show "dget f (ls_snapshot st2) = ?v"
      if "before_turn env st0 = (None, st1)" and t: "agent_turn env st1 = Inr st2"
    proof -
      from t obtain s c plan sub r x where u: "settle_turn env s plan sub r x = Some st2"
        and o: "\<exists>proposed. observe_policy_plan env (ls_snapshot st1) proposed = (plan, c, s)"
        by (rule turn_settled)
      from o have "dget f s = dget f (ls_snapshot st1)" using observed_field [OF _ runtime] by blast
      with kept before_turn_go(1) [OF that(1)] have s: "dget f s = ?v" by simp
      with settle_turn_keeps [OF u protected] assms(3) show ?thesis by simp
    qed
    show "dget f (ls_snapshot st2) = ?v" if "before_turn env st0 = (Some (Inr st2), st1)"
      using before_turn_keeps [OF that protected] kept assms(3) by simp
  qed simp_all
qed

lemma loop_stops:
  assumes "agent_loop env st = Inr st'" and "keeps_pending (ae_validate env)"
  shows "is_loop_terminal (ls_snapshot st') \<or> steps_remaining (ls_snapshot st') \<le> 0"
  by (rule agent_loop_rule [OF assms(1), where I = "\<lambda>_. True"
        and Q = "\<lambda>x. is_loop_terminal (ls_snapshot x) \<or> steps_remaining (ls_snapshot x) \<le> 0"])
    (use before_turn_stops [OF _ assms(2)] in blast)+

lemma after_loop_fields:
  assumes "after_loop env st = Inr st'"
  shows "ls_turns st' = ls_turns st"
    and "ls_snapshot st' = ls_snapshot st \<and>
          (hitl_required (ls_snapshot st) \<or> is_loop_terminal (ls_snapshot st) \<or> 0 < steps_remaining (ls_snapshot st)) \<or>
        (\<exists>u. apply_snapshot_delta (ae_validate env) (ls_snapshot st) pending_delta = Some u \<and>
           ls_snapshot st' = require_operator ''budget_exhausted'' u)"
  using assms by (auto simp: after_loop_def stop_with_def split: if_splits option.splits)

lemma built_budget:
  "max_turns (build_planner_run_budget r p) = max 1 (if r \<noteq> 0 then r else 12)"
  "turns_used (build_planner_run_budget r p) = 0"
  unfolding build_planner_run_budget_def Let_def default_budget_def by simp_all

lemma initial_budget_bounds:
  "0 \<le> max_turns (initial_budget env s)" "turns_used (initial_budget env s) = 0"
  "max_turns (initial_budget env s) \<le> max 1 (steps_remaining s)"
  unfolding initial_budget_def Let_def by (simp_all add: built_budget max_def)

text \<open>
  Property C3.  A run of the agent loop that is not left by an exception ends with the operator in charge or with
  a terminal code in the snapshot, within eight turns and within the turns of its budget, where the turns of the
  budget are never more than the steps the snapshot had, if it had any.
\<close>

theorem run_stops_with_operator:
  assumes "agent_run env s turn_idx uses w = Inr st" and "keeps_pending (ae_validate env)"
  shows "is_loop_terminal (ls_snapshot st) \<and> length (ls_turns st) \<le> 8 \<and>
    (\<exists>current. ground_current_signal (ae_validate env) (ae_status_of env) s (ae_payload env) = Some current \<and>
       int (length (ls_turns st)) \<le> max_turns (initial_budget env current) \<and>
       max_turns (initial_budget env current) \<le> max 1 (steps_remaining current))"
proof -
  obtain current st0 where g: "ground_current_signal (ae_validate env) (ae_status_of env) s (ae_payload env) = Some current"
    and l: "agent_loop env (initial_state env current turn_idx uses w) = Inr st0" and a: "after_loop env st0 = Inr st"
    using assms(1) by (auto simp: agent_run_def split: option.splits sum.splits)
  let ?b = "initial_budget env current"
  have b: "0 \<le> max_turns ?b" "turns_used ?b = 0" "max_turns ?b \<le> max 1 (steps_remaining current)"
    by (rule initial_budget_bounds)+
  have "counted (max_turns ?b) (initial_state env current turn_idx uses w)"
    using b by (simp add: counted_def initial_state_def)
  note turns = agent_loop_counted [OF l this]
  have hitl: "is_loop_terminal x" if "hitl_required x" for x
    using that by (simp only: is_loop_terminal_def if_True)
  have "is_loop_terminal (ls_snapshot st)"
    using after_loop_fields(2) [OF a]
  proof (elim disjE exE conjE)
    assume "ls_snapshot st = ls_snapshot st0" "0 < steps_remaining (ls_snapshot st0)"
    with loop_stops [OF l assms(2)] show ?thesis by auto
  qed (simp_all add: hitl terminal_require)
  with turns b(3) after_loop_fields(1) [OF a] g show ?thesis by auto
qed

text \<open>
  What holds of a call when its handler runs: the planner was offered the tool, the specialist has it, every guard
  passed, and the caller is authorised; a draft is generated only when the first stage finished none, and the
  calculator runs only when no fact it rests on is disputed.
\<close>

definition calculator_disputed :: "pydict \<Rightarrow> bool" where
  "calculator_disputed payload \<longleftrightarrow> truthy (dget ''blocked'' (as_dict (dget ''call_kalk_top_quote''
     (as_dict (dget ''decision_fact_blocks'' (as_dict (dget ''decision_comparison_inputs'' payload)))))))"

definition call_is_cleared :: "'w agent_env \<Rightarrow> tool_call_plan \<Rightarrow> snapshot \<Rightarrow> bool" where
  "call_is_cleared env plan s \<longleftrightarrow>
     (let name = tp_tool_name plan in
      name \<in> set (ae_allowlist env) \<and> name \<notin> set FORBIDDEN_TOOL_NAMES \<and>
      name \<notin> set [''propose_mutation'', ''propose_plan''] \<and>
      name \<in> set (tools_for_sub_agent (select_sub_agent name s) (ae_allowlist env)) \<and>
      policy_enforcement_block (snapshot_envelope s)
        (Some (evaluate_semantic_policy_plan_consistency (snapshot_envelope s) plan)) (understanding_present s) plan
        (ae_payload env) (ae_ledger env) = None \<and>
      guard_untrusted_input_execution (text_of (dget ''case_id'' s)) (snapshot_envelope s) plan (ae_payload env) = None \<and>
      authz_block env plan = None \<and>
      guard_known_fact_reask (ae_cues env) name (tp_arguments plan) s = None \<and>
      duplicate_rag_research_result (ae_objective env) s plan = None \<and>
      (name = ''generate_draft_reply'' \<longrightarrow> upstream_draft_transport_from_signal (ae_payload env) = None) \<and>
      (name = ''call_kalk_top_quote'' \<longrightarrow> \<not> calculator_disputed (ae_payload env)))"

lemma offered_in_run:
  assumes "offer_tools env s completed = Some a" and "n \<in> set (offered a)"
  shows "n \<in> set (ae_allowlist env) \<and> n \<notin> set FORBIDDEN_TOOL_NAMES \<and> n \<notin> set [''propose_mutation'', ''propose_plan''] \<and>
    (n = ''call_kalk_top_quote'' \<longrightarrow> \<not> calculator_disputed (ae_payload env))"
proof -
  let ?ctx = "dget ''decision_comparison_inputs'' (ae_payload env)"
  obtain base kalk where off: "offered a = filter (\<lambda>n. snd (decide_tool (ae_settings env) True True (Some (view_of s)) kalk n) = None)
       (filter_planner_allowlist base (ae_allowlist env))"
    and kalk: "''call_kalk_top_quote'' \<in> set (filter_planner_allowlist base (ae_allowlist env)) \<Longrightarrow>
       kalk = decision_from_snapshot (view_of s) ?ctx \<and> kalk \<noteq> None"
    using compute_result [OF assms(1) [unfolded offer_tools_def Let_def]] by metis
  from assms(2) have n: "n \<in> set (filter_planner_allowlist base (ae_allowlist env))"
    "snd (decide_tool (ae_settings env) True True (Some (view_of s)) kalk n) = None" unfolding off by auto
  note clear = n(2) [unfolded decide_tool_clear_iff]
  then have frozen: "n \<notin> set [''propose_mutation'', ''propose_plan'']" by blast
  have "\<not> calculator_disputed (ae_payload env)" if nk: "n = ''call_kalk_top_quote''"
  proof -
    obtain d where d: "decision_from_snapshot (view_of s) ?ctx = Some d" "kalk = Some d"
      using kalk n(1) nk by auto
    have "kd_offered d" using clear nk d(2) by auto
    then show ?thesis using decision_from_snapshot_offered(1) [OF d(1)] unfolding calculator_disputed_def by blast
  qed
  with n(1) frozen show ?thesis unfolding filter_planner_allowlist_def by auto
qed

lemma observed_envelope:
  assumes "observe_policy_plan env s0 proposed = (plan, c, s)"
  shows "c = evaluate_semantic_policy_plan_consistency (snapshot_envelope s) plan"
proof -
  have "dget ''policy_action_envelope'' s = dget ''policy_action_envelope'' s0"
    by (rule observed_field [OF assms]) simp
  then have "snapshot_envelope s = snapshot_envelope s0" by (simp only: snapshot_envelope_def)
  with assms show ?thesis by (auto simp: observe_policy_plan_def Let_def)
qed

lemma verdict_execute:
  assumes "turn_verdict env a reask s c plan = Execute sub"
  shows "policy_enforcement_block (snapshot_envelope s) (Some c) (understanding_present s) plan (ae_payload env) (ae_ledger env) = None"
    and "guard_untrusted_input_execution (text_of (dget ''case_id'' s)) (snapshot_envelope s) plan (ae_payload env) = None"
    and "tp_tool_name plan \<in> set (offered a)" and "sub = select_sub_agent (tp_tool_name plan) s"
    and "guard_known_fact_reask (ae_cues env) (tp_tool_name plan) (tp_arguments plan) s = None"
    and "duplicate_rag_research_result (ae_objective env) s plan = None"
    and "tp_tool_name plan = ''generate_draft_reply'' \<Longrightarrow> upstream_draft_transport_from_signal (ae_payload env) = None"
proof -
  note v = assms [unfolded turn_verdict_def Let_def]
  show "policy_enforcement_block (snapshot_envelope s) (Some c) (understanding_present s) plan (ae_payload env) (ae_ledger env) = None"
    "guard_untrusted_input_execution (text_of (dget ''case_id'' s)) (snapshot_envelope s) plan (ae_payload env) = None"
    "tp_tool_name plan \<in> set (offered a)" "sub = select_sub_agent (tp_tool_name plan) s"
    "guard_known_fact_reask (ae_cues env) (tp_tool_name plan) (tp_arguments plan) s = None"
    "duplicate_rag_research_result (ae_objective env) s plan = None"
    using v by (simp_all split: option.splits if_splits prod.splits bool.splits)
  have up: "upstream_draft_transport_from_signal (ae_payload env) = None"
    if "resolve_generate_draft_reply (ae_digest env) (ae_patterns env) (ae_now env) (ae_payload env) = (None, True)"
    using that by (simp add: resolve_generate_draft_reply_def split: option.splits sum.splits)
  show "upstream_draft_transport_from_signal (ae_payload env) = None" if "tp_tool_name plan = ''generate_draft_reply''"
    by (rule up) (use v that in \<open>simp split: option.splits if_splits prod.splits bool.splits\<close>)
qed

lemma execute_world:
  assumes "execute_tool_with_timeout env sub plan s uses w = (r, uses', w')" and "P w"
    and "\<And>h. tp_tool_name plan \<in> set (tools_for_sub_agent sub (ae_allowlist env)) \<Longrightarrow> authz_block env plan = None \<Longrightarrow>
       ae_handlers env (strip (tp_tool_name plan)) = Some h \<Longrightarrow> P (snd (h plan s w))"
  shows "P w'"
proof -
  define out where "out = execute_tool env sub plan s uses w"
  have w': "w' = snd (snd out)"
    using assms(1) by (auto simp: execute_tool_with_timeout_def out_def split: prod.splits handler_outcome.splits)
  have reg: "snd (snd (registry_execute env plan s uses w)) \<in>
      {w} \<union> {snd (h plan s w) | h. ae_handlers env (strip (tp_tool_name plan)) = Some h}"
    unfolding registry_execute_def Let_def by (auto split: option.split prod.splits)
  show ?thesis
  proof (cases "tp_tool_name plan \<in> set (tools_for_sub_agent sub (ae_allowlist env)) \<and> authz_block env plan = None")
    case True
    then have "w' = snd (snd (registry_execute env plan s uses w))"
      unfolding w' out_def execute_tool_def by (auto split: prod.splits handler_outcome.splits)
    with reg assms(2,3) True show ?thesis by auto
  next
    case False
    then have "w' = w" unfolding w' out_def execute_tool_def by (auto split: option.splits)
    with assms(2) show ?thesis by simp
  qed
qed

definition world_of :: "'w + 'w loop_state \<Rightarrow> 'w" where
  "world_of r = (case r of Inl w \<Rightarrow> w | Inr st \<Rightarrow> ls_world st)"

text \<open>A property of the world that the planner keeps, and every handler on the calls that are cleared.\<close>

definition keeps_world :: "('w \<Rightarrow> bool) \<Rightarrow> 'w agent_env \<Rightarrow> bool" where
  "keeps_world P env \<longleftrightarrow>
     (\<forall>s tools w. P w \<longrightarrow> P (snd (ae_plan_next_tool env s tools w))) \<and>
     (\<forall>plan s h w. call_is_cleared env plan s \<and> ae_handlers env (strip (tp_tool_name plan)) = Some h \<and> P w \<longrightarrow>
        P (snd (h plan s w)))"

lemma settle_turn_world: "settle_turn env s plan sub r st = Some st' \<Longrightarrow> ls_world st' = ls_world st"
  by (auto simp: settle_turn_def Let_def split: option.splits)

lemma world_of_settled [simp]:
  "ls_world st = w \<Longrightarrow> world_of (of_settled w (settle_turn env s plan sub r st)) = w"
  by (auto simp: world_of_def of_settled_def dest: settle_turn_world split: option.split)

lemma agent_turn_world:
  assumes "P (ls_world st)"
    and keeps: "keeps_world P env"
  shows "P (world_of (agent_turn env st))"
proof (cases "offer_tools env (ls_snapshot st) (ls_completed st)")
  case None
  with assms(1) show ?thesis by (simp add: agent_turn_def world_of_def)
next
  case (Some a)
  obtain proposed w where pl: "ae_plan_next_tool env (ls_snapshot st) (offered a) (ls_world st) = (proposed, w)"
    by fastforce
  have "P (snd (ae_plan_next_tool env (ls_snapshot st) (offered a) (ls_world st)))"
    using keeps assms(1) unfolding keeps_world_def by blast
  with pl have Pw: "P w" by simp
  show ?thesis
  proof (cases proposed)
    case (Inl exc)
    with Some pl Pw show ?thesis by (simp add: agent_turn_def split: prod.splits)
  next
    case (Inr proposed')
    obtain plan c s where o: "observe_policy_plan env (ls_snapshot st) proposed' = (plan, c, s)"
      by (metis prod_cases3)
    show ?thesis
    proof (cases "turn_verdict env a (ls_reask_used st) s c plan")
      case (Execute sub)
      note v = verdict_execute [OF Execute]
      obtain r uses w' where e: "execute_tool_with_timeout env sub plan s (ls_uses st) w = (r, uses, w')"
        by (metis prod_cases3)
      have "P w'"
      proof (rule execute_world [where P = P, OF e Pw])
        fix h
        assume scoped: "tp_tool_name plan \<in> set (tools_for_sub_agent sub (ae_allowlist env))"
          and authz: "authz_block env plan = None" and h: "ae_handlers env (strip (tp_tool_name plan)) = Some h"
        have "call_is_cleared env plan s"
          unfolding call_is_cleared_def Let_def
          using v(1,2,5,6,7) offered_in_run [OF Some v(3)] scoped authz unfolding observed_envelope [OF o] v(4) by blast
        with keeps h Pw show "P (snd (h plan s w))" unfolding keeps_world_def by blast
      qed
      with Some pl Inr o Execute e show ?thesis
        by (cases r) (simp_all add: agent_turn_def world_of_def [of "Inl w'"])
    qed (use Some pl Inr o Pw in \<open>simp_all add: agent_turn_def\<close>)
  qed
qed

lemma agent_loop_world:
  assumes "P (ls_world st)"
    and keeps: "keeps_world P env"
  shows "P (world_of (agent_loop env st))"
  using assms
proof (induction env st rule: agent_loop.induct)
  case (1 env st)
  obtain r st1 where b: "before_turn env st = (r, st1)" by fastforce
  show ?case
  proof (cases r)
    case (Some a)
    have "world_of a = ls_world st"
      using b Some by (auto simp: before_turn_def world_of_def stop_with_def Let_def split: if_splits option.splits prod.splits)
    with b Some 1(2) show ?thesis by (simp add: agent_loop.simps)
  next
    case None
    have w: "P (world_of (agent_turn env st1))"
      by (rule agent_turn_world [OF _ 1(3)]) (use before_turn_go(1) b None 1(2) in auto)
    show ?thesis
    proof (cases "agent_turn env st1")
      case (Inl w')
      with b None w show ?thesis by (simp add: agent_loop.simps [of env st])
    next
      case (Inr st2)
      with w have P2: "P (ls_world st2)" by (simp add: world_of_def)
      have "P (world_of (agent_loop env st2))" if "\<not> is_loop_terminal (ls_snapshot st2)"
        by (rule 1(1) [OF b [symmetric] None Inr that P2 1(3)])
      with b None Inr w show ?thesis by (simp add: agent_loop.simps [of env st])
    qed
  qed
qed

lemma agent_run_world:
  assumes "P w" and "keeps_world P env"
  shows "P (world_of (agent_run env s turn_idx uses w))"
proof (cases "ground_current_signal (ae_validate env) (ae_status_of env) s (ae_payload env)")
  case None
  with assms(1) show ?thesis by (simp add: agent_run_def world_of_def)
next
  case (Some current)
  let ?r = "agent_loop env (initial_state env current turn_idx uses w)"
  have P: "P (world_of ?r)"
    by (rule agent_loop_world [OF _ assms(2)]) (simp_all add: initial_state_def assms(1))
  have "world_of (after_loop env st) = ls_world st" for st
    by (simp add: after_loop_def stop_with_def world_of_def split: option.split)
  with P Some show ?thesis by (cases ?r) (simp_all add: agent_run_def world_of_def)
qed

text \<open>
  Property C2.  No handler runs on a call that the guards did not clear.  Whatever the planner proposes, a property
  of the outside world that the planner keeps, and that every handler keeps on the calls that are cleared, holds
  after the run as it did before it, also when an exception leaves the run or a handler overran its time.  A cleared
  call names an allowed tool of the specialist that is neither forbidden nor a write proposal, and has passed the
  reference monitor, the guard on untrusted evidence, the guard on facts already known and the authorisation of the
  caller; it repeats no research, generates a draft only when the first stage finished none, and calls the
  calculator only when no fact it rests on is disputed.
\<close>

theorem only_cleared_calls_reach_tools:
  assumes "P w" and "keeps_world P env"
  shows "P (world_of (agent_run env s turn_idx uses w))"
  by (rule agent_run_world [where P = P, OF assms])

text \<open>
  Property C20.  From two conflicting facts in memory to the tool call: when two live facts of the case state the
  same proposition with values that differ, about a fact the price calculator requires, and the facts and conflicts
  split from memory are among those the context pack of the first stage is annotated with, then no run on the payload
  built from that pack calls the calculator: whatever the planner proposes, what the planner and all other tools
  leave unchanged in the outside world is unchanged after the run.
\<close>

theorem disputed_fact_withholds_calculator:
  assumes "split_conflicting_facts so digest facts = Some (active, conflicts)"
    and "r1 \<in> set (live_prepared digest facts)" "r2 \<in> set (live_prepared digest facts)"
    and "proposition_identity digest [] r1 = proposition_identity digest [] r2"
    and "keycol ''normalized_value'' r1 \<noteq> []" "keycol ''normalized_value'' r2 \<noteq> []"
      "casefold (keycol ''normalized_value'' r1) \<noteq> casefold (keycol ''normalized_value'' r2)"
    and "keycol ''fact_key'' r1 \<noteq> []"
    and "decision_key r1 \<in> set (action_required_fact_keys (PStr ''call_kalk_top_quote''))"
    and "set active \<subseteq> set rows" "set conflicts \<subseteq> set confs"
    and pack: "dget ''active_facts'' (as_dict (dget ''mailbox_memory_context_pack'' (as_dict intelligence))) =
      PList (map PDict (annotate_decision_fact_use (PList (map PDict rows)) (PList (map PDict confs))))"
    and inputs: "build_decision_comparison_inputs intelligence msg = Some inputs"
      "dget ''decision_comparison_inputs'' (ae_payload env) = PDict inputs"
    and names: "\<And>n. n \<in> set (ae_allowlist env) \<Longrightarrow> strip n = n"
    and P: "P w" "\<And>s tools w. P w \<Longrightarrow> P (snd (ae_plan_next_tool env s tools w))"
    and other: "\<And>n h plan s w. n \<noteq> ''call_kalk_top_quote'' \<Longrightarrow> ae_handlers env n = Some h \<Longrightarrow> P w \<Longrightarrow> P (snd (h plan s w))"
  shows "P (world_of (agent_run env s turn_idx uses w))"
proof (rule agent_run_world [where P = P and w = w, OF P(1)])
  have "cb_blocked (action_conflict_block (PStr ''call_kalk_top_quote'') (PList (map PDict
      (annotate_decision_fact_use (PList (map PDict rows)) (PList (map PDict confs))))))"
    by (rule disputed_fact_blocks [OF assms(1-11)])
  then have "dget ''blocked'' (as_dict (dget ''call_kalk_top_quote'' (as_dict (dget ''decision_fact_blocks'' inputs)))) = PBool True"
    unfolding calculator_block_of_inputs [OF inputs(1)] pack by simp
  then have disputed: "calculator_disputed (ae_payload env)"
    unfolding calculator_disputed_def inputs(2) as_dict.simps by (simp only: truthy.simps)
  have no: "strip (tp_tool_name plan) \<noteq> ''call_kalk_top_quote''" if "call_is_cleared env plan s" for plan s
  proof
    assume n: "strip (tp_tool_name plan) = ''call_kalk_top_quote''"
    have c: "tp_tool_name plan \<in> set (ae_allowlist env)"
      "tp_tool_name plan = ''call_kalk_top_quote'' \<longrightarrow> \<not> calculator_disputed (ae_payload env)"
      using that unfolding call_is_cleared_def Let_def by blast+
    from names [OF c(1)] n have "tp_tool_name plan = ''call_kalk_top_quote''" by (simp only:)
    with c(2) disputed show False by blast
  qed
  show "keeps_world P env"
    unfolding keeps_world_def
  proof (intro conjI allI impI)
    fix s tools w assume "P w" then show "P (snd (ae_plan_next_tool env s tools w))" by (rule P(2))
  next
    fix plan s h w
    assume "call_is_cleared env plan s \<and> ae_handlers env (strip (tp_tool_name plan)) = Some h \<and> P w"
    then show "P (snd (h plan s w))" using other [OF no] by (elim conjE)
  qed
qed

text \<open>
  Property C8.  During a run no tool changes what the first stage decided: the understanding of the case, its
  provenance and status and the policy envelope are after the run what they were when the current signal was
  grounded, so every call of the run is judged by the same envelope.
\<close>

theorem run_keeps_brain1_fields:
  assumes "agent_run env s turn_idx uses w = Inr st"
    and "ground_current_signal (ae_validate env) (ae_status_of env) s (ae_payload env) = Some current"
    and "\<And>f. f \<in> set BRAIN1_OWNED_SNAPSHOT_FIELDS \<Longrightarrow> keeps_field (ae_validate env) f (dget f current)"
  shows "(\<forall>f \<in> set BRAIN1_OWNED_SNAPSHOT_FIELDS. dget f (ls_snapshot st) = dget f current) \<and>
     snapshot_envelope (ls_snapshot st) = snapshot_envelope current"
proof -
  obtain st0 where l: "agent_loop env (initial_state env current turn_idx uses w) = Inr st0" and a: "after_loop env st0 = Inr st"
    using assms(1,2) by (auto simp: agent_run_def split: option.splits sum.splits)
  have field: "dget f (ls_snapshot st) = dget f current" if f: "f \<in> set BRAIN1_OWNED_SNAPSHOT_FIELDS" for f
  proof -
    have protected: "f \<in> set PROTECTED_SNAPSHOT_FIELDS"
      using f by (simp only: PROTECTED_SNAPSHOT_FIELDS_def set_append Un_iff) simp
    note names = protected_names [OF protected]
    have loop: "dget f (ls_snapshot st0) = dget f current"
      using loop_keeps_brain1_field [OF l f] assms(3) [OF f] by (simp add: initial_state_def)
    have "f \<notin> fst ` set pending_delta" using names by (simp add: pending_delta_def)
    note other = apply_delta_other [OF _ _ this]
    show ?thesis
      using after_loop_fields(2) [OF a] other [of "ae_validate env" "ls_snapshot st0"] names assms(3) [OF f] loop
      by (elim disjE exE conjE) (auto simp: dget_require_operator)
  qed
  have "''policy_action_envelope'' \<in> set BRAIN1_OWNED_SNAPSHOT_FIELDS"
    by (simp add: BRAIN1_OWNED_SNAPSHOT_FIELDS_def)
  with field have "snapshot_envelope (ls_snapshot st) = snapshot_envelope current"
    by (simp only: snapshot_envelope_def)
  with field show ?thesis by blast
qed

text \<open>A run at a concrete input: a planner that always searches the thread, and a handler that counts its calls.\<close>

definition sample_handler :: "nat handler" where
  "sample_handler plan s w = (Returned (tool_result_of ''ok'' ''found'' []), Suc w)"

definition sample_env :: "nat agent_env" where
  "sample_env = \<lparr>ae_validate = Some, ae_status_of = (\<lambda>d. None),
     ae_plan_next_tool = (\<lambda>s tools w. (Inr (plan_for ''search_gmail_thread'' []), w)), ae_planner_tokens = (\<lambda>w. 0),
     ae_handlers = (\<lambda>n. if n = ''search_gmail_thread'' then Some sample_handler else None),
     ae_cues = (\<lambda>key t. False), ae_patterns = sample_patterns, ae_digest = length_digest, ae_now = ''now'',
     ae_objective = (\<lambda>q. q), ae_payload = [], ae_ledger = None, ae_settings = None, ae_max_rounds = 4,
     ae_allowlist = [''search_gmail_thread''], ae_tool_budget = [], ae_operator_scope = [], ae_checkpoints = False\<rparr>"

definition sample_snapshot :: snapshot where
  "sample_snapshot = [(''case_id'', PStr ''c1''), (''operational_status'', PDict [(''steps_remaining'', PInt 2)])]"

theorem run_stops_with_operator_witness:
  "\<exists>st. agent_run sample_env sample_snapshot 0 [] 0 = Inr st \<and> map at_tool_status (ls_turns st) = [''ok'', ''error''] \<and>
     ls_world st = 1 \<and> is_loop_terminal (ls_snapshot st)"
proof -
  have "(case agent_run sample_env sample_snapshot 0 [] 0 of Inl w \<Rightarrow> None
      | Inr st \<Rightarrow> Some (map at_tool_status (ls_turns st), ls_world st)) = Some ([''ok'', ''error''], 1)"
    by code_simp
  then obtain st where r: "agent_run sample_env sample_snapshot 0 [] 0 = Inr st"
    and t: "map at_tool_status (ls_turns st) = [''ok'', ''error'']" "ls_world st = 1"
    by (auto split: sum.splits)
  have k: "keeps_pending (ae_validate sample_env)" by (simp add: keeps_pending_def sample_env_def)
  have "is_loop_terminal (ls_snapshot st)" by (rule run_stops_with_operator [OF r k, THEN conjunct1])
  with r t show ?thesis by (intro exI [of _ st] conjI)
qed

text \<open>A planner that proposes to send, and a handler that would.\<close>

definition sending_env :: "nat agent_env" where
  "sending_env = sample_env\<lparr>ae_allowlist := [''search_gmail_thread'', ''send_email''],
     ae_plan_next_tool := (\<lambda>s tools w. (Inr (plan_for ''send_email'' []), w)),
     ae_handlers := (\<lambda>n. if n = ''send_email'' then Some sample_handler else None)\<rparr>"

theorem only_cleared_calls_reach_tools_witness:
  "world_of (agent_run sending_env sample_snapshot 0 [] 0) = 0"
proof (rule only_cleared_calls_reach_tools [where P = "\<lambda>w. w = 0"])
  have no: "\<not> call_is_cleared sending_env plan s" if h: "ae_handlers sending_env (strip (tp_tool_name plan)) = Some h" for plan s h
  proof
    assume "call_is_cleared sending_env plan s"
    then have n: "tp_tool_name plan \<in> set (ae_allowlist sending_env)" "tp_tool_name plan \<notin> set FORBIDDEN_TOOL_NAMES"
      unfolding call_is_cleared_def Let_def by blast+
    have sent: "strip (tp_tool_name plan) = ''send_email''"
      using h by (simp add: sending_env_def split: if_splits)
    have "list_all (\<lambda>m. strip m = m) (ae_allowlist sending_env)" by code_simp
    with n(1) have "strip (tp_tool_name plan) = tp_tool_name plan" unfolding list_all_iff by (rule bspec [rotated])
    from trans [OF this [symmetric] sent] have "tp_tool_name plan = ''send_email''" .
    moreover have "''send_email'' \<in> set FORBIDDEN_TOOL_NAMES" by code_simp
    ultimately show False using n(2) by (simp only: not_True_eq_False)
  qed
  show "keeps_world (\<lambda>w. w = 0) sending_env"
    unfolding keeps_world_def using no by (auto simp: sending_env_def)
qed simp

text \<open>A handler that writes the understanding of the case.\<close>

definition writing_env :: "nat agent_env" where
  "writing_env = sample_env\<lparr>ae_payload := [(''case_understanding_projection'', PDict [(''summary'', PStr ''quote'')])],
     ae_handlers := (\<lambda>n. Some (\<lambda>plan s w.
       (Returned (tool_result_of ''ok'' ''found'' [(''case_understanding'', PStr ''forged'')]), Suc w)))\<rparr>"

theorem run_keeps_brain1_fields_witness:
  "\<exists>st. agent_run writing_env sample_snapshot 0 [] 0 = Inr st \<and> ls_world st = 1 \<and>
     dget ''case_understanding'' (ls_snapshot st) = PDict [(''summary'', PStr ''quote'')]"
proof -
  have "(case agent_run writing_env sample_snapshot 0 [] 0 of Inl w \<Rightarrow> None | Inr st \<Rightarrow> Some (ls_world st)) = Some 1"
    by code_simp
  then obtain st where r: "agent_run writing_env sample_snapshot 0 [] 0 = Inr st" "ls_world st = 1"
    by (auto split: sum.splits)
  have "(case ground_current_signal (ae_validate writing_env) (ae_status_of writing_env) sample_snapshot (ae_payload writing_env) of
      None \<Rightarrow> PNone | Some s \<Rightarrow> dget ''case_understanding'' s) = PDict [(''summary'', PStr ''quote'')]" by code_simp
  then obtain current where c: "ground_current_signal (ae_validate writing_env) (ae_status_of writing_env) sample_snapshot
      (ae_payload writing_env) = Some current" "dget ''case_understanding'' current = PDict [(''summary'', PStr ''quote'')]"
    by (auto split: option.splits)
  have k: "keeps_field (ae_validate writing_env) f v" for f v
    by (simp add: keeps_field_def writing_env_def sample_env_def)
  have "''case_understanding'' \<in> set BRAIN1_OWNED_SNAPSHOT_FIELDS" by code_simp
  with run_keeps_brain1_fields [OF r(1) c(1) k, THEN conjunct1]
  have "dget ''case_understanding'' (ls_snapshot st) = dget ''case_understanding'' current" by (rule bspec)
  from r this [unfolded c(2)] show ?thesis by (intro exI [of _ st] conjI)
qed

text \<open>A planner that insists on the calculator, whose handler counts its calls, on a payload with two heated areas.\<close>

definition disputed_intelligence :: pyval where
  "disputed_intelligence = PDict [(''understanding_output'', PDict [(''source_signal_id'', PStr ''m1'')]),
     (''mailbox_memory_context_pack'', PDict [(''active_facts'', PList (map PDict (annotate_decision_fact_use
        (PList (map PDict (fst (the area_split)))) (PList (map PDict (snd (the area_split)))))))])]"

definition pricing_env :: "nat agent_env" where
  "pricing_env = sample_env\<lparr>ae_allowlist := [''call_kalk_top_quote''],
     ae_payload := [(''decision_comparison_inputs'',
       PDict (the (build_decision_comparison_inputs disputed_intelligence ''m1'')))],
     ae_plan_next_tool := (\<lambda>s tools w. (Inr (plan_for ''call_kalk_top_quote'' []), w)),
     ae_handlers := (\<lambda>n. if n = ''call_kalk_top_quote'' then Some sample_handler else None)\<rparr>"

theorem disputed_fact_withholds_calculator_witness:
  "world_of (agent_run pricing_env sample_snapshot 0 [] 0) = 0"
proof (rule disputed_fact_withholds_calculator [where P = "\<lambda>w. w = 0", OF area_split_eq])
  have "length (live_prepared plain_text area_facts) = 2" by code_simp
  then show "area_row 0 \<in> set (live_prepared plain_text area_facts)" "area_row 1 \<in> set (live_prepared plain_text area_facts)"
    by (simp_all add: area_row_def)
  show "proposition_identity plain_text [] (area_row 0) = proposition_identity plain_text [] (area_row 1)" by code_simp
  show "keycol ''normalized_value'' (area_row 0) \<noteq> []" "keycol ''normalized_value'' (area_row 1) \<noteq> []" by code_simp+
  show "casefold (keycol ''normalized_value'' (area_row 0)) \<noteq> casefold (keycol ''normalized_value'' (area_row 1))" by code_simp
  show "keycol ''fact_key'' (area_row 0) \<noteq> []" by code_simp
  show "decision_key (area_row 0) \<in> set (action_required_fact_keys (PStr ''call_kalk_top_quote''))" by code_simp
  show "dget ''active_facts'' (as_dict (dget ''mailbox_memory_context_pack'' (as_dict disputed_intelligence))) =
      PList (map PDict (annotate_decision_fact_use (PList (map PDict (fst (the area_split))))
        (PList (map PDict (snd (the area_split))))))"
    by (simp add: disputed_intelligence_def dget_def)
  have "build_decision_comparison_inputs disputed_intelligence ''m1'' \<noteq> None" by code_simp
  then show "build_decision_comparison_inputs disputed_intelligence ''m1'' =
      Some (the (build_decision_comparison_inputs disputed_intelligence ''m1''))" by simp
  show "dget ''decision_comparison_inputs'' (ae_payload pricing_env) =
      PDict (the (build_decision_comparison_inputs disputed_intelligence ''m1''))"
    by (simp add: pricing_env_def dget_def)
  show "strip n = n" if "n \<in> set (ae_allowlist pricing_env)" for n
  proof -
    have "strip ''call_kalk_top_quote'' = ''call_kalk_top_quote''" by code_simp
    with that show ?thesis by (simp add: pricing_env_def)
  qed
  show "snd (ae_plan_next_tool pricing_env s tools w) = 0" if "w = 0" for s tools w
    using that by (simp add: pricing_env_def)
  show "snd (h plan s w) = 0" if "n \<noteq> ''call_kalk_top_quote''" "ae_handlers pricing_env n = Some h" "w = 0" for n h plan s w
    using that by (simp add: pricing_env_def)
qed simp_all

end
