(* ===== verification/Spec2Isabelle.thy ===== *)
theory Spec2Isabelle
  imports Case_Lifecycle Circuit_Breaker Planner_Budget Llm_Router Write_Boundary Intake_Policy Authz
    Evidence_Authority Effective_Tools Supervised_Execution Event_Spine Fact_Conflicts
    Agent_Loop
begin

text \<open>
  Verification development of the decision core of the Gmail agent
  (\<open>src/tools/gmail_audit\<close>): the part of the program that decides what may be done with a mail,
  by whom, and records what was decided.

  \<^bold>\<open>The program.\<close>  Mails and documents arrive as signals and are kept, with everything derived from
  them, in a mailbox store.  A language model reads them; which provider answers, how long it may
  take and how often it may be asked is governed by a router, stage deadlines, circuit breakers and a
  run budget.  What the model proposes becomes a canonical decision with a frozen meaning and a
  version; later changes of mind are revisions, kept in a ledger over a durable store.  A policy
  engine evaluates every proposed action; its report closes or opens the gates behind it and yields
  proposals for the operator.  The agent loop then plans one tool call after the other: what the
  first stage decided reaches it as a policy envelope, a reference monitor and a guard on untrusted
  evidence stand between the planner and the tools, and a run stops with the operator.  Owners
  approve, reject and execute proposals; an outgoing write is checked once more, against the approved
  version, at the write boundary.  Events of all this are processed by the event spine.

  \<^bold>\<open>Theories.\<close>  In the order in which they build on each other (sources under
  \<open>src/tools/gmail_audit\<close>):

  \<^item> \<open>Prelude\<close>: the Python fragment shared by all modules: text, JSON values, conversions, results that
    may raise, lists and association lists.
  \<^item> \<open>Case_Lifecycle\<close> (\<open>llm_contracts/case_lifecycle.py\<close>, \<open>stagnation_sot.py\<close>): states and transitions
    of a case, the status dialects, waiting versus stagnation.  Locales for absorbing states and for
    states with a single entry, interpreted on the transition table.
  \<^item> \<open>Circuit_Breaker\<close>, \<open>Planner_Budget\<close>, \<open>Llm_Deadline\<close>, \<open>Llm_Router\<close> (\<open>agent_runtime/circuit_breaker.py\<close>,
    \<open>agent_runtime/planner_run_budget.py\<close>, \<open>llm_deadline.py\<close>, \<open>llm_provider_router.py\<close>): the limits on
    model calls.  The locale \<open>time_window\<close> is interpreted on stages and on provider slices.
  \<^item> \<open>Cad\<close> (\<open>canonical_action_decision.py\<close>): proposals, canonicalization, canonical JSON, semantic hash,
    versions.
  \<^item> \<open>Decision_Store\<close>, \<open>Mailbox_Store\<close> (\<open>mailbox_memory/inmemory.py\<close>): the store.  Locales:
    \<open>revision_store\<close> (what the ledger needs of the revision tables), \<open>row_table\<close> (the last write of a
    key wins) and \<open>append_once\<close> (the first one does), each interpreted on the tables.
  \<^item> \<open>Fact_Rows\<close>, \<open>Fact_Memory\<close>, \<open>Fact_Upkeep\<close> (\<open>mailbox_memory/facts.py\<close>,
    \<open>mailbox_memory/inmemory.py\<close>): what a fact row is about, the fact table and its upkeep.
    \<open>Fact_Conflicts\<close> (\<open>mailbox_memory/active_facts.py\<close>, \<open>split_conflicting_facts\<close> of
    \<open>mailbox_memory_runtime.py\<close>): disputed facts and the actions they block.
  \<^item> \<open>Revision_Ledger\<close> (\<open>canonical_action_decision.py\<close>): the ledger, its evaluation of revision requests
    and its restart from the store.
  \<^item> \<open>Argument_Constraints\<close>, \<open>Write_Boundary\<close> (\<open>agent_runtime/tool_argument_constraints.py\<close>,
    \<open>agent_runtime/write_argument_binding.py\<close>): constraints on tool arguments and the check of a write.
  \<^item> \<open>Policy_Engine\<close>, \<open>Policy_Gates\<close>, \<open>Action_Proposals\<close>, \<open>Intake_Policy\<close> (\<open>policy_engine.py\<close>,
    \<open>policy_decision.py\<close>, \<open>automation_gates.py\<close>, \<open>daszek_push_policy.py\<close>, \<open>action_proposal_v2.py\<close>,
    \<open>policy_action_proposal.py\<close>): rules, report, gates, proposals and the intake stage that chains them.
  \<^item> \<open>Supervised_Execution\<close> (\<open>permissions.py\<close>, \<open>execution_runtime.py\<close>): proposals from creation to
    execution over the mailbox store.
  \<^item> \<open>Authz\<close>, \<open>Evidence_Authority\<close>, \<open>Effective_Tools\<close> (\<open>agent_runtime/authz.py\<close>, \<open>evidence_authority.py\<close>,
    \<open>agent_runtime/effective_tools.py\<close>, \<open>agent_runtime/kalk_eligibility.py\<close>,
    \<open>agent_runtime/policy_guardrails.py\<close>): who may call, whose text may instruct, which tools are offered.
  \<^item> \<open>Tool_Contract\<close> (\<open>agent_runtime/tool_result.py\<close>, \<open>failure_taxonomy.py\<close>, \<open>envelope_presence.py\<close>, the
    envelope of \<open>llm_contracts/engagement_snapshot_v2.py\<close>): what planner, guards and tools exchange.
  \<^item> \<open>Untrusted_Boundary\<close> (\<open>agent_runtime/untrusted_input_boundary.py\<close>): what an inbound mail may not decide.
  \<^item> \<open>Reference_Monitor\<close> (\<open>agent_runtime/policy_action_spine.py\<close>, \<open>_policy_enforcement_block\<close> of
    \<open>agent_runtime/graph.py\<close>): the records of the first stage in the store, the envelope projected from
    them, and the check of a plan against it and against the ledger.
  \<^item> \<open>Known_Facts\<close>, \<open>Draft_Lineage\<close> (\<open>agent_runtime/known_fact_guard.py\<close>,
    \<open>agent_runtime/decision_divergence.py\<close>, \<open>agent_runtime/draft_identity.py\<close>, \<open>agent_runtime/draft_sanity.py\<close>,
    \<open>agent_runtime/draft_lineage_provenance.py\<close>, \<open>agent_runtime/draft_lineage_transport.py\<close>): what is observed of
    a plan beside policy, and how a finished draft of the first stage reaches the operator.
  \<^item> \<open>Agent_Snapshot\<close>, \<open>Agent_Loop\<close> (\<open>agent_runtime/graph.py\<close>, \<open>snapshot_delta.py\<close>, \<open>sub_agents.py\<close>,
    \<open>tools_registry.py\<close>, \<open>tool_context.py\<close>, \<open>tool_budgets.py\<close>, the budgets of the constitutions): the snapshot,
    its deltas and protected fields, the grounding in the current signal, and the loop of a run, as a
    function of its state and of an outside world that planner and handlers act on.
  \<^item> \<open>Event_Spine\<close> (\<open>event_spine\<close>): event table, handlers, processor.  The locale \<open>event_handler\<close> is
    interpreted on the registry the program builds.
  \<^item> This theory: properties across components.

  \<^bold>\<open>What the lemmas show.\<close>  Of each state machine (lifecycle, breaker, ledger, execution loop, event
  table) an invariant over all reachable states, proved by rule induction over a step relation with
  one rule per operation; for the execution loop also over its histories of calls, in which an
  execution traces back to the call of an owner or to a proposal stored as approved; of each gate the
  conditions under which it opens, under the hypotheses its text names; of the policy engine which rule
  raises and what the report aggregates; of the ledger that
  a restart recovers it and that an acceptance makes approvals of the superseded version void at the
  write boundary (below) and current envelopes of it void for the monitor; of the agent loop that no handler
  runs on a call that was not cleared, that a disputed fact withholds the calculator, that a run stops with
  the operator within its budget and that no tool changes what the first stage decided; of a draft
  recommended by the first stage that it is transferred and not generated anew; of the fact memory that a
  statement supersedes older ones only where it may,
  that nothing stored is lost and that what stays disputed blocks the actions resting on it; of
  stores, proposals and events that what is written is read back; of the
  loops that they stay within their bounds and when they end.

  \<^bold>\<open>Where the code does less than it says.\<close>  Lemmas beside the definition they concern show it: a stale
  envelope, or a plan of foreign parents, is observed and not refused (\<open>Reference_Monitor\<close>); a write is
  held to the fields it states (\<open>Write_Boundary\<close>); a lineage whose versions do not ascend boots
  (\<open>Revision_Ledger\<close>); a proposal may be created as approved (\<open>Supervised_Execution\<close>); a verdict of the
  agent's own making authorises an offer (\<open>Policy_Engine\<close>); the understanding of an older mail may survive
  the grounding in a newer one (\<open>Agent_Snapshot\<close>); reconciling the facts of a case keeps one row per
  subject and key, not per scope and key (\<open>Fact_Upkeep\<close>).

  \<^bold>\<open>Choices.\<close>  A Python \<open>str\<close> is a string over U+0000 to U+00FF; operator-facing sentences outside that
  range are constructors, or stand without the diacritics.  A finite float is the rational its text denotes, \<open>pyfloat\<close> adds infinities
  and NaN where a module lets them in.  Untyped dictionaries are association lists in insertion order,
  typed ones are records.  An exception is the left value of a sum (or \<open>None\<close>), with the state at the
  time it was raised.  Every operation under a lock is one step; other threads and processes act
  between steps.  Clock readings, fresh identifiers, digests (SHA-1, SHA-256), the environment,
  \<open>datetime.fromisoformat\<close> and the order in which a Python set is enumerated are arguments; what a
  property needs of them is among its hypotheses.  The arguments of an agent run are fields of
  \<open>agent_env\<close>: the planner, the tool handlers (which may return, raise or overrun), the validation of a
  snapshot, and the text analyses named below.  There is no fuel: loops are structural recursions,
  functions with a termination proof (the agent loop by the calls left of eight), or, for the polling loop that may run forever, a partial
  function whose termination is characterised.

  \<^bold>\<open>Not modelled.\<close>  Of the agent loop the journal, checkpoints, metrics, the publication of events and the
  semaphore; the regular expressions over Polish text (cues of known facts, patterns of the draft gate),
  the normalisation of research queries and the check of epistemic claims in a draft are arguments.
  \<open>gmail_intake.py\<close>, the rest of \<open>mailbox_memory_runtime.py\<close>, \<open>drive_ingest_runtime.py\<close>,
  \<open>groq_client.py\<close> and \<open>api_app.py\<close> orchestrate Gmail, Drive, model and HTTP calls; their decisions are
  delegated to the modules above.  \<open>mailbox_memory/postgres.py\<close> and the Postgres side of the event
  spine are SQL for an external database, of which the in-memory stores are the reference.  The desk
  feed and the signal reconciler are projections and matching over stored rows, built on the texts of
  the desk.  Logging, prompts, fixtures and deployment hold no decisions.
\<close>

section \<open>Properties across components\<close>

lemma norm_text_norm_of: "norm_of v \<noteq> [] \<Longrightarrow> norm_text v = norm_of v"
  by (auto simp: norm_text_def norm_of_def text_of_def py_or_def split: if_splits)

lemma stale_reason_code:
  assumes "revision_violations led (approved_write_reference sn aid) =
      [boundary_violation ref n m ''STALE_DECISION_REVISION'' e p]"
  shows "''STALE_DECISION_REVISION'' \<in>
      set (wv_reason_codes (evaluate_write_execution_binding sn aid proposed target led hash))"
proof -
  obtain merged thread where m: "merge_target (case proposed of None \<Rightarrow> [] | Some q \<Rightarrow> q) target = (merged, thread)"
    by fastforce
  have s: "strip ''STALE_DECISION_REVISION'' = ''STALE_DECISION_REVISION''" by code_simp
  have code: "vi_reason_code (boundary_violation ref n m ''STALE_DECISION_REVISION'' e p) =
      ''STALE_DECISION_REVISION''" by (simp add: boundary_violation_def)
  have keys: "x \<in> set (dedup_key id [] xs) \<longleftrightarrow> x \<in> set xs" for x :: string and xs
    using dedup_key_keys [of id "[]" xs] by simp
  show ?thesis
    unfolding evaluate_write_execution_binding_def Let_def m prod.case write_verdict.simps assms keys
    by (simp add: code s)
qed

text \<open>
  Property C1.  A revision overtakes every approval that is still on its way: once a reachable
  ledger has accepted a revision of its current decision, the write boundary, asked with the ledger
  as it is then, denies every artifact whose approval is bound to the version that was current
  before, whatever fields, target and preview it comes with, and says that the revision is stale.
\<close>

theorem superseded_approval_is_denied:
  assumes "reachable L" and "current_cad i L = Some old" and "rid request \<noteq> []"
    and "evaluate_decision_revision sha256 u1 u2 now (PDict request) (PDict old) br cs L = (Inr oc, M)"
    and "ro_accepted oc"
    and bound: "rf_decision_id (approved_write_reference sn aid) = did old"
      "rf_decision_version_id (approved_write_reference sn aid) = ver old"
  shows "\<not> wv_pass (evaluate_write_execution_binding sn aid proposed target (Some M) hash) \<and>
     ''STALE_DECISION_REVISION'' \<in>
       set (wv_reason_codes (evaluate_write_execution_binding sn aid proposed target (Some M) hash))"
proof -
  let ?ref = "approved_write_reference sn aid"
  obtain new where new: "current_cad i M = Some new" "ver new \<noteq> ver old" "ver new \<noteq> []"
    using accepted_supersedes(1) [OF assms(1-5)] by blast
  have did: "did old = strip i" by (rule accepted_supersedes(2) [OF assms(1-5)])
  have "current_cad (did old) M = Some new" using new(1) by (simp add: did current_cad_def)
  moreover have "canonical_row old"
    using current_row_canonical [OF assms(1,2)] .
  then have "did old \<noteq> []" "ver old \<noteq> []" by (simp_all add: canonical_row_def wf_row_def)
  ultimately have "revision_violations (Some M) ?ref =
      [boundary_violation ?ref ''decision_version_id'' EXACT ''STALE_DECISION_REVISION'' (ver new) (ver old)]"
    using new bound by (simp add: revision_violations_def norm_text_norm_of viol_if_def)
  from stale_reason_code [OF this]
  have code: "''STALE_DECISION_REVISION'' \<in>
      set (wv_reason_codes (evaluate_write_execution_binding sn aid proposed target (Some M) hash))" .
  then have "wv_reason_codes (evaluate_write_execution_binding sn aid proposed target (Some M) hash) \<noteq> []"
    by auto
  moreover have "wv_pass (evaluate_write_execution_binding sn aid proposed target (Some M) hash) \<longleftrightarrow>
      wv_reason_codes (evaluate_write_execution_binding sn aid proposed target (Some M) hash) = []"
    by (simp add: evaluate_write_execution_binding_def Let_def split: prod.split)
  ultimately show ?thesis using code by blast
qed

definition sample_approval :: w_snapshot where
  "sample_approval = \<lparr>ws_case_id = ''case-1'',
     ws_actions = [\<lparr>wa_id = ''a1'', wa_enabled = True, wa_draft_id = ''dr'', wa_body_hash = ''bh'', wa_revision = 1,
       wa_decision_version_id = ver sample_cad, wa_source_semantic_hash = ''sh''\<rparr>],
     ws_hitl_required = False,
     ws_receipt = Some \<lparr>wr_state = ''ready_for_manual_send'', wr_target_email = ''jan.k@firma.pl'',
       wr_thread_id = ''th'', wr_draft_id = ''dr'', wr_body_hash = ''bh''\<rparr>,
     ws_envelope = Some \<lparr>we_canonical_decision_id = ''dec_1'', we_decision_version_id = [],
       we_source_semantic_hash = ''sh''\<rparr>\<rparr>"

lemma sample_approval_bound:
  "rf_decision_id (approved_write_reference (Some sample_approval) ''a1'') = did sample_cad"
  "rf_decision_version_id (approved_write_reference (Some sample_approval) ''a1'') = ver sample_cad"
proof -
  have "strip ''dec_1'' = ''dec_1''" by code_simp
  then show "rf_decision_id (approved_write_reference (Some sample_approval) ''a1'') = did sample_cad"
    by (simp add: approved_write_reference_def sample_approval_def field_of_def sample_did Let_def)
  have "ver sample_cad \<noteq> []"
    using current_row_canonical [OF sample_reachable sample_current(1)] by (simp add: canonical_row_def wf_row_def)
  then show "rf_decision_version_id (approved_write_reference (Some sample_approval) ''a1'') = ver sample_cad"
    by (simp add: approved_write_reference_def sample_approval_def field_of_def find_approved_action_def
        str_or_def Let_def)
qed

theorem superseded_approval_is_denied_witness:
  "\<not> wv_pass (evaluate_write_execution_binding (Some sample_approval) ''a1'' None PNone
       (Some (snd sample_evaluation)) None)"
proof -
  obtain oc where oc: "fst sample_evaluation = Inr oc" "ro_accepted oc"
    using sample_evaluation_accepts by (auto split: sum.splits)
  then have ev: "evaluate_decision_revision sample_digest ''u1'' ''u2'' ''t2'' (PDict sample_request)
      (PDict sample_cad) sample_br sample_canon_state sample_ledger = (Inr oc, snd sample_evaluation)"
    unfolding sample_evaluation_def by (metis prod.collapse)
  show ?thesis
    using superseded_approval_is_denied [OF sample_reachable sample_current(1) sample_request_facts(1) ev oc(2)
        sample_approval_bound] by blast
qed

end
